(* ===== verification/Go_Prelude.thy ===== *)
theory Go_Prelude
  imports Main "HOL-Library.AList"
begin

text \<open>
  Shared vocabulary of the development: Go errors with their sentinel chain, results, the
  functions of package \<^verbatim>\<open>strings\<close>, \<^verbatim>\<open>strconv\<close> and \<^verbatim>\<open>encoding/hex\<close> the repository calls, and
  the association lists that stand for Go maps.

  A Go string is a sequence of bytes, so it is a \<^typ>\<open>string\<close> (a list of 8-bit characters) and
  every function below works on bytes; multi-byte runes are their UTF-8 sequences. A Go map
  over which the code ranges is an association list: the list order is the iteration order,
  which Go leaves open, so a theorem about every list is a theorem about every iteration order.
\<close>

named_theorems go_defs \<open>definitions of small operations, unfolded together\<close>

section \<open>Errors and results\<close>

text \<open>
  The sentinels are the package-level error values the code tests with \<^verbatim>\<open>errors.Is\<close> or \<open>==\<close>.
  An error carries its message (\<^verbatim>\<open>Error()\<close>) and the sentinels on its \<^verbatim>\<open>%w\<close> chain.
\<close>

datatype sentinel = ContextCanceled | ContextDeadlineExceeded | ErrNoMessage
  | ErrTaskStateNotFound | ErrTransitionFailed | ErrNodeNotFound | SqlErrNoRows

datatype go_error = GoError (err_msg: string) (err_chain: "sentinel list")

type_synonym 'a res = "go_error + 'a"

definition errorf :: "string \<Rightarrow> go_error" where
  "errorf msg = GoError msg []"

text \<open>\<^verbatim>\<open>fmt.Errorf("...%w", err)\<close>\<close>

definition wrap_error :: "string \<Rightarrow> go_error \<Rightarrow> go_error" where
  "wrap_error prefix e = GoError (prefix @ err_msg e) (err_chain e)"

definition err_is :: "go_error \<Rightarrow> sentinel \<Rightarrow> bool" where
  "err_is e s = (s \<in> set (err_chain e))"

definition context_Canceled :: go_error where
  "context_Canceled = GoError ''context canceled'' [ContextCanceled]"

definition context_DeadlineExceeded :: go_error where
  "context_DeadlineExceeded = GoError ''context deadline exceeded'' [ContextDeadlineExceeded]"

text \<open>What \<^verbatim>\<open>ctx.Err()\<close> returns at the moment of the call.\<close>

type_synonym go_ctx = "go_error option"

lemma err_msg_errorf [simp]: "err_msg (errorf m) = m"
  by (simp add: errorf_def)

lemma err_is_errorf [simp]: "\<not> err_is (errorf m) s"
  by (simp add: errorf_def err_is_def)

section \<open>Package strings\<close>

definition has_prefix :: "'a list \<Rightarrow> 'a list \<Rightarrow> bool" where
  "has_prefix s p = (take (length p) s = p)"

definition trim_prefix :: "'a list \<Rightarrow> 'a list \<Rightarrow> 'a list" where
  "trim_prefix s p = (if has_prefix s p then drop (length p) s else s)"

definition has_suffix :: "'a list \<Rightarrow> 'a list \<Rightarrow> bool" where
  "has_suffix s p = has_prefix (rev s) (rev p)"

definition trim_suffix :: "'a list \<Rightarrow> 'a list \<Rightarrow> 'a list" where
  "trim_suffix s p = (if has_suffix s p then take (length s - length p) s else s)"

fun contains :: "'a list \<Rightarrow> 'a list \<Rightarrow> bool" where
  "contains [] sub = (sub = [])"
| "contains (c # s) sub = (has_prefix (c # s) sub \<or> contains s sub)"

fun join :: "'a list \<Rightarrow> 'a list list \<Rightarrow> 'a list" where
  "join sep [] = []"
| "join sep [x] = x"
| "join sep (x # y # xs) = x @ sep @ join sep (y # xs)"

fun split_on :: "'a \<Rightarrow> 'a list \<Rightarrow> 'a list list" where
  "split_on c [] = [[]]"
| "split_on c (x # xs) =
     (if x = c then [] # split_on c xs
      else case split_on c xs of [] \<Rightarrow> [[x]] | y # ys \<Rightarrow> (x # y) # ys)"

text \<open>
  The UTF-8 encodings of the runes for which \<^verbatim>\<open>unicode.IsSpace\<close> holds: the ASCII ones, U+0085,
  U+00A0, U+1680, U+2000 to U+200A, U+2028, U+2029, U+202F, U+205F and U+3000.
\<close>

definition space_runes :: "string list" where
  "space_runes =
     [[CHR 0x20], [CHR 0x09], [CHR 0x0A], [CHR 0x0B], [CHR 0x0C], [CHR 0x0D],
      [CHR 0xC2, CHR 0x85], [CHR 0xC2, CHR 0xA0], [CHR 0xE1, CHR 0x9A, CHR 0x80],
      [CHR 0xE2, CHR 0x80, CHR 0x80], [CHR 0xE2, CHR 0x80, CHR 0x81],
      [CHR 0xE2, CHR 0x80, CHR 0x82], [CHR 0xE2, CHR 0x80, CHR 0x83],
      [CHR 0xE2, CHR 0x80, CHR 0x84], [CHR 0xE2, CHR 0x80, CHR 0x85],
      [CHR 0xE2, CHR 0x80, CHR 0x86], [CHR 0xE2, CHR 0x80, CHR 0x87],
      [CHR 0xE2, CHR 0x80, CHR 0x88], [CHR 0xE2, CHR 0x80, CHR 0x89],
      [CHR 0xE2, CHR 0x80, CHR 0x8A], [CHR 0xE2, CHR 0x80, CHR 0xA8],
      [CHR 0xE2, CHR 0x80, CHR 0xA9], [CHR 0xE2, CHR 0x80, CHR 0xAF],
      [CHR 0xE2, CHR 0x81, CHR 0x9F], [CHR 0xE3, CHR 0x80, CHR 0x80]]"

definition lead_len :: "'a list list \<Rightarrow> 'a list \<Rightarrow> nat" where
  "lead_len pats s = (case find (has_prefix s) pats of None \<Rightarrow> 0 | Some p \<Rightarrow> length p)"

fun trim_lead :: "'a list list \<Rightarrow> 'a list \<Rightarrow> 'a list" where
  "trim_lead pats [] = []"
| "trim_lead pats (c # s) =
     (case lead_len pats (c # s) of 0 \<Rightarrow> c # s | Suc n \<Rightarrow> trim_lead pats (drop n s))"

definition trim_left :: "string \<Rightarrow> string" where
  "trim_left s = trim_lead space_runes s"

definition trim_right :: "string \<Rightarrow> string" where
  "trim_right s = rev (trim_lead (map rev space_runes) (rev s))"

definition trim_space :: "string \<Rightarrow> string" where
  "trim_space s = trim_right (trim_left s)"

text \<open>
  \<^verbatim>\<open>strings.ToLower\<close>. Besides the ASCII letters exactly two runes lower to an ASCII letter: U+212A
  (Kelvin sign) to \<open>k\<close> and U+0130 to \<open>i\<close>. Every other non-ASCII rune lowers to a non-ASCII rune
  and is left as it is: the repository only compares lowered text with ASCII constants, which
  cannot tell the difference.
\<close>

definition lower_char :: "char \<Rightarrow> char" where
  "lower_char c =
     (let n = of_char c :: nat in if 65 \<le> n \<and> n \<le> 90 then char_of (n + 32) else c)"

definition upper_char :: "char \<Rightarrow> char" where
  "upper_char c =
     (let n = of_char c :: nat in if 97 \<le> n \<and> n \<le> 122 then char_of (n - 32) else c)"

fun to_lower :: "string \<Rightarrow> string" where
  "to_lower [] = []"
| "to_lower (c # s) =
     (if has_prefix (c # s) [CHR 0xE2, CHR 0x84, CHR 0xAA] then CHR ''k'' # to_lower (drop 2 s)
      else if has_prefix (c # s) [CHR 0xC4, CHR 0xB0] then CHR ''i'' # to_lower (drop 1 s)
      else lower_char c # to_lower s)"

text \<open>
  \<^verbatim>\<open>strings.ToUpper\<close>, in the same way: U+0131 uppers to \<open>I\<close> and U+017F to \<open>S\<close>.
\<close>

fun to_upper :: "string \<Rightarrow> string" where
  "to_upper [] = []"
| "to_upper (c # s) =
     (if has_prefix (c # s) [CHR 0xC4, CHR 0xB1] then CHR ''I'' # to_upper (drop 1 s)
      else if has_prefix (c # s) [CHR 0xC5, CHR 0xBF] then CHR ''S'' # to_upper (drop 1 s)
      else upper_char c # to_upper s)"

section \<open>Package strconv and encoding/hex\<close>

definition digit_char :: "nat \<Rightarrow> char" where
  "digit_char n = char_of (48 + n)"

definition is_digit :: "char \<Rightarrow> bool" where
  "is_digit c = (let n = of_char c :: nat in 48 \<le> n \<and> n \<le> 57)"

definition digit_val :: "char \<Rightarrow> nat" where
  "digit_val c = of_char c - 48"

fun format_nat :: "nat \<Rightarrow> string" where
  "format_nat n =
     (if n < 10 then [digit_char n] else format_nat (n div 10) @ [digit_char (n mod 10)])"

declare format_nat.simps [simp del]

text \<open>\<^verbatim>\<open>%d\<close> and \<^verbatim>\<open>strconv.FormatInt(n, 10)\<close>.\<close>

definition format_int :: "int \<Rightarrow> string" where
  "format_int n = (if n < 0 then CHR ''-'' # format_nat (nat (- n)) else format_nat (nat n))"

definition parse_nat :: "string \<Rightarrow> nat option" where
  "parse_nat s =
     (if s \<noteq> [] \<and> list_all is_digit s then Some (foldl (\<lambda>a c. 10 * a + digit_val c) 0 s)
      else None)"

definition int64_min :: int where "int64_min = - (2 ^ 63)"

definition int64_max :: int where "int64_max = 2 ^ 63 - 1"

text \<open>\<^verbatim>\<open>strconv.ParseInt(s, 10, 64)\<close>: an optional sign, digits, and the range check.\<close>

definition parse_int64 :: "string \<Rightarrow> int option" where
  "parse_int64 s =
     (case (case s of
              [] \<Rightarrow> None
            | c # r \<Rightarrow> if c = CHR ''-'' then map_option (\<lambda>n. - int n) (parse_nat r)
                      else if c = CHR ''+'' then map_option int (parse_nat r)
                      else map_option int (parse_nat s)) of
        None \<Rightarrow> None
      | Some v \<Rightarrow> if int64_min \<le> v \<and> v \<le> int64_max then Some v else None)"

definition parse_bool :: "string \<Rightarrow> bool option" where
  "parse_bool s =
     (if s \<in> {''1'', ''t'', ''T'', ''TRUE'', ''true'', ''True''} then Some True
      else if s \<in> {''0'', ''f'', ''F'', ''FALSE'', ''false'', ''False''} then Some False
      else None)"

definition hex_digit :: "nat \<Rightarrow> char" where
  "hex_digit n = (if n < 10 then char_of (48 + n) else char_of (87 + n))"

definition hex_val :: "char \<Rightarrow> nat option" where
  "hex_val c =
     (let n = of_char c :: nat in
      if 48 \<le> n \<and> n \<le> 57 then Some (n - 48)
      else if 97 \<le> n \<and> n \<le> 102 then Some (n - 87)
      else if 65 \<le> n \<and> n \<le> 70 then Some (n - 55)
      else None)"

fun hex_encode :: "string \<Rightarrow> string" where
  "hex_encode [] = []"
| "hex_encode (c # s) =
     hex_digit (of_char c div 16) # hex_digit (of_char c mod 16) # hex_encode s"

fun hex_decode :: "string \<Rightarrow> string option" where
  "hex_decode [] = Some []"
| "hex_decode [c] = None"
| "hex_decode (c # d # s) =
     (case (hex_val c, hex_val d, hex_decode s) of
        (Some a, Some b, Some r) \<Rightarrow> Some (char_of (16 * a + b) # r)
      | _ \<Rightarrow> None)"

section \<open>Lemmas on the string functions\<close>

lemma has_prefix_iff: "has_prefix s p \<longleftrightarrow> (\<exists>t. s = p @ t)"
  unfolding has_prefix_def by (metis append_eq_conv_conj append_take_drop_id)

lemma has_prefix_append [simp]: "has_prefix (p @ t) p"
  by (auto simp: has_prefix_iff)

lemma has_prefix_trans: "has_prefix s p \<Longrightarrow> has_prefix p q \<Longrightarrow> has_prefix s q"
  by (auto simp: has_prefix_iff)

lemma has_suffix_iff: "has_suffix s p \<longleftrightarrow> (\<exists>t. s = t @ p)"
  by (auto simp: has_suffix_def has_prefix_iff) (metis rev_append rev_rev_ident)+

lemma trim_suffix_append [simp]: "trim_suffix (t @ p) p = t"
  by (auto simp: trim_suffix_def has_suffix_iff)

lemma contains_iff: "contains s sub \<longleftrightarrow> (\<exists>a b. s = a @ sub @ b)"
proof (induction s)
  case Nil
  then show ?case by simp
next
  case (Cons c s)
  show ?case
  proof
    assume "contains (c # s) sub"
    then consider "has_prefix (c # s) sub" | "contains s sub" by auto
    then show "\<exists>a b. c # s = a @ sub @ b"
    proof cases
      case 1
      then have "\<exists>b. c # s = [] @ sub @ b" by (simp add: has_prefix_iff)
      then show ?thesis by blast
    next
      case 2
      then obtain a b where "s = a @ sub @ b" using Cons.IH by blast
      then have "c # s = (c # a) @ sub @ b" by simp
      then show ?thesis by blast
    qed
  next
    assume "\<exists>a b. c # s = a @ sub @ b"
    then obtain a b where ab: "c # s = a @ sub @ b" by blast
    show "contains (c # s) sub"
    proof (cases a)
      case Nil
      with ab have "has_prefix (c # s) sub" by (simp add: has_prefix_iff)
      then show ?thesis by simp
    next
      case (Cons x a')
      with ab have "s = a' @ sub @ b" by simp
      with Cons.IH show ?thesis by auto
    qed
  qed
qed

lemma contains_append [simp]: "contains (a @ sub @ b) sub"
  by (auto simp: contains_iff)

lemma lead_len_zero_iff:
  "[] \<notin> set pats \<Longrightarrow> lead_len pats s = 0 \<longleftrightarrow> (\<forall>p \<in> set pats. \<not> has_prefix s p)"
  by (auto simp: lead_len_def find_Some_iff find_None_iff split: option.splits)
    (metis nth_mem)+

lemma trim_lead_suffix: "\<exists>p. s = p @ trim_lead pats s"
proof (induction pats s rule: trim_lead.induct)
  case (1 pats)
  then show ?case by simp
next
  case (2 pats c s)
  show ?case
  proof (cases "lead_len pats (c # s)")
    case 0
    then show ?thesis by simp
  next
    case (Suc n)
    with 2 obtain p where "drop n s = p @ trim_lead pats (drop n s)" by blast
    then have "c # s = (c # take n s @ p) @ trim_lead pats (drop n s)"
      by (metis append.assoc append_Cons append_take_drop_id)
    with Suc show ?thesis by (metis nat.simps(5) trim_lead.simps(2))
  qed
qed

lemma trim_lead_no_lead: "[] \<notin> set pats \<Longrightarrow> lead_len pats (trim_lead pats s) = 0"
proof (induction pats s rule: trim_lead.induct)
  case (1 pats)
  then show ?case by (auto simp: lead_len_zero_iff has_prefix_def)
next
  case (2 pats c s)
  then show ?case by (cases "lead_len pats (c # s)") simp_all
qed

lemma trim_lead_fixed: "lead_len pats s = 0 \<Longrightarrow> trim_lead pats s = s"
  by (cases s) simp_all

lemma trim_right_prefix: "\<exists>t. s = trim_right s @ t"
proof -
  obtain p where "rev s = p @ trim_lead (map rev space_runes) (rev s)"
    using trim_lead_suffix by blast
  then have "s = rev (trim_lead (map rev space_runes) (rev s)) @ rev p"
    by (metis rev_append rev_rev_ident)
  then show ?thesis unfolding trim_right_def by blast
qed

lemma space_runes_nonempty: "[] \<notin> set space_runes" "[] \<notin> set (map rev space_runes)"
  by (auto simp: space_runes_def)

lemma trim_right_idem: "trim_right (trim_right s) = trim_right s"
  by (simp only: trim_right_def rev_rev_ident trim_lead_fixed [OF trim_lead_no_lead]
      space_runes_nonempty not_False_eq_True)

lemma trim_left_trim_right_fixed:
  "lead_len space_runes s = 0 \<Longrightarrow> lead_len space_runes (trim_right s) = 0"
  using trim_right_prefix [of s] has_prefix_trans
  by (metis has_prefix_append lead_len_zero_iff space_runes_nonempty(1))

lemma trim_space_idem [simp]: "trim_space (trim_space s) = trim_space s"
proof -
  have "lead_len space_runes (trim_space s) = 0"
    unfolding trim_space_def trim_left_def
    by (rule trim_left_trim_right_fixed) (simp add: trim_lead_no_lead space_runes_nonempty)
  then have "trim_left (trim_space s) = trim_space s"
    by (simp add: trim_left_def trim_lead_fixed)
  then show ?thesis
    by (simp add: trim_space_def trim_right_idem)
qed

lemma find_append: "find P (xs @ ys) = (case find P xs of None \<Rightarrow> find P ys | Some x \<Rightarrow> Some x)"
  by (induction xs) simp_all

lemma hex_val_digit: "n < 16 \<Longrightarrow> hex_val (hex_digit n) = Some n"
  by (auto simp: hex_val_def hex_digit_def Let_def)

lemma hex_decode_encode: "hex_decode (hex_encode s) = Some s"
proof (induction s)
  case (Cons c s)
  have "of_char c div 16 < (16::nat)" using nat_of_char_less_256 [of c] by linarith
  with Cons show ?case
    by (simp add: hex_val_digit)
qed simp

section \<open>Decimal numbers\<close>

lemma digit_char_val: "n < 10 \<Longrightarrow> is_digit (digit_char n) \<and> digit_val (digit_char n) = n"
  by (simp add: is_digit_def digit_char_def digit_val_def)

lemma format_nat_digits: "list_all is_digit (format_nat n) \<and> format_nat n \<noteq> []"
proof (induction n rule: format_nat.induct)
  case (1 n)
  then show ?case
    by (subst (1 2) format_nat.simps) (simp add: digit_char_val)
qed

lemma foldl_format_nat: "foldl (\<lambda>a c. 10 * a + digit_val c) 0 (format_nat n) = n"
proof (induction n rule: format_nat.induct)
  case (1 n)
  then show ?case
    by (subst format_nat.simps) (simp add: digit_char_val)
qed

lemma parse_nat_format_nat [simp]: "parse_nat (format_nat n) = Some n"
  using format_nat_digits [of n] by (simp add: parse_nat_def foldl_format_nat)

lemma format_nat_head: "\<exists>c t. format_nat n = c # t \<and> is_digit c"
  using format_nat_digits [of n] by (cases "format_nat n") auto

lemma parse_int64_format_int:
  assumes "int64_min \<le> i" "i \<le> int64_max"
  shows "parse_int64 (format_int i) = Some i"
proof (cases "i < 0")
  case True
  with assms show ?thesis by (simp add: parse_int64_def format_int_def)
next
  case False
  obtain c t where c: "format_nat (nat i) = c # t" "is_digit c" using format_nat_head by blast
  then have "c \<noteq> CHR ''-''" "c \<noteq> CHR ''+''" by (auto simp: is_digit_def)
  with False c assms parse_nat_format_nat [of "nat i"] show ?thesis
    by (simp add: parse_int64_def format_int_def)
qed

lemma format_nat_leading:
  "0 < n \<Longrightarrow> \<exists>c t. format_nat n = c # t \<and> is_digit c \<and> c \<noteq> CHR ''0''"
proof (induction n rule: format_nat.induct)
  case (1 n)
  show ?case
  proof (cases "n < 10")
    case True
    with "1.prems" have "of_char (digit_char n) \<noteq> (of_char (CHR ''0'') :: nat)"
      by (simp add: digit_char_def)
    with True show ?thesis by (subst format_nat.simps) (auto simp: digit_char_val)
  next
    case False
    then have "0 < n div 10" by simp
    with "1.IH" [OF False] False show ?thesis by (subst format_nat.simps) auto
  qed
qed

lemma format_nat_0: "format_nat 0 = ''0''"
  by (subst format_nat.simps) (simp add: digit_char_def char_of_def bit_0)

end
