(* ===== verification/Task_Memory.thy ===== *)
theory Task_Memory
  imports Go_Prelude
begin

text \<open>
  Package \<^verbatim>\<open>internal/memory\<close>: task statuses (\<^verbatim>\<open>task_status.go\<close>), the in-memory task state store
  (\<^verbatim>\<open>task_state_store.go\<close>) and the SQLite one (\<^verbatim>\<open>sqlite_task_state_store.go\<close>). The interface
  \<^verbatim>\<open>TaskStateStore\<close> is the locale \<open>task_state_store\<close>, interpreted on both implementations.

  The argument \<open>fault\<close> is the error the environment reports for the call: \<^verbatim>\<open>ctx.Err()\<close> for the
  in-memory store, the error of the \<^verbatim>\<open>database/sql\<close> call for the SQLite store. The SQL statements
  are translated as operations on the rows of the table \<^verbatim>\<open>task_states\<close>.
\<close>

section \<open>Task statuses\<close>

definition TaskStatusPending :: string where "TaskStatusPending = ''pending''"
definition TaskStatusRunning :: string where "TaskStatusRunning = ''running''"
definition TaskStatusSuccess :: string where "TaskStatusSuccess = ''success''"
definition TaskStatusFailed :: string where "TaskStatusFailed = ''failed''"
definition TaskStatusRejected :: string where "TaskStatusRejected = ''rejected''"
definition TaskStatusTimeout :: string where "TaskStatusTimeout = ''timeout''"
definition TaskStatusCancelled :: string where "TaskStatusCancelled = ''cancelled''"

lemmas task_status_defs = TaskStatusPending_def TaskStatusRunning_def TaskStatusSuccess_def
  TaskStatusFailed_def TaskStatusRejected_def TaskStatusTimeout_def TaskStatusCancelled_def

definition NormalizeTaskStatus :: "string \<Rightarrow> string" where
  "NormalizeTaskStatus status =
     (let normalized = to_lower (trim_space status) in
      if normalized \<in> {TaskStatusPending, TaskStatusRunning, TaskStatusSuccess, TaskStatusFailed,
           TaskStatusRejected, TaskStatusTimeout, TaskStatusCancelled}
      then normalized else TaskStatusFailed)"

definition IsTerminalTaskStatus :: "string \<Rightarrow> bool" where
  "IsTerminalTaskStatus status =
     (if NormalizeTaskStatus status \<in> {TaskStatusPending, TaskStatusRunning} then False else True)"

definition IsSuccessfulTaskStatus :: "string \<Rightarrow> bool" where
  "IsSuccessfulTaskStatus status = (NormalizeTaskStatus status = TaskStatusSuccess)"

section \<open>Task states and the in-memory store\<close>

record task_state =
  ts_task_id :: string
  ts_parent_task_id :: string
  ts_agent_name :: string
  ts_status :: string
  ts_updated_at_unix :: int
  ts_error_message :: string

record agent_profile =
  ap_name :: string
  ap_description :: string
  ap_role_prompt :: string

definition task_state_not_found :: go_error where
  "task_state_not_found = GoError ''task state not found'' [ErrTaskStateNotFound]"

type_synonym in_memory_store = "(string \<times> task_state) list"

definition NewInMemoryTaskStateStore :: in_memory_store where
  "NewInMemoryTaskStateStore = []"

definition in_mem_Save ::
    "go_error option \<Rightarrow> in_memory_store \<Rightarrow> task_state \<Rightarrow> in_memory_store \<times> go_error option" where
  "in_mem_Save fault s st =
     (case fault of
        Some e \<Rightarrow> (s, Some e)
      | None \<Rightarrow> (AList.update (ts_task_id st) st s, None))"

definition in_mem_Get :: "go_error option \<Rightarrow> in_memory_store \<Rightarrow> string \<Rightarrow> task_state res" where
  "in_mem_Get fault s taskID =
     (case fault of
        Some e \<Rightarrow> Inl e
      | None \<Rightarrow> (case map_of s taskID of
                   None \<Rightarrow> Inl task_state_not_found
                 | Some st \<Rightarrow> Inr st))"

text \<open>\<^verbatim>\<open>GetSubTasks\<close> of the in-memory store does not look at the context.\<close>

definition in_mem_GetSubTasks ::
    "go_error option \<Rightarrow> in_memory_store \<Rightarrow> string \<Rightarrow> task_state list res" where
  "in_mem_GetSubTasks fault s parent =
     Inr (filter (\<lambda>st. ts_parent_task_id st = parent) (map snd s))"

definition in_mem_ListRecoverable ::
    "go_error option \<Rightarrow> in_memory_store \<Rightarrow> task_state list res" where
  "in_mem_ListRecoverable fault s =
     (case fault of
        Some e \<Rightarrow> Inl e
      | None \<Rightarrow> Inr (filter (\<lambda>st. ts_status st = ''pending'' \<or> ts_status st = ''running'')
                            (map snd s)))"

section \<open>The SQLite store\<close>

text \<open>
  A row of \<^verbatim>\<open>task_states\<close>. The two columns read through \<^verbatim>\<open>sql.NullString\<close> may be NULL (\<open>None\<close>);
  \<^verbatim>\<open>Save\<close> never writes NULL, but the schema allows it.
\<close>

record task_row =
  row_task_id :: string
  row_parent_task_id :: "string option"
  row_agent_name :: "string option"
  row_status :: string
  row_updated_at_unix :: int
  row_error_message :: string

type_synonym sqlite_store = "task_row list"

definition null_string :: "string option \<Rightarrow> string" where
  "null_string v = (case v of None \<Rightarrow> [] | Some x \<Rightarrow> x)"

definition scan_row :: "task_row \<Rightarrow> task_state" where
  "scan_row r =
     \<lparr>ts_task_id = row_task_id r, ts_parent_task_id = null_string (row_parent_task_id r),
      ts_agent_name = null_string (row_agent_name r), ts_status = row_status r,
      ts_updated_at_unix = row_updated_at_unix r, ts_error_message = row_error_message r\<rparr>"

definition row_of :: "task_state \<Rightarrow> task_row" where
  "row_of st =
     \<lparr>row_task_id = ts_task_id st, row_parent_task_id = Some (ts_parent_task_id st),
      row_agent_name = Some (ts_agent_name st), row_status = ts_status st,
      row_updated_at_unix = ts_updated_at_unix st, row_error_message = ts_error_message st\<rparr>"

text \<open>The schema: \<^verbatim>\<open>task_id\<close> is the primary key.\<close>

definition sqlite_schema :: "sqlite_store \<Rightarrow> bool" where
  "sqlite_schema db = distinct (map row_task_id db)"

definition conflict_update :: "task_state \<Rightarrow> task_row \<Rightarrow> task_row" where
  "conflict_update st r =
     r\<lparr>row_status := ts_status st, row_updated_at_unix := ts_updated_at_unix st,
       row_error_message := ts_error_message st\<rparr>"

fun upsert :: "task_state \<Rightarrow> sqlite_store \<Rightarrow> sqlite_store" where
  "upsert st [] = [row_of st]"
| "upsert st (r # db) =
     (if row_task_id r = ts_task_id st then conflict_update st r # db else r # upsert st db)"

definition sqlite_Save ::
    "go_error option \<Rightarrow> sqlite_store \<Rightarrow> task_state \<Rightarrow> sqlite_store \<times> go_error option" where
  "sqlite_Save fault db st =
     (case fault of Some e \<Rightarrow> (db, Some e) | None \<Rightarrow> (upsert st db, None))"

definition sqlite_Get :: "go_error option \<Rightarrow> sqlite_store \<Rightarrow> string \<Rightarrow> task_state res" where
  "sqlite_Get fault db taskID =
     (case fault of
        Some e \<Rightarrow> if e = GoError ''sql: no rows in result set'' [SqlErrNoRows]
                  then Inl task_state_not_found else Inl e
      | None \<Rightarrow> (case filter (\<lambda>r. row_task_id r = taskID) db of
                   [] \<Rightarrow> Inl task_state_not_found
                 | r # _ \<Rightarrow> Inr (scan_row r)))"

text \<open>\<open>WHERE parent_task_id = ?\<close>: comparing NULL with a parameter never holds.\<close>

definition sqlite_GetSubTasks ::
    "go_error option \<Rightarrow> sqlite_store \<Rightarrow> string \<Rightarrow> task_state list res" where
  "sqlite_GetSubTasks fault db parent =
     (case fault of
        Some e \<Rightarrow> Inl e
      | None \<Rightarrow> Inr (map scan_row (filter (\<lambda>r. row_parent_task_id r = Some parent) db)))"

definition sqlite_ListRecoverable ::
    "go_error option \<Rightarrow> sqlite_store \<Rightarrow> task_state list res" where
  "sqlite_ListRecoverable fault db =
     (case fault of
        Some e \<Rightarrow> Inl e
      | None \<Rightarrow> Inr (map scan_row (filter (\<lambda>r. row_status r \<in> {''pending'', ''running''}) db)))"

section \<open>Facts about statuses\<close>

lemma normalize_constants [simp]:
  "NormalizeTaskStatus TaskStatusPending = TaskStatusPending"
  "NormalizeTaskStatus TaskStatusRunning = TaskStatusRunning"
  "NormalizeTaskStatus TaskStatusSuccess = TaskStatusSuccess"
  "NormalizeTaskStatus TaskStatusFailed = TaskStatusFailed"
  "NormalizeTaskStatus TaskStatusRejected = TaskStatusRejected"
  "NormalizeTaskStatus TaskStatusTimeout = TaskStatusTimeout"
  "NormalizeTaskStatus TaskStatusCancelled = TaskStatusCancelled"
  by code_simp+

definition task_statuses :: "string set" where
  "task_statuses = {TaskStatusPending, TaskStatusRunning, TaskStatusSuccess, TaskStatusFailed,
     TaskStatusRejected, TaskStatusTimeout, TaskStatusCancelled}"

lemma normalize_in: "NormalizeTaskStatus s \<in> task_statuses"
  by (simp add: NormalizeTaskStatus_def task_statuses_def Let_def)

lemma normalize_fixed: "s \<in> task_statuses \<Longrightarrow> NormalizeTaskStatus s = s"
  by (auto simp: task_statuses_def)

lemma terminal_statuses:
  "s \<in> task_statuses \<Longrightarrow>
     IsTerminalTaskStatus s \<longleftrightarrow> s \<notin> {TaskStatusPending, TaskStatusRunning}"
  by (simp add: IsTerminalTaskStatus_def normalize_fixed)

lemma recoverable_not_terminal:
  "s = ''pending'' \<or> s = ''running'' \<Longrightarrow> \<not> IsTerminalTaskStatus s"
  using terminal_statuses [of s]
  by (auto simp: task_statuses_def TaskStatusPending_def TaskStatusRunning_def)

section \<open>The interface TaskStateStore\<close>

text \<open>
  What a caller of \<^verbatim>\<open>TaskStateStore\<close> may rely on, whichever implementation it holds: a failing
  call changes nothing, a successful \<^verbatim>\<open>Save\<close> is visible to \<^verbatim>\<open>Get\<close> in the fields both
  implementations store, other tasks are untouched, and \<^verbatim>\<open>ListRecoverable\<close> lists every stored task
  whose status is pending or running exactly once.
\<close>

definition same_outcome :: "task_state \<Rightarrow> task_state \<Rightarrow> bool" where
  "same_outcome a b \<longleftrightarrow> ts_task_id a = ts_task_id b \<and> ts_status a = ts_status b \<and>
     ts_updated_at_unix a = ts_updated_at_unix b \<and> ts_error_message a = ts_error_message b"

lemma same_outcome_refl [simp]: "same_outcome a a"
  by (simp add: same_outcome_def)

lemma same_outcome_id: "same_outcome a b \<Longrightarrow> ts_task_id a = ts_task_id b"
  by (simp add: same_outcome_def)

lemma same_outcome_status: "same_outcome a b \<Longrightarrow> ts_status a = ts_status b"
  by (simp add: same_outcome_def)

locale task_state_store =
  fixes save :: "go_error option \<Rightarrow> 's \<Rightarrow> task_state \<Rightarrow> 's \<times> go_error option"
    and get :: "go_error option \<Rightarrow> 's \<Rightarrow> string \<Rightarrow> task_state res"
    and list_recoverable :: "go_error option \<Rightarrow> 's \<Rightarrow> task_state list res"
    and invar :: "'s \<Rightarrow> bool"
  assumes save_fault: "save (Some e) s st = (s, Some e)"
    and save_ok: "snd (save None s st) = None"
    and save_invar: "invar s \<Longrightarrow> invar (fst (save None s st))"
    and get_saved: "invar s \<Longrightarrow>
      \<exists>st'. get None (fst (save None s st)) (ts_task_id st) = Inr st' \<and> same_outcome st' st"
    and get_other: "invar s \<Longrightarrow> k \<noteq> ts_task_id st \<Longrightarrow>
      get None (fst (save None s st)) k = get None s k"
    and get_id: "invar s \<Longrightarrow> get None s k = Inr st \<Longrightarrow> ts_task_id st = k"
    and recoverable: "invar s \<Longrightarrow>
      \<exists>xs. list_recoverable None s = Inr xs \<and> distinct (map ts_task_id xs) \<and>
        (\<forall>st. st \<in> set xs \<longleftrightarrow>
           get None s (ts_task_id st) = Inr st \<and> ts_status st \<in> {''pending'', ''running''})"
begin

definition run_saves :: "'s \<Rightarrow> task_state list \<Rightarrow> 's" where
  "run_saves s sts = foldl (\<lambda>s st. fst (save None s st)) s sts"

lemma run_saves_simps [simp]:
  "run_saves s [] = s"
  "run_saves s (st # sts) = run_saves (fst (save None s st)) sts"
  by (simp_all add: run_saves_def)

lemma run_saves_invar: "invar s \<Longrightarrow> invar (run_saves s sts)"
  by (induction sts arbitrary: s) (simp_all add: save_invar)

lemma run_saves_other:
  "invar s \<Longrightarrow> k \<notin> ts_task_id ` set sts \<Longrightarrow> get None (run_saves s sts) k = get None s k"
  by (induction sts arbitrary: s) (simp_all add: save_invar get_other)

text \<open>The outcome stored for a task is that of its last \<^verbatim>\<open>Save\<close>, whatever ran before or after.\<close>

lemma last_save_wins:
  assumes "invar s" and "ts_task_id st \<notin> ts_task_id ` set later"
  shows "\<exists>st'. get None (run_saves s (earlier @ st # later)) (ts_task_id st) = Inr st' \<and>
     same_outcome st' st"
proof -
  let ?s1 = "run_saves s earlier"
  let ?s2 = "fst (save None ?s1 st)"
  have i1: "invar ?s1" using assms(1) by (rule run_saves_invar)
  then have "invar ?s2" by (rule save_invar)
  then have "get None (run_saves ?s2 later) (ts_task_id st) = get None ?s2 (ts_task_id st)"
    using assms(2) by (rule run_saves_other)
  moreover have "run_saves s (earlier @ st # later) = run_saves ?s2 later"
    by (simp add: run_saves_def)
  ultimately show ?thesis using get_saved [OF i1, of st] by simp
qed

text \<open>
  After a \<^verbatim>\<open>Save\<close>, the task is on the recovery list exactly if the saved status is one of the two
  recoverable ones, and then once.
\<close>

lemma recoverable_after_save:
  assumes "invar s"
  shows "\<exists>xs. list_recoverable None (fst (save None s st)) = Inr xs \<and>
     distinct (map ts_task_id xs) \<and>
     (ts_task_id st \<in> ts_task_id ` set xs \<longleftrightarrow> ts_status st \<in> {''pending'', ''running''})"
proof -
  let ?s = "fst (save None s st)"
  from assms have inv: "invar ?s" by (rule save_invar)
  from recoverable [OF this] obtain xs where xs: "list_recoverable None ?s = Inr xs"
      "distinct (map ts_task_id xs)"
    and mem: "\<And>x. x \<in> set xs \<longleftrightarrow>
       get None ?s (ts_task_id x) = Inr x \<and> ts_status x \<in> {''pending'', ''running''}"
    by blast
  from get_saved [OF assms, of st] obtain st' where
    st': "get None ?s (ts_task_id st) = Inr st'" "same_outcome st' st" by blast
  have "ts_task_id st \<in> ts_task_id ` set xs \<longleftrightarrow> st' \<in> set xs"
    using mem st' same_outcome_id [OF st'(2)] by (metis (no_types, lifting) imageE imageI sum.inject(2))
  also have "\<dots> \<longleftrightarrow> ts_status st \<in> {''pending'', ''running''}"
    using mem [of st'] st' by (simp add: same_outcome_def)
  finally show ?thesis using xs by blast
qed

lemma terminal_not_recoverable:
  assumes "invar s" and "IsTerminalTaskStatus (ts_status st)"
  shows "\<exists>xs. list_recoverable None (fst (save None s st)) = Inr xs \<and>
     ts_task_id st \<notin> ts_task_id ` set xs"
  using recoverable_after_save [OF assms(1), of st] assms(2) recoverable_not_terminal by blast

end

section \<open>Both stores implement the interface\<close>

definition in_mem_invar :: "in_memory_store \<Rightarrow> bool" where
  "in_mem_invar s \<longleftrightarrow> distinct (map fst s) \<and> (\<forall>(k, st) \<in> set s. ts_task_id st = k)"

lemma in_mem_invarD:
  "in_mem_invar s \<Longrightarrow> map_of s k = Some st \<Longrightarrow> ts_task_id st = k"
  by (auto simp: in_mem_invar_def dest: map_of_SomeD)

lemma in_mem_invar_snd:
  "in_mem_invar s \<Longrightarrow> st \<in> snd ` set s \<longleftrightarrow> map_of s (ts_task_id st) = Some st"
  by (force simp: in_mem_invar_def image_iff dest: map_of_SomeD)

lemma in_mem_ids: "in_mem_invar s \<Longrightarrow> map (ts_task_id \<circ> snd) s = map fst s"
  by (auto simp: in_mem_invar_def)

lemma in_mem_update_invar:
  assumes "in_mem_invar s"
  shows "in_mem_invar (AList.update (ts_task_id st) st s)"
proof -
  have "set (AList.update (ts_task_id st) st s) \<subseteq> insert (ts_task_id st, st) (set s)"
    by (induction s) auto
  with assms show ?thesis
    by (auto simp: in_mem_invar_def distinct_update)
qed

lemma in_mem_recoverable_list:
  assumes "in_mem_invar s"
  shows "distinct (map ts_task_id (filter P (map snd s)))"
proof -
  have "distinct (map ts_task_id (map snd s))"
    by (simp only: map_map in_mem_ids [OF assms]) (use assms in \<open>simp add: in_mem_invar_def\<close>)
  then show ?thesis by (rule distinct_map_filter)
qed

interpretation mem_store: task_state_store
  in_mem_Save in_mem_Get in_mem_ListRecoverable in_mem_invar
proof (unfold_locales, goal_cases)
  case (7 s)
  then show ?case
    using in_mem_recoverable_list [OF 7] in_mem_invar_snd [OF 7]
    by (auto simp: in_mem_ListRecoverable_def in_mem_Get_def image_iff split: option.splits)
qed (auto simp: in_mem_Save_def in_mem_Get_def update_conv' in_mem_update_invar
      dest: in_mem_invarD split: option.splits)

lemma filter_key_single:
  "distinct (map row_task_id db) \<Longrightarrow> r \<in> set db \<Longrightarrow>
     filter (\<lambda>x. row_task_id x = row_task_id r) db = [r]"
proof (induction db)
  case Nil
  then show ?case by simp
next
  case (Cons a db)
  then show ?case by (force simp: filter_empty_conv image_iff)
qed

lemma upsert_ids:
  "set (map row_task_id (upsert st db)) = insert (ts_task_id st) (set (map row_task_id db))"
  by (induction db) (auto simp: row_of_def conflict_update_def)

lemma upsert_schema: "sqlite_schema db \<Longrightarrow> sqlite_schema (upsert st db)"
proof (induction db)
  case Nil
  then show ?case by (simp add: sqlite_schema_def)
next
  case (Cons r db)
  then show ?case using upsert_ids [of st db]
    by (auto simp: sqlite_schema_def conflict_update_def)
qed

lemma upsert_other:
  "k \<noteq> ts_task_id st \<Longrightarrow>
     filter (\<lambda>r. row_task_id r = k) (upsert st db) = filter (\<lambda>r. row_task_id r = k) db"
  by (induction db) (auto simp: row_of_def conflict_update_def)

text \<open>
  What an upsert leaves for its own key: the inserted row if the key was new, otherwise the old
  row with status, time and error message replaced.
\<close>

lemma upsert_self:
  "sqlite_schema db \<Longrightarrow>
     filter (\<lambda>r. row_task_id r = ts_task_id st) (upsert st db) =
       (case filter (\<lambda>r. row_task_id r = ts_task_id st) db of
          [] \<Rightarrow> [row_of st] | r # rs \<Rightarrow> conflict_update st r # rs)"
  by (induction db)
    (auto simp: row_of_def conflict_update_def sqlite_schema_def split: list.splits)

lemma sqlite_Get_mem:
  "sqlite_schema db \<Longrightarrow> st \<in> scan_row ` set db \<longleftrightarrow> sqlite_Get None db (ts_task_id st) = Inr st"
proof
  assume "sqlite_schema db" and "st \<in> scan_row ` set db"
  then obtain r where r: "r \<in> set db" "st = scan_row r" by blast
  with \<open>sqlite_schema db\<close> show "sqlite_Get None db (ts_task_id st) = Inr st"
    by (simp add: sqlite_Get_def sqlite_schema_def filter_key_single scan_row_def)
next
  assume "sqlite_Get None db (ts_task_id st) = Inr st"
  then obtain r rs where "filter (\<lambda>r. row_task_id r = ts_task_id st) db = r # rs"
      and r: "st = scan_row r"
    by (auto simp: sqlite_Get_def split: list.splits)
  then have "r \<in> set (filter (\<lambda>r. row_task_id r = ts_task_id st) db)" by simp
  with r show "st \<in> scan_row ` set db" by auto
qed

lemma sqlite_Get_id:
  assumes "sqlite_Get None db k = Inr st"
  shows "ts_task_id st = k"
proof -
  from assms obtain r rs where f: "filter (\<lambda>r. row_task_id r = k) db = r # rs"
      and st: "st = scan_row r"
    by (auto simp: sqlite_Get_def split: list.splits)
  then have "r \<in> set (filter (\<lambda>r. row_task_id r = k) db)" by simp
  with st show ?thesis by (simp add: scan_row_def)
qed

lemma sqlite_recoverable_ids:
  assumes "sqlite_schema db"
  shows "distinct (map ts_task_id (map scan_row (filter P db)))"
proof -
  have "distinct (map row_task_id (filter P db))"
    using assms unfolding sqlite_schema_def by (rule distinct_map_filter)
  then show ?thesis by (simp add: comp_def scan_row_def)
qed

interpretation sql_store: task_state_store
  sqlite_Save sqlite_Get sqlite_ListRecoverable sqlite_schema
proof (unfold_locales, goal_cases)
  case (1 e s st)
  show ?case by (simp add: sqlite_Save_def)
next
  case (2 s st)
  show ?case by (simp add: sqlite_Save_def)
next
  case (3 s st)
  then show ?case by (simp add: sqlite_Save_def upsert_schema)
next
  case (4 s st)
  have "ts_task_id (scan_row r) = ts_task_id st"
    if "filter (\<lambda>r. row_task_id r = ts_task_id st) s = r # rs" for r rs
  proof -
    from that have "r \<in> set (filter (\<lambda>r. row_task_id r = ts_task_id st) s)" by simp
    then show ?thesis by (simp add: scan_row_def)
  qed
  with 4 show ?case
    by (cases "filter (\<lambda>r. row_task_id r = ts_task_id st) s")
      (simp_all add: sqlite_Save_def sqlite_Get_def upsert_self same_outcome_def scan_row_def
        row_of_def conflict_update_def null_string_def)
next
  case (5 s k st)
  then show ?case by (simp add: sqlite_Save_def sqlite_Get_def upsert_other)
next
  case (6 s k st)
  then show ?case by (blast intro: sqlite_Get_id)
next
  case (7 s)
  let ?xs = "map scan_row (filter (\<lambda>r. row_status r \<in> {''pending'', ''running''}) s)"
  have "x \<in> set ?xs \<longleftrightarrow> x \<in> scan_row ` set s \<and> ts_status x \<in> {''pending'', ''running''}" for x
    by (auto simp: scan_row_def)
  then have "x \<in> set ?xs \<longleftrightarrow>
      sqlite_Get None s (ts_task_id x) = Inr x \<and> ts_status x \<in> {''pending'', ''running''}" for x
    by (simp only: sqlite_Get_mem [OF 7])
  moreover have "sqlite_ListRecoverable None s = Inr ?xs"
    by (simp add: sqlite_ListRecoverable_def)
  ultimately show ?case
    using sqlite_recoverable_ids [OF 7] by blast
qed

section \<open>What a history of saves leaves behind\<close>

definition sqlite_run :: "task_state list \<Rightarrow> sqlite_store" where
  "sqlite_run sts = foldl (\<lambda>db st. fst (sqlite_Save None db st)) [] sts"

definition in_mem_run :: "task_state list \<Rightarrow> in_memory_store" where
  "in_mem_run sts = foldl (\<lambda>s st. fst (in_mem_Save None s st)) NewInMemoryTaskStateStore sts"

definition saves_of :: "string \<Rightarrow> task_state list \<Rightarrow> task_state list" where
  "saves_of k sts = filter (\<lambda>st. ts_task_id st = k) sts"

lemma sqlite_run_snoc: "sqlite_run (sts @ [st]) = upsert st (sqlite_run sts)"
  by (simp add: sqlite_run_def sqlite_Save_def)

lemma in_mem_run_snoc:
  "in_mem_run (sts @ [st]) = AList.update (ts_task_id st) st (in_mem_run sts)"
  by (simp add: in_mem_run_def in_mem_Save_def)

lemma sqlite_run_schema: "sqlite_schema (sqlite_run sts)"
  by (induction sts rule: rev_induct)
    (simp_all add: sqlite_run_snoc upsert_schema, simp add: sqlite_run_def sqlite_schema_def)

definition merged :: "task_state list \<Rightarrow> task_state" where
  "merged xs = (last xs)\<lparr>ts_parent_task_id := ts_parent_task_id (hd xs),
     ts_agent_name := ts_agent_name (hd xs)\<rparr>"

lemma saves_of_snoc:
  "saves_of k (sts @ [st]) = saves_of k sts @ (if ts_task_id st = k then [st] else [])"
  by (simp add: saves_of_def)

lemma saves_of_ids: "st \<in> set (saves_of k sts) \<Longrightarrow> ts_task_id st = k"
  by (simp add: saves_of_def)

lemma row_of_scan: "row_task_id r = ts_task_id (scan_row r)"
  by (simp add: scan_row_def)

lemma scan_row_of [simp]: "scan_row (row_of st) = st"
  by (cases st) (simp add: scan_row_def row_of_def null_string_def)

lemma scan_conflict_update:
  "scan_row (conflict_update st r) =
     (scan_row r)\<lparr>ts_status := ts_status st, ts_updated_at_unix := ts_updated_at_unix st,
       ts_error_message := ts_error_message st\<rparr>"
  by (simp add: scan_row_def conflict_update_def)

lemma merged_snoc:
  assumes "xs \<noteq> []" and "ts_task_id (last xs) = ts_task_id st"
  shows "merged (xs @ [st]) = (merged xs)\<lparr>ts_status := ts_status st,
     ts_updated_at_unix := ts_updated_at_unix st, ts_error_message := ts_error_message st\<rparr>"
  using assms by (cases st; cases "last xs") (simp add: merged_def)

lemma sqlite_rows_of_run:
  "map scan_row (filter (\<lambda>r. row_task_id r = k) (sqlite_run sts)) =
     (if saves_of k sts = [] then [] else [merged (saves_of k sts)])"
proof (induction sts rule: rev_induct)
  case Nil
  then show ?case by (simp add: sqlite_run_def saves_of_def)
next
  case (snoc st sts)
  let ?rows = "filter (\<lambda>r. row_task_id r = k) (sqlite_run sts)"
  show ?case
  proof (cases "ts_task_id st = k")
    case False
    with snoc show ?thesis by (simp add: sqlite_run_snoc upsert_other saves_of_snoc)
  next
    case True
    have self: "filter (\<lambda>r. row_task_id r = k) (sqlite_run (sts @ [st])) =
        (case ?rows of [] \<Rightarrow> [row_of st] | r # rs \<Rightarrow> conflict_update st r # rs)"
      using upsert_self [OF sqlite_run_schema, of st sts] True by (simp add: sqlite_run_snoc)
    show ?thesis
    proof (cases "saves_of k sts")
      case Nil
      with snoc True self show ?thesis
        by (simp add: saves_of_snoc merged_def)
    next
      case (Cons x xs)
      then have "last (x # xs) \<in> set (saves_of k sts)" by simp
      then have "ts_task_id (last (saves_of k sts)) = ts_task_id st"
        using saves_of_ids True Cons by metis
      then have m: "merged (saves_of k sts @ [st]) = (merged (saves_of k sts))\<lparr>
          ts_status := ts_status st, ts_updated_at_unix := ts_updated_at_unix st,
          ts_error_message := ts_error_message st\<rparr>"
        using Cons by (intro merged_snoc) simp_all
      from snoc Cons obtain r where "?rows = [r]" "scan_row r = merged (saves_of k sts)"
        by (auto simp: map_eq_Cons_conv)
      with self m True show ?thesis
        by (simp add: saves_of_snoc scan_conflict_update)
    qed
  qed
qed

lemma sqlite_Get_scan:
  "sqlite_Get None db k =
     (case map scan_row (filter (\<lambda>r. row_task_id r = k) db) of
        [] \<Rightarrow> Inl task_state_not_found | st # _ \<Rightarrow> Inr st)"
  by (simp add: sqlite_Get_def split: list.splits)

lemma in_mem_run_lookup:
  "map_of (in_mem_run sts) k = (if saves_of k sts = [] then None else Some (last (saves_of k sts)))"
  by (induction sts rule: rev_induct)
    (auto simp: in_mem_run_snoc update_conv' saves_of_snoc,
     simp_all add: in_mem_run_def saves_of_def NewInMemoryTaskStateStore_def)

section \<open>Properties\<close>

text \<open>
  \<^verbatim>\<open>NormalizeTaskStatus\<close> maps every string to one of the seven statuses and is idempotent, so
  a stored normalized status is never reinterpreted; \<^verbatim>\<open>IsTerminalTaskStatus\<close> is false exactly for
  the strings that normalize to pending or running, and a successful status is terminal.
\<close>

theorem normalize_task_status_classifies:
  "NormalizeTaskStatus s \<in> {''pending'', ''running'', ''success'', ''failed'', ''rejected'',
      ''timeout'', ''cancelled''} \<and>
   NormalizeTaskStatus (NormalizeTaskStatus s) = NormalizeTaskStatus s \<and>
   (IsTerminalTaskStatus s \<longleftrightarrow> NormalizeTaskStatus s \<notin> {''pending'', ''running''}) \<and>
   (IsTerminalTaskStatus (NormalizeTaskStatus s) \<longleftrightarrow> IsTerminalTaskStatus s) \<and>
   \<not> (IsSuccessfulTaskStatus s \<and> \<not> IsTerminalTaskStatus s)"
proof -
  have "NormalizeTaskStatus (NormalizeTaskStatus s) = NormalizeTaskStatus s"
    using normalize_fixed normalize_in by blast
  then show ?thesis
    using normalize_in [of s]
    by (auto simp: task_statuses_def task_status_defs IsTerminalTaskStatus_def
        IsSuccessfulTaskStatus_def)
qed

text \<open>
  For every history of \<^verbatim>\<open>Save\<close> calls on the SQLite store, \<^verbatim>\<open>Get\<close> returns the status, time and
  error message of the last save of that task together with the parent and the agent of its first
  save (the conflict clause never updates these two columns), and reports a task never saved as
  not found.
\<close>

theorem sqlite_get_after_history:
  "sqlite_Get None (sqlite_run sts) k =
     (case saves_of k sts of
        [] \<Rightarrow> Inl task_state_not_found
      | f # xs \<Rightarrow> Inr ((last (f # xs))\<lparr>ts_parent_task_id := ts_parent_task_id f,
                                       ts_agent_name := ts_agent_name f\<rparr>))"
  using sqlite_rows_of_run [of k sts]
  by (simp add: sqlite_Get_scan merged_def split: list.splits)

text \<open>
  C17. The in-memory store returns the last saved state of a task unchanged. Together with the
  previous property: the two implementations of \<^verbatim>\<open>TaskStateStore\<close> answer \<^verbatim>\<open>Get\<close> alike after the same
  history unless a task was saved again with another parent or agent.
\<close>

theorem in_mem_get_after_history:
  "in_mem_Get None (in_mem_run sts) k =
     (case saves_of k sts of
        [] \<Rightarrow> Inl task_state_not_found
      | f # xs \<Rightarrow> Inr (last (f # xs))) \<and>
   (in_mem_Get None (in_mem_run sts) k = sqlite_Get None (sqlite_run sts) k \<longleftrightarrow>
      (case saves_of k sts of
         [] \<Rightarrow> True
       | f # xs \<Rightarrow> ts_parent_task_id (last (f # xs)) = ts_parent_task_id f \<and>
                   ts_agent_name (last (f # xs)) = ts_agent_name f))"
proof (cases "saves_of k sts")
  case Nil
  then show ?thesis
    using sqlite_rows_of_run [of k sts] in_mem_run_lookup [of sts k]
    by (simp add: sqlite_Get_scan in_mem_Get_def)
next
  case (Cons f xs)
  have "x = x\<lparr>ts_parent_task_id := p, ts_agent_name := a\<rparr> \<longleftrightarrow>
      ts_parent_task_id x = p \<and> ts_agent_name x = a" for x :: task_state and p a
    by (cases x) auto
  with Cons show ?thesis
    using sqlite_rows_of_run [of k sts] in_mem_run_lookup [of sts k]
    by (simp add: sqlite_Get_scan in_mem_Get_def merged_def)
qed

text \<open>
  On any state the SQLite store can be in, saving a task makes it recoverable exactly if the
  saved status is pending or running, and \<^verbatim>\<open>ListRecoverable\<close> then lists it once; no listed task has
  a terminal status.
\<close>

theorem sqlite_recoverable_exact:
  assumes "sqlite_schema db"
  shows "\<exists>xs. sqlite_ListRecoverable None (fst (sqlite_Save None db st)) = Inr xs \<and>
     distinct (map ts_task_id xs) \<and>
     (ts_task_id st \<in> ts_task_id ` set xs \<longleftrightarrow> ts_status st \<in> {''pending'', ''running''}) \<and>
     list_all (\<lambda>x. \<not> IsTerminalTaskStatus (ts_status x)) xs"
proof -
  have "list_all (\<lambda>x. \<not> IsTerminalTaskStatus (ts_status x)) xs"
    if "sqlite_ListRecoverable None d = Inr xs" for d xs
    using that recoverable_not_terminal
    by (auto simp: sqlite_ListRecoverable_def list_all_iff scan_row_def)
  with sql_store.recoverable_after_save [OF assms, of st] show ?thesis by blast
qed

theorem sqlite_recoverable_exact_witness:
  "\<exists>xs. sqlite_ListRecoverable None (fst (sqlite_Save None
       [\<lparr>row_task_id = ''t'', row_parent_task_id = None, row_agent_name = None,
         row_status = ''running'', row_updated_at_unix = 1, row_error_message = []\<rparr>]
       \<lparr>ts_task_id = ''t'', ts_parent_task_id = [], ts_agent_name = ''coder'',
        ts_status = ''success'', ts_updated_at_unix = 2, ts_error_message = []\<rparr>)) = Inr xs \<and>
     ''t'' \<notin> ts_task_id ` set xs"
  using sqlite_recoverable_exact [of "[\<lparr>row_task_id = ''t'', row_parent_task_id = None,
       row_agent_name = None, row_status = ''running'', row_updated_at_unix = 1,
       row_error_message = []\<rparr>]"
     "\<lparr>ts_task_id = ''t'', ts_parent_task_id = [], ts_agent_name = ''coder'',
       ts_status = ''success'', ts_updated_at_unix = 2, ts_error_message = []\<rparr>"]
  by (auto simp: sqlite_schema_def)

end
