(* ===== verification/Workflow.thy ===== *)
theory Workflow
  imports Go_Prelude "HOL-Library.Multiset"
begin

text \<open>
  Package \<^verbatim>\<open>internal/workflow\<close>: the dependency graph (\<^verbatim>\<open>dag.go\<close>), the node state machine
  (\<^verbatim>\<open>state_machine.go\<close>), the executor (\<^verbatim>\<open>executor.go\<close>) and the facade (\<^verbatim>\<open>workflow.go\<close>).

  Sets of node names are lists without repetition. Where the code ranges over a map and the order
  can be observed, the argument \<open>rng\<close> rearranges the keys: \<open>is_range rng\<close> says that it returns the
  same keys in some order, and nothing else is assumed of it.
\<close>

section \<open>DAG\<close>

record dag =
  dag_nodes :: "string list"
  dag_edges :: "(string \<times> string list) list"

definition NewDAG :: dag where
  "NewDAG = \<lparr>dag_nodes = [], dag_edges = []\<rparr>"

definition AddNode :: "dag \<Rightarrow> string \<Rightarrow> dag" where
  "AddNode d n =
     (if n \<in> set (dag_nodes d) then d
      else d\<lparr>dag_nodes := dag_nodes d @ [n],
             dag_edges := (case map_of (dag_edges d) n of
                             None \<Rightarrow> AList.update n [] (dag_edges d)
                           | Some _ \<Rightarrow> dag_edges d)\<rparr>)"

definition Dependents :: "dag \<Rightarrow> string \<Rightarrow> string list" where
  "Dependents d n = (case map_of (dag_edges d) n of None \<Rightarrow> [] | Some tos \<Rightarrow> tos)"

definition AddDependency :: "dag \<Rightarrow> string \<Rightarrow> string \<Rightarrow> dag \<times> go_error option" where
  "AddDependency d node dependsOn =
     (if node \<notin> set (dag_nodes d) then (d, Some (errorf ''node not found''))
      else if dependsOn \<notin> set (dag_nodes d) then (d, Some (errorf ''dependency node not found''))
      else (d\<lparr>dag_edges :=
                AList.update dependsOn (List.insert node (Dependents d dependsOn)) (dag_edges d)\<rparr>,
            None))"

definition Dependencies :: "dag \<Rightarrow> string \<Rightarrow> string list" where
  "Dependencies d n = map fst (filter (\<lambda>(from, tos). n \<in> set tos) (dag_edges d))"

type_synonym indegrees = "(string \<times> int) list"

definition deg :: "indegrees \<Rightarrow> string \<Rightarrow> int" where
  "deg ind n = (case map_of ind n of None \<Rightarrow> 0 | Some k \<Rightarrow> k)"

definition count_edges :: "dag \<Rightarrow> indegrees" where
  "count_edges d =
     foldl (\<lambda>ind (from, tos). foldl (\<lambda>ind to. AList.update to (deg ind to + 1) ind) ind tos)
       (map (\<lambda>n. (n, 0)) (dag_nodes d)) (dag_edges d)"

text \<open>The loop over the successors of a dequeued node: decrement, and enqueue on zero.\<close>

fun relax :: "indegrees \<Rightarrow> string list \<Rightarrow> string list \<Rightarrow> indegrees \<times> string list" where
  "relax ind [] queue = (ind, queue)"
| "relax ind (to # tos) queue =
     (let ind' = AList.update to (deg ind to - 1) ind in
      relax ind' tos (if deg ind' to = 0 then queue @ [to] else queue))"

definition pos_weight :: "indegrees \<Rightarrow> nat" where
  "pos_weight ind = sum_list (map (\<lambda>(_, k). nat k) ind)"

lemma pos_weight_update:
  "pos_weight (AList.update n v ind) + nat (deg ind n) = pos_weight ind + nat v"
  by (induction ind) (auto simp: pos_weight_def deg_def)

lemma relax_weight:
  "pos_weight (fst (relax ind tos q)) + length (snd (relax ind tos q)) \<le>
     pos_weight ind + length q"
proof (induction ind tos q rule: relax.induct)
  case (1 ind queue)
  then show ?case by simp
next
  case (2 ind to tos queue)
  let ?ind = "AList.update to (deg ind to - 1) ind"
  have d: "deg ?ind to = deg ind to - 1" by (simp add: deg_def update_conv')
  have "pos_weight ?ind + nat (deg ind to) = pos_weight ind + nat (deg ind to - 1)"
    by (rule pos_weight_update)
  then have "pos_weight ?ind + length (if deg ?ind to = 0 then queue @ [to] else queue) \<le>
      pos_weight ind + length queue"
    using d by (auto split: if_splits)
  with "2.IH" [OF refl] show ?case by (simp add: Let_def)
qed

text \<open>The main loop of \<^verbatim>\<open>TopologicalOrder\<close>. It stops on every graph, cyclic or not.\<close>

function kahn :: "(string list \<Rightarrow> string list) \<Rightarrow> dag \<Rightarrow> indegrees \<Rightarrow> string list \<Rightarrow>
    string list \<Rightarrow> string list" where
  "kahn rng d ind [] order = order"
| "kahn rng d ind (n # queue) order =
     (let r = relax ind (rng (Dependents d n)) queue
      in kahn rng d (fst r) (snd r) (order @ [n]))"
  by pat_completeness auto
termination
proof (relation "measure (\<lambda>(rng, d, ind, queue, order). pos_weight ind + length queue)", goal_cases)
  case 1
  show ?case by simp
next
  case (2 rng d ind n queue order r)
  then show ?case using relax_weight [of ind "rng (Dependents d n)" queue] by simp
qed

definition TopologicalOrder :: "(string list \<Rightarrow> string list) \<Rightarrow> dag \<Rightarrow> string list res" where
  "TopologicalOrder rng d =
     (let indegree = count_edges d;
          queue = filter (\<lambda>n. deg indegree n = 0) (rng (map fst indegree));
          order = kahn rng d indegree queue []
      in if length order \<noteq> length (dag_nodes d) then Inl (errorf ''cycle detected'')
         else Inr order)"

section \<open>Node state machine\<close>

datatype node_state = NodeStatePending | NodeStateRunning | NodeStateCompleted | NodeStateFailed

fun node_state_str :: "node_state \<Rightarrow> string" where
  "node_state_str NodeStatePending = ''pending''"
| "node_state_str NodeStateRunning = ''running''"
| "node_state_str NodeStateCompleted = ''completed''"
| "node_state_str NodeStateFailed = ''failed''"

type_synonym node_sm = "(string \<times> node_state) list"

definition NewNodeStateMachine :: node_sm where
  "NewNodeStateMachine = []"

definition InitNode :: "node_sm \<Rightarrow> string \<Rightarrow> node_sm" where
  "InitNode sm n = AList.update n NodeStatePending sm"

definition State :: "node_sm \<Rightarrow> string \<Rightarrow> node_state option" where
  "State sm n = map_of sm n"

definition Transition :: "node_sm \<Rightarrow> string \<Rightarrow> node_state \<Rightarrow> node_sm \<times> go_error option" where
  "Transition sm n target =
     (case map_of sm n of
        None \<Rightarrow> (sm, Some (errorf (''unknown node: '' @ n)))
      | Some current \<Rightarrow>
          if (current = NodeStatePending \<and> target = NodeStateRunning) \<or>
             (current = NodeStateRunning \<and>
                (target = NodeStateCompleted \<or> target = NodeStateFailed))
          then (AList.update n target sm, None)
          else (sm, Some (errorf (''invalid transition: '' @ node_state_str current @ '' -> '' @
                  node_state_str target))))"

section \<open>Executor and Workflow\<close>

text \<open>
  The callback \<^verbatim>\<open>OnNodeReady\<close> is an argument; it may read and change a world \<open>'w\<close> of its own and
  may fail. \<^verbatim>\<open>NewWorkflow\<close> always installs \<^verbatim>\<open>GetAgentType\<close> as the agent mapper and nothing else
  builds an executor, so \<^verbatim>\<open>readyNode\<close> always calls the mapper. Every operation of the executor holds
  its mutex from start to end, so an operation is one atomic step.
\<close>

type_synonym 'w on_node_ready = "'w \<Rightarrow> string \<Rightarrow> string \<Rightarrow> 'w \<times> go_error option"

record workflow =
  wf_dag :: dag
  wf_sm :: node_sm
  wf_agent_types :: "(string \<times> string) list"

definition NewWorkflow :: workflow where
  "NewWorkflow = \<lparr>wf_dag = NewDAG, wf_sm = NewNodeStateMachine, wf_agent_types = []\<rparr>"

fun add_deps :: "dag \<Rightarrow> string \<Rightarrow> string list \<Rightarrow> dag \<times> go_error option" where
  "add_deps d n [] = (d, None)"
| "add_deps d n (dep # deps) =
     (case AddDependency d n dep of
        (d', Some e) \<Rightarrow> (d', Some e)
      | (d', None) \<Rightarrow> add_deps d' n deps)"

definition AddTask ::
    "workflow \<Rightarrow> string \<Rightarrow> string \<Rightarrow> string list \<Rightarrow> workflow \<times> go_error option" where
  "AddTask w n agentType deps =
     (let r = add_deps (AddNode (wf_dag w) n) n deps in
      (\<lparr>wf_dag = fst r,
        wf_sm = InitNode (wf_sm w) n,
        wf_agent_types =
          AList.update n (if agentType = [] then ''generic'' else agentType) (wf_agent_types w)\<rparr>,
       snd r))"

definition GetAgentType :: "workflow \<Rightarrow> string \<Rightarrow> string" where
  "GetAgentType w n = (case map_of (wf_agent_types w) n of None \<Rightarrow> [] | Some a \<Rightarrow> a)"

definition isNodeReady :: "workflow \<Rightarrow> string \<Rightarrow> bool" where
  "isNodeReady w n =
     (list_all (\<lambda>dep. State (wf_sm w) dep = Some NodeStateCompleted) (Dependencies (wf_dag w) n) \<and>
      (State (wf_sm w) n = Some NodeStatePending \<or> State (wf_sm w) n = Some NodeStateRunning))"

definition readyNode ::
    "'w on_node_ready \<Rightarrow> 'w \<Rightarrow> workflow \<Rightarrow> string \<Rightarrow> 'w \<times> workflow \<times> go_error option" where
  "readyNode cb x w n =
     (case Transition (wf_sm w) n NodeStateRunning of
        (_, Some e) \<Rightarrow> (x, w, Some e)
      | (sm', None) \<Rightarrow>
          let w' = w\<lparr>wf_sm := sm'\<rparr>; r = cb x (GetAgentType w' n) n in (fst r, w', snd r))"

fun start_nodes ::
    "'w on_node_ready \<Rightarrow> 'w \<Rightarrow> workflow \<Rightarrow> string list \<Rightarrow> 'w \<times> workflow \<times> go_error option" where
  "start_nodes cb x w [] = (x, w, None)"
| "start_nodes cb x w (n # ns) =
     (if Dependencies (wf_dag w) n = [] then
        (case readyNode cb x w n of
           (x', w', Some e) \<Rightarrow> (x', w', Some e)
         | (x', w', None) \<Rightarrow> start_nodes cb x' w' ns)
      else start_nodes cb x w ns)"

definition Start :: "(string list \<Rightarrow> string list) \<Rightarrow> 'w on_node_ready \<Rightarrow> 'w \<Rightarrow> workflow \<Rightarrow>
    'w \<times> workflow \<times> go_error option" where
  "Start rng cb x w = start_nodes cb x w (rng (dag_nodes (wf_dag w)))"

fun ready_dependents ::
    "'w on_node_ready \<Rightarrow> 'w \<Rightarrow> workflow \<Rightarrow> string list \<Rightarrow> 'w \<times> workflow \<times> go_error option" where
  "ready_dependents cb x w [] = (x, w, None)"
| "ready_dependents cb x w (n # ns) =
     (if isNodeReady w n then
        (case readyNode cb x w n of
           (x', w', Some e) \<Rightarrow> (x', w', Some e)
         | (x', w', None) \<Rightarrow> ready_dependents cb x' w' ns)
      else ready_dependents cb x w ns)"

definition MarkNodeCompleted :: "(string list \<Rightarrow> string list) \<Rightarrow> 'w on_node_ready \<Rightarrow> 'w \<Rightarrow>
    workflow \<Rightarrow> string \<Rightarrow> 'w \<times> workflow \<times> go_error option" where
  "MarkNodeCompleted rng cb x w n =
     (case Transition (wf_sm w) n NodeStateCompleted of
        (_, Some e) \<Rightarrow>
          (x, w, Some (GoError (''state transition failed: '' @ n @ '' -> '' @
             node_state_str NodeStateCompleted @ '': '' @ err_msg e) [ErrTransitionFailed]))
      | (sm', None) \<Rightarrow>
          ready_dependents cb x (w\<lparr>wf_sm := sm'\<rparr>) (rng (Dependents (wf_dag w) n)))"

definition MarkNodeFailed :: "workflow \<Rightarrow> string \<Rightarrow> workflow \<times> go_error option" where
  "MarkNodeFailed w n =
     (let r = Transition (wf_sm w) n NodeStateFailed in (w\<lparr>wf_sm := fst r\<rparr>, snd r))"

definition NodeState :: "workflow \<Rightarrow> string \<Rightarrow> node_state option" where
  "NodeState w n = State (wf_sm w) n"

end
