(* ===== verification/Workflow_Order.thy ===== *)
theory Workflow_Order
  imports Workflow
begin

text \<open>
  Correctness of \<^verbatim>\<open>DAG.TopologicalOrder\<close> (\<^verbatim>\<open>internal/workflow/dag.go\<close>): well-formed graphs, the
  invariant of the worklist loop, and the two properties of the result.
\<close>

section \<open>Well-formed graphs\<close>

definition is_range :: "(string list \<Rightarrow> string list) \<Rightarrow> bool" where
  "is_range rng \<longleftrightarrow> (\<forall>xs. mset (rng xs) = mset xs)"

lemma is_range_set [simp]: "is_range rng \<Longrightarrow> set (rng xs) = set xs"
  by (metis is_range_def mset_eq_setD)

lemma is_range_distinct [simp]: "is_range rng \<Longrightarrow> distinct (rng xs) = distinct xs"
  by (metis is_range_def mset_eq_imp_distinct_iff)

lemma is_range_id: "is_range (\<lambda>xs. xs)"
  by (simp add: is_range_def)

lemma is_range_rev: "is_range rev"
  by (simp add: is_range_def)

definition dag_wf :: "dag \<Rightarrow> bool" where
  "dag_wf d \<longleftrightarrow> distinct (dag_nodes d) \<and> distinct (map fst (dag_edges d)) \<and>
     (\<forall>(u, tos) \<in> set (dag_edges d). u \<in> set (dag_nodes d) \<and> distinct tos \<and>
        set tos \<subseteq> set (dag_nodes d))"

definition edge_rel :: "dag \<Rightarrow> (string \<times> string) set" where
  "edge_rel d = {(u, v). v \<in> set (Dependents d u)}"

lemma dag_wf_new: "dag_wf NewDAG"
  by (simp add: dag_wf_def NewDAG_def)

lemma set_alist_update:
  "distinct (map fst ps) \<Longrightarrow>
     set (AList.update k v ps) = {p \<in> set ps. fst p \<noteq> k} \<union> {(k, v)}"
  by (induction ps) (auto simp: rev_image_eqI)

lemma AddNode_wf: "dag_wf d \<Longrightarrow> dag_wf (AddNode d n)"
  by (auto simp: AddNode_def dag_wf_def distinct_update set_alist_update split: option.splits)

lemma Dependents_wf:
  assumes "dag_wf d"
  shows "distinct (Dependents d n)" "set (Dependents d n) \<subseteq> set (dag_nodes d)"
  using assms
  by (force simp: dag_wf_def Dependents_def dest: map_of_SomeD split: option.splits)+

lemma AddDependency_wf: "dag_wf d \<Longrightarrow> dag_wf (fst (AddDependency d n dep))"
  using Dependents_wf [of d dep]
  by (auto simp: AddDependency_def dag_wf_def distinct_update set_alist_update)

lemma Dependencies_iff:
  "dag_wf d \<Longrightarrow> u \<in> set (Dependencies d n) \<longleftrightarrow> (u, n) \<in> edge_rel d"
  by (force simp: dag_wf_def Dependencies_def edge_rel_def Dependents_def
      dest: map_of_SomeD split: option.splits)

lemma Dependencies_distinct: "dag_wf d \<Longrightarrow> distinct (Dependencies d n)"
  by (simp add: Dependencies_def dag_wf_def distinct_map_filter)

lemma edge_nodes:
  "dag_wf d \<Longrightarrow> (u, v) \<in> edge_rel d \<Longrightarrow> u \<in> set (dag_nodes d) \<and> v \<in> set (dag_nodes d)"
  by (force simp: dag_wf_def edge_rel_def Dependents_def dest: map_of_SomeD split: option.splits)

lemma edge_rel_finite: "dag_wf d \<Longrightarrow> finite (edge_rel d)"
  by (rule finite_subset [of _ "set (dag_nodes d) \<times> set (dag_nodes d)"]) (auto dest: edge_nodes)

section \<open>In-degrees\<close>

lemma deg_update [simp]: "deg (AList.update k v ind) n = (if n = k then v else deg ind n)"
  by (simp add: deg_def update_conv')

lemma keys_update: "k \<in> fst ` set ind \<Longrightarrow> map fst (AList.update k v ind) = map fst ind"
  by (induction ind) auto

lemma count_targets:
  "distinct tos \<Longrightarrow>
     deg (foldl (\<lambda>ind to. AList.update to (deg ind to + 1) ind) ind tos) v =
       deg ind v + (if v \<in> set tos then 1 else 0)"
  by (induction tos arbitrary: ind) auto

lemma count_targets_keys:
  "set tos \<subseteq> fst ` set ind \<Longrightarrow>
     map fst (foldl (\<lambda>ind to. AList.update to (deg ind to + 1) ind) ind tos) = map fst ind"
proof (induction tos arbitrary: ind)
  case Nil
  then show ?case by simp
next
  case (Cons t tos)
  let ?ind = "AList.update t (deg ind t + 1) ind"
  have k: "map fst ?ind = map fst ind" using Cons.prems by (intro keys_update) simp
  then have "fst ` set ?ind = fst ` set ind" by (metis list.set_map)
  with Cons.prems have "set tos \<subseteq> fst ` set ?ind" by simp
  from Cons.IH [OF this] k show ?case by simp
qed

lemma count_edges_fold:
  assumes "\<forall>(u, tos) \<in> set es. distinct tos \<and> set tos \<subseteq> fst ` set ind"
  defines "r \<equiv> foldl (\<lambda>ind (from, tos).
     foldl (\<lambda>ind to. AList.update to (deg ind to + 1) ind) ind tos) ind es"
  shows "deg r v = deg ind v + int (length (filter (\<lambda>(u, tos). v \<in> set tos) es))"
    and "map fst r = map fst ind"
proof -
  have "deg r v = deg ind v + int (length (filter (\<lambda>(u, tos). v \<in> set tos) es)) \<and>
      map fst r = map fst ind"
    using assms(1) unfolding r_def
  proof (induction es arbitrary: ind)
    case Nil
    then show ?case by simp
  next
    case (Cons e es)
    obtain u tos where e: "e = (u, tos)" by force
    let ?ind = "foldl (\<lambda>ind to. AList.update to (deg ind to + 1) ind) ind tos"
    have k: "map fst ?ind = map fst ind"
      using Cons.prems e by (intro count_targets_keys) auto
    then have "fst ` set ?ind = fst ` set ind" by (metis list.set_map)
    with Cons.prems have "\<forall>(u, tos) \<in> set es. distinct tos \<and> set tos \<subseteq> fst ` set ?ind" by auto
    from Cons.IH [OF this] k e Cons.prems count_targets [of tos ind v] show ?case by auto
  qed
  then show "deg r v = deg ind v + int (length (filter (\<lambda>(u, tos). v \<in> set tos) es))"
    and "map fst r = map fst ind" by simp_all
qed

lemma deg_zeros: "deg (map (\<lambda>n. (n, 0)) ns) v = 0"
  by (induction ns) (auto simp: deg_def)

lemma count_edges_wf:
  assumes "dag_wf d"
  shows "deg (count_edges d) v = int (length (Dependencies d v))"
    and "map fst (count_edges d) = dag_nodes d"
proof -
  have "\<forall>(u, tos) \<in> set (dag_edges d). distinct tos \<and>
      set tos \<subseteq> fst ` set (map (\<lambda>n. (n, 0 :: int)) (dag_nodes d))"
    using assms by (force simp: dag_wf_def)
  from count_edges_fold [OF this]
  show "deg (count_edges d) v = int (length (Dependencies d v))"
    and "map fst (count_edges d) = dag_nodes d"
    by (simp_all add: count_edges_def deg_zeros Dependencies_def comp_def)
qed

section \<open>The worklist loop\<close>

lemma relax_spec:
  "distinct tos \<Longrightarrow>
     snd (relax ind tos queue) = queue @ filter (\<lambda>t. deg ind t = 1) tos \<and>
     (\<forall>v. deg (fst (relax ind tos queue)) v = deg ind v - (if v \<in> set tos then 1 else 0))"
proof (induction ind tos queue rule: relax.induct)
  case (1 ind queue)
  then show ?case by simp
next
  case (2 ind to tos queue)
  have "filter (\<lambda>t. deg (AList.update to (deg ind to - 1) ind) t = 1) tos =
      filter (\<lambda>t. deg ind t = 1) tos"
    using "2.prems" by (intro filter_cong) auto
  with 2 show ?case by (auto simp: Let_def)
qed

definition topo_prefix :: "dag \<Rightarrow> string list \<Rightarrow> bool" where
  "topo_prefix d order \<longleftrightarrow>
     (\<forall>xs v ys. order = xs @ v # ys \<longrightarrow> set (Dependencies d v) \<subseteq> set xs)"

lemma topo_prefix_snoc:
  assumes "topo_prefix d order" and "set (Dependencies d n) \<subseteq> set order"
  shows "topo_prefix d (order @ [n])"
  unfolding topo_prefix_def
proof (intro allI impI)
  fix xs v ys
  assume eq: "order @ [n] = xs @ v # ys"
  show "set (Dependencies d v) \<subseteq> set xs"
  proof (cases ys rule: rev_cases)
    case Nil
    with eq assms(2) show ?thesis by simp
  next
    case (snoc zs z)
    with eq have "order = xs @ v # zs" by simp
    with assms(1) show ?thesis by (auto simp: topo_prefix_def)
  qed
qed

definition open_deps :: "dag \<Rightarrow> string list \<Rightarrow> string \<Rightarrow> string list" where
  "open_deps d order v = filter (\<lambda>u. u \<notin> set order) (Dependencies d v)"

definition kahn_inv :: "dag \<Rightarrow> indegrees \<Rightarrow> string list \<Rightarrow> string list \<Rightarrow> bool" where
  "kahn_inv d ind queue order \<longleftrightarrow>
     distinct (order @ queue) \<and> set (order @ queue) \<subseteq> set (dag_nodes d) \<and>
     (\<forall>v. deg ind v = int (length (open_deps d order v))) \<and>
     (\<forall>v \<in> set (dag_nodes d). v \<in> set (order @ queue) \<longleftrightarrow> open_deps d order v = []) \<and>
     topo_prefix d order"

lemma open_deps_snoc:
  assumes "dag_wf d" and "n \<notin> set order"
  shows "length (open_deps d order v) =
     length (open_deps d (order @ [n]) v) + (if v \<in> set (Dependents d n) then 1 else 0)"
proof -
  let ?xs = "open_deps d order v"
  have "distinct ?xs" using Dependencies_distinct [OF assms(1)] by (simp add: open_deps_def)
  moreover have "open_deps d (order @ [n]) v = filter (\<lambda>u. u \<noteq> n) ?xs"
    by (simp add: open_deps_def conj_commute)
  moreover have "n \<in> set ?xs \<longleftrightarrow> v \<in> set (Dependents d n)"
    using assms Dependencies_iff [OF assms(1), of n v] by (simp add: open_deps_def edge_rel_def)
  moreover have "distinct xs \<Longrightarrow>
      length xs = length (filter (\<lambda>u. u \<noteq> n) xs) + (if n \<in> set xs then 1 else 0)" for xs
  proof (induction xs)
    case (Cons a xs)
    then show ?case by (cases "n \<in> set xs") auto
  qed simp
  ultimately show ?thesis by metis
qed

lemma kahn_inv_step:
  assumes wf: "dag_wf d" and rng: "is_range rng" and inv: "kahn_inv d ind (n # queue) order"
  defines "r \<equiv> relax ind (rng (Dependents d n)) queue"
  shows "kahn_inv d (fst r) (snd r) (order @ [n])"
proof -
  let ?tos = "Dependents d n" and ?o = "order @ [n]"
  have dist: "distinct (order @ n # queue)" and sub: "set (order @ n # queue) \<subseteq> set (dag_nodes d)"
    and degs: "\<And>v. deg ind v = int (length (open_deps d order v))"
    and mem: "\<And>v. v \<in> set (dag_nodes d) \<Longrightarrow>
        v \<in> set (order @ n # queue) \<longleftrightarrow> open_deps d order v = []"
    and pre: "topo_prefix d order"
    using inv by (auto simp: kahn_inv_def)
  have tos: "distinct (rng ?tos)" "set ?tos \<subseteq> set (dag_nodes d)" "set (rng ?tos) = set ?tos"
    using Dependents_wf [OF wf] rng by auto
  have queue': "snd r = queue @ filter (\<lambda>t. deg ind t = 1) (rng ?tos)"
    and deg': "\<And>v. deg (fst r) v = deg ind v - (if v \<in> set ?tos then 1 else 0)"
    using relax_spec [OF tos(1), of ind queue] tos(3) by (auto simp: r_def)
  have n: "n \<notin> set order" "n \<in> set (dag_nodes d)" using dist sub by auto
  note opn = open_deps_snoc [OF wf n(1)]
  have new_degs: "deg (fst r) v = int (length (open_deps d ?o v))" for v
    using opn [of v] degs [of v] deg' [of v] by simp
  have new_iff: "v \<in> set (filter (\<lambda>t. deg ind t = 1) (rng ?tos)) \<longleftrightarrow>
      v \<in> set ?tos \<and> length (open_deps d order v) = 1" for v
    using tos(3) degs by auto
  have new_mem: "v \<in> set (?o @ snd r) \<longleftrightarrow> open_deps d ?o v = []" if v: "v \<in> set (dag_nodes d)" for v
  proof -
    have "v \<in> set (?o @ snd r) \<longleftrightarrow>
        open_deps d order v = [] \<or> (v \<in> set ?tos \<and> length (open_deps d order v) = 1)"
      using mem [OF v] new_iff [of v] queue' by auto
    also have "\<dots> \<longleftrightarrow> length (open_deps d ?o v) = 0"
      using opn [of v] by auto
    finally show ?thesis by simp
  qed
  have "distinct (?o @ snd r)"
  proof -
    have "v \<notin> set (order @ n # queue)" if "v \<in> set (filter (\<lambda>t. deg ind t = 1) (rng ?tos))" for v
      using that new_iff [of v] mem [of v] tos(2) by auto
    then show ?thesis using dist tos(1) queue' by auto
  qed
  moreover have "set (?o @ snd r) \<subseteq> set (dag_nodes d)"
    using sub tos queue' by auto
  moreover have "topo_prefix d ?o"
  proof (rule topo_prefix_snoc [OF pre])
    from mem [OF n(2)] have "open_deps d order n = []" by simp
    then show "set (Dependencies d n) \<subseteq> set order" by (auto simp: open_deps_def filter_empty_conv)
  qed
  ultimately show ?thesis using new_degs new_mem by (simp add: kahn_inv_def)
qed

lemma kahn_result:
  "dag_wf d \<Longrightarrow> is_range rng \<Longrightarrow> kahn_inv d ind queue order \<Longrightarrow>
     \<exists>ind'. kahn_inv d ind' [] (kahn rng d ind queue order)"
proof (induction rng d ind queue order rule: kahn.induct)
  case (1 rng d ind order)
  then show ?case by auto
next
  case (2 rng d ind n queue order)
  from kahn_inv_step [OF 2(2-4)] 2 show ?case by (simp add: Let_def)
qed

lemma kahn_init:
  assumes "dag_wf d" and "is_range rng"
  shows "kahn_inv d (count_edges d)
     (filter (\<lambda>n. deg (count_edges d) n = 0) (rng (map fst (count_edges d)))) []"
  using assms count_edges_wf [OF assms(1)]
  by (auto simp: kahn_inv_def open_deps_def topo_prefix_def dag_wf_def)

lemma topological_run:
  assumes "dag_wf d" and "is_range rng"
  obtains order where
    "TopologicalOrder rng d = (if length order \<noteq> length (dag_nodes d)
       then Inl (errorf ''cycle detected'') else Inr order)"
    "distinct order" "set order \<subseteq> set (dag_nodes d)" "topo_prefix d order"
    "\<And>v. v \<in> set (dag_nodes d) \<Longrightarrow> set (Dependencies d v) \<subseteq> set order \<Longrightarrow> v \<in> set order"
proof -
  let ?q = "filter (\<lambda>n. deg (count_edges d) n = 0) (rng (map fst (count_edges d)))"
  obtain ind where inv: "kahn_inv d ind [] (kahn rng d (count_edges d) ?q [])"
    using kahn_result [OF assms kahn_init [OF assms]] by blast
  show thesis
    by (rule that [of "kahn rng d (count_edges d) ?q []"])
      (use inv in \<open>auto simp: TopologicalOrder_def Let_def kahn_inv_def open_deps_def
        filter_empty_conv\<close>)
qed

lemma full_order_iff:
  assumes "distinct order" and "set order \<subseteq> set ns" and "distinct ns"
  shows "length order = length ns \<longleftrightarrow> set order = set ns"
  using assms by (metis card_subset_eq distinct_card finite_set)

definition before :: "string list \<Rightarrow> string \<Rightarrow> string \<Rightarrow> bool" where
  "before order u v \<longleftrightarrow> (\<exists>xs ys zs. order = xs @ u # ys @ v # zs)"

lemma topo_prefix_before:
  assumes "topo_prefix d order" and "v \<in> set order" and "u \<in> set (Dependencies d v)"
  shows "before order u v"
proof -
  from assms(2) obtain xs ys where o: "order = xs @ v # ys" by (meson split_list)
  with assms(1,3) have "u \<in> set xs" by (auto simp: topo_prefix_def)
  then obtain as bs where "xs = as @ u # bs" by (meson split_list)
  with o show ?thesis by (auto simp: before_def)
qed

lemma topo_prefix_acyclic:
  assumes wf: "dag_wf d" and pre: "topo_prefix d order" and all: "set (dag_nodes d) \<subseteq> set order"
  shows "acyclic (edge_rel d)"
proof -
  let ?pos = "\<lambda>u. length (takeWhile (\<lambda>x. x \<noteq> u) order)"
  have "edge_rel d \<subseteq> measure ?pos"
  proof
    fix e assume "e \<in> edge_rel d"
    then obtain u v where e: "e = (u, v)" "(u, v) \<in> edge_rel d" by (cases e) auto
    with wf all have v: "v \<in> set order" using edge_nodes by blast
    then obtain xs ys where o: "order = xs @ v # ys" "v \<notin> set xs" by (meson split_list_first)
    with pre e wf have "u \<in> set xs" by (auto simp: topo_prefix_def Dependencies_iff [symmetric])
    then obtain as bs where xs: "xs = as @ u # bs" "u \<notin> set as" by (meson split_list_first)
    have "takeWhile (\<lambda>x. x \<noteq> v) order = xs" using o by (auto simp: takeWhile_append)
    moreover have "takeWhile (\<lambda>x. x \<noteq> u) order = as" using o xs by (auto simp: takeWhile_append)
    ultimately show "e \<in> measure ?pos" using e xs by simp
  qed
  then show ?thesis using acyclic_subset wf_acyclic wf_measure by blast
qed

lemma acyclic_full:
  assumes wf: "dag_wf d" and acyc: "acyclic (edge_rel d)" and sub: "set order \<subseteq> set (dag_nodes d)"
    and closed: "\<And>v. v \<in> set (dag_nodes d) \<Longrightarrow> set (Dependencies d v) \<subseteq> set order \<Longrightarrow> v \<in> set order"
  shows "set order = set (dag_nodes d)"
proof (rule ccontr)
  assume "set order \<noteq> set (dag_nodes d)"
  then obtain v0 where v0: "v0 \<in> set (dag_nodes d) - set order" using sub by blast
  have "Wellfounded.wf (edge_rel d)" using edge_rel_finite [OF wf] acyc by (simp add: finite_acyclic_wf)
  then obtain v where v: "v \<in> set (dag_nodes d) - set order"
    and min: "\<And>u. (u, v) \<in> edge_rel d \<Longrightarrow> u \<notin> set (dag_nodes d) - set order"
    using v0 by (meson wfE_min)
  have "set (Dependencies d v) \<subseteq> set order"
    using min wf edge_nodes by (fastforce simp: Dependencies_iff)
  with closed v show False by blast
qed

section \<open>Properties\<close>

text \<open>
  C15. When \<^verbatim>\<open>TopologicalOrder\<close> returns an order, it lists every node exactly once and every
  dependency before the nodes that depend on it, in whatever order Go iterates the maps.
\<close>

theorem topological_order_sound:
  assumes "dag_wf d" and "is_range rng" and "TopologicalOrder rng d = Inr order"
  shows "distinct order \<and> set order = set (dag_nodes d) \<and>
     (\<forall>u v. u \<in> set (Dependencies d v) \<longrightarrow> before order u v)"
proof -
  obtain o' where o': "TopologicalOrder rng d = (if length o' \<noteq> length (dag_nodes d)
       then Inl (errorf ''cycle detected'') else Inr o')"
      "distinct o'" "set o' \<subseteq> set (dag_nodes d)" "topo_prefix d o'"
    using topological_run [OF assms(1,2)] by metis
  with assms(3) have eq: "o' = order" "length o' = length (dag_nodes d)" by (auto split: if_splits)
  then have set: "set order = set (dag_nodes d)"
    using o' assms(1) full_order_iff by (metis dag_wf_def)
  have "before order u v" if "u \<in> set (Dependencies d v)" for u v
    using topo_prefix_before [of d order v u] that o'(4) eq(1) set assms(1)
      Dependencies_iff edge_nodes by metis
  with o'(2) eq(1) set show ?thesis by blast
qed

text \<open>
  C18. \<^verbatim>\<open>TopologicalOrder\<close> succeeds exactly on the acyclic graphs and otherwise reports
  \<open>cycle detected\<close>; its loop terminates on every graph.
\<close>

theorem topological_order_detects_cycles:
  assumes "dag_wf d" and "is_range rng"
  shows "(if acyclic (edge_rel d) then \<exists>order. TopologicalOrder rng d = Inr order
     else TopologicalOrder rng d = Inl (errorf ''cycle detected''))"
proof -
  obtain order where run: "TopologicalOrder rng d = (if length order \<noteq> length (dag_nodes d)
       then Inl (errorf ''cycle detected'') else Inr order)"
      "distinct order" "set order \<subseteq> set (dag_nodes d)" "topo_prefix d order"
    and closed: "\<And>v. v \<in> set (dag_nodes d) \<Longrightarrow> set (Dependencies d v) \<subseteq> set order \<Longrightarrow>
        v \<in> set order"
    using topological_run [OF assms] by metis
  have len: "length order = length (dag_nodes d) \<longleftrightarrow> set order = set (dag_nodes d)"
    using full_order_iff [OF run(2,3)] assms(1) by (simp add: dag_wf_def)
  have "acyclic (edge_rel d) \<longleftrightarrow> set order = set (dag_nodes d)"
    using acyclic_full [OF assms(1) _ run(3) closed] topo_prefix_acyclic [OF assms(1) run(4)]
    by blast
  with run(1) len show ?thesis by auto
qed

definition diamond :: dag where
  "diamond = \<lparr>dag_nodes = [''d'', ''a'', ''b'', ''c''],
     dag_edges = [(''a'', [''b'', ''c'']), (''b'', [''d'']), (''c'', [''d'']), (''d'', [])]\<rparr>"

definition two_cycle :: dag where
  "two_cycle = \<lparr>dag_nodes = [''a'', ''b''], dag_edges = [(''a'', [''b'']), (''b'', [''a''])]\<rparr>"

lemma diamond_wf: "dag_wf diamond"
  by (simp add: dag_wf_def diamond_def)

lemma two_cycle_wf: "dag_wf two_cycle"
  by (simp add: dag_wf_def two_cycle_def)

lemma diamond_order: "TopologicalOrder rev diamond = Inr [''a'', ''c'', ''b'', ''d'']"
  by code_simp

theorem topological_order_sound_witness:
  "before [''a'', ''c'', ''b'', ''d''] ''b'' ''d''"
proof -
  have "''b'' \<in> set (Dependencies diamond ''d'')" by code_simp
  with topological_order_sound [OF diamond_wf is_range_rev diamond_order] show ?thesis by blast
qed

theorem topological_order_detects_cycles_witness:
  "TopologicalOrder (\<lambda>xs. xs) two_cycle = Inl (errorf ''cycle detected'')"
proof -
  have "(''a'', ''b'') \<in> edge_rel two_cycle" "(''b'', ''a'') \<in> edge_rel two_cycle"
    by (simp_all add: edge_rel_def two_cycle_def Dependents_def)
  then have "(''a'', ''a'') \<in> (edge_rel two_cycle)\<^sup>+" by (meson r_into_trancl trancl_trans)
  then have "\<not> acyclic (edge_rel two_cycle)" by (auto simp: acyclic_def)
  with topological_order_detects_cycles [OF two_cycle_wf is_range_id] show ?thesis by simp
qed

end
