(* ===== verification/Workflow_Exec.thy ===== *)
theory Workflow_Exec
  imports Workflow_Order
begin

text \<open>
  The executor (\<^verbatim>\<open>internal/workflow/executor.go\<close>, \<^verbatim>\<open>workflow.go\<close>) as a transition system. A workflow
  is built by any sequence of \<^verbatim>\<open>AddTask\<close> calls and then driven by \<^verbatim>\<open>Start\<close>, \<^verbatim>\<open>MarkCompleted\<close> and
  \<^verbatim>\<open>MarkFailed\<close> calls in any order, for any nodes, with any callback. The theory shows that a node
  is never started before its dependencies completed, that the callback runs exactly once per
  started node, and that a workflow whose callbacks succeed never gets stuck.
\<close>

section \<open>Steps\<close>

inductive built :: "workflow \<Rightarrow> bool" where
  new: "built NewWorkflow"
| add: "built w \<Longrightarrow> built (fst (AddTask w n agentType deps))"

inductive exec_step :: "'w on_node_ready \<Rightarrow> 'w \<times> workflow \<Rightarrow> 'w \<times> workflow \<Rightarrow> bool"
  for cb :: "'w on_node_ready" where
  start: "is_range rng \<Longrightarrow> Start rng cb x w = (x', w', e) \<Longrightarrow> exec_step cb (x, w) (x', w')"
| completed: "is_range rng \<Longrightarrow> MarkNodeCompleted rng cb x w n = (x', w', e) \<Longrightarrow>
     exec_step cb (x, w) (x', w')"
| failed: "MarkNodeFailed w n = (w', e) \<Longrightarrow> exec_step cb (x, w) (x, w')"

inductive exec_reach :: "'w on_node_ready \<Rightarrow> 'w \<Rightarrow> 'w \<times> workflow \<Rightarrow> bool"
  for cb :: "'w on_node_ready" and x0 :: 'w where
  init: "built w \<Longrightarrow> exec_reach cb x0 (x0, w)"
| step: "exec_reach cb x0 s \<Longrightarrow> exec_step cb s t \<Longrightarrow> exec_reach cb x0 t"

inductive_cases exec_stepE: "exec_step cb s t"

section \<open>The loops of the executor\<close>

text \<open>
  \<^verbatim>\<open>Start\<close> and \<^verbatim>\<open>MarkNodeCompleted\<close> run the same loop, with different conditions on the node.
\<close>

fun ready_loop :: "(workflow \<Rightarrow> string \<Rightarrow> bool) \<Rightarrow> 'w on_node_ready \<Rightarrow> 'w \<Rightarrow> workflow \<Rightarrow>
    string list \<Rightarrow> 'w \<times> workflow \<times> go_error option" where
  "ready_loop c cb x w [] = (x, w, None)"
| "ready_loop c cb x w (n # ns) =
     (if c w n then
        (case readyNode cb x w n of
           (x', w', Some e) \<Rightarrow> (x', w', Some e)
         | (x', w', None) \<Rightarrow> ready_loop c cb x' w' ns)
      else ready_loop c cb x w ns)"

lemma start_nodes_loop:
  "start_nodes cb x w ns = ready_loop (\<lambda>w n. Dependencies (wf_dag w) n = []) cb x w ns"
  by (induction ns arbitrary: x w) (auto split: option.splits prod.splits)

lemma ready_dependents_loop: "ready_dependents cb x w ns = ready_loop isNodeReady cb x w ns"
  by (induction ns arbitrary: x w) (auto split: option.splits prod.splits)

lemma ready_loop_rule:
  assumes "\<And>x w n x' w' e. I x w \<Longrightarrow> c w n \<Longrightarrow> readyNode cb x w n = (x', w', e) \<Longrightarrow> I x' w'"
  shows "I x w \<Longrightarrow> ready_loop c cb x w ns = (x', w', e) \<Longrightarrow> I x' w'"
proof (induction ns arbitrary: x w)
  case Nil
  then show ?case by simp
next
  case (Cons n ns)
  show ?case
  proof (cases "c w n")
    case False
    with Cons show ?thesis by simp
  next
    case True
    obtain x1 w1 e1 where r: "readyNode cb x w n = (x1, w1, e1)" by (cases "readyNode cb x w n")
    with True assms Cons.prems(1) have "I x1 w1" by blast
    with Cons.IH [of x1 w1] Cons.prems(2) True r show ?thesis by (cases e1) auto
  qed
qed

text \<open>One call of \<^verbatim>\<open>readyNode\<close>: either nothing changes, or a pending node becomes running.\<close>

lemma readyNode_cases:
  assumes "readyNode cb x w n = (x', w', e)"
  obtains (refused) "x' = x" "w' = w" "e \<noteq> None" "NodeState w n \<noteq> Some NodeStatePending"
  | (started) "NodeState w n = Some NodeStatePending"
      "w' = w\<lparr>wf_sm := AList.update n NodeStateRunning (wf_sm w)\<rparr>"
      "(x', e) = cb x (GetAgentType w n) n"
proof (cases "NodeState w n = Some NodeStatePending")
  case True
  then show thesis
    using assms started
    by (cases "cb x (GetAgentType w n) n")
      (auto simp: readyNode_def Transition_def NodeState_def State_def Let_def GetAgentType_def)
next
  case False
  then have "\<exists>sm' er. Transition (wf_sm w) n NodeStateRunning = (sm', Some er)"
    by (auto simp: Transition_def NodeState_def State_def split: option.splits)
  with False show thesis using assms refused by (auto simp: readyNode_def)
qed

lemma NodeState_update [simp]:
  "NodeState (w\<lparr>wf_sm := AList.update n v (wf_sm w)\<rparr>) m =
     (if m = n then Some v else NodeState w m)"
  by (simp add: NodeState_def State_def update_conv')

lemma Transition_mark:
  assumes "target = NodeStateCompleted \<or> target = NodeStateFailed"
  shows "Transition sm n target =
     (if State sm n = Some NodeStateRunning then (AList.update n target sm, None)
      else (sm, snd (Transition sm n target)))"
    and "State sm n \<noteq> Some NodeStateRunning \<Longrightarrow> snd (Transition sm n target) \<noteq> None"
  using assms by (auto simp: Transition_def State_def split: option.splits)

lemma MarkNodeCompleted_cases:
  assumes "MarkNodeCompleted rng cb x w n = (x', w', e)"
  obtains (refused) "x' = x" "w' = w"
  | (moved) "NodeState w n = Some NodeStateRunning"
      "ready_loop isNodeReady cb x (w\<lparr>wf_sm := AList.update n NodeStateCompleted (wf_sm w)\<rparr>)
         (rng (Dependents (wf_dag w) n)) = (x', w', e)"
proof (cases "NodeState w n = Some NodeStateRunning")
  case True
  then have "Transition (wf_sm w) n NodeStateCompleted =
      (AList.update n NodeStateCompleted (wf_sm w), None)"
    by (simp add: NodeState_def Transition_mark)
  with True show thesis
    using moved assms by (simp add: MarkNodeCompleted_def ready_dependents_loop)
next
  case False
  then obtain sm' er where "Transition (wf_sm w) n NodeStateCompleted = (sm', Some er)"
    using Transition_mark(2) [of NodeStateCompleted "wf_sm w" n]
    by (cases "Transition (wf_sm w) n NodeStateCompleted") (auto simp: NodeState_def)
  then show thesis using refused assms by (simp add: MarkNodeCompleted_def)
qed

lemma MarkNodeFailed_cases:
  assumes "MarkNodeFailed w n = (w', e)"
  obtains (refused) "w' = w"
  | (moved) "NodeState w n = Some NodeStateRunning"
      "w' = w\<lparr>wf_sm := AList.update n NodeStateFailed (wf_sm w)\<rparr>"
proof (cases "NodeState w n = Some NodeStateRunning")
  case True
  then show thesis
    using moved assms by (auto simp: MarkNodeFailed_def NodeState_def Transition_mark Let_def)
next
  case False
  then have "fst (Transition (wf_sm w) n NodeStateFailed) = wf_sm w"
    by (subst Transition_mark(1)) (auto simp: NodeState_def)
  then show thesis using refused assms by (simp add: MarkNodeFailed_def Let_def)
qed

section \<open>The invariant\<close>

definition wf_inv :: "workflow \<Rightarrow> bool" where
  "wf_inv w \<longleftrightarrow> dag_wf (wf_dag w) \<and>
     (\<forall>n. NodeState w n \<noteq> None \<longleftrightarrow> n \<in> set (dag_nodes (wf_dag w))) \<and>
     (\<forall>n s. NodeState w n = Some s \<and> s \<noteq> NodeStatePending \<longrightarrow>
        (\<forall>dep \<in> set (Dependencies (wf_dag w) n). NodeState w dep = Some NodeStateCompleted))"

lemma add_deps_wf:
  "dag_wf d \<Longrightarrow> dag_wf (fst (add_deps d n deps)) \<and>
     dag_nodes (fst (add_deps d n deps)) = dag_nodes d"
proof (induction d n deps rule: add_deps.induct)
  case (1 d n)
  then show ?case by simp
next
  case (2 d n dep deps)
  have "dag_nodes (fst (AddDependency d n dep)) = dag_nodes d" by (simp add: AddDependency_def)
  moreover have "dag_wf (fst (AddDependency d n dep))" using 2(2) by (rule AddDependency_wf)
  ultimately show ?case
    using 2 by (cases "AddDependency d n dep") (auto split: option.splits)
qed

lemma built_facts:
  "built w \<Longrightarrow> dag_wf (wf_dag w) \<and>
     (\<forall>n. NodeState w n = (if n \<in> set (dag_nodes (wf_dag w)) then Some NodeStatePending else None))"
proof (induction rule: built.induct)
  case new
  then show ?case
    by (simp add: NewWorkflow_def dag_wf_def NodeState_def State_def NewNodeStateMachine_def
        NewDAG_def)
next
  case (add w n agentType deps)
  then have "dag_wf (AddNode (wf_dag w) n)" using AddNode_wf by blast
  from add_deps_wf [OF this, of n deps] add show ?case
    by (auto simp: AddTask_def Let_def NodeState_def State_def InitNode_def update_conv' AddNode_def)
qed

lemma built_inv: "built w \<Longrightarrow> wf_inv w"
  using built_facts [of w] by (auto simp: wf_inv_def)

lemma readyNode_inv:
  assumes "wf_inv w"
    and "list_all (\<lambda>dep. NodeState w dep = Some NodeStateCompleted) (Dependencies (wf_dag w) n)"
    and "readyNode cb x w n = (x', w', e)"
  shows "wf_inv w'"
  using assms(3)
proof (cases rule: readyNode_cases)
  case refused
  with assms(1) show ?thesis by simp
next
  case started
  with assms(1,2) show ?thesis by (auto simp: wf_inv_def list_all_iff)
qed

lemma isNodeReady_deps:
  "isNodeReady w n \<Longrightarrow>
     list_all (\<lambda>dep. NodeState w dep = Some NodeStateCompleted) (Dependencies (wf_dag w) n)"
  by (simp add: isNodeReady_def NodeState_def)

lemma ready_loop_inv:
  assumes "\<And>w n. c w n \<Longrightarrow>
      list_all (\<lambda>dep. NodeState w dep = Some NodeStateCompleted) (Dependencies (wf_dag w) n)"
    and "wf_inv w" and "ready_loop c cb x w ns = (x', w', e)"
  shows "wf_inv w'"
  by (rule ready_loop_rule [where I = "\<lambda>_ w. wf_inv w", OF _ assms(2,3)])
    (rule readyNode_inv [OF _ assms(1)])

lemma mark_inv:
  assumes "wf_inv w" and "NodeState w n = Some NodeStateRunning" and "t \<noteq> NodeStatePending"
  shows "wf_inv (w\<lparr>wf_sm := AList.update n t (wf_sm w)\<rparr>)"
  using assms by (auto simp: wf_inv_def)

lemma exec_step_inv: "exec_step cb s t \<Longrightarrow> wf_inv (snd s) \<Longrightarrow> wf_inv (snd t)"
proof (induction rule: exec_step.induct)
  case (start rng x w x' w' e)
  then have "ready_loop (\<lambda>w n. Dependencies (wf_dag w) n = []) cb x w (rng (dag_nodes (wf_dag w)))
      = (x', w', e)"
    by (simp add: Start_def start_nodes_loop)
  from start.prems ready_loop_inv [OF _ _ this] show ?case by simp
next
  case (completed rng x w n x' w' e)
  from completed(2) show ?case
  proof (cases rule: MarkNodeCompleted_cases)
    case refused
    with completed show ?thesis by simp
  next
    case moved
    from completed.prems moved(1) have "wf_inv (w\<lparr>wf_sm := AList.update n NodeStateCompleted (wf_sm w)\<rparr>)"
      by (simp add: mark_inv)
    from ready_loop_inv [OF isNodeReady_deps this moved(2)] show ?thesis by simp
  qed
next
  case (failed w n w' e x)
  from failed(1) show ?case
    by (cases rule: MarkNodeFailed_cases) (use failed.prems in \<open>auto simp: mark_inv\<close>)
qed

lemma exec_reach_inv: "exec_reach cb x0 s \<Longrightarrow> wf_inv (snd s)"
proof (induction rule: exec_reach.induct)
  case (init w)
  then show ?case by (simp add: built_inv)
next
  case (step s t)
  then show ?case by (blast intro: exec_step_inv)
qed

section \<open>The callback log\<close>

text \<open>
  To count callback invocations, the callback is wrapped so that its world carries the list of
  (agent type, node) pairs it was called with.
\<close>

definition logged :: "'w on_node_ready \<Rightarrow> ('w \<times> (string \<times> string) list) on_node_ready" where
  "logged cb = (\<lambda>(x, log) a n. ((fst (cb x a n), log @ [(a, n)]), snd (cb x a n)))"

definition log_inv :: "'w \<times> (string \<times> string) list \<Rightarrow> workflow \<Rightarrow> bool" where
  "log_inv x w \<longleftrightarrow> distinct (map snd (snd x)) \<and>
     (\<forall>n. n \<in> snd ` set (snd x) \<longleftrightarrow>
        NodeState w n \<noteq> None \<and> NodeState w n \<noteq> Some NodeStatePending) \<and>
     (\<forall>(a, n) \<in> set (snd x). a = GetAgentType w n)"

lemma GetAgentType_sm [simp]: "GetAgentType (w\<lparr>wf_sm := sm\<rparr>) n = GetAgentType w n"
  by (simp add: GetAgentType_def)

lemma readyNode_log:
  assumes "log_inv x w" and "readyNode (logged cb) x w n = (x', w', e)"
  shows "log_inv x' w'"
  using assms(2)
proof (cases rule: readyNode_cases)
  case refused
  with assms(1) show ?thesis by simp
next
  case started
  have "n \<notin> snd ` set (snd x)" using assms(1) started(1) by (simp add: log_inv_def)
  moreover have "snd x' = snd x @ [(GetAgentType w n, n)]"
    using started(3) by (cases x) (auto simp: logged_def)
  ultimately show ?thesis using assms(1) started(1,2) by (auto simp: log_inv_def)
qed

lemma mark_log:
  "log_inv x w \<Longrightarrow> NodeState w n = Some NodeStateRunning \<Longrightarrow> t \<noteq> NodeStatePending \<Longrightarrow>
     log_inv x (w\<lparr>wf_sm := AList.update n t (wf_sm w)\<rparr>)"
  by (auto simp: log_inv_def)

lemma exec_step_log:
  "exec_step (logged cb) s t \<Longrightarrow> log_inv (fst s) (snd s) \<Longrightarrow> log_inv (fst t) (snd t)"
proof (induction rule: exec_step.induct)
  case (start rng x w x' w' e)
  then have "ready_loop (\<lambda>w n. Dependencies (wf_dag w) n = []) (logged cb) x w
      (rng (dag_nodes (wf_dag w))) = (x', w', e)"
    by (simp add: Start_def start_nodes_loop)
  with start.prems ready_loop_rule [of log_inv, OF readyNode_log] show ?case by simp
next
  case (completed rng x w n x' w' e)
  from completed(2) show ?case
  proof (cases rule: MarkNodeCompleted_cases)
    case refused
    with completed show ?thesis by simp
  next
    case moved
    from completed.prems moved(1)
    have "log_inv x (w\<lparr>wf_sm := AList.update n NodeStateCompleted (wf_sm w)\<rparr>)"
      by (simp add: mark_log)
    with ready_loop_rule [of log_inv, OF readyNode_log] moved(2) show ?thesis by simp
  qed
next
  case (failed w n w' e x)
  from failed(1) show ?case
    by (cases rule: MarkNodeFailed_cases) (use failed.prems in \<open>auto simp: mark_log\<close>)
qed

lemma exec_reach_log:
  "exec_reach (logged cb) (x0, []) s \<Longrightarrow> log_inv (fst s) (snd s)"
proof (induction rule: exec_reach.induct)
  case (init w)
  from built_facts [OF this] show ?case by (auto simp: log_inv_def)
next
  case (step s t)
  then show ?case by (blast intro: exec_step_log)
qed

section \<open>Progress\<close>

definition never_fails :: "'w on_node_ready \<Rightarrow> bool" where
  "never_fails cb \<longleftrightarrow> (\<forall>x a n. snd (cb x a n) = None)"

text \<open>A workflow is eager when every pending node still waits for a dependency.\<close>

definition eager :: "workflow \<Rightarrow> bool" where
  "eager w \<longleftrightarrow> (\<forall>n. NodeState w n = Some NodeStatePending \<longrightarrow>
     (\<exists>dep \<in> set (Dependencies (wf_dag w) n). NodeState w dep \<noteq> Some NodeStateCompleted))"

abbreviation run_node :: "workflow \<Rightarrow> string \<Rightarrow> workflow" where
  "run_node w n \<equiv> w\<lparr>wf_sm := AList.update n NodeStateRunning (wf_sm w)\<rparr>"

text \<open>Under callbacks that succeed, the loop starts every listed node that meets its condition.\<close>

lemma ready_loop_starts:
  assumes "never_fails cb"
    and stable: "\<And>w m n. NodeState w m = Some NodeStatePending \<Longrightarrow> n \<noteq> m \<Longrightarrow>
      c (run_node w m) n = c w n"
  shows "distinct ns \<Longrightarrow> (\<And>n. n \<in> set ns \<Longrightarrow> c w n \<Longrightarrow> NodeState w n = Some NodeStatePending) \<Longrightarrow>
     ready_loop c cb x w ns = (x', w', e) \<Longrightarrow>
     wf_dag w' = wf_dag w \<and>
     (\<forall>n. NodeState w' n =
        (if n \<in> set ns \<and> c w n then Some NodeStateRunning else NodeState w n))"
proof (induction ns arbitrary: x w)
  case Nil
  then show ?case by simp
next
  case (Cons m ns)
  show ?case
  proof (cases "c w m")
    case False
    have "wf_dag w' = wf_dag w \<and> (\<forall>n. NodeState w' n =
        (if n \<in> set ns \<and> c w n then Some NodeStateRunning else NodeState w n))"
      by (rule Cons.IH) (use Cons.prems False in simp_all)
    with False show ?thesis by simp
  next
    case True
    obtain x1 w1 e1 where r: "readyNode cb x w m = (x1, w1, e1)" by (cases "readyNode cb x w m")
    have pend: "NodeState w m = Some NodeStatePending" using Cons.prems(2) True by simp
    from r have w1: "w1 = run_node w m" and e1: "e1 = None"
      by (cases rule: readyNode_cases; use pend assms(1) in \<open>auto simp: never_fails_def\<close>;
          metis snd_conv)+
    have c: "c w1 n = c w n" if "n \<in> set ns" for n
      using stable [OF pend, of n] w1 that Cons.prems(1) by auto
    have ih: "wf_dag w' = wf_dag w1 \<and> (\<forall>n. NodeState w' n =
        (if n \<in> set ns \<and> c w1 n then Some NodeStateRunning else NodeState w1 n))"
    proof (rule Cons.IH)
      show "distinct ns" using Cons.prems(1) by simp
      show "NodeState w1 n = Some NodeStatePending" if "n \<in> set ns" "c w1 n" for n
        using that c Cons.prems(1,2) w1 by auto
      show "ready_loop c cb x1 w1 ns = (x', w', e)"
        using Cons.prems(3) True r e1 by simp
    qed
    show ?thesis using ih c w1 True Cons.prems(1) by auto
  qed
qed

inductive driven :: "'w on_node_ready \<Rightarrow> 'w \<times> workflow \<Rightarrow> bool" for cb :: "'w on_node_ready" where
  start: "built w \<Longrightarrow> is_range rng \<Longrightarrow> Start rng cb x w = (x', w', e) \<Longrightarrow> driven cb (x', w')"
| completed: "driven cb (x, w) \<Longrightarrow> is_range rng \<Longrightarrow> MarkNodeCompleted rng cb x w n = (x', w', e) \<Longrightarrow>
     driven cb (x', w')"
| failed: "driven cb (x, w) \<Longrightarrow> MarkNodeFailed w n = (w', e) \<Longrightarrow> driven cb (x, w')"

lemma driven_reach: "driven cb s \<Longrightarrow> \<exists>x0. exec_reach cb x0 s"
proof (induction rule: driven.induct)
  case (start w rng x x' w' e)
  then have "exec_reach cb x (x', w')"
    by (intro exec_reach.step [OF exec_reach.init exec_step.start])
  then show ?case by (rule exI)
next
  case (completed x w rng n x' w' e)
  then obtain x0 where "exec_reach cb x0 (x, w)" by (elim exE)
  then have "exec_reach cb x0 (x', w')"
    by (rule exec_reach.step) (rule exec_step.completed [OF completed(2,3)])
  then show ?case by (rule exI)
next
  case (failed x w n w' e)
  then obtain x0 where "exec_reach cb x0 (x, w)" by (elim exE)
  then have "exec_reach cb x0 (x, w')"
    by (rule exec_reach.step) (rule exec_step.failed [OF failed(2)])
  then show ?case by (rule exI)
qed

lemma driven_inv: "driven cb s \<Longrightarrow> wf_inv (snd s)"
  by (drule driven_reach) (elim exE, rule exec_reach_inv)

lemma isNodeReady_stable:
  "NodeState w m = Some NodeStatePending \<Longrightarrow> n \<noteq> m \<Longrightarrow>
     isNodeReady (run_node w m) n = isNodeReady w n"
  by (auto simp: isNodeReady_def list_all_iff State_def NodeState_def update_conv')

lemma start_eager:
  assumes "never_fails cb" and "built w" and "is_range rng" and "Start rng cb x w = (x', w', e)"
  shows "eager w'"
proof -
  let ?c = "\<lambda>w n. Dependencies (wf_dag w) n = []"
  note b = built_facts [OF assms(2)]
  have "ready_loop ?c cb x w (rng (dag_nodes (wf_dag w))) = (x', w', e)"
    using assms(4) by (simp add: Start_def start_nodes_loop)
  then have w': "wf_dag w' = wf_dag w \<and> (\<forall>n. NodeState w' n =
      (if n \<in> set (rng (dag_nodes (wf_dag w))) \<and> ?c w n then Some NodeStateRunning
       else NodeState w n))"
    by (rule ready_loop_starts [OF assms(1), rotated -1])
      (use b assms(3) in \<open>auto simp: dag_wf_def\<close>)
  show ?thesis unfolding eager_def
  proof (intro allI impI)
    fix n assume "NodeState w' n = Some NodeStatePending"
    with w' b assms(3) have "Dependencies (wf_dag w') n \<noteq> []"
      by (auto split: if_splits)
    then obtain dep where "dep \<in> set (Dependencies (wf_dag w') n)" by (meson list.set_sel(1))
    moreover have "NodeState w' dep \<noteq> Some NodeStateCompleted" using w' b by auto
    ultimately show "\<exists>dep \<in> set (Dependencies (wf_dag w') n).
        NodeState w' dep \<noteq> Some NodeStateCompleted" by blast
  qed
qed

lemma completed_eager:
  assumes "never_fails cb" and "is_range rng" and inv: "wf_inv w" and "eager w"
    and "MarkNodeCompleted rng cb x w n = (x', w', e)"
  shows "eager w'"
  using assms(5)
proof (cases rule: MarkNodeCompleted_cases)
  case refused
  with assms(4) show ?thesis by simp
next
  case moved
  let ?w = "w\<lparr>wf_sm := AList.update n NodeStateCompleted (wf_sm w)\<rparr>"
  have d: "dag_wf (wf_dag w)" using inv by (simp add: wf_inv_def)
  have pend: "NodeState ?w m = Some NodeStatePending"
    if "m \<in> set (rng (Dependents (wf_dag w) n))" "isNodeReady ?w m" for m
  proof -
    have "n \<in> set (Dependencies (wf_dag w) m)"
      using that(1) assms(2) Dependencies_iff [OF d] by (simp add: edge_rel_def)
    with inv moved(1) have "NodeState w m \<noteq> Some NodeStateRunning"
      unfolding wf_inv_def by (metis node_state.distinct(1,7) option.inject)
    then have "m \<noteq> n" using moved(1) by auto
    with that(2) \<open>NodeState w m \<noteq> _\<close> show ?thesis
      by (auto simp: isNodeReady_def NodeState_def State_def update_conv')
  qed
  have w': "wf_dag w' = wf_dag ?w \<and> (\<forall>m. NodeState w' m =
      (if m \<in> set (rng (Dependents (wf_dag w) n)) \<and> isNodeReady ?w m then Some NodeStateRunning
       else NodeState ?w m))"
    by (rule ready_loop_starts [OF assms(1) isNodeReady_stable _ pend moved(2)])
      (use Dependents_wf(1) [OF d] assms(2) in simp_all)
  show ?thesis unfolding eager_def
  proof (intro allI impI)
    fix m assume m: "NodeState w' m = Some NodeStatePending"
    with w' have m0: "NodeState w m = Some NodeStatePending" and mn: "m \<noteq> n"
      by (auto split: if_splits)
    from assms(4) m0 obtain dep where dep: "dep \<in> set (Dependencies (wf_dag w) m)"
      "NodeState w dep \<noteq> Some NodeStateCompleted" by (auto simp: eager_def)
    show "\<exists>dep \<in> set (Dependencies (wf_dag w') m). NodeState w' dep \<noteq> Some NodeStateCompleted"
    proof (rule ccontr)
      assume "\<not> ?thesis"
      then have all: "\<forall>dep \<in> set (Dependencies (wf_dag w) m). NodeState w' dep = Some NodeStateCompleted"
        using w' by simp
      then have all': "\<forall>dep \<in> set (Dependencies (wf_dag w) m). NodeState ?w dep = Some NodeStateCompleted"
        using w' by (metis node_state.distinct(7) option.inject)
      with dep have "dep = n" by (auto split: if_splits)
      with dep d assms(2) have "m \<in> set (rng (Dependents (wf_dag w) n))"
        by (simp add: Dependencies_iff edge_rel_def)
      moreover have "isNodeReady ?w m"
        using all' m0 mn
        by (simp add: isNodeReady_def list_all_iff NodeState_def State_def update_conv')
      ultimately show False using w' m by simp
    qed
  qed
qed

lemma failed_eager:
  assumes "eager w" and "MarkNodeFailed w n = (w', e)"
  shows "eager w'"
  using assms(2)
  by (cases rule: MarkNodeFailed_cases) (use assms(1) in \<open>auto simp: eager_def\<close>)

lemma driven_eager: "driven cb s \<Longrightarrow> never_fails cb \<Longrightarrow> eager (snd s)"
proof (induction rule: driven.induct)
  case (start w rng x x' w' e)
  then show ?case by (auto intro: start_eager)
next
  case (completed x w rng n x' w' e)
  then show ?case using completed_eager [of cb rng w x n x' w' e] driven_inv by fastforce
next
  case (failed x w n w' e)
  then show ?case by (auto intro: failed_eager)
qed

lemma pending_blocked:
  assumes inv: "wf_inv w" and "eager w" and acyc: "acyclic (edge_rel (wf_dag w))"
    and idle: "\<And>m. NodeState w m \<noteq> Some NodeStateRunning"
  shows "NodeState w n = Some NodeStatePending \<Longrightarrow>
     \<exists>m. (m, n) \<in> (edge_rel (wf_dag w))\<^sup>+ \<and> NodeState w m = Some NodeStateFailed"
proof -
  have d: "dag_wf (wf_dag w)" using inv by (simp add: wf_inv_def)
  then have "Wellfounded.wf (edge_rel (wf_dag w))"
    using acyc edge_rel_finite by (simp add: finite_acyclic_wf)
  then show "NodeState w n = Some NodeStatePending \<Longrightarrow> ?thesis"
  proof (induction n rule: wf_induct_rule)
    case (less n)
    then obtain dep where dep: "dep \<in> set (Dependencies (wf_dag w) n)"
      "NodeState w dep \<noteq> Some NodeStateCompleted" using assms(2) by (auto simp: eager_def)
    then have e: "(dep, n) \<in> edge_rel (wf_dag w)" using d by (simp add: Dependencies_iff)
    then have "NodeState w dep \<noteq> None" using inv edge_nodes by (auto simp: wf_inv_def)
    then consider "NodeState w dep = Some NodeStatePending" | "NodeState w dep = Some NodeStateFailed"
      using dep(2) idle [of dep] by (metis not_None_eq node_state.exhaust)
    then show ?case
    proof cases
      case 1
      with less.IH [OF e] obtain m where "(m, dep) \<in> (edge_rel (wf_dag w))\<^sup>+"
        "NodeState w m = Some NodeStateFailed" by blast
      with e show ?thesis by (meson trancl.trancl_into_trancl)
    next
      case 2
      with e show ?thesis by blast
    qed
  qed
qed

section \<open>Properties\<close>

text \<open>
  C19. Whatever sequence of \<^verbatim>\<open>Start\<close>, \<^verbatim>\<open>MarkCompleted\<close> and \<^verbatim>\<open>MarkFailed\<close> calls drives a workflow, a
  node that has left the pending state (running, completed or failed) has all its dependencies
  completed: nothing is started early, even when the callback fails.
\<close>

theorem no_node_before_its_dependencies:
  assumes "exec_reach cb x0 (x, w)" and "NodeState w n = Some s" and "s \<noteq> NodeStatePending"
    and "dep \<in> set (Dependencies (wf_dag w) n)"
  shows "NodeState w dep = Some NodeStateCompleted"
  using exec_reach_inv [OF assms(1)] assms(2-4) unfolding wf_inv_def snd_conv by metis

text \<open>
  C20. The callback is invoked exactly once for every node that was started and never for another
  node, each time with the agent type registered for that node.
\<close>

theorem callback_exactly_once:
  assumes "exec_reach (logged cb) (x0, []) ((x, log), w)"
  shows "distinct (map snd log) \<and>
     (\<forall>n. n \<in> snd ` set log \<longleftrightarrow> NodeState w n \<noteq> None \<and> NodeState w n \<noteq> Some NodeStatePending) \<and>
     list_all (\<lambda>(a, n). a = GetAgentType w n) log"
  using exec_reach_log [OF assms] by (auto simp: log_inv_def list_all_iff)

text \<open>
  C21. A started workflow over an acyclic graph whose callbacks succeed never gets stuck: when no
  node is running, every node is completed, or failed, or still pending behind a failed node it
  transitively depends on.
\<close>

theorem workflow_never_stuck:
  assumes "driven cb (x, w)" and "never_fails cb" and "acyclic (edge_rel (wf_dag w))"
    and "\<And>m. NodeState w m \<noteq> Some NodeStateRunning" and "n \<in> set (dag_nodes (wf_dag w))"
  shows "NodeState w n = Some NodeStateCompleted \<or> NodeState w n = Some NodeStateFailed \<or>
     (NodeState w n = Some NodeStatePending \<and>
      (\<exists>m. (m, n) \<in> (edge_rel (wf_dag w))\<^sup>+ \<and> NodeState w m = Some NodeStateFailed))"
proof -
  have inv: "wf_inv w" using driven_inv [OF assms(1)] by simp
  moreover have "eager w" using driven_eager [OF assms(1,2)] by simp
  ultimately have "NodeState w n = Some NodeStatePending \<Longrightarrow>
      \<exists>m. (m, n) \<in> (edge_rel (wf_dag w))\<^sup>+ \<and> NodeState w m = Some NodeStateFailed"
    using assms(3,4) by (rule pending_blocked)
  moreover have "NodeState w n \<noteq> None" using inv assms(5) by (auto simp: wf_inv_def)
  ultimately show ?thesis using assms(4) [of n] by (metis not_None_eq node_state.exhaust)
qed

subsection \<open>Witnesses on a two-node workflow\<close>

definition accept :: "unit on_node_ready" where
  "accept x a n = ((), None)"

definition demo :: workflow where
  "demo = fst (AddTask (fst (AddTask NewWorkflow ''fetch'' ''researcher'' []))
     ''plan'' [] [''fetch''])"

definition demo_started :: workflow where
  "demo_started = fst (snd (Start (\<lambda>xs. xs) accept () demo))"

definition demo_fetched :: workflow where
  "demo_fetched = fst (snd (MarkNodeCompleted (\<lambda>xs. xs) accept () demo_started ''fetch''))"

definition demo_done :: workflow where
  "demo_done = fst (snd (MarkNodeCompleted (\<lambda>xs. xs) accept () demo_fetched ''plan''))"

lemma demo_built: "built demo"
  unfolding demo_def by (intro built.intros)

lemma unit_triple: "r = ((), fst (snd r), snd (snd r))"
  by (cases r) simp

lemma unit_log_triple: "r = (((), snd (fst r)), fst (snd r), snd (snd r))"
  by (cases r; cases "fst r") simp

lemma demo_reach: "exec_reach accept () ((), demo_fetched)"
proof -
  have "exec_step accept ((), demo) ((), demo_started)"
    unfolding demo_started_def by (rule exec_step.start [OF is_range_id unit_triple])
  with exec_reach.init [OF demo_built] have "exec_reach accept () ((), demo_started)"
    by (rule exec_reach.step)
  moreover have "exec_step accept ((), demo_started) ((), demo_fetched)"
    unfolding demo_fetched_def by (rule exec_step.completed [OF is_range_id unit_triple])
  ultimately show ?thesis by (rule exec_reach.step)
qed

lemma demo_driven: "driven accept ((), demo_done)"
proof -
  have "driven accept ((), demo_started)"
    unfolding demo_started_def by (rule driven.start [OF demo_built is_range_id unit_triple])
  then have "driven accept ((), demo_fetched)"
    unfolding demo_fetched_def by (rule driven.completed [OF _ is_range_id unit_triple])
  then show ?thesis
    unfolding demo_done_def by (rule driven.completed [OF _ is_range_id unit_triple])
qed

theorem no_node_before_its_dependencies_witness:
  "NodeState demo_fetched ''fetch'' = Some NodeStateCompleted"
proof -
  have "NodeState demo_fetched ''plan'' = Some NodeStateRunning" by code_simp
  moreover have "''fetch'' \<in> set (Dependencies (wf_dag demo_fetched) ''plan'')" by code_simp
  ultimately show ?thesis
    using no_node_before_its_dependencies [OF demo_reach] by blast
qed

definition demo_logged :: "(unit \<times> (string \<times> string) list) \<times> workflow \<times> go_error option" where
  "demo_logged = Start (\<lambda>xs. xs) (logged accept) ((), []) demo"

theorem callback_exactly_once_witness:
  "map snd (snd (fst demo_logged)) = [''fetch''] \<and> distinct (map snd (snd (fst demo_logged)))"
proof -
  have log: "snd (fst demo_logged) = [(''researcher'', ''fetch'')]" by code_simp
  have "exec_step (logged accept) (((), []), demo)
      (((), snd (fst demo_logged)), fst (snd demo_logged))"
    unfolding demo_logged_def by (rule exec_step.start [OF is_range_id unit_log_triple])
  with exec_reach.init [OF demo_built]
  have "exec_reach (logged accept) ((), []) (((), snd (fst demo_logged)), fst (snd demo_logged))"
    by (rule exec_reach.step)
  from callback_exactly_once [OF this] log show ?thesis by simp
qed

theorem workflow_never_stuck_witness:
  "NodeState demo_done ''plan'' = Some NodeStateCompleted"
proof -
  have done_state: "wf_sm demo_done = [(''fetch'', NodeStateCompleted), (''plan'', NodeStateCompleted)]"
    by code_simp
  have done_dag: "wf_dag demo_done = \<lparr>dag_nodes = [''fetch'', ''plan''],
      dag_edges = [(''fetch'', [''plan'']), (''plan'', [])]\<rparr>"
    by code_simp
  have "edge_rel (wf_dag demo_done) = {(''fetch'', ''plan'')}"
    by (auto simp: edge_rel_def done_dag Dependents_def split: if_splits)
  then have "acyclic (edge_rel (wf_dag demo_done))"
    by (simp add: acyclic_insert) (simp add: acyclic_def)
  moreover have "never_fails accept" by (simp add: never_fails_def accept_def)
  moreover have "NodeState demo_done m \<noteq> Some NodeStateRunning" for m
    by (simp add: NodeState_def State_def done_state)
  moreover have "''plan'' \<in> set (dag_nodes (wf_dag demo_done))" by (simp add: done_dag)
  ultimately show ?thesis
    using workflow_never_stuck [OF demo_driven, of "''plan''"]
    by (auto simp: NodeState_def State_def done_state)
qed

end
