(* ===== verification/Go_Json.thy ===== *)
theory Go_Json
  imports Go_Prelude
begin

text \<open>
  What the repository uses of package \<^verbatim>\<open>encoding/json\<close>: the scanner (\<^verbatim>\<open>json.Valid\<close>), decoding into
  \<^verbatim>\<open>interface{}\<close>, access to the raw text of object members and array elements (what a struct with
  \<^verbatim>\<open>json.RawMessage\<close> fields receives), the first-value decoding of \<^verbatim>\<open>json.Decoder\<close>, and encoding.

  The parser is a stack machine over tokens, as the scanner of the library is; every transition
  consumes input, so it is total without fuel. The nesting limit of the library (10000) is kept.
\<close>

section \<open>Values and UTF-8\<close>

datatype json = JNull | JBool bool | JNum string | JStr string | JArr "json list"
  | JObj "(string \<times> json) list"

text \<open>
  For a lead byte: the length of its UTF-8 sequence and the range of the second byte
  (no overlong forms, no surrogates, nothing above U+10FFFF).
\<close>

definition utf8_lead :: "nat \<Rightarrow> (nat \<times> nat \<times> nat) option" where
  "utf8_lead b =
     (if 194 \<le> b \<and> b \<le> 223 then Some (2, 128, 191)
      else if b = 224 then Some (3, 160, 191)
      else if b = 237 then Some (3, 128, 159)
      else if 225 \<le> b \<and> b \<le> 239 then Some (3, 128, 191)
      else if b = 240 then Some (4, 144, 191)
      else if 241 \<le> b \<and> b \<le> 243 then Some (4, 128, 191)
      else if b = 244 then Some (4, 128, 143)
      else None)"

definition byte_in :: "nat \<Rightarrow> nat \<Rightarrow> char \<Rightarrow> bool" where
  "byte_in lo hi c = (lo \<le> (of_char c :: nat) \<and> of_char c \<le> hi)"

text \<open>Length in bytes of the valid rune a text starts with, 0 if it starts with none.\<close>

definition rune_len :: "string \<Rightarrow> nat" where
  "rune_len s =
     (case s of
        [] \<Rightarrow> 0
      | c # t \<Rightarrow>
          if of_char c < (128::nat) then 1
          else (case utf8_lead (of_char c) of
                  None \<Rightarrow> 0
                | Some (n, lo, hi) \<Rightarrow>
                    (case t of
                       [] \<Rightarrow> 0
                     | d # t' \<Rightarrow>
                         if byte_in lo hi d \<and> n - 2 \<le> length t' \<and>
                            list_all (byte_in 128 191) (take (n - 2) t')
                         then n else 0)))"

definition utf8_encode :: "nat \<Rightarrow> string" where
  "utf8_encode r =
     (if r < 128 then [char_of r]
      else if r < 2048 then [char_of (192 + r div 64), char_of (128 + r mod 64)]
      else if r < 65536 then
        [char_of (224 + r div 4096), char_of (128 + r div 64 mod 64), char_of (128 + r mod 64)]
      else
        [char_of (240 + r div 262144), char_of (128 + r div 4096 mod 64),
         char_of (128 + r div 64 mod 64), char_of (128 + r mod 64)])"

definition rune_error :: string where
  "rune_error = [CHR 0xEF, CHR 0xBF, CHR 0xBD]"

section \<open>Tokens\<close>

datatype tok = TLBrace | TRBrace | TLBrack | TRBrack | TColon | TComma
  | TStr string | TNum string | TTrue | TFalse | TNull

definition is_ws :: "char \<Rightarrow> bool" where
  "is_ws c = (c = CHR 0x20 \<or> c = CHR 0x09 \<or> c = CHR 0x0D \<or> c = CHR 0x0A)"

definition skip_ws :: "string \<Rightarrow> string" where
  "skip_ws s = dropWhile is_ws s"

definition hex4 :: "string \<Rightarrow> nat option" where
  "hex4 s =
     (case s of
        a # b # c # d # _ \<Rightarrow>
          (case (hex_val a, hex_val b, hex_val c, hex_val d) of
             (Some w, Some x, Some y, Some z) \<Rightarrow> Some (((w * 16 + x) * 16 + y) * 16 + z)
           | _ \<Rightarrow> None)
      | _ \<Rightarrow> None)"

definition simple_escape :: "char \<Rightarrow> char option" where
  "simple_escape e =
     (if e = CHR 0x22 \<or> e = CHR 0x5C \<or> e = CHR ''/'' then Some e
      else if e = CHR ''b'' then Some (CHR 0x08)
      else if e = CHR ''f'' then Some (CHR 0x0C)
      else if e = CHR ''n'' then Some (CHR 0x0A)
      else if e = CHR ''r'' then Some (CHR 0x0D)
      else if e = CHR ''t'' then Some (CHR 0x09)
      else None)"

text \<open>
  The text after \<open>\u\<close>: the decoded bytes and how many characters they took. A surrogate half
  pairs with a directly following \<open>\u\<close> escape if that is a matching low half, and is replaced by
  U+FFFD otherwise.
\<close>

definition unicode_escape :: "string \<Rightarrow> (string \<times> nat) option" where
  "unicode_escape s =
     (case hex4 s of
        None \<Rightarrow> None
      | Some r \<Rightarrow>
          if 55296 \<le> r \<and> r < 57344 then
            (case (take 2 (drop 4 s) = [CHR 0x5C, CHR ''u''], hex4 (drop 6 s)) of
               (True, Some r2) \<Rightarrow>
                 if r < 56320 \<and> 56320 \<le> r2 \<and> r2 < 57344
                 then Some (utf8_encode (65536 + (r - 55296) * 1024 + (r2 - 56320)), 10)
                 else Some (rune_error, 4)
             | _ \<Rightarrow> Some (rune_error, 4))
          else Some (utf8_encode r, 4))"

text \<open>
  One step through the inside of a string literal: the closing quote (\<open>None\<close>) or decoded bytes,
  and the rest of the text.
\<close>

definition str_step :: "string \<Rightarrow> (string option \<times> string) option" where
  "str_step s =
     (case s of
        [] \<Rightarrow> None
      | c # t \<Rightarrow>
          if c = CHR 0x22 then Some (None, t)
          else if c = CHR 0x5C then
            (case t of
               [] \<Rightarrow> None
             | e # u \<Rightarrow>
                 if e = CHR ''u'' then
                   (case unicode_escape u of
                      None \<Rightarrow> None
                    | Some (b, n) \<Rightarrow> Some (Some b, drop n u))
                 else (case simple_escape e of None \<Rightarrow> None | Some b \<Rightarrow> Some (Some [b], u)))
          else if of_char c < (32::nat) then None
          else (case rune_len s of
                  0 \<Rightarrow> Some (Some rune_error, t)
                | Suc n \<Rightarrow> Some (Some (take (Suc n) s), drop n t)))"

lemma str_step_shorter: "str_step s = Some (b, r) \<Longrightarrow> length r < length s"
  by (auto simp: str_step_def split: list.splits if_splits option.splits nat.splits)

function lex_str :: "string \<Rightarrow> (string \<times> string) option" where
  "lex_str s =
     (case str_step s of
        None \<Rightarrow> None
      | Some (None, r) \<Rightarrow> Some ([], r)
      | Some (Some b, r) \<Rightarrow>
          (case lex_str r of None \<Rightarrow> None | Some (x, r') \<Rightarrow> Some (b @ x, r')))"
  by pat_completeness auto
termination
  by (relation "measure length") (auto dest: str_step_shorter)

declare lex_str.simps [simp del]

definition digits1 :: "string \<Rightarrow> (string \<times> string) option" where
  "digits1 s =
     (if takeWhile is_digit s = [] then None
      else Some (takeWhile is_digit s, dropWhile is_digit s))"

definition lex_int :: "string \<Rightarrow> (string \<times> string) option" where
  "lex_int s =
     (case s of
        [] \<Rightarrow> None
      | c # t \<Rightarrow> if c = CHR ''0'' then Some ([c], t) else digits1 s)"

definition lex_frac :: "string \<Rightarrow> (string \<times> string) option" where
  "lex_frac s =
     (case s of
        [] \<Rightarrow> Some ([], [])
      | c # t \<Rightarrow>
          if c = CHR ''.'' then map_option (\<lambda>(d, r). (c # d, r)) (digits1 t) else Some ([], s))"

definition lex_exp :: "string \<Rightarrow> (string \<times> string) option" where
  "lex_exp s =
     (case s of
        [] \<Rightarrow> Some ([], [])
      | c # t \<Rightarrow>
          if c = CHR ''e'' \<or> c = CHR ''E'' then
            (case t of
               [] \<Rightarrow> None
             | d # u \<Rightarrow>
                 if d = CHR ''+'' \<or> d = CHR ''-''
                 then map_option (\<lambda>(x, r). (c # d # x, r)) (digits1 u)
                 else map_option (\<lambda>(x, r). (c # x, r)) (digits1 t))
          else Some ([], s))"

definition num_sign :: "string \<Rightarrow> string" where
  "num_sign s = (if has_prefix s ''-'' then ''-'' else [])"

definition lex_num :: "string \<Rightarrow> (string \<times> string) option" where
  "lex_num s =
     (case lex_int (drop (length (num_sign s)) s) of
        None \<Rightarrow> None
      | Some (i, s1) \<Rightarrow>
          (case lex_frac s1 of
             None \<Rightarrow> None
           | Some (f, s2) \<Rightarrow>
               (case lex_exp s2 of None \<Rightarrow> None | Some (x, s3) \<Rightarrow> Some (num_sign s @ i @ f @ x, s3))))"

definition punct :: "char \<Rightarrow> tok option" where
  "punct c =
     map_of [(CHR ''{'', TLBrace), (CHR ''}'', TRBrace), (CHR ''['', TLBrack), (CHR '']'', TRBrack),
             (CHR '':'', TColon), (CHR '','', TComma)] c"

definition lex_word :: "string \<Rightarrow> (tok \<times> string) option" where
  "lex_word s =
     (if has_prefix s ''true'' then Some (TTrue, drop 4 s)
      else if has_prefix s ''false'' then Some (TFalse, drop 5 s)
      else if has_prefix s ''null'' then Some (TNull, drop 4 s)
      else map_option (\<lambda>(x, r). (TNum x, r)) (lex_num s))"

definition next_tok :: "string \<Rightarrow> (tok \<times> string) option" where
  "next_tok s =
     (case skip_ws s of
        [] \<Rightarrow> None
      | c # t \<Rightarrow>
          (case punct c of
             Some p \<Rightarrow> Some (p, t)
           | None \<Rightarrow>
               if c = CHR 0x22 then map_option (\<lambda>(x, r). (TStr x, r)) (lex_str t)
               else lex_word (c # t)))"

section \<open>The stack machine\<close>

datatype frame = FArr "json list" | FObj "(string \<times> json) list" | FMem "(string \<times> json) list" string

datatype pmode = MValue | MFirstElem | MFirstKey | MKey | MColon | MNext

datatype outcome = Fail | Done json | Cont pmode "frame list"

definition max_nesting :: nat where "max_nesting = 10000"

fun finish :: "json \<Rightarrow> frame list \<Rightarrow> outcome" where
  "finish v [] = Done v"
| "finish v (FArr vs # st) = Cont MNext (FArr (v # vs) # st)"
| "finish v (FMem ms k # st) = Cont MNext (FObj ((k, v) # ms) # st)"
| "finish v (FObj ms # st) = Fail"

definition push :: "pmode \<Rightarrow> frame \<Rightarrow> frame list \<Rightarrow> outcome" where
  "push m f st = (if length st < max_nesting then Cont m (f # st) else Fail)"

fun step_value :: "tok \<Rightarrow> frame list \<Rightarrow> outcome" where
  "step_value (TStr s) st = finish (JStr s) st"
| "step_value (TNum s) st = finish (JNum s) st"
| "step_value TTrue st = finish (JBool True) st"
| "step_value TFalse st = finish (JBool False) st"
| "step_value TNull st = finish JNull st"
| "step_value TLBrack st = push MFirstElem (FArr []) st"
| "step_value TLBrace st = push MFirstKey (FObj []) st"
| "step_value _ st = Fail"

fun close_arr :: "frame list \<Rightarrow> outcome" where
  "close_arr (FArr vs # st) = finish (JArr (rev vs)) st"
| "close_arr _ = Fail"

fun close_obj :: "frame list \<Rightarrow> outcome" where
  "close_obj (FObj ms # st) = finish (JObj (rev ms)) st"
| "close_obj _ = Fail"

fun step_key :: "tok \<Rightarrow> frame list \<Rightarrow> outcome" where
  "step_key (TStr k) (FObj ms # st) = Cont MColon (FMem ms k # st)"
| "step_key _ _ = Fail"

fun step_next :: "tok \<Rightarrow> frame list \<Rightarrow> outcome" where
  "step_next TComma (FArr vs # st) = Cont MValue (FArr vs # st)"
| "step_next TRBrack (FArr vs # st) = close_arr (FArr vs # st)"
| "step_next TComma (FObj ms # st) = Cont MKey (FObj ms # st)"
| "step_next TRBrace (FObj ms # st) = close_obj (FObj ms # st)"
| "step_next _ _ = Fail"

fun step :: "pmode \<Rightarrow> tok \<Rightarrow> frame list \<Rightarrow> outcome" where
  "step MValue t st = step_value t st"
| "step MFirstElem t st = (if t = TRBrack then close_arr st else step_value t st)"
| "step MFirstKey t st = (if t = TRBrace then close_obj st else step_key t st)"
| "step MKey t st = step_key t st"
| "step MColon t st = (if t = TColon then Cont MValue st else Fail)"
| "step MNext t st = step_next t st"

lemma skip_ws_length: "length (skip_ws s) \<le> length s"
  by (simp add: skip_ws_def length_dropWhile_le)

lemma lex_str_shorter: "lex_str s = Some (x, r) \<Longrightarrow> length r < length s"
proof (induction s arbitrary: x r rule: lex_str.induct)
  case (1 s)
  note eq = lex_str.simps [of s]
  show ?case
  proof (cases "str_step s")
    case None
    with "1.prems" show ?thesis by (simp add: eq)
  next
    case (Some p)
    obtain o' r1 where p: "p = (o', r1)" by (cases p)
    have r1: "length r1 < length s" using Some p str_step_shorter by simp
    show ?thesis
    proof (cases o')
      case None
      with "1.prems" Some p r1 show ?thesis by (simp add: eq)
    next
      case o: (Some b)
      with "1.prems" Some p obtain y where "lex_str r1 = Some (y, r)"
        by (auto simp: eq split: option.splits)
      with "1.IH" [OF Some p [symmetric] o] r1 show ?thesis by fastforce
    qed
  qed
qed

lemma digits1_shorter: "digits1 s = Some (d, r) \<Longrightarrow> length r < length s"
  by (cases s) (auto simp: digits1_def le_imp_less_Suc length_dropWhile_le split: if_splits)

lemma lex_int_shorter: "lex_int a = Some (i, b) \<Longrightarrow> length b < length a"
  by (auto simp: lex_int_def dest: digits1_shorter split: list.splits if_splits)

lemma lex_frac_shorter: "lex_frac a = Some (i, b) \<Longrightarrow> length b \<le> length a"
  by (auto simp: lex_frac_def dest!: digits1_shorter split: list.splits if_splits)

lemma lex_exp_shorter: "lex_exp a = Some (i, b) \<Longrightarrow> length b \<le> length a"
  by (auto simp: lex_exp_def dest!: digits1_shorter split: list.splits if_splits)

lemma lex_num_parts:
  assumes "lex_num s = Some (x, r)"
  obtains i s1 f s2 e where "lex_int (drop (length (num_sign s)) s) = Some (i, s1)"
    "lex_frac s1 = Some (f, s2)" "lex_exp s2 = Some (e, r)" "x = num_sign s @ i @ f @ e"
  using assms unfolding lex_num_def
  by (auto split: option.splits prod.splits)

lemma lex_num_shorter: "lex_num s = Some (x, r) \<Longrightarrow> length r < length s"
proof (elim lex_num_parts)
  fix i s1 f s2 e
  assume "lex_int (drop (length (num_sign s)) s) = Some (i, s1)" "lex_frac s1 = Some (f, s2)"
    "lex_exp s2 = Some (e, r)"
  then have "length s1 < length (drop (length (num_sign s)) s)" "length s2 \<le> length s1" "length r \<le> length s2"
    by (blast intro: lex_int_shorter lex_frac_shorter lex_exp_shorter)+
  then show ?thesis by simp
qed

lemma lex_word_shorter: "lex_word s = Some (t, r) \<Longrightarrow> s \<noteq> [] \<Longrightarrow> length r < length s"
  unfolding lex_word_def by (auto split: if_splits dest!: lex_num_shorter)

lemma next_tok_shorter:
  assumes "next_tok s = Some (t, r)"
  shows "length r < length s"
proof -
  obtain c u where cu: "skip_ws s = c # u"
    using assms by (cases "skip_ws s") (simp_all add: next_tok_def)
  have "length r < length (c # u)"
    using assms cu unfolding next_tok_def
    by (auto split: if_splits option.splits dest!: lex_str_shorter lex_word_shorter)
  then show ?thesis using skip_ws_length [of s] cu by simp
qed

function run :: "pmode \<Rightarrow> frame list \<Rightarrow> string \<Rightarrow> (json \<times> string) option" where
  "run m st s =
     (case next_tok s of
        None \<Rightarrow> None
      | Some (t, r) \<Rightarrow>
          (case step m t st of
             Fail \<Rightarrow> None
           | Done v \<Rightarrow> Some (v, r)
           | Cont m' st' \<Rightarrow> run m' st' r))"
  by pat_completeness auto
termination
  by (relation "measure (\<lambda>(m, st, s). length s)") (auto dest: next_tok_shorter)

declare run.simps [simp del]

text \<open>The first value of a text and what follows it, as \<^verbatim>\<open>json.Decoder\<close> reads it.\<close>

definition json_prefix :: "string \<Rightarrow> (json \<times> string) option" where
  "json_prefix s = run MValue [] s"

text \<open>The whole text as one value, as \<^verbatim>\<open>json.Unmarshal\<close> and \<^verbatim>\<open>json.Valid\<close> read it.\<close>

definition json_parse :: "string \<Rightarrow> json option" where
  "json_parse s =
     (case json_prefix s of
        None \<Rightarrow> None
      | Some (v, r) \<Rightarrow> if skip_ws r = [] then Some v else None)"

definition json_valid :: "string \<Rightarrow> bool" where
  "json_valid s = (json_parse s \<noteq> None)"

section \<open>Encoding\<close>

definition hex2 :: "nat \<Rightarrow> string" where
  "hex2 n = [hex_digit (n div 16), hex_digit (n mod 16)]"

text \<open>The escape of one ASCII character by \<^verbatim>\<open>json.Marshal\<close> (HTML escaping is on).\<close>

definition escape_ascii :: "char \<Rightarrow> string" where
  "escape_ascii c =
     (if c = CHR 0x22 \<or> c = CHR 0x5C then [CHR 0x5C, c]
      else if c = CHR 0x08 then [CHR 0x5C, CHR ''b'']
      else if c = CHR 0x0C then [CHR 0x5C, CHR ''f'']
      else if c = CHR 0x0A then [CHR 0x5C, CHR ''n'']
      else if c = CHR 0x0D then [CHR 0x5C, CHR ''r'']
      else if c = CHR 0x09 then [CHR 0x5C, CHR ''t'']
      else if of_char c < (32::nat) \<or> c = CHR ''<'' \<or> c = CHR ''>'' \<or> c = CHR ''&''
      then [CHR 0x5C] @ ''u00'' @ hex2 (of_char c)
      else [c])"

definition escape_rune :: "string \<Rightarrow> string" where
  "escape_rune r =
     (if r = [CHR 0xE2, CHR 0x80, CHR 0xA8] then [CHR 0x5C] @ ''u2028''
      else if r = [CHR 0xE2, CHR 0x80, CHR 0xA9] then [CHR 0x5C] @ ''u2029''
      else r)"

fun quote_body :: "string \<Rightarrow> string" where
  "quote_body [] = []"
| "quote_body (c # s) =
     (if of_char c < (128::nat) then escape_ascii c @ quote_body s
      else (case rune_len (c # s) of
              0 \<Rightarrow> [CHR 0x5C] @ ''ufffd'' @ quote_body s
            | Suc n \<Rightarrow> escape_rune (take (Suc n) (c # s)) @ quote_body (drop n s)))"

definition quote :: "string \<Rightarrow> string" where
  "quote s = [CHR 0x22] @ quote_body s @ [CHR 0x22]"

text \<open>Objects and arrays from the texts of their parts.\<close>

definition obj_text :: "(string \<times> string) list \<Rightarrow> string" where
  "obj_text ms = ''{'' @ join '','' (map (\<lambda>(k, v). quote k @ '':'' @ v) ms) @ ''}''"

definition arr_text :: "string list \<Rightarrow> string" where
  "arr_text vs = ''['' @ join '','' vs @ '']''"

fun json_print :: "json \<Rightarrow> string" where
  "json_print JNull = ''null''"
| "json_print (JBool b) = (if b then ''true'' else ''false'')"
| "json_print (JNum n) = n"
| "json_print (JStr s) = quote s"
| "json_print (JArr vs) = arr_text (map json_print vs)"
| "json_print (JObj ms) = obj_text (map (\<lambda>(k, v). (k, json_print v)) ms)"

section \<open>Raw members and elements\<close>

lemma run_shorter: "run m st s = Some (v, r) \<Longrightarrow> length r < length s"
proof (induction m st s rule: run.induct)
  case (1 m st s)
  note eq = run.simps [of m st s]
  obtain t r1 where t: "next_tok s = Some (t, r1)"
    using "1.prems" by (auto simp: eq split: option.splits)
  then have r1: "length r1 < length s" by (rule next_tok_shorter)
  show ?case
  proof (cases "step m t st")
    case Fail
    with "1.prems" t show ?thesis by (simp add: eq)
  next
    case (Done w)
    with "1.prems" t r1 show ?thesis by (simp add: eq)
  next
    case (Cont m' st')
    with "1.prems" t have "run m' st' r1 = Some (v, r)" by (simp add: eq)
    with "1.IH" [OF t refl Cont] r1 show ?thesis by simp
  qed
qed

lemma json_prefix_shorter: "json_prefix s = Some (v, r) \<Longrightarrow> length r < length s"
  by (simp add: json_prefix_def run_shorter)

text \<open>The text of the first value of \<open>s\<close> and what follows it.\<close>

definition raw_value :: "string \<Rightarrow> (string \<times> string) option" where
  "raw_value s =
     (case json_prefix s of
        None \<Rightarrow> None
      | Some (_, r) \<Rightarrow> Some (take (length (skip_ws s) - length r) (skip_ws s), r))"

lemma raw_value_shorter: "raw_value s = Some (x, r) \<Longrightarrow> length r < length s"
  by (auto simp: raw_value_def dest: json_prefix_shorter split: option.splits)

definition raw_member :: "string \<Rightarrow> ((string \<times> string) \<times> string) option" where
  "raw_member s =
     (case next_tok s of
        Some (TStr k, r1) \<Rightarrow>
          (case next_tok r1 of
             Some (TColon, r2) \<Rightarrow> map_option (\<lambda>(x, r3). ((k, x), r3)) (raw_value r2)
           | _ \<Rightarrow> None)
      | _ \<Rightarrow> None)"

lemma raw_member_shorter: "raw_member s = Some (x, r) \<Longrightarrow> length r < length s"
  unfolding raw_member_def
  by (auto split: option.splits tok.splits dest!: next_tok_shorter raw_value_shorter)

text \<open>Comma-separated items up to the closing token.\<close>

function raw_items :: "(string \<Rightarrow> ('a \<times> string) option) \<Rightarrow> tok \<Rightarrow> string \<Rightarrow> 'a list option" where
  "raw_items item close s =
     (case item s of
        None \<Rightarrow> None
      | Some (x, r) \<Rightarrow>
          if length r < length s then
            (case next_tok r of
               None \<Rightarrow> None
             | Some (t, r') \<Rightarrow>
                 if t = close then Some [x]
                 else if t = TComma then map_option ((#) x) (raw_items item close r')
                 else None)
          else None)"
  by pat_completeness auto
termination
  by (relation "measure (\<lambda>(i, c, s). length s)") (auto dest!: next_tok_shorter)

declare raw_items.simps [simp del]

definition raw_list :: "(string \<Rightarrow> ('a \<times> string) option) \<Rightarrow> tok \<Rightarrow> tok \<Rightarrow> string \<Rightarrow> 'a list option" where
  "raw_list item open_t close s =
     (case next_tok s of
        None \<Rightarrow> None
      | Some (t, r) \<Rightarrow>
          if t = open_t then
            (case next_tok r of
               None \<Rightarrow> None
             | Some (t', _) \<Rightarrow> if t' = close then Some [] else raw_items item close r)
          else None)"

text \<open>The members of an object text with the exact text of their values, and the elements of an
  array text.\<close>

definition obj_members :: "string \<Rightarrow> (string \<times> string) list option" where
  "obj_members s = raw_list raw_member TLBrace TRBrace s"

definition arr_elems :: "string \<Rightarrow> string list option" where
  "arr_elems s = raw_list raw_value TLBrack TRBrack s"

section \<open>Decoding into Go values\<close>

text \<open>
  A decoder takes the text of a value and the Go value decoded so far and gives the value after
  decoding, or \<open>None\<close> if \<^verbatim>\<open>encoding/json\<close> reports an error. Like the library, \<^verbatim>\<open>null\<close> leaves
  strings, numbers, booleans and structs as they were, a repeated key decodes again over the
  earlier value, and a key selects the field whose name equals it up to case folding (the field
  names of one struct never agree up to case, so an exact match never competes with a folded one).
\<close>

type_synonym 'a decoder = "string \<Rightarrow> 'a \<Rightarrow> 'a option"

fun fold_name :: "string \<Rightarrow> string" where
  "fold_name [] = []"
| "fold_name (c # s) =
     (if has_prefix (c # s) [CHR 0xE2, CHR 0x84, CHR 0xAA] then CHR ''K'' # fold_name (drop 2 s)
      else if has_prefix (c # s) [CHR 0xC5, CHR 0xBF] then CHR ''S'' # fold_name (drop 1 s)
      else upper_char c # fold_name s)"

definition find_field :: "(string \<times> 'b) list \<Rightarrow> string \<Rightarrow> 'b option" where
  "find_field fs k = map_option snd (find (\<lambda>f. fold_name (fst f) = fold_name k) fs)"

fun dec_members :: "bool \<Rightarrow> (string \<times> 'a decoder) list \<Rightarrow> (string \<times> string) list \<Rightarrow> 'a \<Rightarrow> 'a option" where
  "dec_members strict fs [] a = Some a"
| "dec_members strict fs ((k, x) # ms) a =
     (case find_field fs k of
        Some d \<Rightarrow> (case d x a of None \<Rightarrow> None | Some a' \<Rightarrow> dec_members strict fs ms a')
      | None \<Rightarrow> if strict then None else dec_members strict fs ms a)"

text \<open>\<open>strict\<close> is \<^verbatim>\<open>DisallowUnknownFields\<close>.\<close>

definition dec_struct :: "bool \<Rightarrow> (string \<times> 'a decoder) list \<Rightarrow> 'a decoder" where
  "dec_struct strict fs x a =
     (case json_parse x of
        Some JNull \<Rightarrow> Some a
      | Some (JObj _) \<Rightarrow>
          (case obj_members x of None \<Rightarrow> None | Some ms \<Rightarrow> dec_members strict fs ms a)
      | _ \<Rightarrow> None)"

definition dec_str :: "(string \<Rightarrow> 'a \<Rightarrow> 'a) \<Rightarrow> 'a decoder" where
  "dec_str upd x a =
     (case json_parse x of Some (JStr s) \<Rightarrow> Some (upd s a) | Some JNull \<Rightarrow> Some a | _ \<Rightarrow> None)"

definition dec_bool :: "(bool \<Rightarrow> 'a \<Rightarrow> 'a) \<Rightarrow> 'a decoder" where
  "dec_bool upd x a =
     (case json_parse x of Some (JBool b) \<Rightarrow> Some (upd b a) | Some JNull \<Rightarrow> Some a | _ \<Rightarrow> None)"

definition dec_int64 :: "(int \<Rightarrow> 'a \<Rightarrow> 'a) \<Rightarrow> 'a decoder" where
  "dec_int64 upd x a =
     (case json_parse x of
        Some (JNum n) \<Rightarrow> map_option (\<lambda>i. upd i a) (parse_int64 n)
      | Some JNull \<Rightarrow> Some a
      | _ \<Rightarrow> None)"

text \<open>A \<^verbatim>\<open>json.RawMessage\<close> field receives the text of the value, \<^verbatim>\<open>null\<close> included.\<close>

definition dec_raw :: "(string \<Rightarrow> 'a \<Rightarrow> 'a) \<Rightarrow> 'a decoder" where
  "dec_raw upd x a = Some (upd x a)"

text \<open>
  A slice: the elements decode over the earlier elements of the slice, or over the zero value.
\<close>

fun dec_elems :: "'b decoder \<Rightarrow> 'b \<Rightarrow> string list \<Rightarrow> 'b list \<Rightarrow> 'b list option" where
  "dec_elems d z [] old = Some []"
| "dec_elems d z (x # xs) old =
     (case d x (case old of [] \<Rightarrow> z | o' # _ \<Rightarrow> o') of
        None \<Rightarrow> None
      | Some v \<Rightarrow> map_option ((#) v) (dec_elems d z xs (tl old)))"

definition dec_slice :: "'b decoder \<Rightarrow> 'b \<Rightarrow> ('a \<Rightarrow> 'b list) \<Rightarrow> ('b list \<Rightarrow> 'a \<Rightarrow> 'a) \<Rightarrow> 'a decoder" where
  "dec_slice d z get upd x a =
     (case json_parse x of
        Some JNull \<Rightarrow> Some (upd [] a)
      | Some (JArr _) \<Rightarrow>
          (case arr_elems x of
             None \<Rightarrow> None
           | Some xs \<Rightarrow> map_option (\<lambda>vs. upd vs a) (dec_elems d z xs (get a)))
      | _ \<Rightarrow> None)"

text \<open>\<^verbatim>\<open>json.Unmarshal\<close> of a whole text, and one \<^verbatim>\<open>Decode\<close> of a \<^verbatim>\<open>json.Decoder\<close> with the rest of
  its input. A second \<^verbatim>\<open>Decode\<close> reports \<^verbatim>\<open>io.EOF\<close> iff only white space is left.\<close>

definition unmarshal :: "'a decoder \<Rightarrow> 'a \<Rightarrow> string \<Rightarrow> 'a option" where
  "unmarshal d z s = (if json_valid s then d s z else None)"

definition decode_first :: "'a decoder \<Rightarrow> 'a \<Rightarrow> string \<Rightarrow> ('a \<times> string) option" where
  "decode_first d z s =
     (case raw_value s of None \<Rightarrow> None | Some (x, r) \<Rightarrow> map_option (\<lambda>a. (a, r)) (d x z))"

definition at_eof :: "string \<Rightarrow> bool" where
  "at_eof r = (skip_ws r = [])"

section \<open>Encoding raw messages\<close>

text \<open>\<^verbatim>\<open>json.Marshal\<close> of a \<^verbatim>\<open>json.RawMessage\<close>: white space outside strings is dropped and the HTML
  characters and the line separators inside strings are escaped; an invalid text is an error.\<close>

fun compact_loop :: "bool \<Rightarrow> string \<Rightarrow> string" where
  "compact_loop in_str [] = []"
| "compact_loop False (c # s) =
     (if is_ws c then compact_loop False s else c # compact_loop (c = CHR 0x22) s)"
| "compact_loop True (c # s) =
     (if c = CHR 0x5C then
        (case s of [] \<Rightarrow> [c] | e # t \<Rightarrow> c # e # compact_loop True t)
      else if c = CHR 0x22 then c # compact_loop False s
      else if c = CHR ''<'' \<or> c = CHR ''>'' \<or> c = CHR ''&'' then escape_ascii c @ compact_loop True s
      else if has_prefix (c # s) [CHR 0xE2, CHR 0x80, CHR 0xA8] then
        [CHR 0x5C] @ ''u2028'' @ compact_loop True (drop 2 s)
      else if has_prefix (c # s) [CHR 0xE2, CHR 0x80, CHR 0xA9] then
        [CHR 0x5C] @ ''u2029'' @ compact_loop True (drop 2 s)
      else c # compact_loop True s)"

definition marshal_raw :: "string \<Rightarrow> string option" where
  "marshal_raw x = (if json_valid x then Some (compact_loop False x) else None)"

section \<open>Numbers\<close>

text \<open>
  The value of a number literal as mantissa and decimal exponent, and comparisons of its
  \<^verbatim>\<open>float32\<close> rounding (to nearest, ties to even): it is below 0 iff the literal is below \<open>-2\<^sup>-\<^sup>1\<^sup>5\<^sup>0\<close>
  (halfway to the least subnormal), above 2 iff the literal is above \<open>2 + 2\<^sup>-\<^sup>2\<^sup>3\<close> (halfway to the
  next float), and out of range iff the magnitude reaches \<open>2\<^sup>1\<^sup>2\<^sup>8 - 2\<^sup>1\<^sup>0\<^sup>3\<close>.
\<close>

definition digits_val :: "string \<Rightarrow> int" where
  "digits_val ds = foldl (\<lambda>a c. 10 * a + int (digit_val c)) 0 ds"

definition num_parts :: "string \<Rightarrow> int \<times> int" where
  "num_parts n =
     (let neg = has_prefix n ''-'';
          u = trim_prefix n ''-'';
          i = takeWhile is_digit u;
          r = dropWhile is_digit u;
          f = (if has_prefix r ''.'' then takeWhile is_digit (drop 1 r) else []);
          r' = (if has_prefix r ''.'' then dropWhile is_digit (drop 1 r) else r);
          e = (case r' of
                 [] \<Rightarrow> 0
               | _ # d # x \<Rightarrow> if d = CHR ''-'' then - digits_val x
                             else if d = CHR ''+'' then digits_val x else digits_val (d # x)
               | _ \<Rightarrow> 0)
      in ((if neg then - digits_val (i @ f) else digits_val (i @ f)), e - int (length f)))"

text \<open>\<open>num_gt n p k\<close>: the literal exceeds \<open>p / 2\<^sup>k\<close>.\<close>

definition num_gt :: "string \<Rightarrow> int \<Rightarrow> nat \<Rightarrow> bool" where
  "num_gt n p k =
     (let (m, e) = num_parts n in
      if 0 \<le> e then p < m * 10 ^ nat e * 2 ^ k else p * 10 ^ nat (- e) < m * 2 ^ k)"

definition num_lt :: "string \<Rightarrow> int \<Rightarrow> nat \<Rightarrow> bool" where
  "num_lt n p k =
     (let (m, e) = num_parts n in
      if 0 \<le> e then m * 10 ^ nat e * 2 ^ k < p else m * 2 ^ k < p * 10 ^ nat (- e))"

definition f32_neg :: "string \<Rightarrow> bool" where
  "f32_neg n = num_lt n (- 1) 150"

definition f32_above_2 :: "string \<Rightarrow> bool" where
  "f32_above_2 n = num_gt n (2 ^ 24 + 1) 23"

definition f32_overflow :: "string \<Rightarrow> bool" where
  "f32_overflow n = (\<not> num_lt n (2 ^ 128 - 2 ^ 103) 0 \<or> \<not> num_gt n (- (2 ^ 128 - 2 ^ 103)) 0)"

text \<open>A \<^verbatim>\<open>*float32\<close> field holds the literal (its rounding is what the code looks at).\<close>

definition dec_float32 :: "(string option \<Rightarrow> 'a \<Rightarrow> 'a) \<Rightarrow> 'a decoder" where
  "dec_float32 upd x a =
     (case json_parse x of
        Some (JNum n) \<Rightarrow> if f32_overflow n then None else Some (upd (Some n) a)
      | Some JNull \<Rightarrow> Some (upd None a)
      | _ \<Rightarrow> None)"

end
