(* ===== verification/Json_Roundtrip.thy ===== *)
theory Json_Roundtrip
  imports Go_Json
begin

text \<open>
  Encoding followed by decoding is the identity: the text \<^verbatim>\<open>json.Marshal\<close> writes for a value is
  read back as that value, whatever may follow it in a larger document. The lemmas are stated
  with the rest of the input explicit, so that the encoders of structs reuse them member by member.
\<close>

section \<open>Strings\<close>

function utf8_valid :: "string \<Rightarrow> bool" where
  "utf8_valid [] = True"
| "utf8_valid (c # s) =
     (case rune_len (c # s) of 0 \<Rightarrow> False | Suc n \<Rightarrow> utf8_valid (drop n s))"
  by pat_completeness auto
termination
  by (relation "measure length") (auto simp: less_Suc_eq_le)

lemma rune_len_ascii: "of_char c < (128::nat) \<Longrightarrow> rune_len (c # s) = 1"
  by (simp add: rune_len_def)

lemma utf8_valid_ascii [simp]: "list_all (\<lambda>c. of_char c < (128::nat)) s \<Longrightarrow> utf8_valid s"
  by (induction s) (simp_all add: rune_len_ascii)

lemma utf8_lead_len: "utf8_lead b = Some (n, lo, hi) \<Longrightarrow> 2 \<le> n"
  by (auto simp: utf8_lead_def split: if_splits)

lemma rune_len_multi:
  assumes "\<not> of_char c < (128::nat)" and "rune_len (c # s) = Suc n"
  obtains lo hi d t where "utf8_lead (of_char c) = Some (Suc n, lo, hi)" "s = d # t"
    "byte_in lo hi d" "n - 1 \<le> length t" "list_all (byte_in 128 191) (take (n - 1) t)" "1 \<le> n"
proof -
  obtain k lo hi where l: "utf8_lead (of_char c) = Some (k, lo, hi)"
    using assms by (cases "utf8_lead (of_char c)") (auto simp: rune_len_def)
  obtain d t where s: "s = d # t"
    using assms l by (cases s) (auto simp: rune_len_def)
  have k: "k = Suc n \<and> byte_in lo hi d \<and> k - 2 \<le> length t \<and> list_all (byte_in 128 191) (take (k - 2) t)"
    using assms l s by (simp add: rune_len_def split: if_splits)
  moreover have "2 \<le> k" using l by (rule utf8_lead_len)
  ultimately show ?thesis using that [of lo hi d t] l s by (auto simp: numeral_2_eq_2)
qed

lemma rune_len_take:
  assumes "\<not> of_char c < (128::nat)" and "rune_len (c # s) = Suc n"
  shows "n \<le> length s" "rune_len (c # take n s @ t) = Suc n"
  using assms
  by (elim rune_len_multi, auto simp: rune_len_def take_Cons' numeral_2_eq_2)+

lemma hex4_of_hex2 [simp]:
  assumes "n < 256"
  shows "hex4 (CHR ''0'' # CHR ''0'' # hex_digit (n div 16) # hex_digit (n mod 16) # t) = Some n"
proof -
  have v: "k < 16 \<Longrightarrow> hex_val (hex_digit k) = Some k" for k :: nat
    by (auto simp: hex_val_def hex_digit_def Let_def)
  have "hex_val (CHR ''0'') = Some 0" by (simp add: hex_val_def)
  with v [of "n div 16"] v [of "n mod 16"] assms show ?thesis
    by (simp add: hex4_def)
qed

lemma str_step_u00:
  assumes "n < 128"
  shows "str_step ([CHR 0x5C] @ ''u00'' @ hex2 n @ t) = Some (Some [char_of n], t)"
  using assms by (simp add: str_step_def unicode_escape_def hex2_def utf8_encode_def)

lemma str_step_escape_ascii:
  assumes "of_char c < (128::nat)"
  shows "str_step (escape_ascii c @ t) = Some (Some [c], t)"
proof (cases "c \<in> {CHR 0x22, CHR 0x5C, CHR 0x08, CHR 0x0C, CHR 0x0A, CHR 0x0D, CHR 0x09}")
  case True
  then show ?thesis by (auto simp: escape_ascii_def str_step_def simple_escape_def)
next
  case False
  show ?thesis
  proof (cases "of_char c < (32::nat) \<or> c = CHR ''<'' \<or> c = CHR ''>'' \<or> c = CHR ''&''")
    case True
    with False have "escape_ascii c = [CHR 0x5C] @ ''u00'' @ hex2 (of_char c)"
      by (simp add: escape_ascii_def)
    then show ?thesis using str_step_u00 [OF assms, of t] by (simp del: append_Cons)
  next
    case plain: False
    with False have "escape_ascii c = [c]" by (simp add: escape_ascii_def)
    with plain False assms show ?thesis by (simp add: str_step_def rune_len_ascii)
  qed
qed

lemma str_step_rune:
  assumes "\<not> of_char c < (128::nat)" and "rune_len (c # s) = Suc n"
  shows "str_step (escape_rune (take (Suc n) (c # s)) @ t) = Some (Some (take (Suc n) (c # s)), t)"
proof (cases "escape_rune (take (Suc n) (c # s)) = take (Suc n) (c # s)")
  case True
  have "c \<noteq> CHR 0x22" "c \<noteq> CHR 0x5C" using assms(1) by auto
  moreover have "\<not> of_char c < (32::nat)" using assms(1) by simp
  ultimately have "str_step (c # take n s @ t) = Some (Some (c # take n s), t)"
    using rune_len_take(1) [OF assms] rune_len_take(2) [OF assms, of t] by (simp add: str_step_def)
  with True show ?thesis by simp
next
  case False
  then show ?thesis
    by (auto simp: escape_rune_def str_step_def unicode_escape_def hex4_def hex_val_def
        utf8_encode_def char_of_def bit_0 split: if_splits)
qed

lemma lex_str_quote_body:
  "utf8_valid s \<Longrightarrow> lex_str (quote_body s @ CHR 0x22 # rest) = Some (s, rest)"
proof (induction s rule: quote_body.induct)
  case 1
  show ?case by (subst lex_str.simps) (simp add: str_step_def)
next
  case (2 c s)
  show ?case
  proof (cases "of_char c < (128::nat)")
    case True
    with "2.prems" have "utf8_valid s" by (simp add: rune_len_ascii)
    with "2.IH"(1) [OF True] True show ?thesis
      by (subst lex_str.simps) (simp add: str_step_escape_ascii)
  next
    case False
    then obtain n where n: "rune_len (c # s) = Suc n" and v: "utf8_valid (drop n s)"
      using "2.prems" by (auto split: nat.splits)
    note step = str_step_rune [OF False n, of "quote_body (drop n s) @ CHR 0x22 # rest"]
    from "2.IH"(3) [OF False n v] False n step show ?thesis
      by (subst lex_str.simps) simp
  qed
qed

lemma skip_ws_nonws: "\<not> is_ws c \<Longrightarrow> skip_ws (c # s) = c # s"
  by (simp add: skip_ws_def)

lemma next_tok_quote: "utf8_valid s \<Longrightarrow> next_tok (quote s @ rest) = Some (TStr s, rest)"
  by (simp add: next_tok_def quote_def skip_ws_def is_ws_def punct_def lex_str_quote_body)

section \<open>Numbers and words\<close>

text \<open>What may follow a value inside a document.\<close>

definition stops :: "string \<Rightarrow> bool" where
  "stops rest = (case rest of [] \<Rightarrow> True | c # _ \<Rightarrow> c \<in> {CHR '','', CHR '']'', CHR ''}''})"

lemma stops_simps [simp]: "stops []" "stops (CHR '','' # r)" "stops (CHR '']'' # r)" "stops (CHR ''}'' # r)"
  by (simp_all add: stops_def)

lemma stops_cases:
  assumes "stops rest"
  obtains "rest = []" | c r where "rest = c # r" "\<not> is_digit c" "c \<noteq> CHR ''.''" "c \<noteq> CHR ''e''" "c \<noteq> CHR ''E''"
proof (cases rest)
  case (Cons c r)
  with assms have "c \<in> {CHR '','', CHR '']'', CHR ''}''}" by (simp add: stops_def)
  then have "\<not> is_digit c" "c \<noteq> CHR ''.''" "c \<noteq> CHR ''e''" "c \<noteq> CHR ''E''"
    by (auto simp: is_digit_def)
  with Cons that(2) show ?thesis by blast
qed (rule that(1))

lemma digits1_append:
  assumes "stops rest" "digits1 s = Some (d, r)"
  shows "digits1 (s @ rest) = Some (d, r @ rest)"
proof -
  have "takeWhile is_digit (s @ rest) = takeWhile is_digit s \<and>
    dropWhile is_digit (s @ rest) = dropWhile is_digit s @ rest"
    using assms(1) by (induction s) (auto elim: stops_cases)
  with assms(2) show ?thesis by (auto simp: digits1_def split: if_splits)
qed

lemma lex_int_append:
  "stops rest \<Longrightarrow> lex_int s = Some (i, r) \<Longrightarrow> lex_int (s @ rest) = Some (i, r @ rest)"
  by (cases s) (auto simp: lex_int_def split: if_splits dest: digits1_append)

lemma lex_frac_append:
  assumes "stops rest" "lex_frac s = Some (f, r)"
  shows "lex_frac (s @ rest) = Some (f, r @ rest)"
proof (cases s)
  case Nil
  with assms show ?thesis by (auto simp: lex_frac_def elim: stops_cases)
next
  case (Cons c t)
  with assms show ?thesis by (auto simp: lex_frac_def split: if_splits dest: digits1_append)
qed

lemma lex_exp_append:
  assumes "stops rest" "lex_exp s = Some (f, r)"
  shows "lex_exp (s @ rest) = Some (f, r @ rest)"
proof (cases s)
  case Nil
  with assms show ?thesis by (auto simp: lex_exp_def elim: stops_cases)
next
  case (Cons c t)
  show ?thesis
  proof (cases t)
    case Nil
    with Cons assms show ?thesis by (auto simp: lex_exp_def split: if_splits)
  next
    case (Cons d u)
    with \<open>s = c # t\<close> assms digits1_append [of rest u] digits1_append [of rest t] show ?thesis
      by (auto simp: lex_exp_def split: if_splits)
  qed
qed

lemma lex_num_append:
  assumes "stops rest" "lex_num s = Some (x, r)"
  shows "lex_num (s @ rest) = Some (x, r @ rest)"
proof (cases s)
  case Nil
  with assms(2) show ?thesis by (simp add: lex_num_def lex_int_def)
next
  case (Cons c t)
  then have sg: "num_sign (s @ y) = num_sign s" "drop (length (num_sign s)) (s @ y) = drop (length (num_sign s)) s @ y" for y
    by (simp_all add: num_sign_def has_prefix_def)
  from assms(2) obtain i s1 f s2 e where p: "lex_int (drop (length (num_sign s)) s) = Some (i, s1)"
    "lex_frac s1 = Some (f, s2)" "lex_exp s2 = Some (e, r)" "x = num_sign s @ i @ f @ e"
    by (rule lex_num_parts)
  then show ?thesis unfolding lex_num_def sg
    using lex_int_append [OF assms(1) p(1)] lex_frac_append [OF assms(1) p(2)]
      lex_exp_append [OF assms(1) p(3)] by simp
qed

definition num_ok :: "string \<Rightarrow> bool" where
  "num_ok n = (lex_num n = Some (n, []))"

lemma num_ok_head:
  assumes "num_ok n"
  obtains c t where "n = c # t" "c = CHR ''-'' \<or> is_digit c"
proof (cases n)
  case Nil
  with assms show ?thesis by (simp add: num_ok_def lex_num_def lex_int_def)
next
  case (Cons c t)
  have "c = CHR ''-'' \<or> is_digit c"
  proof (rule ccontr)
    assume *: "\<not> ?thesis"
    then have "c \<noteq> CHR ''0''" by (auto simp: is_digit_def)
    with * have "lex_int n = None" using Cons by (simp add: lex_int_def digits1_def)
    with * Cons assms show False by (simp add: num_ok_def lex_num_def num_sign_def has_prefix_def)
  qed
  with Cons that show ?thesis by blast
qed

lemma num_head_plain:
  assumes "c = CHR ''-'' \<or> is_digit c"
  shows "\<not> is_ws c" "punct c = None" "c \<noteq> CHR 0x22" "c \<noteq> CHR ''t''" "c \<noteq> CHR ''f''" "c \<noteq> CHR ''n''"
  using assms by (auto simp: is_ws_def punct_def is_digit_def)

lemma next_tok_num:
  assumes n: "num_ok n" and "stops rest"
  shows "next_tok (n @ rest) = Some (TNum n, rest)"
proof -
  obtain c t where c: "n = c # t" "c = CHR ''-'' \<or> is_digit c" using n by (rule num_ok_head)
  have "lex_num (n @ rest) = Some (n, rest)"
    using assms lex_num_append [of rest n n "[]"] by (simp add: num_ok_def)
  with c num_head_plain [OF c(2)] show ?thesis
    by (simp add: next_tok_def skip_ws_nonws lex_word_def has_prefix_def)
qed

lemma next_tok_words [simp]:
  "next_tok (CHR ''n'' # CHR ''u'' # CHR ''l'' # CHR ''l'' # rest) = Some (TNull, rest)"
  "next_tok (CHR ''t'' # CHR ''r'' # CHR ''u'' # CHR ''e'' # rest) = Some (TTrue, rest)"
  "next_tok (CHR ''f'' # CHR ''a'' # CHR ''l'' # CHR ''s'' # CHR ''e'' # rest) = Some (TFalse, rest)"
  by (simp_all add: next_tok_def skip_ws_def is_ws_def punct_def lex_word_def has_prefix_def)

lemma next_tok_punct [simp]:
  "next_tok (CHR ''{'' # rest) = Some (TLBrace, rest)"
  "next_tok (CHR ''}'' # rest) = Some (TRBrace, rest)"
  "next_tok (CHR ''['' # rest) = Some (TLBrack, rest)"
  "next_tok (CHR '']'' # rest) = Some (TRBrack, rest)"
  "next_tok (CHR '':'' # rest) = Some (TColon, rest)"
  "next_tok (CHR '','' # rest) = Some (TComma, rest)"
  by (simp_all add: next_tok_def skip_ws_def is_ws_def punct_def)

declare utf8_valid.simps(2) [simp del]

lemma utf8_valid_Cons_ascii [simp]: "of_char c < (128::nat) \<Longrightarrow> utf8_valid (c # s) = utf8_valid s"
  by (simp add: utf8_valid.simps(2) rune_len_ascii)

section \<open>Values\<close>

text \<open>Values whose strings are UTF-8 and whose numbers are literals, nested at most \<open>d\<close> deep.\<close>

fun json_ok :: "nat \<Rightarrow> json \<Rightarrow> bool" where
  "json_ok d (JNum n) = num_ok n"
| "json_ok d (JStr s) = utf8_valid s"
| "json_ok d (JArr vs) = (0 < d \<and> list_all (json_ok (d - 1)) vs)"
| "json_ok d (JObj ms) = (0 < d \<and> list_all (\<lambda>(k, v). utf8_valid k \<and> json_ok (d - 1) v) ms)"
| "json_ok d _ = True"

text \<open>How the machine goes on once a value is complete.\<close>

definition resume :: "json \<Rightarrow> frame list \<Rightarrow> string \<Rightarrow> (json \<times> string) option" where
  "resume v st rest =
     (case finish v st of
        Fail \<Rightarrow> None
      | Done w \<Rightarrow> Some (w, rest)
      | Cont m' st' \<Rightarrow> run m' st' rest)"

definition reads_back :: "nat \<Rightarrow> json \<Rightarrow> bool" where
  "reads_back d v =
     (\<forall>m st rest. m \<in> {MValue, MFirstElem} \<longrightarrow> length st + d \<le> max_nesting \<longrightarrow> stops rest \<longrightarrow>
        run m st (json_print v @ rest) = resume v st rest)"

lemma run_elems:
  assumes "list_all (reads_back d) vs" "vs \<noteq> []" "m \<in> {MValue, MFirstElem}"
    and "length st + Suc d \<le> max_nesting"
  shows "run m (FArr acc # st) (join '','' (map json_print vs) @ CHR '']'' # rest) =
    resume (JArr (rev acc @ vs)) st rest"
  using assms
proof (induction vs arbitrary: m acc)
  case (Cons v vs)
  note rb = Cons.prems(1) [simplified, THEN conjunct1, unfolded reads_back_def, rule_format]
  show ?case
  proof (cases vs)
    case Nil
    have "run m (FArr acc # st) (json_print v @ CHR '']'' # rest) =
      run MNext (FArr (v # acc) # st) (CHR '']'' # rest)"
      using rb Cons.prems by (simp add: resume_def)
    also have "\<dots> = resume (JArr (rev acc @ [v])) st rest"
      by (subst run.simps) (simp add: resume_def)
    finally show ?thesis using Nil by simp
  next
    case c: (Cons v' vs')
    define t where "t = join '','' (map json_print vs) @ CHR '']'' # rest"
    have "run m (FArr acc # st) (json_print v @ CHR '','' # t) =
      run MNext (FArr (v # acc) # st) (CHR '','' # t)"
      using rb Cons.prems by (simp add: resume_def)
    also have "\<dots> = run MValue (FArr (v # acc) # st) t"
      by (subst run.simps) simp
    also have "\<dots> = resume (JArr (rev acc @ v # vs)) st rest"
      unfolding t_def using Cons.prems c Cons.IH [of MValue "v # acc"] by simp
    finally show ?thesis using c by (simp add: t_def)
  qed
qed simp

definition member_text :: "string \<times> json \<Rightarrow> string" where
  "member_text m = quote (fst m) @ CHR '':'' # json_print (snd m)"

lemma run_member:
  assumes "utf8_valid k" "reads_back d v" "m \<in> {MKey, MFirstKey}" "stops rest"
    and "length st + Suc d \<le> max_nesting"
  shows "run m (FObj acc # st) (member_text (k, v) @ rest) =
    run MNext (FObj ((k, v) # acc) # st) rest"
proof -
  have "run m (FObj acc # st) (quote k @ CHR '':'' # json_print v @ rest) =
    run MColon (FMem acc k # st) (CHR '':'' # json_print v @ rest)"
    using assms by (subst run.simps) (auto simp: next_tok_quote)
  also have "\<dots> = run MValue (FMem acc k # st) (json_print v @ rest)"
    by (subst run.simps) simp
  also have "\<dots> = run MNext (FObj ((k, v) # acc) # st) rest"
    using assms by (simp add: reads_back_def resume_def)
  finally show ?thesis by (simp add: member_text_def)
qed

lemma run_members:
  assumes "list_all (\<lambda>(k, v). utf8_valid k \<and> reads_back d v) ms" "ms \<noteq> []"
    and "m \<in> {MKey, MFirstKey}" "length st + Suc d \<le> max_nesting"
  shows "run m (FObj acc # st) (join '','' (map member_text ms) @ CHR ''}'' # rest) =
    resume (JObj (rev acc @ ms)) st rest"
  using assms
proof (induction ms arbitrary: m acc)
  case (Cons kv ms)
  obtain k v where kv: "kv = (k, v)" by (cases kv)
  note step = run_member [of k d v m _ st acc]
  show ?case
  proof (cases ms)
    case Nil
    have "run m (FObj acc # st) (member_text kv @ CHR ''}'' # rest) =
      run MNext (FObj (kv # acc) # st) (CHR ''}'' # rest)"
      using step [of "CHR ''}'' # rest"] Cons.prems kv by simp
    also have "\<dots> = resume (JObj (rev acc @ [kv])) st rest"
      by (subst run.simps) (simp add: resume_def)
    finally show ?thesis using Nil by simp
  next
    case c: (Cons kv' ms')
    define t where "t = join '','' (map member_text ms) @ CHR ''}'' # rest"
    have "run m (FObj acc # st) (member_text kv @ CHR '','' # t) =
      run MNext (FObj (kv # acc) # st) (CHR '','' # t)"
      using step [of "CHR '','' # t"] Cons.prems kv by simp
    also have "\<dots> = run MKey (FObj (kv # acc) # st) t"
      by (subst run.simps) simp
    also have "\<dots> = resume (JObj (rev acc @ kv # ms)) st rest"
      unfolding t_def using Cons.prems c Cons.IH [of MKey "kv # acc"] by simp
    finally show ?thesis using c by (simp add: t_def)
  qed
qed simp

lemma run_scalar:
  assumes "next_tok s = Some (t, rest)" "step_value t st = finish v st" "t \<noteq> TRBrack"
    and "m \<in> {MValue, MFirstElem}"
  shows "run m st s = resume v st rest"
  using assms by (subst run.simps) (auto simp: resume_def)

lemma reads_back_scalars:
  "reads_back d JNull" "reads_back d (JBool b)"
  "num_ok n \<Longrightarrow> reads_back d (JNum n)" "utf8_valid s \<Longrightarrow> reads_back d (JStr s)"
  by (simp_all add: reads_back_def run_scalar [where t = TNull] run_scalar [where t = TTrue]
      run_scalar [where t = TFalse] run_scalar [where t = "TNum n"] run_scalar [where t = "TStr s"]
      next_tok_num next_tok_quote)

lemma print_arr: "json_print (JArr vs) @ rest = CHR ''['' # join '','' (map json_print vs) @ CHR '']'' # rest"
  by (simp add: arr_text_def)

lemma print_obj: "json_print (JObj ms) @ rest = CHR ''{'' # join '','' (map member_text ms) @ CHR ''}'' # rest"
proof -
  have "map (\<lambda>(k, v). quote k @ '':'' @ v) (map (\<lambda>(k, v). (k, json_print v)) ms) = map member_text ms"
    by (simp add: member_text_def split_beta)
  then show ?thesis by (simp only: json_print.simps obj_text_def append_assoc append_Cons append_Nil)
qed

lemma reads_back_arr:
  assumes "list_all (reads_back d) vs"
  shows "reads_back (Suc d) (JArr vs)"
  unfolding reads_back_def
proof (intro allI impI)
  fix m :: pmode and st :: "frame list" and rest :: string
  assume m: "m \<in> {MValue, MFirstElem}" and st: "length st + Suc d \<le> max_nesting"
  define t where "t = join '','' (map json_print vs) @ CHR '']'' # rest"
  have "run m st (CHR ''['' # t) = run MFirstElem (FArr [] # st) t"
    using m st by (subst run.simps) (auto simp: push_def)
  also have "\<dots> = resume (JArr vs) st rest"
  proof (cases vs)
    case Nil
    then show ?thesis by (subst run.simps) (simp add: t_def resume_def)
  next
    case (Cons v vs')
    with run_elems [OF assms _ _ st, of MFirstElem "[]"] show ?thesis by (simp add: t_def)
  qed
  finally show "run m st (json_print (JArr vs) @ rest) = resume (JArr vs) st rest"
    by (simp only: print_arr t_def)
qed

lemma reads_back_obj:
  assumes "list_all (\<lambda>(k, v). utf8_valid k \<and> reads_back d v) ms"
  shows "reads_back (Suc d) (JObj ms)"
  unfolding reads_back_def
proof (intro allI impI)
  fix m :: pmode and st :: "frame list" and rest :: string
  assume m: "m \<in> {MValue, MFirstElem}" and st: "length st + Suc d \<le> max_nesting"
  define t where "t = join '','' (map member_text ms) @ CHR ''}'' # rest"
  have "run m st (CHR ''{'' # t) = run MFirstKey (FObj [] # st) t"
    using m st by (subst run.simps) (auto simp: push_def)
  also have "\<dots> = resume (JObj ms) st rest"
  proof (cases ms)
    case Nil
    then show ?thesis by (subst run.simps) (simp add: t_def resume_def)
  next
    case (Cons v ms')
    with run_members [OF assms _ _ st, of MFirstKey "[]"] show ?thesis by (simp add: t_def)
  qed
  finally show "run m st (json_print (JObj ms) @ rest) = resume (JObj ms) st rest"
    by (simp only: print_obj t_def)
qed

lemma json_ok_reads_back: "json_ok d v \<Longrightarrow> reads_back d v"
proof (induction d v rule: json_ok.induct)
  case (3 d vs)
  then have "list_all (reads_back (d - 1)) vs" by (auto simp: list_all_iff)
  from reads_back_arr [OF this] "3.prems" show ?case by simp
next
  case (4 d ms)
  then have "list_all (\<lambda>(k, v). utf8_valid k \<and> reads_back (d - 1) v) ms"
    by (fastforce simp: list_all_iff)
  from reads_back_obj [OF this] "4.prems" show ?case by simp
qed (simp_all add: reads_back_scalars)

lemma json_prefix_print:
  assumes "json_ok max_nesting v" "stops rest"
  shows "json_prefix (json_print v @ rest) = Some (v, rest)"
  using json_ok_reads_back [OF assms(1)] assms(2)
  by (simp add: json_prefix_def reads_back_def resume_def)

text \<open>The round trip: what \<^verbatim>\<open>json.Marshal\<close> writes, \<^verbatim>\<open>json.Unmarshal\<close> reads back.\<close>

lemma json_parse_print: "json_ok max_nesting v \<Longrightarrow> json_parse (json_print v) = Some v"
  using json_prefix_print [of v "[]"] by (simp add: json_parse_def skip_ws_def)

lemma json_valid_print: "json_ok max_nesting v \<Longrightarrow> json_valid (json_print v)"
  by (simp add: json_valid_def json_parse_print)

lemma json_parse_quote: "utf8_valid s \<Longrightarrow> json_parse (quote s) = Some (JStr s)"
  using json_parse_print [of "JStr s"] by simp

section \<open>Raw texts of printed values\<close>

lemma print_head:
  assumes "json_ok d v"
  obtains c t where "json_print v = c # t" "\<not> is_ws c" "c \<noteq> CHR '']''" "c \<noteq> CHR ''}''"
proof (cases v)
  case (JNum n)
  with assms obtain c t where c: "n = c # t" "c = CHR ''-'' \<or> is_digit c"
    by (auto elim: num_ok_head)
  moreover have "c \<noteq> CHR '']''" "c \<noteq> CHR ''}''" using c(2) by (auto simp: is_digit_def)
  ultimately show ?thesis using that [of c t] JNum num_head_plain(1) [OF c(2)] by simp
next
  case (JBool b)
  with that show ?thesis by (cases b) (simp_all add: is_ws_def)
qed (use that in \<open>simp_all add: is_ws_def quote_def arr_text_def obj_text_def\<close>)

lemma raw_value_print:
  assumes "json_ok max_nesting v" "stops rest"
  shows "raw_value (json_print v @ rest) = Some (json_print v, rest)"
proof -
  obtain c t where "json_print v = c # t" "\<not> is_ws c" using assms(1) by (rule print_head)
  then have "skip_ws (json_print v @ rest) = json_print v @ rest" by (simp add: skip_ws_def)
  with json_prefix_print [OF assms] show ?thesis by (simp add: raw_value_def)
qed

lemma raw_member_print:
  assumes "json_ok max_nesting v" "utf8_valid k" "stops rest"
  shows "raw_member (member_text (k, v) @ rest) = Some ((k, json_print v), rest)"
  using assms by (simp add: raw_member_def member_text_def next_tok_quote raw_value_print)

lemma raw_items_print:
  assumes "\<And>x rest. x \<in> set xs \<Longrightarrow> stops rest \<Longrightarrow> item (txt x @ rest) = Some (g x, rest)"
    and "\<And>x. x \<in> set xs \<Longrightarrow> txt x \<noteq> []" "xs \<noteq> []"
    and "close = TRBrack \<and> cl = CHR '']'' \<or> close = TRBrace \<and> cl = CHR ''}''"
  shows "raw_items item close (join '','' (map txt xs) @ cl # rest) = Some (map g xs)"
  using assms
proof (induction xs)
  case (Cons x xs)
  have cl: "stops (cl # rest)" "next_tok (cl # rest) = Some (close, rest)" using Cons.prems(4) by auto
  have comma: "close \<noteq> TComma" using Cons.prems(4) by auto
  have ne: "0 < length (txt x)" using Cons.prems(2) by simp
  note item = Cons.prems(1) [of x]
  show ?case
  proof (cases xs)
    case Nil
    with item cl ne show ?thesis by (subst raw_items.simps) simp
  next
    case c: (Cons y ys)
    then have "raw_items item close (join '','' (map txt xs) @ cl # rest) = Some (map g xs)"
      using Cons.IH Cons.prems by simp
    with item ne comma c show ?thesis by (subst raw_items.simps) simp
  qed
qed simp

lemma member_text_ne: "member_text m \<noteq> []"
  by (simp add: member_text_def quote_def)

lemma join_nonempty_head:
  assumes "\<And>x. x \<in> set xs \<Longrightarrow> \<exists>c t. txt x = c # t \<and> P c" "xs \<noteq> []"
  shows "\<exists>c t. join sep (map txt xs) = c # t \<and> P c"
proof (cases xs)
  case (Cons x ys)
  then have "x \<in> set xs" by simp
  then obtain c t where "txt x = c # t" "P c" using assms(1) by blast
  with Cons show ?thesis by (cases ys) auto
qed (use assms(2) in simp)

lemma obj_members_print:
  assumes "list_all (\<lambda>(k, v). utf8_valid k \<and> json_ok max_nesting v) ms"
  shows "obj_members (json_print (JObj ms)) = Some (map (\<lambda>(k, v). (k, json_print v)) ms)"
proof (cases ms)
  case Nil
  then show ?thesis by (simp add: obj_members_def raw_list_def obj_text_def)
next
  case (Cons m ms')
  define t where "t = join '','' (map member_text ms) @ CHR ''}'' # []"
  have "\<exists>c u. join '','' (map member_text ms) = c # u \<and> c = CHR 0x22"
    using Cons by (intro join_nonempty_head) (simp_all add: member_text_def quote_def)
  then have "\<exists>u. t = CHR 0x22 # u" by (auto simp: t_def)
  then have "next_tok t = None \<or> (\<exists>s r. next_tok t = Some (TStr s, r))"
    by (cases "lex_str (tl t)") (auto simp: next_tok_def skip_ws_def is_ws_def punct_def)
  moreover have "raw_items raw_member TRBrace t = Some (map (\<lambda>(k, v). (k, json_print v)) ms)"
    unfolding t_def
    by (rule raw_items_print)
      (use assms Cons in \<open>auto simp: list_all_iff raw_member_print member_text_ne\<close>)
  moreover from this have "next_tok t \<noteq> None"
    by (auto simp: raw_items.simps [of _ _ t] raw_member_def split: option.splits)
  ultimately show ?thesis
    using print_obj [of ms "[]"] by (auto simp: obj_members_def raw_list_def t_def)
qed

lemma raw_value_first:
  assumes "raw_value s = Some x"
  shows "\<exists>t r. next_tok s = Some (t, r) \<and> t \<noteq> TRBrack"
proof -
  from assms obtain v r where "run MValue [] s = Some (v, r)"
    by (auto simp: raw_value_def json_prefix_def split: option.splits)
  then obtain t r' where "next_tok s = Some (t, r')" "step MValue t [] \<noteq> Fail"
    by (cases "next_tok s") (auto simp: run.simps [of _ _ s] split: outcome.splits)
  then show ?thesis by (cases t) auto
qed

lemma arr_elems_print:
  assumes "list_all (json_ok max_nesting) vs"
  shows "arr_elems (json_print (JArr vs)) = Some (map json_print vs)"
proof (cases vs)
  case Nil
  then show ?thesis by (simp add: arr_elems_def raw_list_def arr_text_def)
next
  case (Cons v vs')
  define t where "t = join '','' (map json_print vs) @ CHR '']'' # []"
  have ne: "json_print v \<noteq> []" if "v \<in> set vs" for v
  proof -
    have "json_ok max_nesting v" using assms that by (simp add: list_all_iff)
    then obtain c u where "json_print v = c # u" by (rule print_head)
    then show ?thesis by simp
  qed
  have r: "raw_items raw_value TRBrack t = Some (map json_print vs)"
    unfolding t_def
    by (rule raw_items_print) (use assms Cons ne in \<open>auto simp: list_all_iff raw_value_print\<close>)
  then obtain x where "raw_value t = Some x"
    by (auto simp: raw_items.simps [of _ _ t] split: option.splits)
  from raw_value_first [OF this] r show ?thesis
    using print_arr [of vs "[]"] by (auto simp: arr_elems_def raw_list_def t_def)
qed

section \<open>Compaction of printed values\<close>

lemma compact_escape_ascii:
  assumes "of_char c < (128::nat)"
  shows "compact_loop True (escape_ascii c @ t) = escape_ascii c @ compact_loop True t"
proof -
  have plain: "compact_loop True (d # u) = d # compact_loop True u"
    if "of_char d < (128::nat)" "d \<notin> {CHR 0x5C, CHR 0x22, CHR ''<'', CHR ''>'', CHR ''&''}" for d u
  proof -
    have "d \<noteq> CHR 0xE2" using that(1) by auto
    with that show ?thesis by (simp add: has_prefix_def)
  qed
  have hex: "of_char (hex_digit n) < (128::nat) \<and>
      hex_digit n \<notin> {CHR 0x5C, CHR 0x22, CHR ''<'', CHR ''>'', CHR ''&''}" if "n < 16" for n
  proof -
    have v: "of_char (hex_digit n) = (if n < 10 then 48 + n else 87 + n)"
      using that by (simp add: hex_digit_def)
    then have "d \<noteq> hex_digit n" if "of_char d \<notin> {48..57} \<union> {97..102::nat}" for d
      using that \<open>n < 16\<close> by (auto split: if_splits)
    from this [of "CHR 0x5C"] this [of "CHR 0x22"] this [of "CHR ''<''"] this [of "CHR ''>''"]
      this [of "CHR ''&''"] v that show ?thesis by (auto split: if_splits)
  qed
  have "of_char c div 16 < (16::nat)" "of_char c mod 16 < (16::nat)" using assms by simp_all
  then have hx: "compact_loop True (hex2 (of_char c) @ t) = hex2 (of_char c) @ compact_loop True t"
    using plain hex by (simp add: hex2_def del: compact_loop.simps)
  show ?thesis
  proof (cases "escape_ascii c = [CHR 0x5C] @ ''u00'' @ hex2 (of_char c)")
    case True
    with hx show ?thesis by (simp add: has_prefix_def)
  next
    case False
    then consider e where "escape_ascii c = [CHR 0x5C, e]"
      | "escape_ascii c = [c]" "c \<notin> {CHR 0x5C, CHR 0x22, CHR ''<'', CHR ''>'', CHR ''&''}"
      unfolding escape_ascii_def by (simp split: if_splits)
    then show ?thesis
    proof cases
      case 2
      then show ?thesis using plain [of c t] assms by (simp del: compact_loop.simps)
    qed simp
  qed
qed

lemma compact_high_bytes:
  assumes "list_all (\<lambda>c. 128 \<le> (of_char c :: nat) \<and> c \<noteq> CHR 0xE2) r"
  shows "compact_loop True (r @ t) = r @ compact_loop True t"
  using assms
proof (induction r)
  case (Cons c r)
  then have "c \<notin> {CHR 0x5C, CHR 0x22, CHR ''<'', CHR ''>'', CHR ''&''}" by auto
  with Cons show ?case by (simp add: has_prefix_def)
qed simp

lemma compact_rune:
  assumes c: "\<not> of_char c < (128::nat)" and n: "rune_len (c # s) = Suc n"
  shows "compact_loop True (escape_rune (take (Suc n) (c # s)) @ t) =
    escape_rune (take (Suc n) (c # s)) @ compact_loop True t"
proof (cases "escape_rune (take (Suc n) (c # s)) = take (Suc n) (c # s)")
  case False
  then show ?thesis by (auto simp: escape_rune_def has_prefix_def split: if_splits)
next
  case True
  obtain lo hi d u where l: "utf8_lead (of_char c) = Some (Suc n, lo, hi)" "s = d # u"
    "byte_in lo hi d" "n - 1 \<le> length u" "list_all (byte_in 128 191) (take (n - 1) u)" "1 \<le> n"
    using c n by (rule rune_len_multi)
  have cont: "128 \<le> (of_char x :: nat) \<and> x \<noteq> CHR 0xE2" if "byte_in a b x" "128 \<le> a" "b \<le> 191" for a b x
    using that by (auto simp: byte_in_def)
  have lohi: "128 \<le> lo" "hi \<le> 191" using l(1) by (auto simp: utf8_lead_def split: if_splits)
  have tl: "list_all (\<lambda>x. 128 \<le> (of_char x :: nat) \<and> x \<noteq> CHR 0xE2) (take n s)"
    using l lohi cont by (cases n) (auto simp: list_all_iff)
  have sp: "c \<notin> {CHR 0x5C, CHR 0x22, CHR ''<'', CHR ''>'', CHR ''&''}" using c by auto
  have "\<not> has_prefix (c # take n s @ t) [CHR 0xE2, CHR 0x80, CHR 0xA8]"
    "\<not> has_prefix (c # take n s @ t) [CHR 0xE2, CHR 0x80, CHR 0xA9]"
  proof -
    have "n = 2 \<and> length (take n s) = 2" if "c = CHR 0xE2"
      using l that by (auto simp: utf8_lead_def)
    with True show "\<not> has_prefix (c # take n s @ t) [CHR 0xE2, CHR 0x80, CHR 0xA8]"
      "\<not> has_prefix (c # take n s @ t) [CHR 0xE2, CHR 0x80, CHR 0xA9]"
      by (auto simp: has_prefix_def escape_rune_def numeral_2_eq_2 split: if_splits)
  qed
  with sp compact_high_bytes [OF tl, of t] True show ?thesis by simp
qed

lemma compact_quote_body:
  "utf8_valid s \<Longrightarrow> compact_loop True (quote_body s @ CHR 0x22 # t) = quote_body s @ CHR 0x22 # compact_loop False t"
proof (induction s rule: quote_body.induct)
  case (2 c s)
  show ?case
  proof (cases "of_char c < (128::nat)")
    case True
    with "2.prems" have "utf8_valid s" by simp
    with "2.IH"(1) [OF True] True show ?thesis by (simp add: compact_escape_ascii)
  next
    case False
    then obtain n where n: "rune_len (c # s) = Suc n" and v: "utf8_valid (drop n s)"
      using "2.prems" by (auto simp: utf8_valid.simps(2) split: nat.splits)
    from "2.IH"(3) [OF False n v] False n compact_rune [OF False n] show ?thesis by simp
  qed
qed simp

lemma compact_quote: "utf8_valid s \<Longrightarrow> compact_loop False (quote s @ t) = quote s @ compact_loop False t"
  by (simp add: quote_def is_ws_def compact_quote_body)

definition num_char :: "char \<Rightarrow> bool" where
  "num_char c = (is_digit c \<or> c \<in> {CHR ''-'', CHR ''+'', CHR ''.'', CHR ''e'', CHR ''E''})"

lemma digits1_chars: "digits1 s = Some (d, r) \<Longrightarrow> list_all num_char d"
  by (auto simp: digits1_def num_char_def list_all_iff dest: set_takeWhileD split: if_splits)

lemma num_ok_chars:
  assumes "num_ok n"
  shows "list_all num_char n"
proof -
  have int: "lex_int s = Some (i, r) \<Longrightarrow> list_all num_char i" for s i r
    by (auto simp: lex_int_def num_char_def is_digit_def split: list.splits if_splits dest: digits1_chars)
  have frac: "lex_frac s = Some (i, r) \<Longrightarrow> list_all num_char i" for s i r
    by (auto simp: lex_frac_def num_char_def [of "CHR ''.''"] split: list.splits if_splits dest: digits1_chars)
  have exp: "lex_exp s = Some (i, r) \<Longrightarrow> list_all num_char i" for s i r
    by (auto simp: lex_exp_def num_char_def [of "CHR ''e''"] num_char_def [of "CHR ''E''"]
        num_char_def [of "CHR ''+''"] num_char_def [of "CHR ''-''"]
        split: list.splits if_splits dest: digits1_chars)
  from assms obtain i s1 f s2 e where n: "n = num_sign n @ i @ f @ e"
    and p: "lex_int (drop (length (num_sign n)) n) = Some (i, s1)" "lex_frac s1 = Some (f, s2)"
      "lex_exp s2 = Some (e, [])"
    unfolding num_ok_def by (rule lex_num_parts)
  have "list_all num_char i" "list_all num_char f" "list_all num_char e"
    using int [OF p(1)] frac [OF p(2)] exp [OF p(3)] by simp_all
  moreover have "list_all num_char (num_sign n)" by (simp add: num_sign_def num_char_def)
  ultimately show ?thesis by (subst n) simp
qed

lemma compact_plain:
  "list_all num_char n \<Longrightarrow> compact_loop False (n @ t) = n @ compact_loop False t"
proof (induction n)
  case (Cons c n)
  then have "\<not> is_ws c" "c \<noteq> CHR 0x22" by (auto simp: num_char_def is_ws_def is_digit_def)
  with Cons show ?case by simp
qed simp

lemma compact_join:
  assumes "\<And>x t. x \<in> set xs \<Longrightarrow> compact_loop False (txt x @ t) = txt x @ compact_loop False t"
  shows "compact_loop False (join '','' (map txt xs) @ t) = join '','' (map txt xs) @ compact_loop False t"
  using assms
proof (induction xs)
  case (Cons x xs)
  then show ?case by (cases xs) (simp_all add: is_ws_def)
qed simp

lemma compact_print: "json_ok d v \<Longrightarrow> compact_loop False (json_print v @ t) = json_print v @ compact_loop False t"
proof (induction d v arbitrary: t rule: json_ok.induct)
  case (1 d n)
  then show ?case by (simp add: compact_plain num_ok_chars)
next
  case (2 d s)
  then show ?case by (simp add: compact_quote)
next
  case (3 d vs)
  then have "\<And>x t. x \<in> set vs \<Longrightarrow> compact_loop False (json_print x @ t) = json_print x @ compact_loop False t"
    by (auto simp: list_all_iff)
  from compact_join [of vs json_print, OF this] show ?case
    by (simp only: print_arr) (simp add: is_ws_def arr_text_def)
next
  case (4 d ms)
  have "compact_loop False (member_text x @ t) = member_text x @ compact_loop False t" if "x \<in> set ms" for x t
    using 4 that by (cases x) (fastforce simp: member_text_def list_all_iff compact_quote is_ws_def)
  from compact_join [of ms member_text, OF this] show ?case
    using print_obj [of ms "compact_loop False t"] by (simp only: print_obj) (simp add: is_ws_def)
qed (simp_all add: is_ws_def)

lemma marshal_raw_print: "json_ok max_nesting v \<Longrightarrow> marshal_raw (json_print v) = Some (json_print v)"
  using compact_print [of max_nesting v "[]"] by (simp add: marshal_raw_def json_valid_print)

section \<open>Integers\<close>

lemma lex_int_format_nat: "lex_int (format_nat n) = Some (format_nat n, [])"
proof (cases "n = 0")
  case True
  then show ?thesis by (simp add: format_nat_0 lex_int_def)
next
  case False
  then obtain c t where c: "format_nat n = c # t" "is_digit c" "c \<noteq> CHR ''0''"
    using format_nat_leading by blast
  have "takeWhile is_digit (format_nat n) = format_nat n" "dropWhile is_digit (format_nat n) = []"
    using format_nat_digits [of n] by (simp_all add: list_all_iff)
  with c show ?thesis by (simp add: lex_int_def digits1_def)
qed

lemma num_ok_format_int: "num_ok (format_int i)"
proof -
  obtain c t where c: "format_nat (nat i) = c # t" "is_digit c" using format_nat_head by blast
  then have "c \<noteq> CHR ''-''" by (auto simp: is_digit_def)
  with c have "\<not> has_prefix (format_nat (nat i)) ''-''" by (simp add: has_prefix_def)
  then show ?thesis
    by (simp add: num_ok_def format_int_def lex_num_def num_sign_def lex_int_format_nat
        lex_frac_def lex_exp_def has_prefix_def)
qed

lemma json_parse_num: "num_ok n \<Longrightarrow> json_parse n = Some (JNum n)"
  using json_parse_print [of "JNum n"] by simp

lemma dec_str_quote: "utf8_valid s \<Longrightarrow> dec_str upd (quote s) a = Some (upd s a)"
  by (simp add: dec_str_def json_parse_quote)

lemma dec_int64_format:
  "int64_min \<le> i \<Longrightarrow> i \<le> int64_max \<Longrightarrow> dec_int64 upd (format_int i) a = Some (upd i a)"
  by (simp add: dec_int64_def json_parse_num num_ok_format_int parse_int64_format_int)

lemma json_ok_mono: "json_ok d v \<Longrightarrow> d \<le> e \<Longrightarrow> json_ok e v"
proof (induction d v arbitrary: e rule: json_ok.induct)
  case (3 d vs)
  then have "list_all (json_ok (e - 1)) vs"
    unfolding list_all_iff by (metis diff_le_mono json_ok.simps(3) list_all_iff)
  with 3 show ?case by simp
next
  case (4 d ms)
  then have "\<forall>(k, v) \<in> set ms. json_ok (e - 1) v"
    by (fastforce simp: list_all_iff diff_le_mono)
  with 4 show ?case by (auto simp: list_all_iff)
qed simp_all

text \<open>Decoding a printed object goes through its members in order.\<close>

lemma dec_slice_print:
  assumes "json_ok max_nesting (JArr vs)"
  shows "dec_slice d z get upd (json_print (JArr vs)) a =
    map_option (\<lambda>xs. upd xs a) (dec_elems d z (map json_print vs) (get a))"
proof -
  have "list_all (json_ok max_nesting) vs"
    using assms json_ok_mono [of "max_nesting - 1" _ max_nesting] by (auto simp: list_all_iff)
  from arr_elems_print [OF this] json_parse_print [OF assms] show ?thesis
    by (simp add: dec_slice_def)
qed

lemma dec_struct_print:
  assumes "json_ok max_nesting (JObj ms)"
  shows "dec_struct strict fs (json_print (JObj ms)) a =
    dec_members strict fs (map (\<lambda>(k, v). (k, json_print v)) ms) a"
proof -
  have "list_all (\<lambda>(k, v). utf8_valid k \<and> json_ok max_nesting v) ms"
    using assms json_ok_mono [of "max_nesting - 1" _ max_nesting] by (auto simp: list_all_iff)
  from obj_members_print [OF this] json_parse_print [OF assms] show ?thesis
    by (simp add: dec_struct_def)
qed

lemma decode_first_print:
  assumes "json_ok max_nesting v"
  shows "decode_first d z (json_print v) = map_option (\<lambda>a. (a, [])) (d (json_print v) z)"
  using raw_value_print [OF assms, of "[]"] by (simp add: decode_first_def)

end
