(* ===== verification/Bus.thy ===== *)
theory Bus
  imports Json_Roundtrip "HOL-Library.Multiset"
begin

text \<open>
  Package \<^verbatim>\<open>internal/bus\<close>: messages (\<^verbatim>\<open>message.go\<close>), the in-process transport and heartbeat bus
  (\<^verbatim>\<open>client.go\<close>) and the Redis transport (\<^verbatim>\<open>redis_pubsub.go\<close>). The Redis client is a parameter;
  the goroutines behind \<^verbatim>\<open>Dequeue\<close> are a step relation over the transport and its consumers.
\<close>

section \<open>Messages\<close>

record message =
  msg_message_id :: string
  msg_parent_task_id :: string
  msg_sender_id :: string
  msg_receiver_id :: string
  msg_target_agent :: string
  msg_payload :: string
  msg_timestamp :: int

record task_result =
  tr_task_id :: string
  tr_parent_task_id :: string
  tr_agent_name :: string
  tr_status :: string
  tr_output :: string
  tr_error :: string
  tr_timestamp :: int

definition zero_message :: message where
  "zero_message =
     \<lparr>msg_message_id = [], msg_parent_task_id = [], msg_sender_id = [], msg_receiver_id = [],
      msg_target_agent = [], msg_payload = [], msg_timestamp = 0\<rparr>"

definition message_fields :: "(string \<times> message decoder) list" where
  "message_fields =
     [(''message_id'', dec_str (\<lambda>x. msg_message_id_update (\<lambda>_. x))),
      (''parent_task_id'', dec_str (\<lambda>x. msg_parent_task_id_update (\<lambda>_. x))),
      (''sender_id'', dec_str (\<lambda>x. msg_sender_id_update (\<lambda>_. x))),
      (''receiver_id'', dec_str (\<lambda>x. msg_receiver_id_update (\<lambda>_. x))),
      (''target_agent'', dec_str (\<lambda>x. msg_target_agent_update (\<lambda>_. x))),
      (''payload'', dec_raw (\<lambda>x. msg_payload_update (\<lambda>_. x))),
      (''timestamp'', dec_int64 (\<lambda>x. msg_timestamp_update (\<lambda>_. x)))]"

definition Validate :: "message \<Rightarrow> go_error option" where
  "Validate m =
     (if msg_message_id m = [] then Some (errorf ''message_id is required'')
      else if msg_sender_id m = [] then Some (errorf ''sender_id is required'')
      else if msg_receiver_id m = [] then Some (errorf ''receiver_id is required'')
      else if msg_timestamp m \<le> 0 then Some (errorf ''timestamp must be positive'')
      else if length (msg_payload m) = 0 then Some (errorf ''payload is required'')
      else if \<not> json_valid (msg_payload m) then Some (errorf ''payload must be valid json'')
      else None)"

text \<open>\<open>jerr\<close> gives the text of the error \<^verbatim>\<open>encoding/json\<close> reports for an input.\<close>

definition ParseMessage :: "(string \<Rightarrow> string) \<Rightarrow> string \<Rightarrow> message res" where
  "ParseMessage jerr data =
     (case decode_first (dec_struct True message_fields) zero_message data of
        None \<Rightarrow> Inl (errorf (jerr data))
      | Some (msg, rest) \<Rightarrow>
          (case Validate msg of
             Some e \<Rightarrow> Inl e
           | None \<Rightarrow>
               if at_eof rest then Inr msg else Inl (errorf ''trailing json data'')))"

definition omit_empty :: "string \<Rightarrow> string \<Rightarrow> (string \<times> string) list" where
  "omit_empty k v = (if v = [] then [] else [(k, quote v)])"

definition marshal_message :: "message \<Rightarrow> string option" where
  "marshal_message m =
     map_option (\<lambda>p. obj_text
       ([(''message_id'', quote (msg_message_id m))] @
        omit_empty ''parent_task_id'' (msg_parent_task_id m) @
        [(''sender_id'', quote (msg_sender_id m)), (''receiver_id'', quote (msg_receiver_id m))] @
        omit_empty ''target_agent'' (msg_target_agent m) @
        [(''payload'', p), (''timestamp'', format_int (msg_timestamp m))]))
       (marshal_raw (msg_payload m))"

section \<open>The in-process transport\<close>

definition chan_cap :: nat where "chan_cap = 100"

record fake_subscriber =
  sub_pattern :: string
  sub_ch :: "message list"

record fake_transport =
  ft_queues :: "(string \<times> message list) list"
  ft_subscribers :: "(int \<times> fake_subscriber) list"
  ft_next_sub_id :: int

definition NewFakeTransport :: fake_transport where
  "NewFakeTransport = \<lparr>ft_queues = [], ft_subscribers = [], ft_next_sub_id = 0\<rparr>"

text \<open>\<^verbatim>\<open>getQueue\<close> creates the channel on first use.\<close>

definition getQueue :: "fake_transport \<Rightarrow> string \<Rightarrow> message list \<times> fake_transport" where
  "getQueue f queue =
     (case map_of (ft_queues f) queue of
        Some ch \<Rightarrow> (ch, f)
      | None \<Rightarrow> ([], f\<lparr>ft_queues := AList.update queue [] (ft_queues f)\<rparr>))"

text \<open>A non-blocking send: \<^verbatim>\<open>select\<close> with a \<^verbatim>\<open>default\<close> branch.\<close>

definition try_send :: "message \<Rightarrow> message list \<Rightarrow> message list" where
  "try_send m ch = (if length ch < chan_cap then ch @ [m] else ch)"

definition fake_Enqueue ::
    "go_ctx \<Rightarrow> fake_transport \<Rightarrow> string \<Rightarrow> message \<Rightarrow> go_error option \<times> fake_transport" where
  "fake_Enqueue ctx f queue msg =
     (case ctx of
        Some e \<Rightarrow> (Some e, f)
      | None \<Rightarrow>
          (case Validate msg of
             Some e \<Rightarrow> (Some e, f)
           | None \<Rightarrow>
               let (ch, f') = getQueue f queue in
               (None, f'\<lparr>ft_queues := AList.update queue (try_send msg ch) (ft_queues f')\<rparr>)))"

definition matchTopic :: "string \<Rightarrow> string \<Rightarrow> bool" where
  "matchTopic pat topic =
     (if has_suffix pat ''*'' then has_prefix topic (trim_suffix pat ''*'') else pat = topic)"

definition fake_Publish ::
    "go_ctx \<Rightarrow> fake_transport \<Rightarrow> string \<Rightarrow> message \<Rightarrow> go_error option \<times> fake_transport" where
  "fake_Publish ctx f topic msg =
     (case ctx of
        Some e \<Rightarrow> (Some e, f)
      | None \<Rightarrow>
          (case Validate msg of
             Some e \<Rightarrow> (Some e, f)
           | None \<Rightarrow>
               (None, f\<lparr>ft_subscribers :=
                  map (\<lambda>(sid, sub). (sid, if matchTopic (sub_pattern sub) topic
                                        then sub\<lparr>sub_ch := try_send msg (sub_ch sub)\<rparr> else sub))
                      (ft_subscribers f)\<rparr>)))"

definition fake_Subscribe :: "fake_transport \<Rightarrow> string \<Rightarrow> int \<times> fake_transport" where
  "fake_Subscribe f topic =
     (ft_next_sub_id f,
      f\<lparr>ft_subscribers := AList.update (ft_next_sub_id f) \<lparr>sub_pattern = topic, sub_ch = []\<rparr> (ft_subscribers f),
        ft_next_sub_id := ft_next_sub_id f + 1\<rparr>)"

text \<open>The goroutine of \<^verbatim>\<open>Subscribe\<close> once its context is done.\<close>

definition fake_unsubscribe :: "fake_transport \<Rightarrow> int \<Rightarrow> fake_transport" where
  "fake_unsubscribe f sid =
     (case map_of (ft_subscribers f) sid of
        None \<Rightarrow> f
      | Some _ \<Rightarrow> f\<lparr>ft_subscribers := AList.delete sid (ft_subscribers f)\<rparr>)"

definition fake_Consume :: "fake_transport \<Rightarrow> string \<Rightarrow> int \<times> fake_transport" where
  "fake_Consume f topic = fake_Subscribe f topic"

definition SubscriberCount :: "fake_transport \<Rightarrow> nat" where
  "SubscriberCount f = length (ft_subscribers f)"

type_synonym fake_heartbeat_bus = "(string \<times> string) list"

definition NewFakeHeartbeatBus :: fake_heartbeat_bus where
  "NewFakeHeartbeatBus = []"

definition fake_PublishHeartbeat ::
    "go_ctx \<Rightarrow> fake_heartbeat_bus \<Rightarrow> string \<Rightarrow> string \<Rightarrow> go_error option \<times> fake_heartbeat_bus" where
  "fake_PublishHeartbeat ctx f agentID status =
     (case ctx of Some e \<Rightarrow> (Some e, f) | None \<Rightarrow> (None, AList.update agentID status f))"

definition LastStatus :: "fake_heartbeat_bus \<Rightarrow> string \<Rightarrow> string option" where
  "LastStatus f agentID = map_of f agentID"

section \<open>The goroutines behind Dequeue\<close>

text \<open>
  A consumer holds at most one message taken from the source channel and not yet put on its
  output channel. Once its context is done the goroutine returns and what it held is lost.
\<close>

record consumer =
  co_queue :: string
  co_held :: "message option"
  co_out :: "message list"
  co_done :: bool

definition fake_Dequeue :: "fake_transport \<Rightarrow> string \<Rightarrow> consumer \<times> fake_transport" where
  "fake_Dequeue f queue =
     (\<lparr>co_queue = queue, co_held = None, co_out = [], co_done = False\<rparr>, snd (getQueue f queue))"

definition queue_of :: "fake_transport \<Rightarrow> string \<Rightarrow> message list" where
  "queue_of f q = (case map_of (ft_queues f) q of None \<Rightarrow> [] | Some ch \<Rightarrow> ch)"

definition set_queue :: "string \<Rightarrow> message list \<Rightarrow> fake_transport \<Rightarrow> fake_transport" where
  "set_queue q ch f = f\<lparr>ft_queues := AList.update q ch (ft_queues f)\<rparr>"

text \<open>The system also logs, per queue, what was accepted, received by clients, and lost.\<close>

record bus_system =
  sys_bus :: fake_transport
  sys_consumers :: "consumer list"
  sys_accepted :: "(string \<times> message) list"
  sys_received :: "(string \<times> message) list"
  sys_lost :: "(string \<times> message) list"

definition bus_init :: bus_system where
  "bus_init = \<lparr>sys_bus = NewFakeTransport, sys_consumers = [], sys_accepted = [], sys_received = [],
               sys_lost = []\<rparr>"

definition opt_list :: "'a option \<Rightarrow> 'a list" where
  "opt_list x = (case x of None \<Rightarrow> [] | Some v \<Rightarrow> [v])"

inductive bus_step :: "bus_system \<Rightarrow> bus_system \<Rightarrow> bool" where
  enqueue: "fake_Enqueue ctx (sys_bus s) q m = (err, f') \<Longrightarrow>
     acc = (if err = None \<and> length (queue_of (sys_bus s) q) < chan_cap then [(q, m)] else []) \<Longrightarrow>
     bus_step s (s\<lparr>sys_bus := f', sys_accepted := sys_accepted s @ acc\<rparr>)"
| dequeue: "fake_Dequeue (sys_bus s) q = (c, f') \<Longrightarrow>
     bus_step s (s\<lparr>sys_bus := f', sys_consumers := sys_consumers s @ [c]\<rparr>)"
| take_msg: "i < length (sys_consumers s) \<Longrightarrow> sys_consumers s ! i = c \<Longrightarrow> \<not> co_done c \<Longrightarrow>
     co_held c = None \<Longrightarrow> queue_of (sys_bus s) (co_queue c) = m # ms \<Longrightarrow>
     bus_step s (s\<lparr>sys_bus := set_queue (co_queue c) ms (sys_bus s),
       sys_consumers := (sys_consumers s)[i := c\<lparr>co_held := Some m\<rparr>]\<rparr>)"
| deliver: "i < length (sys_consumers s) \<Longrightarrow> sys_consumers s ! i = c \<Longrightarrow> \<not> co_done c \<Longrightarrow>
     co_held c = Some m \<Longrightarrow> length (co_out c) < chan_cap \<Longrightarrow>
     bus_step s (s\<lparr>sys_consumers :=
       (sys_consumers s)[i := c\<lparr>co_held := None, co_out := co_out c @ [m]\<rparr>]\<rparr>)"
| receive: "i < length (sys_consumers s) \<Longrightarrow> sys_consumers s ! i = c \<Longrightarrow> co_out c = m # ms \<Longrightarrow>
     bus_step s (s\<lparr>sys_consumers := (sys_consumers s)[i := c\<lparr>co_out := ms\<rparr>],
       sys_received := sys_received s @ [(co_queue c, m)]\<rparr>)"
| cancel: "i < length (sys_consumers s) \<Longrightarrow> sys_consumers s ! i = c \<Longrightarrow> \<not> co_done c \<Longrightarrow>
     bus_step s (s\<lparr>sys_consumers := (sys_consumers s)[i := c\<lparr>co_held := None, co_done := True\<rparr>],
       sys_lost := sys_lost s @ map (Pair (co_queue c)) (opt_list (co_held c))\<rparr>)"

section \<open>The Redis transport\<close>

text \<open>
  \<^verbatim>\<open>LPush\<close> and \<^verbatim>\<open>Publish\<close> of the client are arguments that act on the world of the server. The
  loops of the two receiving goroutines are given by one iteration each: the result of the
  blocking call decides whether the goroutine stops, goes round, or sends a message.
\<close>

definition redis_send :: "(string \<Rightarrow> string) \<Rightarrow> (string \<Rightarrow> string \<Rightarrow> 'w \<Rightarrow> go_error option \<times> 'w) \<Rightarrow>
    string \<Rightarrow> message \<Rightarrow> 'w \<Rightarrow> go_error option \<times> 'w" where
  "redis_send jerr cmd key msg w =
     (case Validate msg of
        Some e \<Rightarrow> (Some e, w)
      | None \<Rightarrow>
          (case marshal_message msg of
             None \<Rightarrow> (Some (errorf (jerr (msg_payload msg))), w)
           | Some data \<Rightarrow> cmd key data w))"

definition redis_Enqueue where
  "redis_Enqueue jerr lpush queue msg w = redis_send jerr lpush queue msg w"

definition redis_Publish where
  "redis_Publish jerr publish topic msg w = redis_send jerr publish topic msg w"

datatype brpop_result = BrNil | BrErr go_error | BrValues "string list"

datatype loop_act = LContinue | LStop | LSend message

text \<open>\<open>ctx1\<close> and \<open>ctx2\<close> are \<^verbatim>\<open>ctx.Err()\<close> before the call and after a failed one.\<close>

definition redis_Dequeue_iter ::
    "(string \<Rightarrow> string) \<Rightarrow> (string \<Rightarrow> 'w \<Rightarrow> brpop_result \<times> 'w) \<Rightarrow> string \<Rightarrow> go_ctx \<Rightarrow> go_ctx \<Rightarrow> 'w \<Rightarrow>
     loop_act \<times> 'w" where
  "redis_Dequeue_iter jerr brpop queue ctx1 ctx2 w =
     (if ctx1 \<noteq> None then (LStop, w)
      else case brpop queue w of
        (BrNil, w') \<Rightarrow> (LContinue, w')
      | (BrErr e, w') \<Rightarrow> (if ctx2 \<noteq> None then LStop else LContinue, w')
      | (BrValues values, w') \<Rightarrow>
          if length values \<noteq> 2 then (LContinue, w')
          else (case ParseMessage jerr (values ! 1) of
                  Inl e \<Rightarrow> (LContinue, w')
                | Inr msg \<Rightarrow> (LSend msg, w')))"

datatype subscription = PSubscribe string | SubscribeTo string

definition redis_Subscribe :: "string \<Rightarrow> subscription" where
  "redis_Subscribe topic = (if contains topic ''*'' then PSubscribe topic else SubscribeTo topic)"

definition redis_Subscribe_iter :: "(string \<Rightarrow> string) \<Rightarrow> string res \<Rightarrow> loop_act" where
  "redis_Subscribe_iter jerr received =
     (case received of
        Inl e \<Rightarrow> LStop
      | Inr payload \<Rightarrow>
          (case ParseMessage jerr payload of Inl e \<Rightarrow> LContinue | Inr msg \<Rightarrow> LSend msg))"

definition redis_Consume :: "string \<Rightarrow> subscription" where
  "redis_Consume topic = redis_Subscribe topic"

section \<open>Round trip of messages\<close>

definition message_utf8 :: "message \<Rightarrow> bool" where
  "message_utf8 m = (list_all utf8_valid [msg_message_id m, msg_parent_task_id m, msg_sender_id m,
     msg_receiver_id m, msg_target_agent m])"

definition opt_member :: "string \<Rightarrow> string \<Rightarrow> (string \<times> json) list" where
  "opt_member k v = (if v = [] then [] else [(k, JStr v)])"

definition message_json :: "message \<Rightarrow> json \<Rightarrow> json" where
  "message_json m p = JObj
     ([(''message_id'', JStr (msg_message_id m))] @ opt_member ''parent_task_id'' (msg_parent_task_id m) @
      [(''sender_id'', JStr (msg_sender_id m)), (''receiver_id'', JStr (msg_receiver_id m))] @
      opt_member ''target_agent'' (msg_target_agent m) @
      [(''payload'', p), (''timestamp'', JNum (format_int (msg_timestamp m)))])"

lemma opt_member_print: "map (\<lambda>(k, v). (k, json_print v)) (opt_member k v) = omit_empty k v"
  by (simp add: opt_member_def omit_empty_def)

lemma marshal_message_json:
  assumes "json_ok max_nesting p" "msg_payload m = json_print p"
  shows "marshal_message m = Some (json_print (message_json m p))"
  using assms by (simp add: marshal_message_def message_json_def marshal_raw_print opt_member_print)

lemma find_message_field [simp]:
  "find_field message_fields ''message_id'' = Some (dec_str (\<lambda>x. msg_message_id_update (\<lambda>_. x)))"
  "find_field message_fields ''parent_task_id'' = Some (dec_str (\<lambda>x. msg_parent_task_id_update (\<lambda>_. x)))"
  "find_field message_fields ''sender_id'' = Some (dec_str (\<lambda>x. msg_sender_id_update (\<lambda>_. x)))"
  "find_field message_fields ''receiver_id'' = Some (dec_str (\<lambda>x. msg_receiver_id_update (\<lambda>_. x)))"
  "find_field message_fields ''target_agent'' = Some (dec_str (\<lambda>x. msg_target_agent_update (\<lambda>_. x)))"
  "find_field message_fields ''payload'' = Some (dec_raw (\<lambda>x. msg_payload_update (\<lambda>_. x)))"
  "find_field message_fields ''timestamp'' = Some (dec_int64 (\<lambda>x. msg_timestamp_update (\<lambda>_. x)))"
  by (simp_all add: find_field_def message_fields_def has_prefix_def upper_char_def Let_def)

lemma dec_members_opt_member:
  assumes "utf8_valid v" "find_field fs k = Some (dec_str upd)"
  shows "dec_members strict fs (omit_empty k v @ ms) a =
    dec_members strict fs ms (if v = [] then a else upd v a)"
  using assms by (simp add: omit_empty_def dec_str_quote)

lemma parse_marshal_message:
  assumes "Validate m = None" "message_utf8 m" "msg_timestamp m \<le> int64_max"
    and p: "json_ok (max_nesting - 1) p" "msg_payload m = json_print p"
  shows "\<exists>d. marshal_message m = Some d \<and> ParseMessage jerr d = Inr m"
proof -
  have ok: "json_ok max_nesting (message_json m p)"
    using assms(2) p(1)
    by (simp add: message_json_def message_utf8_def opt_member_def num_ok_format_int max_nesting_def)
  have enc: "marshal_message m = Some (json_print (message_json m p))"
    using p json_ok_mono [of "max_nesting - 1" p max_nesting] by (intro marshal_message_json) simp_all
  have ts: "0 < msg_timestamp m" using assms(1) by (auto simp: Validate_def split: if_splits)
  have "dec_struct True message_fields (json_print (message_json m p)) zero_message = Some m"
    using assms(2,3) p(2) ts ok unfolding message_json_def
    by (subst dec_struct_print)
      (auto simp: opt_member_print dec_members_opt_member dec_str_quote dec_raw_def dec_int64_format
        message_utf8_def int64_min_def zero_message_def)
  then have "ParseMessage jerr (json_print (message_json m p)) = Inr m"
    using assms(1) decode_first_print [OF ok, of "dec_struct True message_fields" zero_message]
    by (simp add: ParseMessage_def at_eof_def skip_ws_def)
  with enc show ?thesis by blast
qed

section \<open>Queues of the in-process transport\<close>

lemma queue_of_getQueue [simp]:
  "fst (getQueue f q) = queue_of f q" "queue_of (snd (getQueue f q)) q' = queue_of f q'"
  by (auto simp: getQueue_def queue_of_def update_conv split: option.splits)

lemma queue_of_set_queue [simp]:
  "queue_of (set_queue q ch f) q' = (if q' = q then ch else queue_of f q')"
  by (auto simp: set_queue_def queue_of_def update_conv)

lemma fake_Enqueue_cases:
  "fake_Enqueue ctx f q m =
     (case ctx of Some e \<Rightarrow> (Some e, f)
      | None \<Rightarrow> (case Validate m of Some e \<Rightarrow> (Some e, f)
          | None \<Rightarrow> (None, set_queue q (try_send m (queue_of f q)) (snd (getQueue f q)))))"
  by (simp add: fake_Enqueue_def split_beta set_queue_def split: option.splits)

text \<open>The contract of the task queue, with the queue contents as the abstraction.\<close>

locale task_queue =
  fixes enqueue :: "go_ctx \<Rightarrow> 's \<Rightarrow> string \<Rightarrow> message \<Rightarrow> go_error option \<times> 's"
    and pending :: "'s \<Rightarrow> string \<Rightarrow> message list"
    and cap :: nat
  assumes enqueue_error: "fst (enqueue ctx s q m) = Some e \<Longrightarrow> snd (enqueue ctx s q m) = s"
    and enqueue_status: "fst (enqueue ctx s q m) = (case ctx of None \<Rightarrow> Validate m | Some e \<Rightarrow> Some e)"
    and enqueue_pending: "fst (enqueue ctx s q m) = None \<Longrightarrow>
      pending (snd (enqueue ctx s q m)) q' =
        (if q' = q \<and> length (pending s q) < cap then pending s q @ [m] else pending s q')"
begin

definition enqueue_all :: "string \<Rightarrow> message list \<Rightarrow> 's \<Rightarrow> 's" where
  "enqueue_all q ms s = fold (\<lambda>m s. snd (enqueue None s q m)) ms s"

lemma pending_enqueue:
  "pending (snd (enqueue None s q m)) q' =
     (if q' = q \<and> Validate m = None \<and> length (pending s q) < cap then pending s q @ [m] else pending s q')"
proof (cases "Validate m")
  case None
  then show ?thesis using enqueue_status [of None s q m] enqueue_pending [of None s q m] by simp
next
  case (Some e)
  then show ?thesis using enqueue_status [of None s q m] enqueue_error [of None s q m e] by simp
qed

lemma enqueue_all_pending:
  "length (pending s q) \<le> cap \<Longrightarrow>
   pending (enqueue_all q ms s) q =
     pending s q @ take (cap - length (pending s q)) (filter (\<lambda>m. Validate m = None) ms)"
  by (induction ms arbitrary: s) (auto simp: enqueue_all_def pending_enqueue Suc_diff_le take_Cons')

lemma enqueue_all_other: "q' \<noteq> q \<Longrightarrow> pending (enqueue_all q ms s) q' = pending s q'"
  by (induction ms arbitrary: s) (simp_all add: enqueue_all_def pending_enqueue)

end

interpretation fake_queue: task_queue fake_Enqueue queue_of chan_cap
  by unfold_locales
    (auto simp: fake_Enqueue_cases try_send_def split: option.splits)

section \<open>Conservation and order of messages\<close>

definition on_queue :: "string \<Rightarrow> (string \<times> message) list \<Rightarrow> message list" where
  "on_queue q xs = map snd (filter (\<lambda>p. fst p = q) xs)"

lemma on_queue_simps [simp]:
  "on_queue q [] = []" "on_queue q (xs @ ys) = on_queue q xs @ on_queue q ys"
  "on_queue q ((q', m) # xs) = (if q' = q then m # on_queue q xs else on_queue q xs)"
  "on_queue q (map (Pair q') ms) = (if q' = q then ms else [])"
  by (simp_all add: on_queue_def filter_map o_def)

definition carried :: "string \<Rightarrow> consumer \<Rightarrow> message multiset" where
  "carried q c = (if co_queue c = q then mset (co_out c) + mset (opt_list (co_held c)) else {#})"

definition in_flight :: "string \<Rightarrow> consumer list \<Rightarrow> message multiset" where
  "in_flight q cs = sum_list (map (carried q) cs)"

lemma in_flight_update:
  "i < length cs \<Longrightarrow>
     in_flight q (cs[i := c]) + carried q (cs ! i) = in_flight q cs + carried q c"
proof (induction cs arbitrary: i)
  case (Cons d cs)
  then show ?case by (cases i) (auto simp: in_flight_def add.assoc add.commute)
qed simp

definition conserved :: "string \<Rightarrow> bus_system \<Rightarrow> bool" where
  "conserved q s = (mset (on_queue q (sys_accepted s)) =
     mset (queue_of (sys_bus s) q) + in_flight q (sys_consumers s) +
     mset (on_queue q (sys_received s)) + mset (on_queue q (sys_lost s)))"

lemma conserved_step: "bus_step s t \<Longrightarrow> conserved q s \<Longrightarrow> conserved q t"
proof (induction rule: bus_step.induct)
  case (enqueue ctx s q' m err f' acc)
  then show ?case
    by (auto simp: conserved_def fake_Enqueue_cases try_send_def split: option.splits if_splits)
next
  case (dequeue s q' c f')
  then show ?case
    by (auto simp: conserved_def fake_Dequeue_def in_flight_def carried_def opt_list_def)
next
  case (take_msg i s c m ms)
  from in_flight_update [OF take_msg(1), of q "c\<lparr>co_held := Some m\<rparr>"] take_msg show ?case
    by (cases "co_queue c = q") (auto simp: conserved_def carried_def opt_list_def)
next
  case (deliver i s c m)
  from in_flight_update [OF deliver(1), of q "c\<lparr>co_held := None, co_out := co_out c @ [m]\<rparr>"] deliver
  show ?case by (cases "co_queue c = q") (auto simp: conserved_def carried_def opt_list_def)
next
  case (receive i s c m ms)
  from in_flight_update [OF receive(1), of q "c\<lparr>co_out := ms\<rparr>"] receive
  show ?case by (cases "co_queue c = q") (auto simp: conserved_def carried_def)
next
  case (cancel i s c)
  from in_flight_update [OF cancel(1), of q "c\<lparr>co_held := None, co_done := True\<rparr>"] cancel
  show ?case by (cases "co_queue c = q") (auto simp: conserved_def carried_def opt_list_def [of None])
qed

text \<open>While a queue has one consumer and it runs, messages keep their order.\<close>

definition consumers_of :: "string \<Rightarrow> bus_system \<Rightarrow> consumer list" where
  "consumers_of q s = filter (\<lambda>c. co_queue c = q) (sys_consumers s)"

definition in_order :: "string \<Rightarrow> bus_system \<Rightarrow> bool" where
  "in_order q s =
     (case consumers_of q s of
        [] \<Rightarrow> on_queue q (sys_accepted s) = queue_of (sys_bus s) q \<and> on_queue q (sys_received s) = []
      | [c] \<Rightarrow> \<not> co_done c \<longrightarrow> on_queue q (sys_accepted s) =
          on_queue q (sys_received s) @ co_out c @ opt_list (co_held c) @ queue_of (sys_bus s) q
      | _ \<Rightarrow> True)"

lemma filter_update_other:
  "i < length cs \<Longrightarrow> \<not> P (cs ! i) \<Longrightarrow> \<not> P c \<Longrightarrow> filter P (cs[i := c]) = filter P cs"
  by (induction cs arbitrary: i) (auto split: nat.splits)

lemma filter_update_hit:
  "i < length cs \<Longrightarrow> P (cs ! i) \<Longrightarrow> P c \<Longrightarrow>
     \<exists>xs ys. filter P cs = xs @ cs ! i # ys \<and> filter P (cs[i := c]) = xs @ c # ys"
proof (induction cs arbitrary: i)
  case (Cons d cs)
  show ?case
  proof (cases i)
    case 0
    with Cons.prems show ?thesis by auto
  next
    case (Suc j)
    with Cons.IH [of j] Cons.prems obtain xs ys where
      "filter P cs = xs @ cs ! j # ys" "filter P (cs[j := c]) = xs @ c # ys"
      by auto
    with Suc show ?thesis by (cases "P d") (auto intro: exI [of _ "d # xs"])
  qed
qed simp

lemma in_order_update:
  assumes "in_order q s" "i < length (sys_consumers s)" "co_queue c' = co_queue (sys_consumers s ! i)"
    and "sys_consumers t = (sys_consumers s)[i := c']"
    and other: "co_queue c' \<noteq> q \<Longrightarrow> on_queue q (sys_accepted t) = on_queue q (sys_accepted s) \<and>
      on_queue q (sys_received t) = on_queue q (sys_received s) \<and> queue_of (sys_bus t) q = queue_of (sys_bus s) q"
    and hit: "co_queue c' = q \<Longrightarrow> \<not> co_done c' \<Longrightarrow> \<not> co_done (sys_consumers s ! i) \<and>
      (on_queue q (sys_accepted s) = on_queue q (sys_received s) @ co_out (sys_consumers s ! i) @
         opt_list (co_held (sys_consumers s ! i)) @ queue_of (sys_bus s) q \<longrightarrow>
       on_queue q (sys_accepted t) = on_queue q (sys_received t) @ co_out c' @
         opt_list (co_held c') @ queue_of (sys_bus t) q)"
  shows "in_order q t"
proof (cases "co_queue c' = q")
  case False
  then have "consumers_of q t = consumers_of q s"
    using assms(2-4) by (simp add: consumers_of_def filter_update_other)
  with assms(1) other [OF False] show ?thesis by (simp add: in_order_def split: list.splits)
next
  case True
  then obtain xs ys where "consumers_of q s = xs @ sys_consumers s ! i # ys" "consumers_of q t = xs @ c' # ys"
    using filter_update_hit [of i "sys_consumers s" "\<lambda>c. co_queue c = q" c'] assms(2-4)
    by (auto simp: consumers_of_def)
  with assms(1) hit [OF True] show ?thesis
    by (cases xs; cases ys) (auto simp: in_order_def split: list.splits)
qed

lemma in_order_step: "bus_step s t \<Longrightarrow> in_order q s \<Longrightarrow> in_order q t"
proof (induction rule: bus_step.induct)
  case (enqueue ctx s q' m err f' acc)
  then show ?case
    by (auto simp: in_order_def consumers_of_def fake_Enqueue_cases try_send_def
        split: option.splits if_splits list.splits)
next
  case (dequeue s q' c f')
  then show ?case
    by (auto simp: in_order_def consumers_of_def fake_Dequeue_def opt_list_def split: list.splits)
next
  case (take_msg i s c m ms)
  then show ?case
    by (elim in_order_update [where i = i]) (auto simp: opt_list_def)
next
  case (deliver i s c m)
  then show ?case by (elim in_order_update [where i = i]) (auto simp: opt_list_def)
next
  case (receive i s c m ms)
  then show ?case by (elim in_order_update [where i = i and c' = "c\<lparr>co_out := ms\<rparr>"]) auto
next
  case (cancel i s c)
  then show ?case by (elim in_order_update [where i = i]) auto
qed

definition all_valid :: "bus_system \<Rightarrow> bool" where
  "all_valid s = (\<forall>p \<in> set (sys_accepted s). Validate (snd p) = None)"

lemma all_valid_step: "bus_step s t \<Longrightarrow> all_valid s \<Longrightarrow> all_valid t"
  by (induction rule: bus_step.induct)
    (auto simp: all_valid_def fake_Enqueue_cases split: option.splits if_splits)

lemma bus_invariants:
  assumes "bus_step\<^sup>*\<^sup>* bus_init s"
  shows "conserved q s \<and> in_order q s \<and> all_valid s"
  using assms
proof (induction rule: rtranclp_induct)
  case base
  show ?case
    by (simp add: conserved_def in_order_def all_valid_def bus_init_def consumers_of_def in_flight_def
        queue_of_def NewFakeTransport_def)
next
  case (step y z)
  then show ?case by (blast intro: conserved_step in_order_step all_valid_step)
qed

section \<open>Topics\<close>

lemma matchTopic_iff:
  "matchTopic pat topic \<longleftrightarrow> pat = topic \<and> \<not> has_suffix pat ''*'' \<or>
     (\<exists>p r. pat = p @ ''*'' \<and> topic = p @ r)"
  by (auto simp: matchTopic_def has_suffix_iff has_prefix_iff)

lemma sub_after_publish:
  "map_of (ft_subscribers (snd (fake_Publish ctx f topic m))) sid =
     (if ctx = None \<and> Validate m = None
      then map_option (\<lambda>sub. if matchTopic (sub_pattern sub) topic
             then sub\<lparr>sub_ch := try_send m (sub_ch sub)\<rparr> else sub) (map_of (ft_subscribers f) sid)
      else map_of (ft_subscribers f) sid)"
  by (auto simp: fake_Publish_def map_of_map split: option.splits)

text \<open>What a subscriber has seen after a sequence of published messages.\<close>

definition publish_all :: "(string \<times> message) list \<Rightarrow> fake_transport \<Rightarrow> fake_transport" where
  "publish_all ps f = fold (\<lambda>(topic, m) f. snd (fake_Publish None f topic m)) ps f"

lemma publish_all_sub:
  assumes "map_of (ft_subscribers f) sid = Some sub" "length (sub_ch sub) \<le> chan_cap"
  shows "map_of (ft_subscribers (publish_all ps f)) sid =
    Some (sub\<lparr>sub_ch := sub_ch sub @ take (chan_cap - length (sub_ch sub))
      (map snd (filter (\<lambda>(topic, m). Validate m = None \<and> matchTopic (sub_pattern sub) topic) ps))\<rparr>)"
  using assms
proof (induction ps arbitrary: f sub)
  case Nil
  then show ?case by (simp add: publish_all_def)
next
  case (Cons p ps)
  obtain topic m where p: "p = (topic, m)" by (cases p)
  define sub' where "sub' = (if Validate m = None \<and> matchTopic (sub_pattern sub) topic
    then sub\<lparr>sub_ch := try_send m (sub_ch sub)\<rparr> else sub)"
  have "map_of (ft_subscribers (snd (fake_Publish None f topic m))) sid = Some sub'"
    using Cons.prems by (simp add: sub_after_publish sub'_def)
  moreover have "length (sub_ch sub') \<le> chan_cap"
    using Cons.prems(2) by (simp add: sub'_def try_send_def)
  ultimately have "map_of (ft_subscribers (publish_all ps (snd (fake_Publish None f topic m)))) sid =
    Some (sub'\<lparr>sub_ch := sub_ch sub' @ take (chan_cap - length (sub_ch sub'))
      (map snd (filter (\<lambda>(topic, m). Validate m = None \<and> matchTopic (sub_pattern sub') topic) ps))\<rparr>)"
    by (rule Cons.IH)
  then show ?case
    using Cons.prems(2) p
    by (auto simp: publish_all_def sub'_def try_send_def Suc_diff_le take_Cons')
qed

section \<open>Properties\<close>

text \<open>
  C22. Every message the bus accepts survives the wire: for a valid message whose strings are
  UTF-8 and whose payload is a compact JSON document (as \<^verbatim>\<open>json.Marshal\<close> writes them), the text
  the Redis transport sends parses back to exactly that message.
\<close>

theorem message_wire_roundtrip:
  assumes "Validate m = None" "message_utf8 m" "msg_timestamp m \<le> int64_max"
    and "json_ok (max_nesting - 1) p" "msg_payload m = json_print p"
  shows "\<exists>d. marshal_message m = Some d \<and> ParseMessage jerr d = Inr m"
  using assms by (rule parse_marshal_message)

definition sample_message :: message where
  "sample_message =
     \<lparr>msg_message_id = ''m-1'', msg_parent_task_id = [], msg_sender_id = ''gateway'',
      msg_receiver_id = ''orchestrator'', msg_target_agent = ''researcher'',
      msg_payload = json_print (JObj [(''text'', JStr ''a<b'')]), msg_timestamp = 7\<rparr>"

lemma sample_message_ok: "Validate sample_message = None" "message_utf8 sample_message"
proof -
  have "json_valid (json_print (JObj [(''text'', JStr ''a<b'')]))"
    by (rule json_valid_print) (simp add: max_nesting_def)
  then show "Validate sample_message = None"
    by (simp add: Validate_def sample_message_def obj_text_def)
  show "message_utf8 sample_message"
    by (simp add: message_utf8_def sample_message_def)
qed

theorem message_wire_roundtrip_witness:
  "\<exists>d. marshal_message sample_message = Some d \<and> ParseMessage (\<lambda>_. []) d = Inr sample_message"
  by (rule message_wire_roundtrip [of sample_message "JObj [(''text'', JStr ''a<b'')]"])
    (simp_all add: sample_message_ok, simp_all add: sample_message_def int64_max_def max_nesting_def)

text \<open>
  C23. In every reachable state of the in-process transport and its \<^verbatim>\<open>Dequeue\<close> goroutines, for every
  queue: each accepted message is exactly once in the queue, on its way, received or lost to a
  cancelled consumer; every accepted message is valid; and while the queue has a single running
  consumer its client receives the messages in the order they were accepted.
\<close>

theorem transport_exactly_once_in_order:
  assumes "bus_step\<^sup>*\<^sup>* bus_init s"
  shows "mset (on_queue q (sys_accepted s)) =
      mset (queue_of (sys_bus s) q) + in_flight q (sys_consumers s) +
      mset (on_queue q (sys_received s)) + mset (on_queue q (sys_lost s)) \<and>
    (\<forall>m \<in> set (on_queue q (sys_accepted s)). Validate m = None) \<and>
    (\<forall>c. consumers_of q s = [c] \<and> \<not> co_done c \<longrightarrow>
      on_queue q (sys_accepted s) = on_queue q (sys_received s) @ co_out c @
        opt_list (co_held c) @ queue_of (sys_bus s) q)"
  using bus_invariants [OF assms, of q]
  by (auto simp: conserved_def in_order_def all_valid_def on_queue_def)

definition sample_system :: bus_system where
  "sample_system = bus_init\<lparr>sys_bus := snd (fake_Enqueue None NewFakeTransport ''q'' sample_message),
     sys_accepted := [(''q'', sample_message)]\<rparr>"

lemma sample_system_reachable: "bus_step\<^sup>*\<^sup>* bus_init sample_system"
proof -
  have err: "fst (fake_Enqueue None NewFakeTransport ''q'' sample_message) = None"
    by (simp add: fake_Enqueue_cases sample_message_ok)
  have "bus_step bus_init (bus_init\<lparr>sys_bus := snd (fake_Enqueue None NewFakeTransport ''q'' sample_message),
      sys_accepted := sys_accepted bus_init @ [(''q'', sample_message)]\<rparr>)"
    by (rule bus_step.enqueue [where ctx = None and err = None])
      (use err in \<open>simp_all add: bus_init_def prod_eq_iff queue_of_def NewFakeTransport_def chan_cap_def\<close>)
  then show ?thesis by (simp add: sample_system_def bus_init_def r_into_rtranclp)
qed

theorem transport_exactly_once_in_order_witness:
  "bus_step\<^sup>*\<^sup>* bus_init sample_system \<and>
   {#sample_message#} = mset (queue_of (sys_bus sample_system) ''q'') + in_flight ''q'' (sys_consumers sample_system)"
  using transport_exactly_once_in_order [OF sample_system_reachable, of "''q''"] sample_system_reachable
  by (simp add: sample_system_def bus_init_def)

text \<open>
  Publishing reaches exactly the matching subscribers: after any sequence of publications a
  subscriber's channel holds the valid messages whose topic matches its pattern, in order, up to
  the capacity of 100 (the rest is dropped although \<^verbatim>\<open>Publish\<close> reports success).
\<close>

theorem publish_reaches_matching_subscribers:
  "map_option sub_ch (map_of (ft_subscribers (publish_all ps (snd (fake_Subscribe f pat))))
       (fst (fake_Subscribe f pat))) =
     Some (take chan_cap (map snd (filter (\<lambda>(topic, m). Validate m = None \<and> matchTopic pat topic) ps)))"
  using publish_all_sub [of "snd (fake_Subscribe f pat)" "fst (fake_Subscribe f pat)"
      "\<lparr>sub_pattern = pat, sub_ch = []\<rparr>" ps]
  by (simp add: fake_Subscribe_def update_conv)

section \<open>Messages over Redis\<close>

text \<open>
  The documented behaviour of the Redis list commands, over the contents of the lists:
  \<^verbatim>\<open>LPUSH\<close> puts a value at the head, \<^verbatim>\<open>BRPOP\<close> removes the value at the tail and returns it
  after the key.
\<close>

definition redis_list_laws :: "(string \<Rightarrow> string \<Rightarrow> 'w \<Rightarrow> go_error option \<times> 'w) \<Rightarrow>
    (string \<Rightarrow> 'w \<Rightarrow> brpop_result \<times> 'w) \<Rightarrow> ('w \<Rightarrow> string \<Rightarrow> string list) \<Rightarrow> bool" where
  "redis_list_laws lpush brpop contents =
     ((\<forall>k x w. fst (lpush k x w) = None \<and> contents (snd (lpush k x w)) k = x # contents w k) \<and>
      (\<forall>k w xs x. contents w k = xs @ [x] \<longrightarrow>
         fst (brpop k w) = BrValues [k, x] \<and> contents (snd (brpop k w)) k = xs))"

definition redis_enqueue_all where
  "redis_enqueue_all jerr lpush q ms w = fold (\<lambda>m w. snd (redis_Enqueue jerr lpush q m w)) ms w"

primrec redis_drain :: "(string \<Rightarrow> string) \<Rightarrow> (string \<Rightarrow> 'w \<Rightarrow> brpop_result \<times> 'w) \<Rightarrow> string \<Rightarrow> nat \<Rightarrow> 'w \<Rightarrow> message list" where
  "redis_drain jerr brpop q 0 w = []"
| "redis_drain jerr brpop q (Suc n) w =
     (case redis_Dequeue_iter jerr brpop q None None w of
        (LSend m, w') \<Rightarrow> m # redis_drain jerr brpop q n w'
      | (_, w') \<Rightarrow> redis_drain jerr brpop q n w')"

definition wire_ok :: "message \<Rightarrow> bool" where
  "wire_ok m = (Validate m = None \<and> message_utf8 m \<and> msg_timestamp m \<le> int64_max \<and>
     (\<exists>p. json_ok (max_nesting - 1) p \<and> msg_payload m = json_print p))"

definition wire :: "message \<Rightarrow> string" where
  "wire m = the (marshal_message m)"

lemma wire_ok_parse: "wire_ok m \<Longrightarrow> marshal_message m = Some (wire m) \<and> ParseMessage jerr (wire m) = Inr m"
  using parse_marshal_message [of m] by (fastforce simp: wire_ok_def wire_def)

lemma redis_enqueue_all_contents:
  assumes "redis_list_laws lpush brpop contents" "list_all wire_ok ms"
  shows "contents (redis_enqueue_all jerr lpush q ms w) q = rev (map wire ms) @ contents w q"
  using assms(2)
proof (induction ms arbitrary: w)
  case (Cons m ms)
  then have v: "Validate m = None" by (simp add: wire_ok_def)
  have "snd (redis_Enqueue jerr lpush q m w) = snd (lpush q (wire m) w)"
    using Cons.prems v wire_ok_parse [of m] by (simp add: redis_Enqueue_def redis_send_def)
  with Cons assms(1) show ?case by (simp add: redis_enqueue_all_def redis_list_laws_def)
qed (simp add: redis_enqueue_all_def)

lemma redis_drain_contents:
  assumes "redis_list_laws lpush brpop contents" "list_all wire_ok ms"
    and "contents w q = rev (map wire ms)"
  shows "redis_drain jerr brpop q (length ms) w = ms"
  using assms(2,3)
proof (induction ms arbitrary: w)
  case (Cons m ms)
  then have "fst (brpop q w) = BrValues [q, wire m]" "contents (snd (brpop q w)) q = rev (map wire ms)"
    using assms(1) by (simp_all add: redis_list_laws_def)
  with Cons wire_ok_parse [of m jerr] show ?case
    by (simp add: redis_Dequeue_iter_def split_beta)
qed simp

text \<open>
  C24. First in, first out across the wire: on a Redis server whose list commands behave as
  documented, messages enqueued on an empty queue are delivered by the receiving loop
  unchanged, all of them and in the order they were sent.
\<close>

theorem redis_queue_fifo:
  assumes "redis_list_laws lpush brpop contents" "list_all wire_ok ms" "contents w q = []"
  shows "redis_drain jerr brpop q (length ms) (redis_enqueue_all jerr lpush q ms w) = ms"
  using assms redis_enqueue_all_contents [OF assms(1,2), of jerr q w] by (simp add: redis_drain_contents)

definition list_lpush :: "string \<Rightarrow> string \<Rightarrow> (string \<Rightarrow> string list) \<Rightarrow> go_error option \<times> (string \<Rightarrow> string list)" where
  "list_lpush k x w = (None, w(k := x # w k))"

definition list_brpop :: "string \<Rightarrow> (string \<Rightarrow> string list) \<Rightarrow> brpop_result \<times> (string \<Rightarrow> string list)" where
  "list_brpop k w = (if w k = [] then (BrNil, w) else (BrValues [k, last (w k)], w(k := butlast (w k))))"

theorem redis_queue_fifo_witness:
  "redis_drain (\<lambda>_. []) list_brpop ''q'' 2
     (redis_enqueue_all (\<lambda>_. []) list_lpush ''q'' [sample_message, sample_message\<lparr>msg_timestamp := 8\<rparr>] (\<lambda>_. [])) =
   [sample_message, sample_message\<lparr>msg_timestamp := 8\<rparr>]"
proof -
  have pay: "\<exists>p. json_ok (max_nesting - 1) p \<and> msg_payload sample_message = json_print p"
    by (rule exI [of _ "JObj [(''text'', JStr ''a<b'')]"]) (simp add: sample_message_def max_nesting_def)
  have ts: "msg_timestamp sample_message = 7" by (simp add: sample_message_def)
  have "wire_ok sample_message" "wire_ok (sample_message\<lparr>msg_timestamp := 8\<rparr>)"
    using sample_message_ok pay ts
    by (simp_all add: wire_ok_def int64_max_def Validate_def message_utf8_def split: if_splits)
  then show ?thesis
    using redis_queue_fifo [of list_lpush list_brpop "\<lambda>w k. w k"
        "[sample_message, sample_message\<lparr>msg_timestamp := 8\<rparr>]" "\<lambda>_. []" "''q''" "\<lambda>_. []"]
    by (simp add: redis_list_laws_def list_lpush_def list_brpop_def numeral_2_eq_2)
qed

end
