(* ===== verification/Llm_Contracts.thy ===== *)
theory Llm_Contracts
  imports Json_Roundtrip
begin

text \<open>
  Package \<^verbatim>\<open>internal/llm\<close>, the contracts: data types and their validation (\<^verbatim>\<open>contracts.go\<close>), strict
  validation of OpenAI requests and the mapping of provider errors (\<^verbatim>\<open>openai_compat.go\<close>), and
  parsing of model output (\<^verbatim>\<open>schema_parser.go\<close>).

  A nil \<^verbatim>\<open>json.RawMessage\<close> is the empty text. \<open>jerr\<close> gives the text of the error \<^verbatim>\<open>encoding/json\<close>
  reports for an input.
\<close>

section \<open>Data\<close>

record chat_message =
  cm_role :: string
  cm_content :: string
  cm_name :: string
  cm_tool_call_id :: string
  cm_tool_calls :: string

record inference_request =
  ir_trace_id :: string
  ir_session_id :: string
  ir_task_id :: string
  ir_agent_type :: string
  ir_messages :: "chat_message list"
  ir_model_alias :: string
  ir_max_turns :: int
  ir_stream :: bool
  ir_temperature :: "string option"
  ir_metadata :: "(string \<times> string) list"
  ir_on_approval_reject :: string

record tool_call =
  tc_id :: string
  tc_name :: string
  tc_arguments :: string
  tc_is_write_operation :: bool

record action_envelope =
  ae_think :: string
  ae_call_skill :: "tool_call option"
  ae_final :: string

record tool_result =
  tres_tool_call_id :: string
  tres_name :: string
  tres_success :: bool
  tres_output :: string
  tres_error :: string
  tres_duration_ms :: int

record stream_chunk =
  sc_trace_id :: string
  sc_session_id :: string
  sc_task_id :: string
  sc_sequence :: int
  sc_event :: string
  sc_delta :: string
  sc_role :: string
  sc_tool_name :: string
  sc_done :: bool
  sc_error :: string
  sc_data :: string
  sc_timestamp_ms :: int

record audit_event =
  au_trace_id :: string
  au_session_id :: string
  au_task_id :: string
  au_parent_task_id :: string
  au_tool_call_id :: string
  au_event :: string
  au_actor :: string
  au_level :: string
  au_status :: string
  au_error :: string
  au_data :: string
  au_timestamp_ms :: int

record final_result =
  fr_trace_id :: string
  fr_task_id :: string
  fr_content :: string
  fr_status :: string
  fr_tokens_used :: int
  fr_timestamp_ms :: int

record approval_request =
  areq_trace_id :: string
  areq_task_id :: string
  areq_tool_call_id :: string
  areq_tool_name :: string
  areq_arguments :: string
  areq_requested_at_ms :: int

record approval_decision =
  ad_trace_id :: string
  ad_task_id :: string
  ad_tool_call_id :: string
  ad_approved :: bool
  ad_reviewer :: string
  ad_reason :: string
  ad_decided_at_ms :: int

record chat_completion_request =
  cr_model :: string
  cr_messages :: "chat_message list"
  cr_tools :: string
  cr_tool_choice :: string
  cr_temperature :: "string option"
  cr_stream :: bool

definition zero_chat_message :: chat_message where
  "zero_chat_message =
     \<lparr>cm_role = [], cm_content = [], cm_name = [], cm_tool_call_id = [], cm_tool_calls = []\<rparr>"

definition chat_msg :: "string \<Rightarrow> string \<Rightarrow> chat_message" where
  "chat_msg role content = zero_chat_message\<lparr>cm_role := role, cm_content := content\<rparr>"

definition zero_inference_request :: inference_request where
  "zero_inference_request =
     \<lparr>ir_trace_id = [], ir_session_id = [], ir_task_id = [], ir_agent_type = [], ir_messages = [],
      ir_model_alias = [], ir_max_turns = 0, ir_stream = False, ir_temperature = None,
      ir_metadata = [], ir_on_approval_reject = []\<rparr>"

definition zero_chat_completion_request :: chat_completion_request where
  "zero_chat_completion_request =
     \<lparr>cr_model = [], cr_messages = [], cr_tools = [], cr_tool_choice = [], cr_temperature = None,
      cr_stream = False\<rparr>"

definition ApprovalRequest_Validate :: "approval_request \<Rightarrow> go_error option" where
  "ApprovalRequest_Validate r =
     (if areq_task_id r = [] then Some (errorf ''task_id is required'')
      else if areq_tool_call_id r = [] then Some (errorf ''tool_call_id is required'')
      else if areq_tool_name r = [] then Some (errorf ''tool_name is required'')
      else if 0 < length (areq_arguments r) \<and> \<not> json_valid (areq_arguments r)
      then Some (errorf ''arguments must be valid json'')
      else None)"

definition ApprovalDecision_Validate :: "approval_decision \<Rightarrow> go_error option" where
  "ApprovalDecision_Validate d =
     (if ad_task_id d = [] then Some (errorf ''task_id is required'')
      else if ad_tool_call_id d = [] then Some (errorf ''tool_call_id is required'')
      else if ad_decided_at_ms d \<le> 0 then Some (errorf ''decided_at_ms must be positive'')
      else None)"

section \<open>Strict validation of OpenAI requests\<close>

definition chat_message_fields :: "(string \<times> chat_message decoder) list" where
  "chat_message_fields =
     [(''role'', dec_str (\<lambda>x. cm_role_update (\<lambda>_. x))),
      (''content'', dec_str (\<lambda>x. cm_content_update (\<lambda>_. x))),
      (''name'', dec_str (\<lambda>x. cm_name_update (\<lambda>_. x))),
      (''tool_call_id'', dec_str (\<lambda>x. cm_tool_call_id_update (\<lambda>_. x))),
      (''tool_calls'', dec_raw (\<lambda>x. cm_tool_calls_update (\<lambda>_. x)))]"

definition request_fields :: "(string \<times> chat_completion_request decoder) list" where
  "request_fields =
     [(''model'', dec_str (\<lambda>x. cr_model_update (\<lambda>_. x))),
      (''messages'', dec_slice (dec_struct True chat_message_fields) zero_chat_message cr_messages
         (\<lambda>x. cr_messages_update (\<lambda>_. x))),
      (''tools'', dec_raw (\<lambda>x. cr_tools_update (\<lambda>_. x))),
      (''tool_choice'', dec_raw (\<lambda>x. cr_tool_choice_update (\<lambda>_. x))),
      (''temperature'', dec_float32 (\<lambda>x. cr_temperature_update (\<lambda>_. x))),
      (''stream'', dec_bool (\<lambda>x. cr_stream_update (\<lambda>_. x)))]"

record request_tool =
  rt_type :: string
  rt_function_name :: string

definition request_tool_fields :: "(string \<times> request_tool decoder) list" where
  "request_tool_fields =
     [(''type'', dec_str (\<lambda>x. rt_type_update (\<lambda>_. x))),
      (''function'', dec_struct True [(''name'', dec_str (\<lambda>x. rt_function_name_update (\<lambda>_. x)))])]"

definition zero_request_tool :: request_tool where
  "zero_request_tool = \<lparr>rt_type = [], rt_function_name = []\<rparr>"

fun tool_names :: "request_tool list \<Rightarrow> string list \<Rightarrow> string list res" where
  "tool_names [] names = Inr names"
| "tool_names (tool # tools) names =
     (if rt_type tool \<noteq> ''function''
      then Inl (errorf ''invalid_request_error: tools only support function type'')
      else if rt_function_name tool = []
      then Inl (errorf ''invalid_request_error: tool function.name is required'')
      else tool_names tools (List.insert (rt_function_name tool) names))"

text \<open>The result is the set of names, as a list without repetitions.\<close>

definition validateTools :: "(string \<Rightarrow> string) \<Rightarrow> string \<Rightarrow> string list res" where
  "validateTools jerr raw =
     (if length raw = 0 then Inr []
      else case decode_first (dec_slice (dec_struct True request_tool_fields) zero_request_tool
                  (\<lambda>x. x) (\<lambda>x _. x)) [] raw of
             None \<Rightarrow> Inl (errorf (''invalid_request_error: invalid tools: '' @ jerr raw))
           | Some (tools, rest) \<Rightarrow>
               if \<not> at_eof rest
               then Inl (errorf ''invalid_request_error: invalid tools: trailing json data'')
               else tool_names tools [])"

definition validateToolChoice :: "(string \<Rightarrow> string) \<Rightarrow> string \<Rightarrow> string list \<Rightarrow> go_error option" where
  "validateToolChoice jerr raw toolNames =
     (if length raw = 0 then None
      else case unmarshal (dec_str (\<lambda>x _. x)) [] raw of
        Some stringChoice \<Rightarrow>
          if stringChoice \<in> {''auto'', ''none'', ''required''} then
            (if stringChoice = ''required'' \<and> length toolNames = 0
             then Some (errorf ''invalid_request_error: tool_choice required needs tools'')
             else None)
          else Some (errorf ''invalid_request_error: invalid tool_choice'')
      | None \<Rightarrow>
          (case decode_first (dec_struct True request_tool_fields) zero_request_tool raw of
             None \<Rightarrow> Some (errorf (''invalid_request_error: invalid tool_choice: '' @ jerr raw))
           | Some (choice, rest) \<Rightarrow>
               if \<not> at_eof rest
               then Some (errorf ''invalid_request_error: invalid tool_choice: trailing json data'')
               else if rt_type choice \<noteq> ''function''
               then Some (errorf ''invalid_request_error: tool_choice object must have type=function'')
               else if rt_function_name choice = []
               then Some (errorf ''invalid_request_error: tool_choice function.name is required'')
               else if length toolNames = 0
               then Some (errorf ''invalid_request_error: tool_choice function requires tools'')
               else if rt_function_name choice \<notin> set toolNames
               then Some (errorf ''invalid_request_error: tool_choice function not found in tools'')
               else None))"

definition validRoles :: "string set" where
  "validRoles = {''system'', ''user'', ''assistant'', ''tool''}"

definition ValidateChatCompletionRequest ::
    "(string \<Rightarrow> string) \<Rightarrow> string \<Rightarrow> chat_completion_request res" where
  "ValidateChatCompletionRequest jerr raw =
     (case decode_first (dec_struct True request_fields) zero_chat_completion_request raw of
        None \<Rightarrow> Inl (errorf (''invalid_request_error: '' @ jerr raw))
      | Some (req, rest) \<Rightarrow>
          if \<not> at_eof rest then Inl (errorf ''invalid_request_error: trailing json data'')
          else if cr_model req = [] then Inl (errorf ''invalid_request_error: missing model'')
          else if length (cr_messages req) = 0
          then Inl (errorf ''invalid_request_error: messages cannot be empty'')
          else case find (\<lambda>m. cm_role m \<notin> validRoles) (cr_messages req) of
            Some m \<Rightarrow> Inl (errorf (''invalid_request_error: invalid message role: '' @ cm_role m))
          | None \<Rightarrow>
              if (case cr_temperature req of None \<Rightarrow> False | Some t \<Rightarrow> f32_neg t \<or> f32_above_2 t)
              then Inl (errorf ''invalid_request_error: temperature must be between 0 and 2'')
              else case validateTools jerr (cr_tools req) of
                Inl e \<Rightarrow> Inl e
              | Inr toolNames \<Rightarrow>
                  (case validateToolChoice jerr (cr_tool_choice req) toolNames of
                     Some e \<Rightarrow> Inl e
                   | None \<Rightarrow> Inr req))"

definition MapProviderError :: "go_error option \<Rightarrow> int \<times> string \<times> string" where
  "MapProviderError err =
     (case err of
        None \<Rightarrow> (200, [], [])
      | Some e \<Rightarrow>
          let errStr = err_msg e in
          if contains errStr ''invalid_request_error'' then (400, ''invalid_request_error'', errStr)
          else if contains errStr ''approval rejected'' then (403, ''permission_error'', errStr)
          else if contains errStr ''401'' \<or> contains errStr ''unauthorized'' \<or> contains errStr ''invalid_api_key''
          then (401, ''authentication_error'', errStr)
          else if contains errStr ''429'' \<or> contains errStr ''rate_limit'' then (429, ''rate_limit_error'', errStr)
          else if contains errStr ''context deadline exceeded'' \<or> contains errStr ''timeout''
          then (504, ''timeout_error'', errStr)
          else (502, ''api_error'', errStr))"

section \<open>Model output\<close>

definition tool_call_fields :: "(string \<times> tool_call decoder) list" where
  "tool_call_fields =
     [(''id'', dec_str (\<lambda>x. tc_id_update (\<lambda>_. x))),
      (''name'', dec_str (\<lambda>x. tc_name_update (\<lambda>_. x))),
      (''arguments'', dec_raw (\<lambda>x. tc_arguments_update (\<lambda>_. x))),
      (''is_write_operation'', dec_bool (\<lambda>x. tc_is_write_operation_update (\<lambda>_. x)))]"

definition zero_tool_call :: tool_call where
  "zero_tool_call = \<lparr>tc_id = [], tc_name = [], tc_arguments = [], tc_is_write_operation = False\<rparr>"

text \<open>A pointer field: \<^verbatim>\<open>null\<close> clears it, anything else decodes into the pointed-to value.\<close>

definition dec_ptr :: "'b decoder \<Rightarrow> 'b \<Rightarrow> ('a \<Rightarrow> 'b option) \<Rightarrow> ('b option \<Rightarrow> 'a \<Rightarrow> 'a) \<Rightarrow> 'a decoder" where
  "dec_ptr d z get upd x a =
     (case json_parse x of
        None \<Rightarrow> None
      | Some JNull \<Rightarrow> Some (upd None a)
      | Some _ \<Rightarrow> map_option (\<lambda>b. upd (Some b) a) (d x (case get a of None \<Rightarrow> z | Some b \<Rightarrow> b)))"

definition action_fields :: "(string \<times> action_envelope decoder) list" where
  "action_fields =
     [(''think'', dec_str (\<lambda>x. ae_think_update (\<lambda>_. x))),
      (''call_skill'', dec_ptr (dec_struct False tool_call_fields) zero_tool_call ae_call_skill
         (\<lambda>x. ae_call_skill_update (\<lambda>_. x))),
      (''final'', dec_str (\<lambda>x. ae_final_update (\<lambda>_. x)))]"

definition zero_action :: action_envelope where
  "zero_action = \<lparr>ae_think = [], ae_call_skill = None, ae_final = []\<rparr>"

definition code_fence :: string where "code_fence = ''```''"

definition strip_fence :: "string \<Rightarrow> string" where
  "strip_fence raw =
     (let clean = trim_space raw in
      if has_prefix clean (code_fence @ ''json'')
      then trim_space (trim_suffix (trim_prefix clean (code_fence @ ''json'')) code_fence)
      else if has_prefix clean code_fence
      then trim_space (trim_suffix (trim_prefix clean code_fence) code_fence)
      else clean)"

definition ParseModelOutput :: "(string \<Rightarrow> string) \<Rightarrow> string \<Rightarrow> action_envelope res" where
  "ParseModelOutput jerr raw =
     (let clean = strip_fence raw in
      case unmarshal (dec_struct False action_fields) zero_action clean of
        None \<Rightarrow> Inl (errorf (''invalid_json_error: '' @ jerr clean @ '' (raw: '' @ raw @ '')''))
      | Some action \<Rightarrow>
          if ae_think action = [] \<and> ae_final action = [] \<and> ae_call_skill action = None
          then Inl (errorf ''invalid_action_error: response contains no think, final, or call_skill'')
          else Inr action)"

section \<open>Encoding\<close>

definition bool_text :: "bool \<Rightarrow> string" where
  "bool_text b = (if b then ''true'' else ''false'')"

text \<open>A \<^verbatim>\<open>json.RawMessage\<close> field without \<^verbatim>\<open>omitempty\<close>: nil is written as \<^verbatim>\<open>null\<close>.\<close>

definition raw_field :: "string \<Rightarrow> string option" where
  "raw_field x = (if x = [] then Some ''null'' else marshal_raw x)"

definition marshal_tool_call :: "tool_call \<Rightarrow> string option" where
  "marshal_tool_call c =
     map_option (\<lambda>a. obj_text [(''id'', quote (tc_id c)), (''name'', quote (tc_name c)), (''arguments'', a),
        (''is_write_operation'', bool_text (tc_is_write_operation c))]) (raw_field (tc_arguments c))"

definition marshal_tool_result :: "tool_result \<Rightarrow> string" where
  "marshal_tool_result r =
     obj_text [(''tool_call_id'', quote (tres_tool_call_id r)), (''name'', quote (tres_name r)),
       (''success'', bool_text (tres_success r)), (''output'', quote (tres_output r)),
       (''error'', quote (tres_error r)), (''duration_ms'', format_int (tres_duration_ms r))]"

definition marshal_approval_request :: "approval_request \<Rightarrow> string option" where
  "marshal_approval_request r =
     map_option (\<lambda>a. obj_text [(''trace_id'', quote (areq_trace_id r)), (''task_id'', quote (areq_task_id r)),
       (''tool_call_id'', quote (areq_tool_call_id r)), (''tool_name'', quote (areq_tool_name r)),
       (''arguments'', a), (''requested_at_ms'', format_int (areq_requested_at_ms r))])
       (raw_field (areq_arguments r))"

section \<open>Rejected requests\<close>

definition is_request_error :: "go_error \<Rightarrow> bool" where
  "is_request_error e = has_prefix (err_msg e) ''invalid_request_error''"

lemma request_errorI [simp]:
  "is_request_error (errorf (CHR ''i'' # CHR ''n'' # CHR ''v'' # CHR ''a'' # CHR ''l'' # CHR ''i'' # CHR ''d'' #
     CHR ''_'' # CHR ''r'' # CHR ''e'' # CHR ''q'' # CHR ''u'' # CHR ''e'' # CHR ''s'' # CHR ''t'' #
     CHR ''_'' # CHR ''e'' # CHR ''r'' # CHR ''r'' # CHR ''o'' # CHR ''r'' # s))"
  by (simp add: is_request_error_def has_prefix_def)

lemma tool_names_error: "tool_names tools names = Inl e \<Longrightarrow> is_request_error e"
  by (induction tools names rule: tool_names.induct) (auto split: if_splits)

lemma validateTools_error: "validateTools jerr raw = Inl e \<Longrightarrow> is_request_error e"
  by (auto simp: validateTools_def dest: tool_names_error split: if_splits option.splits)

lemma validateToolChoice_error: "validateToolChoice jerr raw names = Some e \<Longrightarrow> is_request_error e"
  by (auto simp: validateToolChoice_def split: if_splits option.splits)

lemma MapProviderError_request:
  "is_request_error e \<Longrightarrow> MapProviderError (Some e) = (400, ''invalid_request_error'', err_msg e)"
proof -
  assume "is_request_error e"
  then have "contains (err_msg e) ''invalid_request_error''"
    unfolding is_request_error_def contains_iff has_prefix_iff by (metis append_Nil)
  then show ?thesis by (simp add: MapProviderError_def Let_def)
qed

text \<open>What a request that passed may ask for as its tool choice.\<close>

definition tool_choice_ok :: "string \<Rightarrow> string list \<Rightarrow> bool" where
  "tool_choice_ok choice names =
     (choice = [] \<or> json_parse choice \<in> {Some (JStr ''auto''), Some (JStr ''none'')} \<or>
      json_parse choice = Some (JStr ''required'') \<and> names \<noteq> [] \<or>
      (\<exists>c rest. decode_first (dec_struct True request_tool_fields) zero_request_tool choice = Some (c, rest) \<and>
         rt_type c = ''function'' \<and> rt_function_name c \<in> set names))"

lemma unmarshal_str: "unmarshal (dec_str (\<lambda>x _. x)) [] raw = Some s \<Longrightarrow>
    json_parse raw = Some (JStr s) \<or> s = []"
  by (auto simp: unmarshal_def dec_str_def split: if_splits option.splits json.splits)

lemma validateToolChoice_ok:
  assumes "validateToolChoice jerr raw names = None"
  shows "tool_choice_ok raw names"
proof (cases "unmarshal (dec_str (\<lambda>x _. x)) [] raw")
  case None
  with assms show ?thesis
    by (auto simp: validateToolChoice_def tool_choice_ok_def split: if_splits option.splits)
next
  case (Some s)
  with assms unmarshal_str [OF Some] show ?thesis
    by (auto simp: validateToolChoice_def tool_choice_ok_def split: if_splits)
qed

lemma tool_names_ok:
  "tool_names tools acc = Inr names \<Longrightarrow>
     (\<forall>t \<in> set tools. rt_type t = ''function'' \<and> rt_function_name t \<noteq> []) \<and>
     set names = rt_function_name ` set tools \<union> set acc"
  by (induction tools acc rule: tool_names.induct) (auto split: if_splits)

section \<open>Code fences\<close>

lemma trim_left_newline: "trim_left (CHR 0x0A # x) = trim_left x"
  by (simp add: trim_left_def lead_len_def space_runes_def has_prefix_def)

lemma trim_right_newline: "trim_right (x @ [CHR 0x0A]) = trim_right x"
  by (simp add: trim_right_def lead_len_def space_runes_def has_prefix_def)

lemma lead_len_append_newline:
  assumes "lead_len space_runes x = 0" "x \<noteq> []"
  shows "lead_len space_runes (x @ [CHR 0x0A]) = 0"
proof -
  have "\<not> has_prefix (x @ [CHR 0x0A]) p" if p: "p \<in> set space_runes" for p
  proof
    assume h: "has_prefix (x @ [CHR 0x0A]) p"
    have no: "\<not> has_prefix x p" using assms(1) p by (simp add: lead_len_zero_iff space_runes_nonempty)
    have "length p > length x"
    proof (rule ccontr)
      assume "\<not> ?thesis"
      with h no show False by (simp add: has_prefix_def)
    qed
    with h have "p = x @ [CHR 0x0A]" by (auto simp: has_prefix_def)
    then have "last p = CHR 0x0A" "length p \<noteq> 1" using assms(2) by simp_all
    with p show False by (auto simp: space_runes_def)
  qed
  then show ?thesis by (simp add: lead_len_zero_iff space_runes_nonempty)
qed

lemma trim_space_lead: "lead_len space_runes (trim_space x) = 0"
  unfolding trim_space_def trim_left_def
  by (rule trim_left_trim_right_fixed) (simp add: trim_lead_no_lead space_runes_nonempty)

lemma trim_space_newlines:
  assumes "trim_space x = x"
  shows "trim_space (CHR 0x0A # x @ [CHR 0x0A]) = x"
proof (cases "x = []")
  case True
  then show ?thesis
    by (simp add: trim_space_def trim_left_newline) (simp add: trim_left_def trim_right_def lead_len_def space_runes_def has_prefix_def)
next
  case False
  have "lead_len space_runes x = 0" using trim_space_lead [of x] assms by simp
  then have "trim_left (x @ [CHR 0x0A]) = x @ [CHR 0x0A]" "trim_left x = x"
    using False by (simp_all add: trim_left_def trim_lead_fixed lead_len_append_newline)
  moreover have "trim_right x = x" using assms calculation(2) by (simp add: trim_space_def)
  ultimately show ?thesis by (simp add: trim_space_def trim_left_newline trim_right_newline)
qed

lemma strip_fence_fenced:
  assumes "trim_space x = x"
  shows "strip_fence (code_fence @ ''json'' @ [CHR 0x0A] @ x @ [CHR 0x0A] @ code_fence) = x"
proof -
  define y where "y = ''json'' @ [CHR 0x0A] @ x @ [CHR 0x0A]"
  have l: "trim_left (code_fence @ z) = code_fence @ z" for z
    by (simp add: trim_left_def code_fence_def lead_len_def space_runes_def has_prefix_def)
  have r: "trim_right (z @ code_fence) = z @ code_fence" for z
    by (simp add: trim_right_def code_fence_def lead_len_def space_runes_def has_prefix_def)
  have fixed: "trim_space (code_fence @ y @ code_fence) = code_fence @ y @ code_fence"
    using l [of "y @ code_fence"] r [of "code_fence @ y"] by (simp add: trim_space_def)
  have pre: "trim_prefix (code_fence @ y @ code_fence) (code_fence @ ''json'') =
    (CHR 0x0A # x @ [CHR 0x0A]) @ code_fence"
    by (simp add: trim_prefix_def has_prefix_def y_def)
  have "has_prefix (code_fence @ y @ code_fence) (code_fence @ ''json'')"
    by (simp add: has_prefix_def y_def)
  with fixed have "strip_fence (code_fence @ y @ code_fence) = trim_space (CHR 0x0A # x @ [CHR 0x0A])"
    unfolding strip_fence_def Let_def by (simp only: pre if_True trim_suffix_append)
  with trim_space_newlines [OF assms] show ?thesis by (simp add: y_def)
qed

lemma strip_fence_braces: "strip_fence (CHR ''{'' # x @ ''}'') = CHR ''{'' # x @ ''}''"
proof -
  have l: "trim_left (CHR ''{'' # z) = CHR ''{'' # z" for z
    by (simp add: trim_left_def lead_len_def space_runes_def has_prefix_def)
  have r: "trim_right (z @ ''}'') = z @ ''}''" for z
    by (simp add: trim_right_def lead_len_def space_runes_def has_prefix_def)
  have "trim_space (CHR ''{'' # x @ ''}'') = CHR ''{'' # x @ ''}''"
    using l [of "x @ ''}''"] r [of "CHR ''{'' # x"] unfolding trim_space_def by simp
  then show ?thesis unfolding strip_fence_def Let_def by (simp add: has_prefix_def code_fence_def)
qed

lemma strip_fence_obj: "strip_fence (json_print (JObj ms)) = json_print (JObj ms)"
  using strip_fence_braces by (simp add: obj_text_def)

lemma ParseModelOutput_print:
  assumes "json_ok max_nesting (JObj ms)"
  shows "ParseModelOutput jerr (json_print (JObj ms)) =
    (case dec_members False action_fields (map (\<lambda>(k, v). (k, json_print v)) ms) zero_action of
       None \<Rightarrow> Inl (errorf (''invalid_json_error: '' @ jerr (json_print (JObj ms)) @ '' (raw: '' @ json_print (JObj ms) @ '')''))
     | Some action \<Rightarrow>
         if ae_think action = [] \<and> ae_final action = [] \<and> ae_call_skill action = None
         then Inl (errorf ''invalid_action_error: response contains no think, final, or call_skill'')
         else Inr action)"
  using json_valid_print [OF assms] dec_struct_print [OF assms, of False action_fields zero_action]
  unfolding ParseModelOutput_def Let_def strip_fence_obj unmarshal_def by simp

lemma find_action_field [simp]:
  "find_field action_fields ''think'' = Some (dec_str (\<lambda>x. ae_think_update (\<lambda>_. x)))"
  "find_field action_fields ''call_skill'' = Some (dec_ptr (dec_struct False tool_call_fields) zero_tool_call
     ae_call_skill (\<lambda>x. ae_call_skill_update (\<lambda>_. x)))"
  "find_field action_fields ''final'' = Some (dec_str (\<lambda>x. ae_final_update (\<lambda>_. x)))"
  by (simp_all add: find_field_def action_fields_def has_prefix_def upper_char_def Let_def)

lemma find_tool_call_field [simp]:
  "find_field tool_call_fields ''id'' = Some (dec_str (\<lambda>x. tc_id_update (\<lambda>_. x)))"
  "find_field tool_call_fields ''name'' = Some (dec_str (\<lambda>x. tc_name_update (\<lambda>_. x)))"
  "find_field tool_call_fields ''arguments'' = Some (dec_raw (\<lambda>x. tc_arguments_update (\<lambda>_. x)))"
  "find_field tool_call_fields ''is_write_operation'' = Some (dec_bool (\<lambda>x. tc_is_write_operation_update (\<lambda>_. x)))"
  by (simp_all add: find_field_def tool_call_fields_def has_prefix_def upper_char_def Let_def)

section \<open>Properties\<close>

text \<open>
  Every request \<^verbatim>\<open>ValidateChatCompletionRequest\<close> rejects is reported to the client as HTTP 400
  \<^verbatim>\<open>invalid_request_error\<close>, whatever the JSON decoder said, and every accepted one has a model,
  at least one message, only known roles, a temperature in range, well-formed tools, and a tool
  choice that names a declared tool whenever it names one.
\<close>

theorem chat_request_validation_sound:
  "case ValidateChatCompletionRequest jerr raw of
     Inl e \<Rightarrow> MapProviderError (Some e) = (400, ''invalid_request_error'', err_msg e)
   | Inr req \<Rightarrow>
       cr_model req \<noteq> [] \<and> cr_messages req \<noteq> [] \<and>
       list_all (\<lambda>m. cm_role m \<in> validRoles) (cr_messages req) \<and>
       (case cr_temperature req of None \<Rightarrow> True | Some t \<Rightarrow> \<not> f32_neg t \<and> \<not> f32_above_2 t) \<and>
       (\<exists>names. validateTools jerr (cr_tools req) = Inr names \<and> tool_choice_ok (cr_tool_choice req) names)"
proof (cases "ValidateChatCompletionRequest jerr raw")
  case (Inl e)
  then have "is_request_error e"
    by (auto simp: ValidateChatCompletionRequest_def
        dest: validateTools_error validateToolChoice_error split: option.splits if_splits sum.splits)
  with Inl show ?thesis by (simp add: MapProviderError_request)
next
  case (Inr req)
  then show ?thesis
    by (auto simp: ValidateChatCompletionRequest_def find_None_iff list_all_iff
        dest: validateToolChoice_ok split: option.splits if_splits sum.splits)
qed

text \<open>
  Fenced output: a model answer wrapped in a \<^verbatim>\<open>json\<close> code fence is parsed exactly like the
  bare answer, and an accepted answer always carries a thought, a tool call or a final text.
\<close>

theorem fenced_output_parses_like_bare:
  assumes "trim_space x = x" "\<not> has_prefix x code_fence"
  shows "(case ParseModelOutput jerr (code_fence @ ''json'' @ [CHR 0x0A] @ x @ [CHR 0x0A] @ code_fence) of
      Inr a \<Rightarrow> ParseModelOutput jerr x = Inr a \<and>
        (ae_think a \<noteq> [] \<or> ae_final a \<noteq> [] \<or> ae_call_skill a \<noteq> None)
    | Inl e \<Rightarrow> (\<exists>e'. ParseModelOutput jerr x = Inl e'))"
proof -
  have "\<not> has_prefix x (code_fence @ ''json'')"
    using assms(2) has_prefix_trans [of x "code_fence @ ''json''" code_fence] by auto
  then have "strip_fence x = x" using assms by (simp add: strip_fence_def)
  with strip_fence_fenced [OF assms(1)] show ?thesis
    by (auto simp: ParseModelOutput_def Let_def split: option.splits)
qed

definition sample_output :: string where
  "sample_output = json_print (JObj [(''think'', JStr ''ok''), (''final'', JStr ''done'')])"

theorem fenced_output_parses_like_bare_witness:
  "trim_space sample_output = sample_output \<and> \<not> has_prefix sample_output code_fence \<and>
   (case ParseModelOutput (\<lambda>_. []) (code_fence @ ''json'' @ [CHR 0x0A] @ sample_output @ [CHR 0x0A] @ code_fence) of
      Inr a \<Rightarrow> ParseModelOutput (\<lambda>_. []) sample_output = Inr a | Inl e \<Rightarrow> True)"
proof -
  have t: "trim_space sample_output = sample_output"
    by (simp add: sample_output_def trim_space_def trim_left_def trim_right_def obj_text_def quote_def
        escape_ascii_def lead_len_def space_runes_def has_prefix_def)
  have p: "\<not> has_prefix sample_output code_fence"
    by (simp add: sample_output_def obj_text_def has_prefix_def code_fence_def)
  from fenced_output_parses_like_bare [OF t p, of "\<lambda>_. []"] t p show ?thesis
    by (auto split: sum.splits)
qed

end
