(* ===== verification/Llm_Runtime.thy ===== *)
theory Llm_Runtime
  imports Llm_Contracts "HOL-Library.Word"
begin

text \<open>
  Package \<^verbatim>\<open>internal/llm\<close>, the reasoning loop: the event fan-out (\<^verbatim>\<open>stream_fanout.go\<close>) and
  \<^verbatim>\<open>Runtime.Run\<close> (\<^verbatim>\<open>runtime_loop.go\<close>).

  The model provider, the tool executor, the approval gate, the publisher and the clock are
  arguments that act on a world of any type. The run keeps a log of every call it makes on them,
  in order, so that the theorems can speak about what happened before what.
\<close>

section \<open>Fan-out\<close>

record fanout =
  fo_trace_id :: string
  fo_session_id :: string
  fo_task_id :: string
  fo_sequence :: "64 word"
  fo_terminal_sent :: bool
  fo_has_publisher :: bool

definition NewFanout :: "string \<Rightarrow> string \<Rightarrow> string \<Rightarrow> fanout" where
  "NewFanout traceID sessionID taskID =
     \<lparr>fo_trace_id = traceID, fo_session_id = sessionID, fo_task_id = taskID, fo_sequence = 0,
      fo_terminal_sent = False, fo_has_publisher = False\<rparr>"

definition NextSequence :: "fanout \<Rightarrow> int \<times> fanout" where
  "NextSequence f =
     (sint (fo_sequence f + 1), f\<lparr>fo_sequence := fo_sequence f + 1\<rparr>)"

definition SetPublisher :: "bool \<Rightarrow> fanout \<Rightarrow> fanout" where
  "SetPublisher p f = f\<lparr>fo_has_publisher := p\<rparr>"

definition NewChunk :: "fanout \<Rightarrow> string \<Rightarrow> int \<Rightarrow> stream_chunk \<times> fanout" where
  "NewChunk f event now =
     (let (sq, f') = NextSequence f in
      (\<lparr>sc_trace_id = fo_trace_id f, sc_session_id = fo_session_id f, sc_task_id = fo_task_id f,
        sc_sequence = sq, sc_event = event, sc_delta = [], sc_role = [], sc_tool_name = [],
        sc_done = False, sc_error = [], sc_data = [], sc_timestamp_ms = now\<rparr>, f'))"

datatype rt_event =
    Predicted inference_request "string res"
  | Emitted stream_chunk
  | Asked approval_request "approval_decision res"
  | Executed tool_call "tool_result res"

record 'w run_state =
  rs_world :: 'w
  rs_fanout :: "fanout option"
  rs_log :: "rt_event list"

text \<open>The fields of \<^verbatim>\<open>Runtime\<close> and what it reaches through them.\<close>

record 'w runtime =
  rn_predict :: "inference_request \<Rightarrow> 'w \<Rightarrow> string res \<times> 'w"
  rn_execute :: "tool_call \<Rightarrow> 'w \<Rightarrow> tool_result res \<times> 'w"
  rn_gate :: "(approval_request \<Rightarrow> 'w \<Rightarrow> approval_decision res \<times> 'w) option"
  rn_publish :: "stream_chunk \<Rightarrow> 'w \<Rightarrow> go_error option \<times> 'w"
  rn_now :: "'w \<Rightarrow> int"
  rn_jerr :: "string \<Rightarrow> string"
  rn_max_turns :: int

definition now_ms :: "'w runtime \<Rightarrow> 'w run_state \<Rightarrow> int" where
  "now_ms r s = rn_now r (rs_world s)"

definition log_event :: "rt_event \<Rightarrow> 'w run_state \<Rightarrow> 'w run_state" where
  "log_event e s = s\<lparr>rs_log := rs_log s @ [e]\<rparr>"

definition Emit :: "'w runtime \<Rightarrow> fanout \<Rightarrow> stream_chunk \<Rightarrow> 'w run_state \<Rightarrow> go_error option \<times> 'w run_state" where
  "Emit r f chunk s =
     (if \<not> fo_has_publisher f then (None, s)
      else let (err, w) = rn_publish r chunk (rs_world s) in
           (err, log_event (Emitted chunk) (s\<lparr>rs_world := w\<rparr>)))"

definition emitTerminal :: "'w runtime \<Rightarrow> fanout \<Rightarrow> stream_chunk \<Rightarrow> 'w run_state \<Rightarrow> go_error option \<times> 'w run_state" where
  "emitTerminal r f chunk s =
     (if fo_terminal_sent f then (None, s)
      else let f' = f\<lparr>fo_terminal_sent := True\<rparr> in
           Emit r f' chunk (s\<lparr>rs_fanout := Some f'\<rparr>))"

definition json_error :: "'w runtime \<Rightarrow> string \<Rightarrow> go_error" where
  "json_error r x = errorf (rn_jerr r x)"

text \<open>The methods below run on a fan-out that is not nil; the callers check for nil.\<close>

definition EmitToolCall :: "'w runtime \<Rightarrow> tool_call \<Rightarrow> fanout \<Rightarrow> 'w run_state \<Rightarrow> go_error option \<times> 'w run_state" where
  "EmitToolCall r call f s =
     (let (chunk, f') = NewChunk f ''tool_call'' (now_ms r s);
          chunk = chunk\<lparr>sc_tool_name := tc_name call, sc_role := ''assistant''\<rparr>;
          s' = s\<lparr>rs_fanout := Some f'\<rparr> in
      case marshal_tool_call call of
        None \<Rightarrow> (Some (json_error r (tc_arguments call)), s')
      | Some payload \<Rightarrow> Emit r f' (chunk\<lparr>sc_data := payload\<rparr>) s')"

definition EmitToolResult :: "'w runtime \<Rightarrow> tool_result \<Rightarrow> fanout \<Rightarrow> 'w run_state \<Rightarrow> go_error option \<times> 'w run_state" where
  "EmitToolResult r result f s =
     (let (chunk, f') = NewChunk f ''tool_result'' (now_ms r s);
          chunk = chunk\<lparr>sc_tool_name := tres_name result, sc_data := marshal_tool_result result\<rparr>;
          chunk = (if \<not> tres_success result \<and> tres_error result \<noteq> []
                   then chunk\<lparr>sc_error := tres_error result\<rparr> else chunk) in
      Emit r f' chunk (s\<lparr>rs_fanout := Some f'\<rparr>))"

definition EmitWaitingApproval :: "'w runtime \<Rightarrow> approval_request \<Rightarrow> fanout \<Rightarrow> 'w run_state \<Rightarrow> go_error option \<times> 'w run_state" where
  "EmitWaitingApproval r req f s =
     (let (chunk, f') = NewChunk f ''waiting_approval'' (now_ms r s);
          chunk = chunk\<lparr>sc_tool_name := areq_tool_name req\<rparr>;
          s' = s\<lparr>rs_fanout := Some f'\<rparr> in
      case marshal_approval_request req of
        None \<Rightarrow> (Some (json_error r (areq_arguments req)), s')
      | Some payload \<Rightarrow> Emit r f' (chunk\<lparr>sc_data := payload\<rparr>) s')"

definition EmitFinal :: "'w runtime \<Rightarrow> string \<Rightarrow> fanout \<Rightarrow> 'w run_state \<Rightarrow> go_error option \<times> 'w run_state" where
  "EmitFinal r content f s =
     (let (chunk, f') = NewChunk f ''final'' (now_ms r s);
          chunk = chunk\<lparr>sc_role := ''assistant'', sc_done := True,
                        sc_data := obj_text [(''content'', quote content)]\<rparr> in
      emitTerminal r f' chunk (s\<lparr>rs_fanout := Some f'\<rparr>))"

definition emit_failure :: "string \<Rightarrow> 'w runtime \<Rightarrow> string \<Rightarrow> fanout \<Rightarrow> 'w run_state \<Rightarrow> go_error option \<times> 'w run_state" where
  "emit_failure event r errMsg f s =
     (let (chunk, f') = NewChunk f event (now_ms r s);
          chunk = chunk\<lparr>sc_done := True, sc_error := errMsg\<rparr> in
      emitTerminal r f' chunk (s\<lparr>rs_fanout := Some f'\<rparr>))"

definition EmitError :: "'w runtime \<Rightarrow> string \<Rightarrow> fanout \<Rightarrow> 'w run_state \<Rightarrow> go_error option \<times> 'w run_state" where
  "EmitError = emit_failure ''error''"

definition EmitTimeout :: "'w runtime \<Rightarrow> string \<Rightarrow> fanout \<Rightarrow> 'w run_state \<Rightarrow> go_error option \<times> 'w run_state" where
  "EmitTimeout = emit_failure ''timeout''"

definition EmitCancelled :: "'w runtime \<Rightarrow> string \<Rightarrow> fanout \<Rightarrow> 'w run_state \<Rightarrow> go_error option \<times> 'w run_state" where
  "EmitCancelled = emit_failure ''cancelled''"

section \<open>The loop\<close>

text \<open>\<^verbatim>\<open>if fanout != nil { _ = fanout.Emit...(...) }\<close>\<close>

definition notify :: "(fanout \<Rightarrow> 'w run_state \<Rightarrow> go_error option \<times> 'w run_state) \<Rightarrow> 'w run_state \<Rightarrow> 'w run_state" where
  "notify op s = (case rs_fanout s of None \<Rightarrow> s | Some f \<Rightarrow> snd (op f s))"

definition classifyTerminalError :: "go_error \<Rightarrow> string \<times> string" where
  "classifyTerminalError err =
     (let errLower = to_lower (err_msg err) in
      if err_is err ContextCanceled then (''cancelled'', ''cancelled'')
      else if err_is err ContextDeadlineExceeded then (''timeout'', ''timeout'')
      else if contains errLower ''exceeded max turns'' then (''failed'', ''error'')
      else if contains errLower ''approval gate required'' then (''failed'', ''error'')
      else if contains errLower ''timeout'' then (''timeout'', ''timeout'')
      else (''error'', ''error''))"

definition zero_final_result :: final_result where
  "zero_final_result =
     \<lparr>fr_trace_id = [], fr_task_id = [], fr_content = [], fr_status = [], fr_tokens_used = 0,
      fr_timestamp_ms = 0\<rparr>"

type_synonym 'w run_outcome = "(final_result \<times> go_error option) \<times> 'w run_state"

definition failWithTerminalEvent :: "'w runtime \<Rightarrow> inference_request \<Rightarrow> go_error \<Rightarrow> 'w run_state \<Rightarrow> 'w run_outcome" where
  "failWithTerminalEvent r req err s =
     (let (status, emit) = classifyTerminalError err;
          s' = notify (if emit = ''cancelled'' then EmitCancelled r (err_msg err)
                       else if emit = ''timeout'' then EmitTimeout r (err_msg err)
                       else EmitError r (err_msg err)) s in
      ((zero_final_result\<lparr>fr_trace_id := ir_trace_id req, fr_task_id := ir_task_id req,
          fr_status := status, fr_timestamp_ms := now_ms r s'\<rparr>, Some err), s'))"

datatype 'w turn = Return "'w run_outcome" | Next "chat_message list" "'w run_state"

definition call_predict :: "'w runtime \<Rightarrow> inference_request \<Rightarrow> 'w run_state \<Rightarrow> string res \<times> 'w run_state" where
  "call_predict r req s =
     (let (x, w) = rn_predict r req (rs_world s) in (x, log_event (Predicted req x) (s\<lparr>rs_world := w\<rparr>)))"

definition call_gate where
  "call_gate gate areq s =
     (let (x, w) = gate areq (rs_world s) in (x, log_event (Asked areq x) (s\<lparr>rs_world := w\<rparr>)))"

definition call_execute :: "'w runtime \<Rightarrow> tool_call \<Rightarrow> 'w run_state \<Rightarrow> tool_result res \<times> 'w run_state" where
  "call_execute r call s =
     (let (x, w) = rn_execute r call (rs_world s) in (x, log_event (Executed call x) (s\<lparr>rs_world := w\<rparr>)))"

definition observation :: "string \<Rightarrow> tool_call \<Rightarrow> string \<Rightarrow> chat_message list \<Rightarrow> chat_message list" where
  "observation resp call output messages =
     messages @ [chat_msg ''assistant'' resp,
                 (chat_msg ''tool'' output)\<lparr>cm_tool_call_id := tc_id call\<rparr>]"

definition failed_result :: "tool_call \<Rightarrow> string \<Rightarrow> string \<Rightarrow> tool_result" where
  "failed_result call output err =
     \<lparr>tres_tool_call_id = tc_id call, tres_name = tc_name call, tres_success = False,
      tres_output = output, tres_error = err, tres_duration_ms = 0\<rparr>"

text \<open>Step 4.2 and 4.3: execute the tool and feed the observation back.\<close>

definition execute_tool :: "'w runtime \<Rightarrow> string \<Rightarrow> tool_call \<Rightarrow> chat_message list \<Rightarrow> 'w run_state \<Rightarrow> 'w turn" where
  "execute_tool r resp call messages s =
     (let (x, s) = call_execute r call s;
          res = (case x of Inr v \<Rightarrow> v | Inl e \<Rightarrow> failed_result call (err_msg e) (err_msg e));
          s = notify (EmitToolResult r res) s in
      Next (observation resp call (tres_output res) messages) s)"

definition approval_request_for :: "inference_request \<Rightarrow> tool_call \<Rightarrow> int \<Rightarrow> approval_request" where
  "approval_request_for req call now =
     \<lparr>areq_trace_id = ir_trace_id req, areq_task_id = ir_task_id req, areq_tool_call_id = tc_id call,
      areq_tool_name = tc_name call, areq_arguments = tc_arguments call, areq_requested_at_ms = now\<rparr>"

text \<open>Step 4.1 with a gate: ask, and go on only when the decision approves.\<close>

definition ask_approval where
  "ask_approval r req gate resp call messages s =
     (let areq = approval_request_for req call (now_ms r s);
          s = notify (EmitWaitingApproval r areq) s;
          (x, s) = call_gate gate areq s in
      case x of
        Inl err \<Rightarrow> Return (failWithTerminalEvent r req err s)
      | Inr decision \<Rightarrow>
          if \<not> ad_approved decision then
            let res = failed_result call (''User rejected this operation: '' @ ad_reason decision) (ad_reason decision);
                s = notify (EmitToolResult r res) s in
            if ir_on_approval_reject req = ''fail''
            then let s = notify (EmitError r ''approval rejected'') s in
                 Return ((zero_final_result\<lparr>fr_status := ''rejected''\<rparr>, Some (errorf ''approval rejected'')), s)
            else Next (observation resp call (tres_output res) messages) s
          else execute_tool r resp call messages s)"

definition run_tool :: "'w runtime \<Rightarrow> inference_request \<Rightarrow> string \<Rightarrow> tool_call \<Rightarrow> chat_message list \<Rightarrow> 'w run_state \<Rightarrow> 'w turn" where
  "run_tool r req resp call messages s =
     (let s = notify (EmitToolCall r call) s in
      if tc_is_write_operation call then
        (case rn_gate r of
           None \<Rightarrow> Return (failWithTerminalEvent r req (errorf ''approval gate required for write operation'') s)
         | Some gate \<Rightarrow> ask_approval r req gate resp call messages s)
      else execute_tool r resp call messages s)"

definition run_turn :: "'w runtime \<Rightarrow> inference_request \<Rightarrow> chat_message list \<Rightarrow> 'w run_state \<Rightarrow> 'w turn" where
  "run_turn r req messages s =
     (let (x, s) = call_predict r (zero_inference_request\<lparr>ir_trace_id := ir_trace_id req, ir_messages := messages,
            ir_model_alias := ir_model_alias req, ir_temperature := ir_temperature req\<rparr>) s in
      case x of
        Inl err \<Rightarrow> Return (failWithTerminalEvent r req err s)
      | Inr resp \<Rightarrow>
          (case ParseModelOutput (rn_jerr r) resp of
             Inl err \<Rightarrow> Return (failWithTerminalEvent r req err s)
           | Inr action \<Rightarrow>
               if ae_final action \<noteq> [] then
                 let s = notify (EmitFinal r (ae_final action)) s in
                 Return ((zero_final_result\<lparr>fr_trace_id := ir_trace_id req, fr_task_id := ir_task_id req,
                    fr_content := ae_final action, fr_status := ''success'', fr_timestamp_ms := now_ms r s\<rparr>, None), s)
               else (case ae_call_skill action of
                       None \<Rightarrow> Next messages s
                     | Some call \<Rightarrow> run_tool r req resp call messages s)))"

text \<open>The turns that are left, at most \<^verbatim>\<open>MaxTurns\<close>.\<close>

primrec run_turns :: "nat \<Rightarrow> 'w runtime \<Rightarrow> inference_request \<Rightarrow> chat_message list \<Rightarrow> 'w run_state \<Rightarrow> 'w run_outcome" where
  "run_turns 0 r req messages s = failWithTerminalEvent r req (errorf ''exceeded max turns'') s"
| "run_turns (Suc n) r req messages s =
     (case run_turn r req messages s of
        Return out \<Rightarrow> out
      | Next messages' s' \<Rightarrow> run_turns n r req messages' s')"

definition Run :: "'w runtime \<Rightarrow> inference_request \<Rightarrow> fanout option \<Rightarrow> 'w \<Rightarrow> 'w run_outcome" where
  "Run r req fanout w =
     run_turns (nat (rn_max_turns r)) r req (ir_messages req)
       \<lparr>rs_world = w, rs_fanout = fanout, rs_log = []\<rparr>"

definition NewRuntime where
  "NewRuntime predict execute gate publish now jerr =
     \<lparr>rn_predict = predict, rn_execute = execute, rn_gate = gate, rn_publish = publish, rn_now = now,
      rn_jerr = jerr, rn_max_turns = 10\<rparr>"

end
