(* ===== verification/Llm_Runtime_Props.thy ===== *)
theory Llm_Runtime_Props
  imports Llm_Runtime
begin

text \<open>
  What a run of the reasoning loop may do: writes only behind an approval, one terminal event at
  the end, bounded turns, increasing sequence numbers. Each call of the loop is summarised by the
  segment of events it adds to the log; segments compose.
\<close>

section \<open>Segments of the log\<close>

fun chunks :: "rt_event list \<Rightarrow> stream_chunk list" where
  "chunks [] = []"
| "chunks (Emitted c # es) = c # chunks es"
| "chunks (_ # es) = chunks es"

lemma chunks_append [simp]: "chunks (xs @ ys) = chunks xs @ chunks ys"
  by (induction xs rule: chunks.induct) simp_all

definition predictions :: "rt_event list \<Rightarrow> nat" where
  "predictions es = length (filter (\<lambda>e. case e of Predicted _ _ \<Rightarrow> True | _ \<Rightarrow> False) es)"

lemma predictions_simps [simp]:
  "predictions [] = 0" "predictions (xs @ ys) = predictions xs + predictions ys"
  "predictions (Predicted q x # es) = Suc (predictions es)" "predictions (Emitted c # es) = predictions es"
  "predictions (Asked a d # es) = predictions es" "predictions (Executed k v # es) = predictions es"
  by (simp_all add: predictions_def)

text \<open>An event that approves a call: the gate was asked about exactly this call and approved.\<close>

definition approves :: "inference_request \<Rightarrow> tool_call \<Rightarrow> rt_event \<Rightarrow> bool" where
  "approves req call e =
     (case e of
        Asked a (Inr d) \<Rightarrow> ad_approved d \<and> areq_task_id a = ir_task_id req \<and>
          areq_tool_call_id a = tc_id call \<and> areq_tool_name a = tc_name call \<and>
          areq_arguments a = tc_arguments call
      | _ \<Rightarrow> False)"

definition write_guarded :: "inference_request \<Rightarrow> rt_event list \<Rightarrow> bool" where
  "write_guarded req es =
     (\<forall>pre call x post. es = pre @ Executed call x # post \<and> tc_is_write_operation call \<longrightarrow>
        pre \<noteq> [] \<and> approves req call (last pre))"

lemma write_guarded_no_exec:
  "(\<And>call x. Executed call x \<notin> set es) \<Longrightarrow> write_guarded req es"
  unfolding write_guarded_def by (metis in_set_conv_decomp)

lemma write_guarded_append:
  assumes "write_guarded req xs" "write_guarded req ys"
  shows "write_guarded req (xs @ ys)"
  unfolding write_guarded_def
proof (intro allI impI)
  fix pre call x post
  assume *: "xs @ ys = pre @ Executed call x # post \<and> tc_is_write_operation call"
  then consider us where "xs = pre @ Executed call x # us" | us where "pre = xs @ us" "ys = us @ Executed call x # post"
    by (auto simp: append_eq_append_conv2 append_eq_Cons_conv Cons_eq_append_conv)
  then show "pre \<noteq> [] \<and> approves req call (last pre)"
  proof cases
    case 1
    with assms(1) * show ?thesis unfolding write_guarded_def by blast
  next
    case 2
    with assms(2) * have "us \<noteq> [] \<and> approves req call (last us)" unfolding write_guarded_def by blast
    with 2 show ?thesis by simp
  qed
qed

text \<open>
  A segment: the events added between two states, \<open>n\<close> sequence numbers taken, the chunks
  numbered increasingly among them.
\<close>

definition numbered :: "64 word \<Rightarrow> nat \<Rightarrow> stream_chunk list \<Rightarrow> bool" where
  "numbered w n cs = (\<exists>js. sorted_wrt (<) js \<and> set js \<subseteq> {1..n} \<and>
     map sc_sequence cs = map (\<lambda>j. sint (w + of_nat j)) js)"

lemma numbered_trans:
  assumes "numbered w n cs" "numbered (w + of_nat n) m ds"
  shows "numbered w (n + m) (cs @ ds)"
proof -
  obtain js where js: "sorted_wrt (<) js" "set js \<subseteq> {1..n}"
    "map sc_sequence cs = map (\<lambda>j. sint (w + of_nat j)) js"
    using assms(1) by (auto simp: numbered_def)
  obtain ks where ks: "sorted_wrt (<) ks" "set ks \<subseteq> {1..m}"
    "map sc_sequence ds = map (\<lambda>j. sint (w + of_nat n + of_nat j)) ks"
    using assms(2) by (auto simp: numbered_def)
  let ?l = "js @ map ((+) n) ks"
  have "x < n + y" if "x \<in> set js" "y \<in> set ks" for x y
    using subsetD [OF js(2) that(1)] subsetD [OF ks(2) that(2)] by simp
  then have "sorted_wrt (<) ?l" using js(1) ks(1) by (auto simp: sorted_wrt_append sorted_wrt_map)
  moreover have "set ?l \<subseteq> {1..n + m}" using js(2) ks(2) by auto
  moreover have "map sc_sequence (cs @ ds) = map (\<lambda>j. sint (w + of_nat j)) ?l"
    using js(3) ks(3) by (simp add: add.assoc)
  ultimately show ?thesis unfolding numbered_def by blast
qed

definition seg :: "nat \<Rightarrow> 'w run_state \<Rightarrow> rt_event list \<Rightarrow> 'w run_state \<Rightarrow> bool" where
  "seg n s es s' = (rs_log s' = rs_log s @ es \<and>
     (case rs_fanout s of
        None \<Rightarrow> rs_fanout s' = None \<and> chunks es = []
      | Some f \<Rightarrow> (\<exists>f'. rs_fanout s' = Some f' \<and> fo_has_publisher f' = fo_has_publisher f \<and>
          fo_sequence f' = fo_sequence f + of_nat n \<and> (\<not> fo_has_publisher f \<longrightarrow> chunks es = []) \<and>
          numbered (fo_sequence f) n (chunks es))))"

lemma seg_trans: "seg n s es s' \<Longrightarrow> seg m s' fs s'' \<Longrightarrow> seg (n + m) s (es @ fs) s''"
  by (auto simp: seg_def intro: numbered_trans split: option.splits)

text \<open>Progress: no terminal event, the terminal flag untouched.\<close>

definition sent :: "'w run_state \<Rightarrow> bool" where
  "sent s = (case rs_fanout s of None \<Rightarrow> True | Some f \<Rightarrow> fo_terminal_sent f \<or> \<not> fo_has_publisher f)"

definition progress :: "inference_request \<Rightarrow> nat \<Rightarrow> nat \<Rightarrow> 'w run_state \<Rightarrow> rt_event list \<Rightarrow> 'w run_state \<Rightarrow> bool" where
  "progress req n k s es s' =
     (seg n s es s' \<and> write_guarded req es \<and> predictions es = k \<and>
      list_all (\<lambda>c. \<not> sc_done c) (chunks es) \<and> sent s' = sent s)"

lemma progress_trans:
  "progress req n k s es s' \<Longrightarrow> progress req m l s' fs s'' \<Longrightarrow> progress req (n + m) (k + l) s (es @ fs) s''"
  by (auto simp: progress_def intro: seg_trans write_guarded_append)

lemma numbered_simps: "numbered w n []" "sc_sequence c = sint (w + 1) \<Longrightarrow> numbered w (Suc 0) [c]"
  unfolding numbered_def by (auto intro: exI [of _ "[]"] exI [of _ "[1]"])

lemma Emit_effect [simp]:
  "rs_log (snd (Emit r f c s)) = rs_log s @ (if fo_has_publisher f then [Emitted c] else [])"
  "rs_fanout (snd (Emit r f c s)) = rs_fanout s"
  by (simp_all add: Emit_def log_event_def split_beta Let_def)

lemma NewChunk_effect:
  assumes "NewChunk f event now = (c, f')"
  shows "f' = f\<lparr>fo_sequence := fo_sequence f + 1\<rparr>" "sc_sequence c = sint (fo_sequence f + 1)"
    "\<not> sc_done c" "sc_event c = event"
  using assms by (auto simp: NewChunk_def NextSequence_def Let_def)

definition progress_op where
  "progress_op op = (\<forall>f s. \<exists>es. rs_log (snd (op f s)) = rs_log s @ es \<and>
     rs_fanout (snd (op f s)) = Some (f\<lparr>fo_sequence := fo_sequence f + 1\<rparr>) \<and>
     (es = [] \<or> (\<exists>c. es = [Emitted c] \<and> sc_sequence c = sint (fo_sequence f + 1) \<and> \<not> sc_done c \<and>
        fo_has_publisher f)))"

lemma progress_opI:
  assumes "\<And>f s c f'. NewChunk f event (now_ms r s) = (c, f') \<Longrightarrow>
      snd (op f s) = (if quiet then s\<lparr>rs_fanout := Some f'\<rparr>
                      else snd (Emit r f' (mk c) (s\<lparr>rs_fanout := Some f'\<rparr>)))"
    and "\<And>c. sc_sequence (mk c) = sc_sequence c" "\<And>c. sc_done (mk c) = sc_done c"
  shows "progress_op op"
  unfolding progress_op_def
proof (intro allI)
  fix f s
  obtain c f' where c: "NewChunk f event (now_ms r s) = (c, f')" by fastforce
  from NewChunk_effect [OF c] assms(1) [OF c] assms(2,3)
  show "\<exists>es. rs_log (snd (op f s)) = rs_log s @ es \<and>
     rs_fanout (snd (op f s)) = Some (f\<lparr>fo_sequence := fo_sequence f + 1\<rparr>) \<and>
     (es = [] \<or> (\<exists>c. es = [Emitted c] \<and> sc_sequence c = sint (fo_sequence f + 1) \<and> \<not> sc_done c \<and>
        fo_has_publisher f))"
    by auto
qed

lemma progress_ops:
  "progress_op (EmitToolCall r call)" "progress_op (EmitToolResult r res)"
  "progress_op (EmitWaitingApproval r areq)"
proof -
  show "progress_op (EmitToolCall r call)"
    by (rule progress_opI [of "''tool_call''" r _ "marshal_tool_call call = None"
          "\<lambda>c. c\<lparr>sc_tool_name := tc_name call, sc_role := ''assistant'', sc_data := the (marshal_tool_call call)\<rparr>"])
      (auto simp: EmitToolCall_def Let_def)
  show "progress_op (EmitToolResult r res)"
    by (rule progress_opI [of "''tool_result''" r _ False
          "\<lambda>c. let c = c\<lparr>sc_tool_name := tres_name res, sc_data := marshal_tool_result res\<rparr>
               in if \<not> tres_success res \<and> tres_error res \<noteq> [] then c\<lparr>sc_error := tres_error res\<rparr> else c"])
      (simp_all add: EmitToolResult_def Let_def)
  show "progress_op (EmitWaitingApproval r areq)"
    by (rule progress_opI [of "''waiting_approval''" r _ "marshal_approval_request areq = None"
          "\<lambda>c. c\<lparr>sc_tool_name := areq_tool_name areq, sc_data := the (marshal_approval_request areq)\<rparr>"])
      (auto simp: EmitWaitingApproval_def Let_def)
qed

lemma progress_notify:
  assumes "progress_op op"
  shows "\<exists>es. progress req 1 0 s es (notify op s) \<and> set es \<subseteq> range Emitted"
proof (cases "rs_fanout s")
  case None
  then have "progress req 1 0 s [] (notify op s)"
    by (simp add: progress_def notify_def seg_def write_guarded_def)
  then show ?thesis by (intro exI [of _ "[]"]) simp
next
  case (Some f)
  from assms obtain es where es: "rs_log (snd (op f s)) = rs_log s @ es"
    and f': "rs_fanout (snd (op f s)) = Some (f\<lparr>fo_sequence := fo_sequence f + 1\<rparr>)"
    and c: "es = [] \<or> (\<exists>c. es = [Emitted c] \<and> sc_sequence c = sint (fo_sequence f + 1) \<and> \<not> sc_done c \<and>
        fo_has_publisher f)"
    unfolding progress_op_def by blast
  from c have "write_guarded req es" by (auto intro!: write_guarded_no_exec)
  with es f' c Some have "progress req 1 0 s es (notify op s)"
    by (auto simp: progress_def seg_def sent_def notify_def intro: numbered_simps)
  with c show ?thesis by (intro exI [of _ es]) auto
qed

section \<open>Terminal events\<close>

text \<open>The last step of a run: one terminal chunk unless one was sent before or nobody listens.\<close>

definition closing :: "string \<Rightarrow> 'w run_state \<Rightarrow> 'w run_state \<Rightarrow> bool" where
  "closing event s s' =
     (if sent s then seg 1 s [] s'
      else \<exists>c. seg 1 s [Emitted c] s' \<and> sc_done c \<and> sc_event c = event)"

lemma closing_terminal:
  assumes "NewChunk f event now = (c, f')" "rs_fanout s = Some f" "sc_done d"
    and "sc_sequence d = sc_sequence c" "sc_event d = sc_event c"
  shows "closing event s (snd (emitTerminal r f' d (s\<lparr>rs_fanout := Some f'\<rparr>)))"
  using NewChunk_effect [OF assms(1)] assms(2-5)
  by (auto simp: closing_def emitTerminal_def Let_def seg_def sent_def intro: numbered_simps)

lemma closing_none: "rs_fanout s = None \<Longrightarrow> closing event s s"
  by (simp add: closing_def sent_def seg_def)

lemma closing_final: "closing ''final'' s (notify (EmitFinal r x) s)"
proof (cases "rs_fanout s")
  case (Some f)
  obtain c f' where c: "NewChunk f ''final'' (now_ms r s) = (c, f')" by fastforce
  then show ?thesis
    using closing_terminal [OF c Some] by (simp add: notify_def Some EmitFinal_def Let_def)
qed (simp add: notify_def closing_none)

lemma closing_failure: "closing event s (notify (emit_failure event r x) s)"
proof (cases "rs_fanout s")
  case (Some f)
  obtain c f' where c: "NewChunk f event (now_ms r s) = (c, f')" by fastforce
  then show ?thesis
    using closing_terminal [OF c Some] by (simp add: notify_def Some emit_failure_def Let_def)
qed (simp add: notify_def closing_none)

section \<open>Turns\<close>

text \<open>The terminal event and the result of the run tell the same story.\<close>

definition outcome_event :: "final_result \<times> go_error option \<Rightarrow> string \<Rightarrow> bool" where
  "outcome_event out event =
     ((snd out = None) = (fr_status (fst out) = ''success'') \<and>
      (fr_status (fst out), event) \<in>
        {(''success'', ''final''), (''timeout'', ''timeout''), (''cancelled'', ''cancelled''),
         (''error'', ''error''), (''failed'', ''error''), (''rejected'', ''error'')})"

definition finished :: "inference_request \<Rightarrow> nat \<Rightarrow> nat \<Rightarrow> 'w run_state \<Rightarrow> 'w run_outcome \<Rightarrow> bool" where
  "finished req n k s out =
     (\<exists>m l es s1 event. progress req m l s es s1 \<and> m \<le> n \<and> l \<le> k \<and>
        closing event s1 (snd out) \<and> outcome_event (fst out) event)"

lemma finished_trans:
  assumes "progress req m l s es s1" "finished req n k s1 out"
  shows "finished req (m + n) (l + k) s out"
proof -
  obtain m' l' es' s2 event where "progress req m' l' s1 es' s2" "m' \<le> n" "l' \<le> k"
    "closing event s2 (snd out)" "outcome_event (fst out) event"
    using assms(2) by (auto simp: finished_def)
  with progress_trans [OF assms(1)] show ?thesis
    unfolding finished_def by (meson add_left_mono)
qed

lemma finished_mono: "finished req n k s out \<Longrightarrow> n \<le> n' \<Longrightarrow> k \<le> k' \<Longrightarrow> finished req n' k' s out"
  unfolding finished_def by (meson order_trans)

lemma progress_refl: "progress req 0 0 s [] s"
  by (auto simp: progress_def seg_def write_guarded_def numbered_simps split: option.splits)

lemma finished_fail: "finished req 0 0 s (failWithTerminalEvent r q err s)"
proof -
  obtain status event where c: "classifyTerminalError err = (status, event)" by fastforce
  then have m: "(status, event) \<in> {(''timeout'', ''timeout''), (''cancelled'', ''cancelled''),
      (''error'', ''error''), (''failed'', ''error'')}"
    by (auto simp: classifyTerminalError_def Let_def split: if_splits)
  then have "closing event s (snd (failWithTerminalEvent r q err s))"
    using closing_failure [of event s r "err_msg err"]
    by (auto simp: failWithTerminalEvent_def c EmitError_def EmitTimeout_def EmitCancelled_def Let_def)
  moreover have "outcome_event (fst (failWithTerminalEvent r q err s)) event"
    using m by (auto simp: failWithTerminalEvent_def c outcome_event_def Let_def)
  ultimately show ?thesis
    unfolding finished_def using progress_refl by blast
qed

definition turn_ok :: "inference_request \<Rightarrow> nat \<Rightarrow> nat \<Rightarrow> 'w run_state \<Rightarrow> 'w turn \<Rightarrow> bool" where
  "turn_ok req n k s t =
     (case t of
        Next ms s' \<Rightarrow> \<exists>m l es. progress req m l s es s' \<and> m \<le> n \<and> l \<le> k
      | Return out \<Rightarrow> finished req n k s out)"

lemma turn_ok_trans:
  assumes "progress req m l s es s1" "turn_ok req n k s1 t"
  shows "turn_ok req (m + n) (l + k) s t"
proof (cases t)
  case (Return out)
  with assms show ?thesis by (simp add: turn_ok_def finished_trans)
next
  case (Next ms s')
  with assms(2) obtain m' l' es' where "progress req m' l' s1 es' s'" "m' \<le> n" "l' \<le> k"
    by (auto simp: turn_ok_def)
  with progress_trans [OF assms(1)] Next show ?thesis
    unfolding turn_ok_def by (auto intro!: exI add_left_mono)
qed

lemma progress_log:
  assumes "\<And>c. e \<noteq> Emitted c" "write_guarded req [e]"
  shows "progress req 0 (predictions [e]) s [e] (log_event e (s\<lparr>rs_world := w\<rparr>))"
proof -
  have "chunks [e] = []" using assms(1) by (cases e) auto
  with assms(2) show ?thesis
    by (auto simp: progress_def seg_def log_event_def sent_def numbered_simps split: option.splits)
qed

lemma write_guarded_single: "(\<And>call x. e \<noteq> Executed call x) \<Longrightarrow> write_guarded req [e]"
  by (rule write_guarded_no_exec) auto

text \<open>The execution of a call that needs no approval, and of one just approved.\<close>

lemma progress_execute:
  assumes "call_execute r call s = (x, s')" "\<not> tc_is_write_operation call"
  shows "progress req 0 0 s [Executed call x] s'"
proof -
  have "write_guarded req [Executed call x]"
    using assms(2) by (auto simp: write_guarded_def Cons_eq_append_conv)
  with progress_log [of "Executed call x" req s] assms(1) show ?thesis
    by (auto simp: call_execute_def split_beta Let_def)
qed

lemma progress_approved:
  assumes "call_gate gate areq s = (Inr d, s1)" "ad_approved d" "call_execute r call s1 = (x, s2)"
    and "areq = approval_request_for req call t"
  shows "progress req 0 0 s [Asked areq (Inr d), Executed call x] s2"
proof -
  have "approves req call (Asked areq (Inr d))"
    using assms(2,4) by (simp add: approves_def approval_request_for_def)
  then have "write_guarded req [Asked areq (Inr d), Executed call x]"
    by (auto simp: write_guarded_def Cons_eq_append_conv)
  then show ?thesis
    using assms(1,3)
    by (auto simp: progress_def seg_def call_gate_def call_execute_def log_event_def sent_def
        numbered_simps split_beta Let_def split: option.splits)
qed

lemma turn_ok_result:
  "turn_ok req 1 0 s (Next ms (notify (EmitToolResult r res) s))"
  using progress_notify [OF progress_ops(2)] unfolding turn_ok_def turn.case by blast

lemma execute_tool_turn:
  assumes "call_execute r call s = (x, s1)"
  shows "\<exists>ms res. execute_tool r resp call messages s = Next ms (notify (EmitToolResult r res) s1)"
  using assms by (auto simp: execute_tool_def Let_def)

lemma execute_tool_ok:
  assumes "\<not> tc_is_write_operation call"
  shows "turn_ok req 1 0 s (execute_tool r resp call messages s)"
proof -
  obtain x s1 where x: "call_execute r call s = (x, s1)" by fastforce
  from turn_ok_trans [OF progress_execute [OF x assms] turn_ok_result] execute_tool_turn [OF x]
  show ?thesis by (metis add_0)
qed

lemma ask_approval_ok: "turn_ok req 2 0 s (ask_approval r req gate resp call messages s)"
proof -
  define areq where "areq = approval_request_for req call (now_ms r s)"
  define s1 where "s1 = notify (EmitWaitingApproval r areq) s"
  obtain x s2 where x: "call_gate gate areq s1 = (x, s2)" by fastforce
  obtain es where p1: "progress req 1 0 s es s1"
    using progress_notify [OF progress_ops(3)] unfolding s1_def by blast
  have p2: "progress req 0 0 s1 [Asked areq x] s2"
    using progress_log [of "Asked areq x" req s1] x
    by (auto simp: call_gate_def split_beta Let_def intro: write_guarded_single)
  note p12 = progress_trans [OF p1 p2, simplified]
  have rest: "turn_ok req 1 0 s2 t \<Longrightarrow> turn_ok req 2 0 s t" for t
    using turn_ok_trans [OF p12, of 1 0 t] by (simp add: numeral_2_eq_2)
  have weaken: "finished req 0 0 s2 out \<Longrightarrow> turn_ok req 1 0 s2 (Return out)" for out
    by (auto simp: turn_ok_def elim: finished_mono)
  show ?thesis
  proof (cases x)
    case (Inl err)
    then have "ask_approval r req gate resp call messages s = Return (failWithTerminalEvent r req err s2)"
      using x by (simp add: ask_approval_def Let_def areq_def s1_def)
    with rest [OF weaken [OF finished_fail]] show ?thesis by simp
  next
    case (Inr d)
    show ?thesis
    proof (cases "ad_approved d")
      case True
      obtain y s3 where y: "call_execute r call s2 = (y, s3)" by fastforce
      have "ask_approval r req gate resp call messages s = execute_tool r resp call messages s2"
        using x Inr True by (simp add: ask_approval_def Let_def areq_def s1_def)
      moreover have "progress req 1 0 s (es @ [Asked areq (Inr d), Executed call y]) s3"
        using progress_trans [OF p1 progress_approved [OF x [unfolded Inr] True y areq_def]] by simp
      ultimately show ?thesis
        using turn_ok_trans [OF _ turn_ok_result] execute_tool_turn [OF y] by (metis add_0 one_add_one)
    next
      case False
      define res where "res = failed_result call (''User rejected this operation: '' @ ad_reason d) (ad_reason d)"
      define s3 where "s3 = notify (EmitToolResult r res) s2"
      have "ask_approval r req gate resp call messages s =
        (if ir_on_approval_reject req = ''fail''
         then Return ((zero_final_result\<lparr>fr_status := ''rejected''\<rparr>, Some (errorf ''approval rejected'')),
                notify (EmitError r ''approval rejected'') s3)
         else Next (observation resp call (tres_output res) messages) s3)"
        using x Inr False by (simp add: ask_approval_def Let_def areq_def s1_def res_def s3_def)
      moreover have "finished req 1 0 s2 ((zero_final_result\<lparr>fr_status := ''rejected''\<rparr>, Some (errorf ''approval rejected'')),
                notify (EmitError r ''approval rejected'') s3)"
      proof -
        obtain es' where "progress req 1 0 s2 es' s3"
          using progress_notify [OF progress_ops(2)] unfolding s3_def by blast
        moreover have "closing ''error'' s3 (notify (EmitError r ''approval rejected'') s3)"
          unfolding EmitError_def by (rule closing_failure)
        ultimately show ?thesis
          unfolding finished_def by (auto simp: outcome_event_def)
      qed
      ultimately show ?thesis
        using rest turn_ok_result [of req s2] by (simp add: turn_ok_def s3_def)
    qed
  qed
qed

lemma run_tool_ok: "turn_ok req 3 0 s (run_tool r req resp call messages s)"
proof -
  define s1 where "s1 = notify (EmitToolCall r call) s"
  obtain es where p: "progress req 1 0 s es s1"
    using progress_notify [OF progress_ops(1)] unfolding s1_def by blast
  have eq: "run_tool r req resp call messages s =
     (if tc_is_write_operation call then
        (case rn_gate r of
           None \<Rightarrow> Return (failWithTerminalEvent r req (errorf ''approval gate required for write operation'') s1)
         | Some gate \<Rightarrow> ask_approval r req gate resp call messages s1)
      else execute_tool r resp call messages s1)"
    unfolding run_tool_def s1_def Let_def by (rule refl)
  have "turn_ok req 2 0 s1 (run_tool r req resp call messages s)"
  proof (cases "tc_is_write_operation call")
    case True
    then show ?thesis
      using ask_approval_ok finished_mono [OF finished_fail, of 2 0]
      by (cases "rn_gate r") (simp_all add: eq, simp add: turn_ok_def)
  next
    case False
    then have "turn_ok req 1 0 s1 (run_tool r req resp call messages s)"
      unfolding eq using execute_tool_ok by simp
    then show ?thesis
      unfolding turn_ok_def by (cases "run_tool r req resp call messages s") (auto intro: finished_mono order_trans)
  qed
  from turn_ok_trans [OF p this] show ?thesis by (simp add: numeral_3_eq_3)
qed

lemma run_turn_ok: "turn_ok req 3 1 s (run_turn r req messages s)"
proof -
  define q where "q = zero_inference_request\<lparr>ir_trace_id := ir_trace_id req, ir_messages := messages,
            ir_model_alias := ir_model_alias req, ir_temperature := ir_temperature req\<rparr>"
  obtain x s1 where x: "call_predict r q s = (x, s1)" by fastforce
  have p: "progress req 0 1 s [Predicted q x] s1"
    using progress_log [of "Predicted q x" req s] x
    by (auto simp: call_predict_def split_beta Let_def intro: write_guarded_single)
  have fail: "turn_ok req 3 0 s1 (Return (failWithTerminalEvent r req err s1))" for err
    using finished_mono [OF finished_fail] by (simp add: turn_ok_def)
  have fin: "turn_ok req 3 0 s1 (Return ((res, None), notify (EmitFinal r y) s1))"
    if "fr_status res = ''success''" for res y
    using that progress_refl closing_final [of s1 r y]
    unfolding turn_ok_def turn.case finished_def
    by (intro exI [of _ 0] exI [of _ "[]"] exI [of _ s1] exI [of _ "''final''"]) (auto simp: outcome_event_def)
  have nxt: "turn_ok req 3 0 s1 (Next messages s1)"
    using progress_refl unfolding turn_ok_def by fastforce
  have "turn_ok req 3 0 s1 (run_turn r req messages s)"
  proof (cases x)
    case (Inl err)
    with x fail show ?thesis by (simp add: run_turn_def q_def Let_def)
  next
    case (Inr resp)
    show ?thesis
    proof (cases "ParseModelOutput (rn_jerr r) resp")
      case (Inl err)
      with x Inr fail show ?thesis by (simp add: run_turn_def q_def Let_def)
    next
      case act: (Inr action)
      with x Inr fin nxt run_tool_ok [of req s1] show ?thesis
        by (cases "ae_call_skill action") (simp_all add: run_turn_def q_def Let_def)
    qed
  qed
  from turn_ok_trans [OF p this] show ?thesis by simp
qed

lemma run_turns_finished: "finished req (3 * n) n s (run_turns n r req messages s)"
proof (induction n arbitrary: messages s)
  case 0
  show ?case using finished_fail by simp
next
  case (Suc n)
  show ?case
  proof (cases "run_turn r req messages s")
    case (Return out)
    with run_turn_ok [of req s r messages] show ?thesis
      by (auto simp: turn_ok_def intro: finished_mono)
  next
    case (Next ms s')
    then obtain m l es where p: "progress req m l s es s'" "m \<le> 3" "l \<le> 1"
      using run_turn_ok [of req s r messages] by (auto simp: turn_ok_def)
    have "finished req (m + 3 * n) (l + n) s (run_turns n r req ms s')"
      using p(1) Suc.IH by (rule finished_trans)
    with p Next show ?thesis by (auto intro: finished_mono)
  qed
qed

section \<open>Whole runs\<close>

lemma Run_segments:
  obtains m l es s1 event where
    "progress req m l \<lparr>rs_world = w, rs_fanout = fo, rs_log = []\<rparr> es s1" "m \<le> 3 * nat (rn_max_turns r)"
    "l \<le> nat (rn_max_turns r)" "closing event s1 (snd (Run r req fo w))"
    "outcome_event (fst (Run r req fo w)) event"
  using run_turns_finished [of req "nat (rn_max_turns r)" _ r] unfolding Run_def finished_def by blast

lemma Run_log:
  obtains m l es tl where "rs_log (snd (Run r req fo w)) = es @ tl" "write_guarded req (es @ tl)"
    "predictions (es @ tl) \<le> nat (rn_max_turns r)" "list_all (\<lambda>c. \<not> sc_done c) (chunks es)"
    "seg m \<lparr>rs_world = w, rs_fanout = fo, rs_log = []\<rparr> (es @ tl) (snd (Run r req fo w))"
    "m \<le> 3 * nat (rn_max_turns r) + 1"
    "tl = [] \<or> (\<exists>c. tl = [Emitted c] \<and> sc_done c \<and> outcome_event (fst (Run r req fo w)) (sc_event c))"
    "(case fo of None \<Rightarrow> True | Some f \<Rightarrow> fo_terminal_sent f \<or> \<not> fo_has_publisher f) = (tl = [])"
proof -
  define s0 where "s0 = \<lparr>rs_world = w, rs_fanout = fo, rs_log = []\<rparr>"
  obtain m l es s1 event where p: "progress req m l s0 es s1" "m \<le> 3 * nat (rn_max_turns r)"
    "l \<le> nat (rn_max_turns r)" "closing event s1 (snd (Run r req fo w))"
    "outcome_event (fst (Run r req fo w)) event"
    unfolding s0_def by (rule Run_segments)
  obtain tl where tl: "seg 1 s1 tl (snd (Run r req fo w))"
    "tl = [] \<or> (\<exists>c. tl = [Emitted c] \<and> sc_done c \<and> sc_event c = event)" "sent s1 = (tl = [])"
    using p(4) by (auto simp: closing_def split: if_splits)
  have seg: "seg (m + 1) s0 (es @ tl) (snd (Run r req fo w))"
    by (rule seg_trans [OF _ tl(1)]) (use p(1) in \<open>simp add: progress_def\<close>)
  moreover from this have "rs_log (snd (Run r req fo w)) = es @ tl" by (simp add: seg_def s0_def)
  moreover have "write_guarded req (es @ tl)"
    by (rule write_guarded_append)
      (use p(1) tl(2) in \<open>auto simp: progress_def intro: write_guarded_no_exec\<close>)
  moreover have "predictions (es @ tl) \<le> nat (rn_max_turns r)"
    using p(1,3) tl(2) by (auto simp: progress_def)
  moreover have "sent s0 = (tl = [])" using p(1) tl(3) by (simp add: progress_def)
  ultimately show ?thesis
    using that [of es tl "m + 1"] p(1,2,5) tl(2) by (auto simp: progress_def s0_def sent_def)
qed

lemma sint_small: "0 \<le> j \<Longrightarrow> j < 2 ^ 63 \<Longrightarrow> sint (of_nat j :: 64 word) = int j"
  by (simp add: signed_of_nat signed_take_bit_int_eq_self_iff)

lemma numbered_increasing:
  assumes "numbered 0 n cs" "n < 2 ^ 63"
  shows "sorted_wrt (<) (map sc_sequence cs) \<and> list_all (\<lambda>c. 1 \<le> sc_sequence c \<and> sc_sequence c \<le> int n) cs"
proof -
  obtain js where js: "sorted_wrt (<) js" "set js \<subseteq> {1..n}"
    "map sc_sequence cs = map (\<lambda>j. sint (of_nat j :: 64 word)) js"
    using assms(1) by (auto simp: numbered_def)
  have "map (\<lambda>j. sint (of_nat j :: 64 word)) js = map int js"
    using js(2) assms(2) by (intro map_cong) (auto intro!: sint_small)
  with js(3) have eq: "map sc_sequence cs = map int js" by simp
  have "sorted_wrt (<) (map int js)" using js(1) by (simp add: sorted_wrt_map)
  moreover have "\<forall>x \<in> set (map sc_sequence cs). 1 \<le> x \<and> x \<le> int n"
    unfolding eq using js(2) by auto
  then have "list_all (\<lambda>c. 1 \<le> sc_sequence c \<and> sc_sequence c \<le> int n) cs"
    by (simp add: list_all_iff)
  ultimately show ?thesis by (simp add: eq)
qed

section \<open>Properties\<close>

text \<open>
  C1. No write without approval: whenever a run executes a tool call marked as a write, the event
  right before is an answer of the approval gate that approves exactly this call of this task.
\<close>

theorem writes_only_after_approval:
  assumes "rs_log (snd (Run r req fo w)) = pre @ Executed call x # post" "tc_is_write_operation call"
  shows "\<exists>pre' areq d. pre = pre' @ [Asked areq (Inr d)] \<and> ad_approved d \<and>
    areq_task_id areq = ir_task_id req \<and> areq_tool_call_id areq = tc_id call \<and>
    areq_tool_name areq = tc_name call \<and> areq_arguments areq = tc_arguments call"
proof -
  obtain es tl where "rs_log (snd (Run r req fo w)) = es @ tl" "write_guarded req (es @ tl)"
    by (rule Run_log)
  with assms have pre: "pre \<noteq> []" and a: "approves req call (last pre)"
    unfolding write_guarded_def by auto
  obtain areq d where "last pre = Asked areq (Inr d)" "ad_approved d \<and>
    areq_task_id areq = ir_task_id req \<and> areq_tool_call_id areq = tc_id call \<and>
    areq_tool_name areq = tc_name call \<and> areq_arguments areq = tc_arguments call"
    using a by (auto simp: approves_def split: rt_event.splits sum.splits)
  with pre show ?thesis by (metis append_butlast_last_id)
qed

text \<open>
  C2. Every run ends, after at most \<^verbatim>\<open>MaxTurns\<close> predictions, and a listening fan-out sees exactly one
  terminal event: it is the last thing the run does, and its kind agrees with the status and the
  error of the result.
\<close>

theorem run_ends_with_one_terminal_event:
  assumes "fo_has_publisher f" "\<not> fo_terminal_sent f"
  shows "\<exists>es c. rs_log (snd (Run r req (Some f) w)) = es @ [Emitted c] \<and> sc_done c \<and>
    list_all (\<lambda>c. \<not> sc_done c) (chunks es) \<and> outcome_event (fst (Run r req (Some f) w)) (sc_event c) \<and>
    predictions es \<le> nat (rn_max_turns r)"
proof -
  obtain es tl where l: "rs_log (snd (Run r req (Some f) w)) = es @ tl"
    "predictions (es @ tl) \<le> nat (rn_max_turns r)" "list_all (\<lambda>c. \<not> sc_done c) (chunks es)"
    "tl = [] \<or> (\<exists>c. tl = [Emitted c] \<and> sc_done c \<and> outcome_event (fst (Run r req (Some f) w)) (sc_event c))"
    "(case Some f of None \<Rightarrow> True | Some f \<Rightarrow> fo_terminal_sent f \<or> \<not> fo_has_publisher f) = (tl = [])"
    by (rule Run_log)
  with assms obtain c where "tl = [Emitted c]" "sc_done c"
    "outcome_event (fst (Run r req (Some f) w)) (sc_event c)" by auto
  with l show ?thesis by (intro exI [of _ es] exI [of _ c]) simp
qed

text \<open>
  The chunks of a run on a fresh fan-out carry strictly increasing sequence numbers from 1 on,
  as long as the turn limit keeps the signed 64-bit counter from wrapping around.
\<close>

theorem run_sequence_numbers_increase:
  assumes "rn_max_turns r < 2 ^ 61"
  shows "let cs = chunks (rs_log (snd (Run r req (Some (SetPublisher p (NewFanout t s k))) w))) in
    sorted_wrt (<) (map sc_sequence cs) \<and>
    list_all (\<lambda>c. 1 \<le> sc_sequence c \<and> sc_sequence c \<le> int (3 * nat (rn_max_turns r) + 1)) cs"
proof -
  let ?fo = "Some (SetPublisher p (NewFanout t s k))"
  obtain m es tl where l: "rs_log (snd (Run r req ?fo w)) = es @ tl"
    "seg m \<lparr>rs_world = w, rs_fanout = ?fo, rs_log = []\<rparr> (es @ tl) (snd (Run r req ?fo w))"
    "m \<le> 3 * nat (rn_max_turns r) + 1"
    by (rule Run_log)
  then have "numbered 0 m (chunks (rs_log (snd (Run r req ?fo w))))"
    by (auto simp: seg_def NewFanout_def SetPublisher_def)
  moreover have "m < 2 ^ 63" using l(3) assms by simp
  ultimately show ?thesis
    using numbered_increasing l(3) unfolding Let_def list_all_iff by fastforce
qed

section \<open>A sample run\<close>

text \<open>The model asks for a write, the gate approves, the tool answers, the model finishes.\<close>

definition sample_write_text :: string where
  "sample_write_text = json_print (JObj [(''call_skill'', JObj [(''id'', JStr ''c1''), (''name'', JStr ''rm''),
     (''is_write_operation'', JBool True)])])"

definition sample_call :: tool_call where
  "sample_call = \<lparr>tc_id = ''c1'', tc_name = ''rm'', tc_arguments = [], tc_is_write_operation = True\<rparr>"

definition sample_decision :: approval_decision where
  "sample_decision = \<lparr>ad_trace_id = [], ad_task_id = ''t1'', ad_tool_call_id = ''c1'', ad_approved = True,
     ad_reviewer = ''bob'', ad_reason = [], ad_decided_at_ms = 5\<rparr>"

definition sample_tool_result :: tool_result where
  "sample_tool_result = \<lparr>tres_tool_call_id = ''c1'', tres_name = ''rm'', tres_success = True,
     tres_output = ''ok'', tres_error = [], tres_duration_ms = 1\<rparr>"

definition sample_runtime :: "nat runtime" where
  "sample_runtime = NewRuntime
     (\<lambda>q w. (Inr (if w = 0 then sample_write_text else sample_output), Suc w))
     (\<lambda>c w. (Inr sample_tool_result, w)) (Some (\<lambda>a w. (Inr sample_decision, w)))
     (\<lambda>c w. (None, w)) (\<lambda>w. 7) (\<lambda>_. [])"

definition sample_request :: inference_request where
  "sample_request = zero_inference_request\<lparr>ir_task_id := ''t1''\<rparr>"

lemma sample_parse:
  "ParseModelOutput jerr sample_write_text = Inr (zero_action\<lparr>ae_call_skill := Some sample_call\<rparr>)"
  "ParseModelOutput jerr sample_output = Inr \<lparr>ae_think = ''ok'', ae_call_skill = None, ae_final = ''done''\<rparr>"
proof -
  define call where "call = JObj [(''id'', JStr ''c1''), (''name'', JStr ''rm''), (''is_write_operation'', JBool True)]"
  have ok: "json_ok max_nesting call" by (simp add: call_def max_nesting_def)
  have b: "json_parse ''true'' = Some (JBool True)" using json_parse_print [of "JBool True"] by simp
  have dec: "dec_struct False tool_call_fields (json_print call) zero_tool_call = Some sample_call"
    using ok unfolding call_def
    by (subst dec_struct_print) (simp_all add: dec_str_quote dec_bool_def b sample_call_def zero_tool_call_def)
  have "dec_ptr (dec_struct False tool_call_fields) zero_tool_call ae_call_skill
      (\<lambda>x. ae_call_skill_update (\<lambda>_. x)) (json_print call) zero_action =
    Some (zero_action\<lparr>ae_call_skill := Some sample_call\<rparr>)"
    using json_parse_print [OF ok] dec by (simp add: dec_ptr_def zero_action_def call_def)
  then show "ParseModelOutput jerr sample_write_text = Inr (zero_action\<lparr>ae_call_skill := Some sample_call\<rparr>)"
    unfolding sample_write_text_def call_def
    by (subst ParseModelOutput_print) (simp_all add: max_nesting_def)
  show "ParseModelOutput jerr sample_output = Inr \<lparr>ae_think = ''ok'', ae_call_skill = None, ae_final = ''done''\<rparr>"
    unfolding sample_output_def
    by (subst ParseModelOutput_print) (simp_all add: max_nesting_def dec_str_quote zero_action_def)
qed

definition sample_log :: "rt_event list" where
  "sample_log = rs_log (snd (Run sample_runtime sample_request (Some (SetPublisher True (NewFanout [] [] ''t1''))) 0))"

lemma sample_log_executes: "Executed sample_call (Inr sample_tool_result) \<in> set sample_log"
proof -
  obtain n where turns: "nat (rn_max_turns sample_runtime) = Suc (Suc n)"
    by (simp add: sample_runtime_def NewRuntime_def eval_nat_numeral)
  obtain x where x: "marshal_tool_call sample_call = Some x"
    by (simp add: marshal_tool_call_def raw_field_def sample_call_def)
  obtain y where y: "marshal_approval_request (approval_request_for sample_request sample_call 7) = Some y"
    by (simp add: marshal_approval_request_def raw_field_def sample_call_def approval_request_for_def)
  have c: "tc_is_write_operation sample_call" "ad_approved sample_decision"
    by (simp_all add: sample_call_def sample_decision_def)
  show ?thesis
    unfolding sample_log_def Run_def turns
    by (simp add: run_turn_def call_predict_def sample_runtime_def NewRuntime_def sample_parse zero_action_def
        run_tool_def ask_approval_def call_gate_def execute_tool_def call_execute_def log_event_def Let_def
        notify_def SetPublisher_def NewFanout_def EmitToolCall_def EmitToolResult_def EmitWaitingApproval_def EmitFinal_def
        emitTerminal_def Emit_def now_ms_def NewChunk_def NextSequence_def x y c)
qed

theorem writes_only_after_approval_witness:
  "\<exists>pre post pre' areq d. sample_log = pre @ Executed sample_call (Inr sample_tool_result) # post \<and>
     pre = pre' @ [Asked areq (Inr d)] \<and> ad_approved d \<and> areq_tool_call_id areq = ''c1''"
proof -
  obtain pre post where log: "sample_log = pre @ Executed sample_call (Inr sample_tool_result) # post"
    using sample_log_executes by (meson split_list)
  have "tc_is_write_operation sample_call" "tc_id sample_call = ''c1''" by (simp_all add: sample_call_def)
  with writes_only_after_approval [OF log [unfolded sample_log_def]] log show ?thesis by metis
qed

theorem run_ends_with_one_terminal_event_witness:
  "\<exists>es c. sample_log = es @ [Emitted c] \<and> sc_done c"
proof -
  have "fo_has_publisher (SetPublisher True (NewFanout [] [] ''t1''))"
    "\<not> fo_terminal_sent (SetPublisher True (NewFanout [] [] ''t1''))"
    by (simp_all add: SetPublisher_def NewFanout_def)
  from run_ends_with_one_terminal_event [OF this, of sample_runtime sample_request 0]
  show ?thesis unfolding sample_log_def by blast
qed

theorem run_sequence_numbers_increase_witness:
  "rn_max_turns sample_runtime < 2 ^ 61 \<and> sorted_wrt (<) (map sc_sequence (chunks sample_log))"
proof -
  have t: "rn_max_turns sample_runtime < 2 ^ 61" by (simp add: sample_runtime_def NewRuntime_def)
  from run_sequence_numbers_increase [OF t, of sample_request True "[]" "[]" "''t1''" 0] t
  show ?thesis unfolding sample_log_def Let_def by blast
qed

end
