(* ===== verification/Session.thy ===== *)
theory Session
  imports Go_Prelude "HOL-Library.Multiset"
begin

text \<open>
  Package \<^verbatim>\<open>internal/session\<close>: splitting a history for summarisation (\<^verbatim>\<open>context_compactor.go\<close>) and
  the SQLite history store (\<^verbatim>\<open>history_store.go\<close>). The SQL statements are translated over the rows of
  \<^verbatim>\<open>session_history\<close>; \<open>fault\<close> is the error the database reports for the call, if any. SQLite leaves
  the order of rows with equal \<^verbatim>\<open>created_at\<close> open, so the ordering is an argument.
\<close>

section \<open>Compaction\<close>

record session_message =
  sm_id :: string
  sm_session_id :: string
  sm_role :: string
  sm_content :: string
  sm_tokens :: int
  sm_created_at :: int

record compactor_policy =
  cp_max_tokens :: int
  cp_keep_recent :: int

text \<open>\<open>None\<close> is the run-time panic of a slice expression out of range.\<close>

definition CompactHistory ::
    "session_message list \<Rightarrow> compactor_policy \<Rightarrow> (session_message list \<times> session_message list) option" where
  "CompactHistory messages pol =
     (if int (length messages) \<le> cp_keep_recent pol then Some ([], messages)
      else let splitIdx = int (length messages) - cp_keep_recent pol in
           if splitIdx < 0 \<or> int (length messages) < splitIdx then None
           else Some (take (nat splitIdx) messages, drop (nat splitIdx) messages))"

definition FormatForSummary :: "session_message list \<Rightarrow> string" where
  "FormatForSummary messages =
     concat (map (\<lambda>m. ''['' @ sm_role m @ '']: '' @ sm_content m @ [CHR 0x0A]) messages)"

section \<open>The history store\<close>

type_synonym history_db = "session_message list"

definition history_schema :: "history_db \<Rightarrow> bool" where
  "history_schema db = distinct (map sm_id db)"

text \<open>\<^verbatim>\<open>INSERT\<close>: a second row with the same primary key is refused by the database.\<close>

definition unique_violation :: go_error where
  "unique_violation = errorf ''UNIQUE constraint failed: session_history.id''"

definition AddMessage :: "go_error option \<Rightarrow> int \<Rightarrow> history_db \<Rightarrow> session_message \<Rightarrow> history_db \<times> go_error option" where
  "AddMessage fault now db msg =
     (let msg = (if sm_created_at msg = 0 then msg\<lparr>sm_created_at := now\<rparr> else msg) in
      case fault of
        Some e \<Rightarrow> (db, Some e)
      | None \<Rightarrow>
          if sm_id msg \<in> set (map sm_id db) then (db, Some unique_violation)
          else (db @ [msg], None))"

text \<open>The swapping loop that turns newest-first into oldest-first.\<close>

function swap_loop :: "nat \<Rightarrow> nat \<Rightarrow> 'a list \<Rightarrow> 'a list" where
  "swap_loop i j xs =
     (if i < j then swap_loop (i + 1) (j - 1) (xs[i := xs ! j, j := xs ! i]) else xs)"
  by pat_completeness auto
termination
  by (relation "measure (\<lambda>(i, j, xs). j - i)") auto

declare swap_loop.simps [simp del]

text \<open>\<^verbatim>\<open>LIMIT\<close>: a negative limit means no limit.\<close>

definition sql_limit :: "int \<Rightarrow> 'a list \<Rightarrow> 'a list" where
  "sql_limit limit rows = (if limit < 0 then rows else take (nat limit) rows)"

definition GetHistory ::
    "(history_db \<Rightarrow> history_db) \<Rightarrow> go_error option \<Rightarrow> history_db \<Rightarrow> string \<Rightarrow> int \<Rightarrow> session_message list res" where
  "GetHistory order_desc fault db sessionID limit =
     (case fault of
        Some e \<Rightarrow> Inl e
      | None \<Rightarrow>
          let messages = sql_limit limit (order_desc (filter (\<lambda>m. sm_session_id m = sessionID) db)) in
          Inr (swap_loop 0 (length messages - 1) messages))"

definition ClearHistory :: "go_error option \<Rightarrow> history_db \<Rightarrow> string \<Rightarrow> history_db \<times> go_error option" where
  "ClearHistory fault db sessionID =
     (case fault of
        Some e \<Rightarrow> (db, Some e)
      | None \<Rightarrow> (filter (\<lambda>m. sm_session_id m \<noteq> sessionID) db, None))"

section \<open>The swapping loop reverses\<close>

lemma swap_loop_length [simp]: "length (swap_loop i j xs) = length xs"
proof (induction i j xs rule: swap_loop.induct)
  case (1 i j xs)
  then show ?case by (subst swap_loop.simps) simp
qed

lemma swap_loop_nth:
  "i + j + 1 = length xs + 2 * d \<Longrightarrow> d \<le> i \<Longrightarrow> j < length xs \<Longrightarrow> k < length xs \<Longrightarrow>
   swap_loop i j xs ! k = (if i \<le> k \<and> k \<le> j then xs ! (i + j - k) else xs ! k)"
proof (induction i j xs arbitrary: k d rule: swap_loop.induct)
  case (1 i j xs)
  show ?case
  proof (cases "i < j")
    case True
    let ?ys = "xs[i := xs ! j, j := xs ! i]"
    have "swap_loop (i + 1) (j - 1) ?ys ! k =
      (if i + 1 \<le> k \<and> k \<le> j - 1 then ?ys ! (i + 1 + (j - 1) - k) else ?ys ! k)"
      using "1.prems" True by (intro "1.IH" [of d]) auto
    then show ?thesis
      using "1.prems" True by (subst swap_loop.simps) (auto simp: nth_list_update)
  next
    case False
    then show ?thesis using "1.prems"
      by (subst swap_loop.simps) (auto intro: arg_cong [of _ _ "(!) xs"])
  qed
qed

lemma swap_loop_rev: "swap_loop 0 (length xs - 1) xs = rev xs"
proof (cases "xs = []")
  case True
  then show ?thesis by (subst swap_loop.simps) simp
next
  case False
  then have "swap_loop 0 (length xs - 1) xs ! k = rev xs ! k" if "k < length xs" for k
    using swap_loop_nth [of 0 "length xs - 1" xs 0 k] that by (auto simp: rev_nth)
  then show ?thesis by (auto intro: nth_equalityI)
qed

lemma GetHistory_rev:
  "GetHistory ord None db sid limit =
     Inr (rev (sql_limit limit (ord (filter (\<lambda>m. sm_session_id m = sid) db))))"
  by (simp only: GetHistory_def Let_def swap_loop_rev option.case)

section \<open>Properties\<close>

text \<open>What SQLite guarantees of \<^verbatim>\<open>ORDER BY created_at DESC\<close>.\<close>

definition desc_order :: "(history_db \<Rightarrow> history_db) \<Rightarrow> bool" where
  "desc_order ord = (\<forall>xs. mset (ord xs) = mset xs \<and> sorted_wrt (\<lambda>a b. sm_created_at b \<le> sm_created_at a) (ord xs))"

text \<open>
  \<^verbatim>\<open>GetHistory\<close> returns the most recent messages of the session, at most \<open>limit\<close> of them, oldest
  first, and every message of the session it leaves out is no newer than any it returns.
\<close>

theorem history_returns_most_recent:
  assumes "desc_order ord" "0 \<le> limit"
  shows "\<exists>ms older. GetHistory ord None db sid limit = Inr ms \<and>
    mset older + mset ms = mset (filter (\<lambda>m. sm_session_id m = sid) db) \<and>
    length ms = min (nat limit) (length (filter (\<lambda>m. sm_session_id m = sid) db)) \<and>
    sorted_wrt (\<lambda>a b. sm_created_at a \<le> sm_created_at b) ms \<and>
    (\<forall>a \<in> set older. \<forall>b \<in> set ms. sm_created_at a \<le> sm_created_at b)"
proof -
  define rows where "rows = filter (\<lambda>m. sm_session_id m = sid) db"
  define n where "n = nat limit"
  have o: "mset (ord rows) = mset rows" "sorted_wrt (\<lambda>a b. sm_created_at b \<le> sm_created_at a) (ord rows)"
    using assms(1) by (simp_all add: desc_order_def)
  have s: "sorted_wrt (\<lambda>a b. sm_created_at b \<le> sm_created_at a) (take n (ord rows))"
    "\<forall>b \<in> set (take n (ord rows)). \<forall>a \<in> set (drop n (ord rows)). sm_created_at a \<le> sm_created_at b"
    using o(2) sorted_wrt_append [of "\<lambda>a b. sm_created_at b \<le> sm_created_at a"
        "take n (ord rows)" "drop n (ord rows)"] by simp_all
  have "GetHistory ord None db sid limit = Inr (rev (take n (ord rows)))"
    using assms(2) by (simp add: GetHistory_rev sql_limit_def rows_def n_def)
  moreover have "mset (drop n (ord rows)) + mset (rev (take n (ord rows))) = mset rows"
    using o(1) by (metis add.commute append_take_drop_id mset_append mset_rev)
  moreover have "length (rev (take n (ord rows))) = min n (length rows)"
    using mset_eq_length [OF o(1)] by (simp add: min.commute)
  moreover have "sorted_wrt (\<lambda>a b. sm_created_at a \<le> sm_created_at b) (rev (take n (ord rows)))"
    using s(1) by (simp add: sorted_wrt_rev)
  ultimately show ?thesis using s(2) unfolding rows_def n_def by (metis set_rev)
qed

definition order_by_created_desc :: "history_db \<Rightarrow> history_db" where
  "order_by_created_desc xs = sort_key (\<lambda>m. - sm_created_at m) xs"

lemma order_by_created_desc: "desc_order order_by_created_desc"
proof -
  have "sorted_wrt (\<lambda>a b. sm_created_at b \<le> sm_created_at a) (order_by_created_desc xs)" for xs
    using sorted_sort_key [of "\<lambda>m. - sm_created_at m" xs]
    by (simp add: order_by_created_desc_def sorted_wrt_map)
  then show ?thesis by (simp add: desc_order_def order_by_created_desc_def)
qed

definition sample_history :: history_db where
  "sample_history =
     map (\<lambda>(i, t). \<lparr>sm_id = i, sm_session_id = ''s'', sm_role = ''user'', sm_content = i, sm_tokens = 0, sm_created_at = t\<rparr>)
       [(''a'', 1), (''c'', 3), (''b'', 2)]"

theorem history_returns_most_recent_witness:
  "desc_order order_by_created_desc \<and>
   (\<exists>ms. GetHistory order_by_created_desc None sample_history ''s'' 2 = Inr ms \<and> length ms = 2 \<and>
      map sm_id ms = [''b'', ''c''])"
proof -
  obtain ms where ms: "GetHistory order_by_created_desc None sample_history ''s'' 2 = Inr ms" "length ms = 2"
    using history_returns_most_recent [OF order_by_created_desc, of 2 sample_history "''s''"]
    by (auto simp: sample_history_def)
  have "GetHistory order_by_created_desc None sample_history ''s'' 2 =
    Inr (rev (take 2 (order_by_created_desc sample_history)))"
    by (simp add: GetHistory_rev sql_limit_def sample_history_def)
  moreover have "map sm_id (rev (take 2 (order_by_created_desc sample_history))) = [''b'', ''c'']"
    unfolding order_by_created_desc_def sort_key_def sample_history_def by (simp add: numeral_2_eq_2)
  ultimately have "map sm_id ms = [''b'', ''c'']" using ms(1) by simp
  with ms show ?thesis by (intro conjI exI [of _ ms] order_by_created_desc)
qed

text \<open>
  Compaction loses nothing: whenever \<^verbatim>\<open>KeepRecent\<close> is not negative the split succeeds, the two
  parts are the history in order, and exactly the last \<^verbatim>\<open>KeepRecent\<close> messages (or all of a shorter
  history) are kept verbatim; a negative value panics on every history.
\<close>

theorem compact_history_splits:
  "CompactHistory ms pol =
     (if cp_keep_recent pol < 0 then None
      else Some (take (length ms - nat (cp_keep_recent pol)) ms, drop (length ms - nat (cp_keep_recent pol)) ms))"
  by (auto simp: CompactHistory_def Let_def nat_diff_distrib)

end
