(* ===== verification/Llm_Provider.thy ===== *)
theory Llm_Provider
  imports Llm_Contracts Session
begin

text \<open>
  Package \<^verbatim>\<open>internal/llm\<close>, providers: the route table (\<^verbatim>\<open>routes.go\<close>), the resolver (\<^verbatim>\<open>resolver.go\<close>), the
  system prompt builder (\<^verbatim>\<open>builder.go\<close>), the context guard (\<^verbatim>\<open>context_guard.go\<close>) and the OpenAI
  provider (\<^verbatim>\<open>openai_provider.go\<close>). A provider is a function from requests and a world; the HTTP
  transport of the OpenAI provider is an argument.
\<close>

section \<open>Providers, routes, resolver\<close>

type_synonym 'w predict = "inference_request \<Rightarrow> 'w \<Rightarrow> string res \<times> 'w"

record 'w provider =
  pv_predict :: "'w predict"
  pv_predict_stream :: "'w predict"

text \<open>The temperature is kept as its decimal text; no operation reads it.\<close>

record model_config =
  mc_provider_name :: string
  mc_model_id :: string
  mc_api_key :: string
  mc_base_url :: string
  mc_temperature :: string

record static_route =
  rt_alias :: string
  rt_provider :: string
  rt_base_url :: string
  rt_api_key_ref :: string
  rt_upstream_model :: string
  rt_timeout_ms :: int

type_synonym route_table = "(string \<times> static_route) list"

definition NewRouteTable :: route_table where
  "NewRouteTable = []"

definition RouteTable_Register :: "route_table \<Rightarrow> static_route \<Rightarrow> route_table \<times> go_error option" where
  "RouteTable_Register t r =
     (if rt_alias r = [] then (t, Some (errorf ''route alias cannot be empty''))
      else (AList.update (rt_alias r) r t, None))"

definition RouteTable_Get :: "route_table \<Rightarrow> string \<Rightarrow> static_route option" where
  "RouteTable_Get t alias = map_of t alias"

record 'w model_resolver =
  mr_providers :: "(string \<times> 'w provider) list"
  mr_routes :: "(string \<times> static_route) list"

definition NewModelResolver :: "'w model_resolver" where
  "NewModelResolver = \<lparr>mr_providers = [], mr_routes = []\<rparr>"

definition Resolver_Register :: "'w model_resolver \<Rightarrow> string \<Rightarrow> 'w provider \<Rightarrow> 'w model_resolver" where
  "Resolver_Register r name p = r\<lparr>mr_providers := AList.update name p (mr_providers r)\<rparr>"

definition RegisterRoute :: "'w model_resolver \<Rightarrow> static_route \<Rightarrow> 'w model_resolver" where
  "RegisterRoute r route = r\<lparr>mr_routes := AList.update (rt_alias route) route (mr_routes r)\<rparr>"

definition Resolver_Get :: "'w model_resolver \<Rightarrow> string \<Rightarrow> 'w provider option" where
  "Resolver_Get r name = map_of (mr_providers r) name"

definition zero_route :: static_route where
  "zero_route = \<lparr>rt_alias = [], rt_provider = [], rt_base_url = [], rt_api_key_ref = [],
     rt_upstream_model = [], rt_timeout_ms = 0\<rparr>"

text \<open>The three results of \<^verbatim>\<open>ResolveByAlias\<close>: provider, route, error.\<close>

definition ResolveByAlias :: "'w model_resolver \<Rightarrow> string \<Rightarrow> 'w provider option \<times> static_route \<times> go_error option" where
  "ResolveByAlias r alias =
     (case map_of (mr_routes r) alias of
        None \<Rightarrow> (None, zero_route, Some (errorf (''invalid_request_error: model alias '' @ alias @ '' not found'')))
      | Some route \<Rightarrow>
          (case Resolver_Get r (rt_provider route) of
             None \<Rightarrow> (None, route, Some (errorf (''invalid_request_error: provider '' @ rt_provider route @
                        '' (for alias '' @ alias @ '') not found'')))
           | Some p \<Rightarrow> (Some p, route, None)))"

definition Resolve :: "'w model_resolver \<Rightarrow> string \<Rightarrow> 'w provider res" where
  "Resolve r name =
     (case Resolver_Get r name of
        None \<Rightarrow> Inl (errorf (''llm provider '' @ name @ '' not found''))
      | Some p \<Rightarrow> Inr p)"

definition Resolver_Predict :: "'w model_resolver \<Rightarrow> string \<Rightarrow> 'w predict" where
  "Resolver_Predict r name req w =
     (case Resolve r name of Inl e \<Rightarrow> (Inl e, w) | Inr p \<Rightarrow> pv_predict p req w)"

definition Resolver_PredictStream :: "'w model_resolver \<Rightarrow> string \<Rightarrow> 'w predict" where
  "Resolver_PredictStream r name req w =
     (case Resolve r name of Inl e \<Rightarrow> (Inl e, w) | Inr p \<Rightarrow> pv_predict_stream p req w)"

section \<open>System prompts\<close>

record tool_info =
  ti_name :: string
  ti_description :: string
  ti_params :: string

record prompt_builder =
  pb_role :: string
  pb_instructions :: "string list"
  pb_tools :: "tool_info list"

definition NewSystemPromptBuilder :: "string \<Rightarrow> prompt_builder" where
  "NewSystemPromptBuilder role = \<lparr>pb_role = role, pb_instructions = [], pb_tools = []\<rparr>"

definition AddInstruction :: "prompt_builder \<Rightarrow> string \<Rightarrow> prompt_builder" where
  "AddInstruction b instr = b\<lparr>pb_instructions := pb_instructions b @ [instr]\<rparr>"

definition AddTool :: "prompt_builder \<Rightarrow> tool_info \<Rightarrow> prompt_builder" where
  "AddTool b tool = b\<lparr>pb_tools := pb_tools b @ [tool]\<rparr>"

abbreviation nl :: string where "nl \<equiv> [CHR 0x0A]"

fun numbered_lines :: "nat \<Rightarrow> string list \<Rightarrow> string" where
  "numbered_lines i [] = []"
| "numbered_lines i (x # xs) = format_nat i @ ''. '' @ x @ nl @ numbered_lines (i + 1) xs"

definition Build :: "prompt_builder \<Rightarrow> string" where
  "Build b =
     ''Role: '' @ pb_role b @ nl @ nl @
     (if 0 < length (pb_instructions b)
      then ''Instructions:'' @ nl @ numbered_lines 1 (pb_instructions b) @ nl else []) @
     (if 0 < length (pb_tools b)
      then ''Available Tools:'' @ nl @
           concat (map (\<lambda>t. ''- '' @ ti_name t @ '': '' @ ti_description t @ '' (Params: '' @ ti_params t @ '')'' @ nl) (pb_tools b)) @ nl
      else []) @
     ''You must strictly follow the response format required (JSON).''"

section \<open>Context guard\<close>

definition NewContextGuard :: "int \<Rightarrow> compactor_policy" where
  "NewContextGuard maxTokens =
     \<lparr>cp_max_tokens = (if maxTokens \<le> 0 then 4096 else maxTokens), cp_keep_recent = 6\<rparr>"

definition summarize :: "'w predict \<Rightarrow> session_message list \<Rightarrow> 'w \<Rightarrow> string res \<times> 'w" where
  "summarize p msgs w =
     p (zero_inference_request\<lparr>ir_messages := [chat_msg ''user''
          (''Summarize the following conversation history briefly while preserving key facts and decisions:'' @
           nl @ nl @ FormatForSummary msgs)]\<rparr>) w"

definition SemanticCompact :: "compactor_policy \<Rightarrow> 'w predict option \<Rightarrow> string \<Rightarrow> session_message list \<Rightarrow> string \<Rightarrow>
    'w \<Rightarrow> ((chat_message list \<times> bool) \<times> 'w) option" where
  "SemanticCompact pol p systemPrompt history newQuery w =
     (case CompactHistory history pol of
        None \<Rightarrow> None
      | Some (toSum, kept) \<Rightarrow>
          let (summary, usedSummary, w') =
                (case p of
                   None \<Rightarrow> ([], False, w)
                 | Some f \<Rightarrow>
                     if 0 < length toSum then
                       (case summarize f toSum w of
                          (Inr s, w') \<Rightarrow> ([chat_msg ''system'' (''[Previous Context Summary]: '' @ s)], True, w')
                        | (Inl e, w') \<Rightarrow> ([], False, w'))
                     else ([], False, w)) in
          Some (([chat_msg ''system'' systemPrompt] @ summary @
                 map (\<lambda>h. chat_msg (sm_role h) (sm_content h)) kept @ [chat_msg ''user'' newQuery],
                 usedSummary), w'))"

definition BuildMessages where
  "BuildMessages pol p systemPrompt history newQuery w =
     map_option (\<lambda>((messages, _), w'). (messages, w'))
       (SemanticCompact pol p systemPrompt history newQuery w)"

section \<open>The OpenAI provider\<close>

definition NewOpenAIProvider :: "model_config \<Rightarrow> model_config" where
  "NewOpenAIProvider config =
     (if mc_base_url config = [] then config\<lparr>mc_base_url := ''https://api.openai.com/v1''\<rparr> else config)"

text \<open>Encoding of a request; \<open>fmt32\<close> renders the \<^verbatim>\<open>float32\<close> a number literal stands for.\<close>

definition str_field :: "string \<Rightarrow> string \<Rightarrow> (string \<times> string) list" where
  "str_field k v = (if v = [] then [] else [(k, quote v)])"

definition opt_raw_field :: "string \<Rightarrow> string \<Rightarrow> (string \<times> string) list option" where
  "opt_raw_field k x = (if x = [] then Some [] else map_option (\<lambda>y. [(k, y)]) (marshal_raw x))"

definition marshal_chat_message :: "chat_message \<Rightarrow> string option" where
  "marshal_chat_message m =
     map_option (\<lambda>tc. obj_text ([(''role'', quote (cm_role m)), (''content'', quote (cm_content m))] @
        str_field ''name'' (cm_name m) @ str_field ''tool_call_id'' (cm_tool_call_id m) @ tc))
       (opt_raw_field ''tool_calls'' (cm_tool_calls m))"

fun all_some :: "'a option list \<Rightarrow> 'a list option" where
  "all_some [] = Some []"
| "all_some (x # xs) = (case (x, all_some xs) of (Some y, Some ys) \<Rightarrow> Some (y # ys) | _ \<Rightarrow> None)"

text \<open>A nil slice of messages is written as \<^verbatim>\<open>null\<close>.\<close>

definition marshal_request :: "(string \<Rightarrow> string) \<Rightarrow> chat_completion_request \<Rightarrow> string option" where
  "marshal_request fmt32 req =
     (case (all_some (map marshal_chat_message (cr_messages req)), opt_raw_field ''tools'' (cr_tools req),
            opt_raw_field ''tool_choice'' (cr_tool_choice req)) of
        (Some ms, Some tools, Some choice) \<Rightarrow>
          Some (obj_text ([(''model'', quote (cr_model req)),
             (''messages'', if cr_messages req = [] then ''null'' else arr_text ms)] @ tools @ choice @
             (case cr_temperature req of None \<Rightarrow> [] | Some t \<Rightarrow> [(''temperature'', fmt32 t)]) @
             (if cr_stream req then [(''stream'', ''true'')] else [])))
      | _ \<Rightarrow> None)"

record http_request =
  hr_method :: string
  hr_url :: string
  hr_headers :: "(string \<times> string) list"
  hr_body :: string

record http_response =
  hs_status :: int
  hs_body :: "string res"

definition provider_request :: "(string \<Rightarrow> string) \<Rightarrow> model_config \<Rightarrow> bool \<Rightarrow> inference_request \<Rightarrow> http_request option" where
  "provider_request fmt32 config stream req =
     map_option (\<lambda>body. \<lparr>hr_method = ''POST'', hr_url = mc_base_url config @ ''/chat/completions'',
         hr_headers = [(''Content-Type'', ''application/json''), (''Authorization'', ''Bearer '' @ mc_api_key config)],
         hr_body = body\<rparr>)
       (marshal_request fmt32 (zero_chat_completion_request\<lparr>cr_model := mc_model_id config,
          cr_messages := ir_messages req, cr_temperature := ir_temperature req, cr_stream := stream\<rparr>))"

record completion_response =
  cs_choices :: "chat_message list"
  cs_error_message :: string

definition completion_fields :: "(string \<times> completion_response decoder) list" where
  "completion_fields =
     [(''choices'', dec_slice (dec_struct False [(''message'', dec_struct False chat_message_fields)]) zero_chat_message
         cs_choices (\<lambda>x. cs_choices_update (\<lambda>_. x))),
      (''error'', dec_struct False [(''message'', dec_str (\<lambda>x. cs_error_message_update (\<lambda>_. x)))])]"

text \<open>
  The body of an error response is decoded with the error ignored: what a type mismatch elsewhere
  leaves decoded is the last string \<^verbatim>\<open>error.message\<close>.
\<close>

definition fold_field :: "string \<Rightarrow> (string \<Rightarrow> 'a \<Rightarrow> 'a) \<Rightarrow> string \<Rightarrow> 'a \<Rightarrow> 'a" where
  "fold_field k f x a =
     (case obj_members x of
        None \<Rightarrow> a
      | Some ms \<Rightarrow> fold (\<lambda>(k', y) a. if fold_name k' = fold_name k then f y a else a) ms a)"

definition error_message_of :: "string \<Rightarrow> string" where
  "error_message_of body =
     (if json_valid body
      then fold_field ''error'' (fold_field ''message''
             (\<lambda>x a. case json_parse x of Some (JStr s) \<Rightarrow> s | _ \<Rightarrow> a)) body []
      else [])"

definition OpenAI_Predict :: "(string \<Rightarrow> string) \<Rightarrow> (string \<Rightarrow> string) \<Rightarrow>
    (http_request \<Rightarrow> 'w \<Rightarrow> http_response res \<times> 'w) \<Rightarrow> model_config \<Rightarrow> 'w predict" where
  "OpenAI_Predict jerr fmt32 http_do config req w =
     (case provider_request fmt32 config False req of
        None \<Rightarrow> (Inl (errorf (jerr [])), w)
      | Some httpReq \<Rightarrow>
          (case http_do httpReq w of
             (Inl err, w') \<Rightarrow> (Inl err, w')
           | (Inr resp, w') \<Rightarrow>
               (case hs_body resp of
                  Inl err \<Rightarrow> (Inl err, w')
                | Inr body \<Rightarrow>
                    if hs_status resp \<noteq> 200
                    then (Inl (errorf (''openai error ('' @ format_int (hs_status resp) @ ''): '' @ error_message_of body)), w')
                    else (case unmarshal (dec_struct False completion_fields) \<lparr>cs_choices = [], cs_error_message = []\<rparr> body of
                            None \<Rightarrow> (Inl (errorf (jerr body)), w')
                          | Some r \<Rightarrow>
                              (case cs_choices r of
                                 [] \<Rightarrow> (Inl (errorf ''openai returned no choices''), w')
                               | c # _ \<Rightarrow> (Inr (cm_content c), w'))))))"

text \<open>The stream is returned as its unread body.\<close>

definition OpenAI_PredictStream :: "(string \<Rightarrow> string) \<Rightarrow> (string \<Rightarrow> string) \<Rightarrow>
    (http_request \<Rightarrow> 'w \<Rightarrow> http_response res \<times> 'w) \<Rightarrow> model_config \<Rightarrow> inference_request \<Rightarrow> 'w \<Rightarrow>
    (string res) res \<times> 'w" where
  "OpenAI_PredictStream jerr fmt32 http_do config req w =
     (case provider_request fmt32 config True req of
        None \<Rightarrow> (Inl (errorf (jerr [])), w)
      | Some httpReq \<Rightarrow>
          (case http_do httpReq w of
             (Inl err, w') \<Rightarrow> (Inl err, w')
           | (Inr resp, w') \<Rightarrow>
               if hs_status resp \<noteq> 200
               then (Inl (errorf (''openai streaming error ('' @ format_int (hs_status resp) @ ''): '' @
                       (case hs_body resp of Inr b \<Rightarrow> b | Inl _ \<Rightarrow> []))), w')
               else (Inr (hs_body resp), w')))"

section \<open>Properties\<close>

lemma guard_split:
  "CompactHistory history (NewContextGuard n) =
     Some (take (length history - 6) history, drop (length history - 6) history)"
  by (auto simp: CompactHistory_def NewContextGuard_def Let_def nat_diff_distrib)

text \<open>
  The context guard never fails and bounds the prompt: whatever the history and the provider
  do, the messages are the system prompt, at most one summary, the last six messages of the
  history verbatim and in order, and the new query; the summary is present iff the history is
  longer than six and the provider could summarise the rest.
\<close>

theorem semantic_compact_keeps_recent_messages:
  "\<exists>summary w'. SemanticCompact (NewContextGuard n) p sys history query w =
     Some (([chat_msg ''system'' sys] @ summary @
       map (\<lambda>h. chat_msg (sm_role h) (sm_content h)) (drop (length history - 6) history) @
       [chat_msg ''user'' query], summary \<noteq> []), w') \<and>
     (case p of
        None \<Rightarrow> summary = [] \<and> w' = w
      | Some f \<Rightarrow>
          if length history \<le> 6 then summary = [] \<and> w' = w
          else (case summarize f (take (length history - 6) history) w of
                  (Inl e, w1) \<Rightarrow> summary = [] \<and> w' = w1
                | (Inr s, w1) \<Rightarrow> summary = [chat_msg ''system'' (''[Previous Context Summary]: '' @ s)] \<and> w' = w1))"
proof (cases p)
  case None
  then show ?thesis by (simp add: SemanticCompact_def guard_split)
next
  case (Some f)
  obtain x w1 where x: "summarize f (take (length history - 6) history) w = (x, w1)" by fastforce
  show ?thesis
    using Some x by (cases x) (auto simp: SemanticCompact_def guard_split Let_def)
qed

datatype 'w registration = RegProvider string "'w provider" | RegRoute static_route

fun apply_registration :: "'w registration \<Rightarrow> 'w model_resolver \<Rightarrow> 'w model_resolver" where
  "apply_registration (RegProvider name p) r = Resolver_Register r name p"
| "apply_registration (RegRoute route) r = RegisterRoute r route"

fun last_route :: "string \<Rightarrow> 'w registration list \<Rightarrow> static_route option" where
  "last_route alias [] = None"
| "last_route alias (RegRoute route # rs) =
     (case last_route alias rs of Some x \<Rightarrow> Some x | None \<Rightarrow> if rt_alias route = alias then Some route else None)"
| "last_route alias (_ # rs) = last_route alias rs"

fun last_provider :: "string \<Rightarrow> 'w registration list \<Rightarrow> 'w provider option" where
  "last_provider name [] = None"
| "last_provider name (RegProvider n p # rs) =
     (case last_provider name rs of Some x \<Rightarrow> Some x | None \<Rightarrow> if n = name then Some p else None)"
| "last_provider name (_ # rs) = last_provider name rs"

lemma resolver_maps:
  "map_of (mr_routes (fold apply_registration rs r)) alias =
     (case last_route alias rs of Some x \<Rightarrow> Some x | None \<Rightarrow> map_of (mr_routes r) alias)"
  "map_of (mr_providers (fold apply_registration rs r)) name =
     (case last_provider name rs of Some x \<Rightarrow> Some x | None \<Rightarrow> map_of (mr_providers r) name)"
proof (induction rs arbitrary: r)
  case (Cons x rs)
  {
    case 1
    show ?case using Cons.IH(1)
      by (cases x) (auto simp: RegisterRoute_def Resolver_Register_def update_conv split: option.splits)
  next
    case 2
    show ?case using Cons.IH(2)
      by (cases x) (auto simp: RegisterRoute_def Resolver_Register_def update_conv split: option.splits)
  }
qed simp_all

text \<open>
  Alias resolution after any sequence of registrations: the last route registered for the alias
  and the last provider registered under its name are used; a missing route or provider is
  reported to the client as HTTP 400.
\<close>

theorem resolve_by_alias_uses_last_registrations:
  "ResolveByAlias (fold apply_registration rs NewModelResolver) alias = (p, route, err) \<Longrightarrow>
   (case last_route alias rs of
      None \<Rightarrow> p = None \<and> (\<exists>e. err = Some e \<and> MapProviderError err = (400, ''invalid_request_error'', err_msg e))
    | Some r \<Rightarrow> route = r \<and> p = last_provider (rt_provider r) rs \<and>
        (err = None \<longleftrightarrow> p \<noteq> None) \<and>
        (\<forall>e. err = Some e \<longrightarrow> MapProviderError err = (400, ''invalid_request_error'', err_msg e)))"
  by (auto simp: ResolveByAlias_def Resolver_Get_def resolver_maps NewModelResolver_def MapProviderError_request
      split: option.splits)

definition sample_route :: static_route where
  "sample_route = zero_route\<lparr>rt_alias := ''fast'', rt_provider := ''openai''\<rparr>"

theorem resolve_by_alias_uses_last_registrations_witness:
  "\<exists>e. ResolveByAlias (fold apply_registration [RegRoute sample_route] (NewModelResolver :: unit model_resolver)) ''fast'' =
      (None, sample_route, Some e) \<and> MapProviderError (Some e) = (400, ''invalid_request_error'', err_msg e)"
proof -
  let ?rs = "[RegRoute sample_route] :: unit registration list"
  obtain p route err where x: "ResolveByAlias (fold apply_registration ?rs NewModelResolver) ''fast'' = (p, route, err)"
    by (metis prod_cases3)
  have "last_route ''fast'' ?rs = Some sample_route" "last_provider (rt_provider sample_route) ?rs = None"
    by (simp_all add: sample_route_def)
  with resolve_by_alias_uses_last_registrations [OF x] obtain e where
    "route = sample_route" "p = None" "err = Some e" "MapProviderError (Some e) = (400, ''invalid_request_error'', err_msg e)"
    by auto
  with x show ?thesis by simp
qed

end
