(* ===== verification/Skill.thy ===== *)
theory Skill
  imports Llm_Runtime_Props
begin

text \<open>
  Package \<^verbatim>\<open>internal/skill\<close>: the skill registry (\<^verbatim>\<open>skill.go\<close>), the tool executor (\<^verbatim>\<open>executor.go\<close>), the
  built-in skills (\<^verbatim>\<open>builtin.go\<close>) and the WASM skill (\<^verbatim>\<open>wasm.go\<close>). A skill acts on a world of any type;
  the clock, the RFC 3339 rendering of the time and the WASM sandbox are arguments.
\<close>

section \<open>Skills and their registry\<close>

record 'w skill =
  sk_name :: string
  sk_description :: string
  sk_schema :: string
  sk_is_write_operation :: bool
  sk_execute :: "string \<Rightarrow> 'w \<Rightarrow> string res \<times> 'w"

type_synonym 'w skill_registry = "(string \<times> 'w skill) list"

definition NewRegistry :: "'w skill_registry" where
  "NewRegistry = []"

definition Registry_Register :: "'w skill_registry \<Rightarrow> 'w skill \<Rightarrow> 'w skill_registry" where
  "Registry_Register r s = AList.update (sk_name s) s r"

definition Registry_Get :: "'w skill_registry \<Rightarrow> string \<Rightarrow> 'w skill option" where
  "Registry_Get r name = map_of r name"

definition Registry_List :: "'w skill_registry \<Rightarrow> 'w skill list" where
  "Registry_List r = map snd r"

section \<open>The executor\<close>

definition ms_per_ns :: int where "ms_per_ns = 1000000"

text \<open>\<open>clock\<close> reads the time in nanoseconds; Go's integer division truncates towards zero.\<close>

definition go_div :: "int \<Rightarrow> int \<Rightarrow> int" where
  "go_div a b = sgn a * sgn b * (\<bar>a\<bar> div \<bar>b\<bar>)"

definition Execute :: "('w \<Rightarrow> int) \<Rightarrow> 'w skill_registry \<Rightarrow> tool_call \<Rightarrow> 'w \<Rightarrow> (tool_result \<times> go_error option) \<times> 'w" where
  "Execute clock registry call w =
     (let start = clock w;
          result = \<lparr>tres_tool_call_id = tc_id call, tres_name = tc_name call, tres_success = False,
                    tres_output = [], tres_error = [], tres_duration_ms = 0\<rparr> in
      case Registry_Get registry (tc_name call) of
        None \<Rightarrow>
          let err = errorf (''tool '' @ tc_name call @ '' not found'') in
          ((result\<lparr>tres_error := err_msg err, tres_success := False\<rparr>, Some err), w)
      | Some s \<Rightarrow>
          let (output, w') = sk_execute s (tc_arguments call) w;
              result = result\<lparr>tres_duration_ms := go_div (clock w' - start) ms_per_ns\<rparr> in
          (case output of
             Inl err \<Rightarrow> ((result\<lparr>tres_error := err_msg err, tres_success := False\<rparr>, Some err), w')
           | Inr out \<Rightarrow> ((result\<lparr>tres_output := out, tres_success := True\<rparr>, None), w')))"

section \<open>Built-in and WASM skills\<close>

definition dq :: "string \<Rightarrow> string" where
  "dq s = [CHR 0x22] @ s @ [CHR 0x22]"

abbreviation tab :: string where "tab \<equiv> [CHR 0x09]"

abbreviation newline :: string where "newline \<equiv> [CHR 0x0A]"

definition http_get_schema :: string where
  "http_get_schema =
     ''{'' @ newline @
     tab @ tab @ dq ''type'' @ '': '' @ dq ''object'' @ '','' @ newline @
     tab @ tab @ dq ''properties'' @ '': {'' @ newline @
     tab @ tab @ tab @ dq ''url'' @ '': {'' @ dq ''type'' @ '': '' @ dq ''string'' @ '', '' @
       dq ''description'' @ '': '' @ dq ''The URL to fetch'' @ ''}'' @ newline @
     tab @ tab @ ''},'' @ newline @
     tab @ tab @ dq ''required'' @ '': ['' @ dq ''url'' @ '']'' @ newline @
     tab @ ''}''"

definition CurrentTimeSkill :: "('w \<Rightarrow> string) \<Rightarrow> 'w skill" where
  "CurrentTimeSkill rfc3339 =
     \<lparr>sk_name = ''get_current_time'', sk_description = ''Returns the current server time.'',
      sk_schema = ''{'' @ dq ''type'' @ '': '' @ dq ''object'' @ '', '' @ dq ''properties'' @ '': {}}'', sk_is_write_operation = False,
      sk_execute = (\<lambda>params w. (Inr (obj_text [(''time'', quote (rfc3339 w))]), w))\<rparr>"

definition HttpGetSkill :: "(string \<Rightarrow> string) \<Rightarrow> 'w skill" where
  "HttpGetSkill jerr =
     \<lparr>sk_name = ''http_get'', sk_description = ''Fetches the content of a given URL.'',
      sk_schema = http_get_schema, sk_is_write_operation = False,
      sk_execute = (\<lambda>params w.
        (case unmarshal (dec_struct False [(''url'', dec_str (\<lambda>x _. x))]) [] params of
           None \<Rightarrow> (Inl (errorf (''invalid params: '' @ jerr params)), w)
         | Some url \<Rightarrow>
             (Inr (obj_text [(''body'', quote (''Mock response from '' @ url @ '': <html>...</html>'')),
                             (''status'', quote ''200'')]), w)))\<rparr>"

definition NewWasmSkill :: "string \<Rightarrow> string \<Rightarrow> string \<Rightarrow> bool \<Rightarrow> string \<Rightarrow>
    (string \<Rightarrow> string list \<Rightarrow> 'w \<Rightarrow> string res \<times> 'w) \<Rightarrow> 'w skill" where
  "NewWasmSkill name desc schema isWrite wasmBytes executeWasm =
     \<lparr>sk_name = name, sk_description = desc, sk_schema = schema, sk_is_write_operation = isWrite,
      sk_execute = (\<lambda>params w.
        (case executeWasm wasmBytes [params] w of
           (Inl err, w') \<Rightarrow> (Inl (GoError (''wasm execution failed: '' @ err_msg err) (err_chain err)), w')
         | (Inr stdout, w') \<Rightarrow> (Inr stdout, w')))\<rparr>"

section \<open>Properties\<close>

lemma registry_get_after:
  "Registry_Get (fold (\<lambda>s r. Registry_Register r s) ss r) name =
     (case find (\<lambda>s. sk_name s = name) (rev ss) of Some s \<Rightarrow> Some s | None \<Rightarrow> Registry_Get r name)"
proof (induction ss arbitrary: r)
  case (Cons s ss)
  then show ?case
    by (auto simp: Registry_Get_def Registry_Register_def update_conv find_append split: option.splits)
qed (simp add: Registry_Get_def)

lemma registry_get_new:
  "Registry_Get (fold (\<lambda>s r. Registry_Register r s) ss NewRegistry) name = find (\<lambda>s. sk_name s = name) (rev ss)"
  unfolding registry_get_after by (simp add: NewRegistry_def Registry_Get_def split: option.splits)

text \<open>
  A tool call runs the skill registered last under its name and no other: the result carries the
  id and name of the call and succeeds exactly when that skill does, with its output or its error;
  an unknown tool is an error and nothing runs.
\<close>

theorem execute_runs_registered_skill:
  "Execute clock (fold (\<lambda>s r. Registry_Register r s) ss NewRegistry) call w = ((res, err), w') \<Longrightarrow>
   tres_tool_call_id res = tc_id call \<and> tres_name res = tc_name call \<and>
   (tres_success res \<longleftrightarrow> err = None) \<and>
   (case find (\<lambda>s. sk_name s = tc_name call) (rev ss) of
      None \<Rightarrow> err = Some (errorf (''tool '' @ tc_name call @ '' not found'')) \<and> w' = w
    | Some s \<Rightarrow> w' = snd (sk_execute s (tc_arguments call) w) \<and>
        (case fst (sk_execute s (tc_arguments call) w) of
           Inl e \<Rightarrow> err = Some e \<and> tres_error res = err_msg e
         | Inr out \<Rightarrow> err = None \<and> tres_output res = out))"
  unfolding Execute_def registry_get_new
  by (auto simp: Let_def split_beta split: option.splits sum.splits)

theorem execute_runs_registered_skill_witness:
  "\<exists>res w'. Execute (\<lambda>w::nat. int w) (fold (\<lambda>s r. Registry_Register r s) [HttpGetSkill (\<lambda>_. [])] NewRegistry) sample_call 0 =
     ((res, Some (errorf ''tool rm not found'')), w') \<and> w' = 0 \<and> tres_tool_call_id res = ''c1''"
proof -
  obtain res err w' where x: "Execute (\<lambda>w::nat. int w) (fold (\<lambda>s r. Registry_Register r s) [HttpGetSkill (\<lambda>_. [])] NewRegistry)
      sample_call 0 = ((res, err), w')"
    by (metis prod.collapse)
  from execute_runs_registered_skill [OF x] show ?thesis
    unfolding x by (simp add: HttpGetSkill_def sample_call_def)
qed

definition unflagged_output :: string where
  "unflagged_output = json_print (JObj [(''call_skill'', JObj [(''id'', JStr ''c1''), (''name'', JStr ''rm'')])])"

definition rm_skill :: "nat skill" where
  "rm_skill = NewWasmSkill ''rm'' [] [] True [] (\<lambda>b a w. (Inr ''removed'', Suc w))"

definition executor_result :: "(tool_result \<times> go_error option) \<times> 'w \<Rightarrow> tool_result res \<times> 'w" where
  "executor_result x =
     (case x of ((res, err), w) \<Rightarrow> (case err of None \<Rightarrow> Inr res | Some e \<Rightarrow> Inl e, w))"

definition rm_runtime :: "nat runtime" where
  "rm_runtime = (NewRuntime (\<lambda>q w. (Inr unflagged_output, w))
     (\<lambda>c w. executor_result (Execute (\<lambda>w. 0) (Registry_Register NewRegistry rm_skill) c w))
     (Some (\<lambda>a w. (Inl (errorf ''nobody approved''), w))) (\<lambda>c w. (None, w)) (\<lambda>w. 0) (\<lambda>_. []))\<lparr>rn_max_turns := 1\<rparr>"

lemma unflagged_parse:
  "ParseModelOutput jerr unflagged_output =
     Inr (zero_action\<lparr>ae_call_skill := Some \<lparr>tc_id = ''c1'', tc_name = ''rm'', tc_arguments = [], tc_is_write_operation = False\<rparr>\<rparr>)"
proof -
  define call where "call = JObj [(''id'', JStr ''c1''), (''name'', JStr ''rm'')]"
  have ok: "json_ok max_nesting call" by (simp add: call_def max_nesting_def)
  have dec: "dec_struct False tool_call_fields (json_print call) zero_tool_call =
      Some \<lparr>tc_id = ''c1'', tc_name = ''rm'', tc_arguments = [], tc_is_write_operation = False\<rparr>"
    using ok unfolding call_def
    by (subst dec_struct_print) (simp_all add: dec_str_quote zero_tool_call_def)
  have "dec_ptr (dec_struct False tool_call_fields) zero_tool_call ae_call_skill
      (\<lambda>x. ae_call_skill_update (\<lambda>_. x)) (json_print call) zero_action =
    Some (zero_action\<lparr>ae_call_skill := Some \<lparr>tc_id = ''c1'', tc_name = ''rm'', tc_arguments = [], tc_is_write_operation = False\<rparr>\<rparr>)"
    using json_parse_print [OF ok] dec by (simp add: dec_ptr_def zero_action_def call_def)
  then show ?thesis
    unfolding unflagged_output_def call_def
    by (subst ParseModelOutput_print) (simp_all add: max_nesting_def)
qed

text \<open>
  The approval decision rests on the flag the model itself writes into its tool call, not on the
  registered skill: a skill registered as a write operation is executed without any approval when
  the model's output leaves the flag out.
\<close>

theorem approval_trusts_the_model_flag:
  "sk_is_write_operation rm_skill \<and>
   (\<forall>a d. Asked a d \<notin> set (rs_log (snd (Run rm_runtime zero_inference_request None 0)))) \<and>
   rs_world (snd (Run rm_runtime zero_inference_request None 0)) = 1"
proof -
  have turns: "nat (rn_max_turns rm_runtime) = Suc 0" by (simp add: rm_runtime_def)
  show ?thesis
    unfolding Run_def turns
    by (simp add: rm_runtime_def rm_skill_def run_turn_def call_predict_def NewRuntime_def unflagged_parse zero_action_def
        run_tool_def execute_tool_def call_execute_def log_event_def Let_def notify_def
        failWithTerminalEvent_def split_beta executor_result_def Execute_def Registry_Get_def Registry_Register_def
        NewRegistry_def NewWasmSkill_def)
qed

end
