(* ===== verification/Webhook_Auth.thy ===== *)
theory Webhook_Auth
  imports Go_Prelude "HOL-Library.Word"
begin

text \<open>
  Package \<^verbatim>\<open>internal/skill\<close>, webhook authentication (\<^verbatim>\<open>webhook_auth.go\<close>): the nonce store and signature
  verification. HMAC-SHA256 is an argument. Times are in nanoseconds, \<^verbatim>\<open>Unix()\<close> in seconds; the
  difference of the two 64-bit times is taken at its width.
\<close>

section \<open>Nonces\<close>

definition second :: int where "second = 1000000000"

definition nonceTTL :: int where "nonceTTL = 300 * second"

definition timeWindow :: int where "timeWindow = 300 * second"

definition sigPrefix :: string where "sigPrefix = ''sha256=''"

type_synonym nonce_store = "(string \<times> int) list"

definition NewInMemNonceStore :: nonce_store where
  "NewInMemNonceStore = []"

text \<open>Expired nonces are swept first; \<^verbatim>\<open>now.After(v)\<close> is strict.\<close>

definition sweep :: "int \<Rightarrow> nonce_store \<Rightarrow> nonce_store" where
  "sweep now s = filter (\<lambda>(k, v). \<not> v < now) s"

definition CheckAndSet :: "int \<Rightarrow> nonce_store \<Rightarrow> string \<Rightarrow> int \<Rightarrow> bool \<times> nonce_store" where
  "CheckAndSet now s nonce ttl =
     (let s = sweep now s in
      case map_of s nonce of
        Some _ \<Rightarrow> (False, s)
      | None \<Rightarrow> (True, AList.update nonce (now + ttl) s))"

section \<open>Signatures\<close>

definition sign_payload :: "int \<Rightarrow> string \<Rightarrow> string \<Rightarrow> string" where
  "sign_payload ts nonce body = format_int ts @ ''.'' @ nonce @ ''.'' @ body"

definition GenerateSignature :: "(string \<Rightarrow> string \<Rightarrow> string) \<Rightarrow> string \<Rightarrow> int \<Rightarrow> string \<Rightarrow> string \<Rightarrow> string" where
  "GenerateSignature hmac secret ts nonce body =
     sigPrefix @ hex_encode (hmac secret (sign_payload ts nonce body))"

record webhook_headers =
  wh_signature :: string
  wh_timestamp :: string
  wh_nonce :: string

definition unix :: "int \<Rightarrow> int" where
  "unix now = now div second"

definition window_secs :: int where
  "window_secs = timeWindow div second"

text \<open>\<^verbatim>\<open>now.Unix() - ts\<close> in 64-bit arithmetic.\<close>

definition time_diff :: "int \<Rightarrow> int \<Rightarrow> int" where
  "time_diff a b = sint (word_of_int a - word_of_int b :: 64 word)"

definition VerifyWebhookSignature :: "(string \<Rightarrow> string \<Rightarrow> string) \<Rightarrow> webhook_headers \<Rightarrow> string \<Rightarrow> string \<Rightarrow>
    nonce_store option \<Rightarrow> int \<Rightarrow> go_error option \<times> nonce_store option" where
  "VerifyWebhookSignature hmac headers body secret store now =
     (if wh_signature headers = [] \<or> wh_timestamp headers = [] \<or> wh_nonce headers = []
      then (Some (errorf ''missing security headers''), store)
      else case store of
        None \<Rightarrow> (Some (errorf ''nonce store required''), None)
      | Some s \<Rightarrow>
          (case parse_int64 (wh_timestamp headers) of
             None \<Rightarrow> (Some (errorf ''invalid timestamp''), store)
           | Some ts \<Rightarrow>
               let diff = time_diff (unix now) ts in
               if diff < - window_secs \<or> window_secs < diff
               then (Some (errorf ''timestamp out of window''), store)
               else if \<not> has_prefix (wh_signature headers) sigPrefix
               then (Some (errorf ''invalid signature prefix''), store)
               else (case hex_decode (trim_prefix (wh_signature headers) sigPrefix) of
                       None \<Rightarrow> (Some (errorf ''invalid signature digest''), store)
                     | Some received \<Rightarrow>
                         if received \<noteq> hmac secret (sign_payload ts (wh_nonce headers) body)
                         then (Some (errorf ''invalid signature''), store)
                         else let (ok, s') = CheckAndSet now s (wh_nonce headers) nonceTTL in
                              if ok then (None, Some s') else (Some (errorf ''replayed nonce''), Some s'))))"

section \<open>Lemmas\<close>

lemmas webhook_consts = second_def nonceTTL_def timeWindow_def window_secs_def unix_def

lemma time_diff_exact:
  assumes "0 \<le> a" "a < 2 ^ 62" "int64_min \<le> b" "b \<le> int64_max"
  shows "(- 300 \<le> time_diff a b \<and> time_diff a b \<le> 300) = (\<bar>a - b\<bar> \<le> 300)"
proof -
  have d: "time_diff a b = signed_take_bit 63 (a - b)"
  proof -
    have "word_of_int a - word_of_int b = (word_of_int (a - b) :: 64 word)" by simp
    then show ?thesis unfolding time_diff_def by (simp only: signed_of_int) simp
  qed
  show ?thesis
  proof (cases "a - b < 2 ^ 63")
    case True
    then have "signed_take_bit 63 (a - b) = a - b"
      using assms by (intro signed_take_bit_int_eq_self) (auto simp: int64_min_def int64_max_def)
    with d show ?thesis by auto
  next
    case False
    have "signed_take_bit 63 (a - b) = signed_take_bit 63 (a - b - 2 ^ 64)"
    proof -
      have "take_bit (Suc 63) (a - b - 2 ^ Suc 63) = take_bit (Suc 63) (a - b)"
        by (simp only: take_bit_eq_mod minus_mod_self2)
      then show ?thesis by (simp add: signed_take_bit_eq_iff_take_bit_eq)
    qed
    also have "\<dots> = a - b - 2 ^ 64"
      using assms False by (intro signed_take_bit_int_eq_self) (auto simp: int64_min_def int64_max_def)
    finally show ?thesis using assms d False by (simp add: int64_min_def)
  qed
qed

lemma map_of_sweep:
  "distinct (map fst s) \<Longrightarrow> map_of (sweep now s) k = (case map_of s k of None \<Rightarrow> None | Some v \<Rightarrow> if v < now then None else Some v)"
  by (induction s) (auto simp: sweep_def split: option.splits if_splits
      dest: map_of_SomeD intro: map_of_eq_None_iff [THEN iffD2] simp: image_iff)

lemma distinct_sweep: "distinct (map fst s) \<Longrightarrow> distinct (map fst (sweep now s))"
  by (induction s) (auto simp: sweep_def)

lemma unix_mono: "a \<le> b \<Longrightarrow> unix a \<le> unix b"
  by (simp add: unix_def second_def zdiv_mono1)

lemma unix_add: "a + 300 * second < b \<Longrightarrow> unix a + 300 \<le> unix b"
  by (simp add: unix_def second_def)

text \<open>What acceptance means: fresh, correctly signed, and not seen before.\<close>

lemma verify_accepts:
  assumes "VerifyWebhookSignature hmac h body secret (Some s) now = (None, s')"
  shows "\<exists>ts. parse_int64 (wh_timestamp h) = Some ts \<and> - 300 \<le> time_diff (unix now) ts \<and>
    time_diff (unix now) ts \<le> 300 \<and> map_of (sweep now s) (wh_nonce h) = None \<and>
    s' = Some (AList.update (wh_nonce h) (now + nonceTTL) (sweep now s)) \<and>
    hex_decode (trim_prefix (wh_signature h) sigPrefix) = Some (hmac secret (sign_payload ts (wh_nonce h) body))"
  using assms
  by (auto simp: VerifyWebhookSignature_def CheckAndSet_def Let_def window_secs_def timeWindow_def second_def
      split: if_splits option.splits prod.splits)

lemma verify_store:
  "snd (VerifyWebhookSignature hmac h body secret (Some s) now) \<in>
     {Some s, Some (sweep now s), Some (AList.update (wh_nonce h) (now + nonceTTL) (sweep now s))} \<and>
   (snd (VerifyWebhookSignature hmac h body secret (Some s) now) =
      Some (AList.update (wh_nonce h) (now + nonceTTL) (sweep now s)) \<longrightarrow>
    snd (VerifyWebhookSignature hmac h body secret (Some s) now) \<in> {Some s, Some (sweep now s)} \<or>
    map_of (sweep now s) (wh_nonce h) = None)"
  by (auto simp: VerifyWebhookSignature_def CheckAndSet_def Let_def split: if_splits option.splits prod.splits)

section \<open>Histories of requests\<close>

record webhook_call =
  wc_headers :: webhook_headers
  wc_body :: string
  wc_now :: int

definition verify_call where
  "verify_call hmac secret s c = VerifyWebhookSignature hmac (wc_headers c) (wc_body c) secret (Some s) (wc_now c)"

primrec store_after :: "(string \<Rightarrow> string \<Rightarrow> string) \<Rightarrow> string \<Rightarrow> webhook_call list \<Rightarrow> nonce_store \<Rightarrow> nonce_store" where
  "store_after hmac secret [] s = s"
| "store_after hmac secret (c # cs) s =
     store_after hmac secret cs (the (snd (verify_call hmac secret s c)))"

definition remembers :: "string \<Rightarrow> int \<Rightarrow> nonce_store \<Rightarrow> bool" where
  "remembers n e s = (distinct (map fst s) \<and> map_of s n = Some e)"

lemma store_distinct:
  "distinct (map fst s) \<Longrightarrow> distinct (map fst (the (snd (verify_call hmac secret s c))))"
  using verify_store [of hmac "wc_headers c" "wc_body c" secret s "wc_now c"]
  by (auto simp: verify_call_def distinct_sweep distinct_update)

lemma remembers_step:
  assumes "remembers n e s" "wc_now c \<le> e"
  shows "remembers n e (the (snd (verify_call hmac secret s c)))"
proof -
  have sw: "map_of (sweep (wc_now c) s) n = Some e"
    using assms by (simp add: remembers_def map_of_sweep)
  have "map_of (the (snd (verify_call hmac secret s c))) n = Some e"
    using verify_store [of hmac "wc_headers c" "wc_body c" secret s "wc_now c"] assms(1) sw
    by (auto simp: verify_call_def remembers_def update_conv)
  with assms(1) store_distinct [of s] show ?thesis by (simp add: remembers_def)
qed

lemma remembers_after:
  "remembers n e s \<Longrightarrow> list_all (\<lambda>c. wc_now c \<le> e) cs \<Longrightarrow> remembers n e (store_after hmac secret cs s)"
  by (induction cs arbitrary: s) (simp_all add: remembers_step)

lemma distinct_after: "distinct (map fst s) \<Longrightarrow> distinct (map fst (store_after hmac secret cs s))"
  by (induction cs arbitrary: s) (simp_all add: store_distinct)

lemma remembered_rejected:
  assumes "remembers (wh_nonce (wc_headers c)) e s" "wc_now c \<le> e"
  shows "fst (verify_call hmac secret s c) \<noteq> None"
proof
  assume "fst (verify_call hmac secret s c) = None"
  then obtain s' where "VerifyWebhookSignature hmac (wc_headers c) (wc_body c) secret (Some s) (wc_now c) = (None, s')"
    by (metis prod.collapse verify_call_def)
  from verify_accepts [OF this] assms show False by (auto simp: remembers_def map_of_sweep)
qed

lemma accepted_remembered:
  assumes "distinct (map fst s)" "fst (verify_call hmac secret s c) = None"
  shows "remembers (wh_nonce (wc_headers c)) (wc_now c + nonceTTL) (the (snd (verify_call hmac secret s c)))"
proof -
  obtain s' where "VerifyWebhookSignature hmac (wc_headers c) (wc_body c) secret (Some s) (wc_now c) = (None, s')"
    using assms(2) by (metis prod.collapse verify_call_def)
  from verify_accepts [OF this] this store_distinct [OF assms(1), of hmac secret c] show ?thesis
    by (auto simp: remembers_def verify_call_def update_conv
        simp del: map_of_eq_Some_iff Some_eq_map_of_iff)
qed

section \<open>Properties\<close>


definition xor_hmac :: "string \<Rightarrow> string \<Rightarrow> string" where
  "xor_hmac k m = take 2 m"

definition sample_headers :: "int \<Rightarrow> webhook_headers" where
  "sample_headers ts = \<lparr>wh_signature = GenerateSignature xor_hmac ''key'' ts ''n1'' ''{}'',
     wh_timestamp = format_int ts, wh_nonce = ''n1''\<rparr>"

definition sample_webhook :: "int \<Rightarrow> int \<Rightarrow> webhook_call" where
  "sample_webhook ts now = \<lparr>wc_headers = sample_headers ts, wc_body = ''{}'', wc_now = now\<rparr>"


text \<open>
  The nonce of a request is forgotten 300 seconds after acceptance, but a timestamp ahead of the
  server clock stays inside the window for longer: such a request can be replayed. Here the same
  signed request is accepted at second 1000 and again, unchanged, at second 1301.
\<close>

theorem future_request_can_be_replayed:
  "fst (verify_call xor_hmac ''key'' [] (sample_webhook 1300 (1000 * second))) = None \<and>
   fst (verify_call xor_hmac ''key'' (store_after xor_hmac ''key'' [sample_webhook 1300 (1000 * second)] [])
     (sample_webhook 1300 (1301 * second))) = None"
  by code_simp

lemma signed_verifies:
  assumes "nonce \<noteq> []" "0 \<le> unix now" "unix now < 2 ^ 62" "\<bar>unix now - ts\<bar> \<le> 300"
    and "int64_min \<le> ts" "ts \<le> int64_max" "map_of (sweep now s) nonce = None"
  shows "VerifyWebhookSignature hmac
      \<lparr>wh_signature = GenerateSignature hmac secret ts nonce body, wh_timestamp = format_int ts, wh_nonce = nonce\<rparr>
      body secret (Some s) now = (None, Some (AList.update nonce (now + nonceTTL) (sweep now s)))"
proof -
  have "format_int ts \<noteq> []"
    using format_nat_digits [of "nat ts"] by (simp add: format_int_def)
  moreover have "- window_secs \<le> time_diff (unix now) ts \<and> time_diff (unix now) ts \<le> window_secs"
    using time_diff_exact [of "unix now" ts] assms by (simp add: window_secs_def timeWindow_def second_def)
  moreover have "has_prefix (GenerateSignature hmac secret ts nonce body) sigPrefix"
    "trim_prefix (GenerateSignature hmac secret ts nonce body) sigPrefix = hex_encode (hmac secret (sign_payload ts nonce body))"
    "GenerateSignature hmac secret ts nonce body \<noteq> []"
    by (simp_all add: GenerateSignature_def trim_prefix_def sigPrefix_def has_prefix_def)
  ultimately show ?thesis
    using assms by (simp add: VerifyWebhookSignature_def parse_int64_format_int hex_decode_encode CheckAndSet_def Let_def not_less)
qed

text \<open>
  A request signed with \<^verbatim>\<open>GenerateSignature\<close> for the current second passes verification on a
  store that has not seen its nonce, whatever the HMAC, the body and the secret.
\<close>

theorem generated_signature_verifies:
  assumes "nonce \<noteq> []" "0 \<le> unix now" "unix now < 2 ^ 62" "\<bar>unix now - ts\<bar> \<le> 300"
    and "int64_min \<le> ts" "ts \<le> int64_max" "map_of (sweep now s) nonce = None"
  shows "VerifyWebhookSignature hmac
      \<lparr>wh_signature = GenerateSignature hmac secret ts nonce body, wh_timestamp = format_int ts, wh_nonce = nonce\<rparr>
      body secret (Some s) now = (None, Some (AList.update nonce (now + nonceTTL) (sweep now s)))"
  using assms by (rule signed_verifies)

theorem generated_signature_verifies_witness:
  "VerifyWebhookSignature xor_hmac
      \<lparr>wh_signature = GenerateSignature xor_hmac ''key'' 1000 ''n1'' ''{}'', wh_timestamp = format_int 1000, wh_nonce = ''n1''\<rparr>
      ''{}'' ''key'' (Some []) (1000 * second) = (None, Some [(''n1'', 1000 * second + nonceTTL)])"
  using generated_signature_verifies [of "''n1''" "1000 * second" 1000 "[]" xor_hmac "''key''" "''{}''"]
  by (simp add: unix_def second_def sweep_def int64_min_def int64_max_def)

end
