(* ===== verification/Approval_Gate.thy ===== *)
theory Approval_Gate
  imports Llm_Contracts
begin

text \<open>
  Package \<^verbatim>\<open>internal/skill\<close>, the approval gate (\<^verbatim>\<open>approval_gate.go\<close>). Decisions arrive on the
  \<^verbatim>\<open>approvals\<close> topic and are matched with the calls of \<^verbatim>\<open>WaitDecision\<close> that wait for them. The
  operations under the mutex are functions on the gate; the calls of \<^verbatim>\<open>WaitDecision\<close> and the consumer
  goroutine are a step relation that interleaves them at the points where the code releases the
  mutex. Each call owns one channel of capacity one, named by the number of the call.
\<close>

section \<open>Gate state and operations\<close>

record approval_waiter =
  aw_trace_id :: string
  aw_ch :: nat

record gate =
  ga_pending :: "(string \<times> approval_decision list) list"
  ga_waiters :: "(string \<times> approval_waiter list) list"
  ga_chans :: "(nat \<times> approval_decision) list"
  ga_start_err :: "go_error option"

text \<open>\<open>subscribed\<close> is the outcome of subscribing to the topic; no event bus is an error as well.\<close>

definition NewApprovalGate :: "go_error option option \<Rightarrow> gate" where
  "NewApprovalGate subscribed =
     \<lparr>ga_pending = [], ga_waiters = [], ga_chans = [],
      ga_start_err = (case subscribed of
         None \<Rightarrow> Some (errorf ''approval event bus is required'')
       | Some err \<Rightarrow> err)\<rparr>"

definition approvalKey :: "string \<Rightarrow> string \<Rightarrow> string" where
  "approvalKey taskID toolCallID = taskID @ '':'' @ toolCallID"

definition approvalTraceMatches :: "string \<Rightarrow> string \<Rightarrow> bool" where
  "approvalTraceMatches expected actual = (expected = [] \<or> actual = [] \<or> expected = actual)"

definition assoc_get :: "'k \<Rightarrow> ('k \<times> 'v list) list \<Rightarrow> 'v list" where
  "assoc_get k m = (case map_of m k of None \<Rightarrow> [] | Some vs \<Rightarrow> vs)"

text \<open>Storing an empty list deletes the key.\<close>

definition assoc_put :: "'k \<Rightarrow> 'v list \<Rightarrow> ('k \<times> 'v list) list \<Rightarrow> ('k \<times> 'v list) list" where
  "assoc_put k vs m = (if length vs = 0 then AList.delete k m else AList.update k vs m)"

fun take_loop :: "string \<Rightarrow> approval_decision list \<Rightarrow> approval_decision list \<Rightarrow> approval_decision option \<times> approval_decision list" where
  "take_loop traceID remaining [] = (None, remaining)"
| "take_loop traceID remaining (d # ds) =
     (if \<not> approvalTraceMatches traceID (ad_trace_id d) then take_loop traceID (remaining @ [d]) ds
      else (Some d, remaining))"

definition takePendingDecision :: "string \<Rightarrow> string \<Rightarrow> gate \<Rightarrow> approval_decision option \<times> gate" where
  "takePendingDecision key traceID g =
     (if length (assoc_get key (ga_pending g)) = 0 then (None, g)
      else let (found, remaining) = take_loop traceID [] (assoc_get key (ga_pending g)) in
           (found, g\<lparr>ga_pending := assoc_put key remaining (ga_pending g)\<rparr>))"

definition addWaiter :: "string \<Rightarrow> approval_waiter \<Rightarrow> gate \<Rightarrow> gate" where
  "addWaiter key w g = g\<lparr>ga_waiters := AList.update key (assoc_get key (ga_waiters g) @ [w]) (ga_waiters g)\<rparr>"

definition removeWaiter :: "string \<Rightarrow> nat \<Rightarrow> gate \<Rightarrow> gate" where
  "removeWaiter key ch g =
     (if length (assoc_get key (ga_waiters g)) = 0 then g
      else g\<lparr>ga_waiters := assoc_put key (filter (\<lambda>w. aw_ch w \<noteq> ch) (assoc_get key (ga_waiters g))) (ga_waiters g)\<rparr>)"

definition add_pending :: "string \<Rightarrow> approval_decision \<Rightarrow> gate \<Rightarrow> gate" where
  "add_pending key d g = g\<lparr>ga_pending := AList.update key (assoc_get key (ga_pending g) @ [d]) (ga_pending g)\<rparr>"

text \<open>The loop over the waiters: a matching waiter leaves the list and gets the decision if its
  channel has room.\<close>

fun deliver_loop :: "approval_decision \<Rightarrow> approval_waiter list \<Rightarrow> (nat \<times> approval_decision) list \<Rightarrow>
    approval_waiter list \<times> (nat \<times> approval_decision) list \<times> bool" where
  "deliver_loop d [] chans = ([], chans, False)"
| "deliver_loop d (w # ws) chans =
     (if \<not> approvalTraceMatches (aw_trace_id w) (ad_trace_id d) then
        let (remaining, chans', delivered) = deliver_loop d ws chans in (w # remaining, chans', delivered)
      else if map_of chans (aw_ch w) = None then
        let (remaining, chans', delivered) = deliver_loop d ws (AList.update (aw_ch w) d chans) in (remaining, chans', True)
      else deliver_loop d ws chans)"

definition routeDecision :: "approval_decision \<Rightarrow> gate \<Rightarrow> gate" where
  "routeDecision d g =
     (let key = approvalKey (ad_task_id d) (ad_tool_call_id d);
          waiters = assoc_get key (ga_waiters g) in
      if length waiters = 0 then add_pending key d g
      else let (remaining, chans, delivered) = deliver_loop d waiters (ga_chans g);
               g' = g\<lparr>ga_waiters := assoc_put key remaining (ga_waiters g), ga_chans := chans\<rparr> in
           if \<not> delivered then add_pending key d g' else g')"

definition decision_fields :: "(string \<times> approval_decision decoder) list" where
  "decision_fields =
     [(''trace_id'', dec_str (\<lambda>x. ad_trace_id_update (\<lambda>_. x))),
      (''task_id'', dec_str (\<lambda>x. ad_task_id_update (\<lambda>_. x))),
      (''tool_call_id'', dec_str (\<lambda>x. ad_tool_call_id_update (\<lambda>_. x))),
      (''approved'', dec_bool (\<lambda>x. ad_approved_update (\<lambda>_. x))),
      (''reviewer'', dec_str (\<lambda>x. ad_reviewer_update (\<lambda>_. x))),
      (''reason'', dec_str (\<lambda>x. ad_reason_update (\<lambda>_. x))),
      (''decided_at_ms'', dec_int64 (\<lambda>x. ad_decided_at_ms_update (\<lambda>_. x)))]"

definition zero_decision :: approval_decision where
  "zero_decision = \<lparr>ad_trace_id = [], ad_task_id = [], ad_tool_call_id = [], ad_approved = False,
     ad_reviewer = [], ad_reason = [], ad_decided_at_ms = 0\<rparr>"

text \<open>One message of the consumer loop: the decision it carries, if it is one.\<close>

definition consume_decision :: "string \<Rightarrow> approval_decision option" where
  "consume_decision payload =
     (case unmarshal (dec_struct False decision_fields) zero_decision payload of
        None \<Rightarrow> None
      | Some d \<Rightarrow> if ApprovalDecision_Validate d \<noteq> None then None else Some d)"

definition gate_consume :: "string \<Rightarrow> gate \<Rightarrow> gate" where
  "gate_consume payload g =
     (case consume_decision payload of None \<Rightarrow> g | Some d \<Rightarrow> routeDecision d g)"

definition PendingDecisionCount :: "gate \<Rightarrow> nat" where
  "PendingDecisionCount g = sum_list (map (\<lambda>(k, ds). length ds) (ga_pending g))"

section \<open>Concurrent calls of WaitDecision\<close>

type_synonym wait_result = "approval_decision \<times> go_error option"

text \<open>Where a call stands: before the first look at the pending decisions, before it registers, before
  the second look, in the \<^verbatim>\<open>select\<close>, leaving (the deferred \<^verbatim>\<open>removeWaiter\<close>), returned.\<close>

datatype wait_phase = WTake1 | WAdd | WTake2 | WSelect | WLeave wait_result | WDone wait_result

record wait_call =
  wt_req :: approval_request
  wt_phase :: wait_phase

record gate_system =
  gs_gate :: gate
  gs_calls :: "wait_call list"
  gs_routed :: "approval_decision list"

definition req_key :: "approval_request \<Rightarrow> string" where
  "req_key req = approvalKey (areq_task_id req) (areq_tool_call_id req)"

definition wait_start :: "gate \<Rightarrow> approval_request \<Rightarrow> wait_phase" where
  "wait_start g req =
     (case ApprovalRequest_Validate req of
        Some e \<Rightarrow> WDone (zero_decision, Some e)
      | None \<Rightarrow> (case ga_start_err g of Some e \<Rightarrow> WDone (zero_decision, Some e) | None \<Rightarrow> WTake1))"

definition timeout_decision :: "approval_request \<Rightarrow> int \<Rightarrow> approval_decision" where
  "timeout_decision req now =
     zero_decision\<lparr>ad_trace_id := areq_trace_id req, ad_task_id := areq_task_id req,
       ad_tool_call_id := areq_tool_call_id req, ad_approved := False, ad_reason := ''timeout'',
       ad_decided_at_ms := now\<rparr>"

definition set_phase :: "nat \<Rightarrow> wait_phase \<Rightarrow> gate_system \<Rightarrow> gate_system" where
  "set_phase i p s = s\<lparr>gs_calls := (gs_calls s)[i := (gs_calls s ! i)\<lparr>wt_phase := p\<rparr>]\<rparr>"

definition at_phase :: "gate_system \<Rightarrow> nat \<Rightarrow> wait_phase \<Rightarrow> bool" where
  "at_phase s i p = (i < length (gs_calls s) \<and> wt_phase (gs_calls s ! i) = p)"

definition call_req :: "gate_system \<Rightarrow> nat \<Rightarrow> approval_request" where
  "call_req s i = wt_req (gs_calls s ! i)"

inductive gate_step :: "gate_system \<Rightarrow> gate_system \<Rightarrow> bool" where
  call: "gate_step s (s\<lparr>gs_calls := gs_calls s @ [\<lparr>wt_req = req, wt_phase = wait_start (gs_gate s) req\<rparr>]\<rparr>)"
| take1: "at_phase s i WTake1 \<Longrightarrow>
     takePendingDecision (req_key (call_req s i)) (areq_trace_id (call_req s i)) (gs_gate s) = (found, g') \<Longrightarrow>
     gate_step s (set_phase i (case found of Some d \<Rightarrow> WDone (d, None) | None \<Rightarrow> WAdd) (s\<lparr>gs_gate := g'\<rparr>))"
| add: "at_phase s i WAdd \<Longrightarrow>
     gate_step s (set_phase i WTake2 (s\<lparr>gs_gate := addWaiter (req_key (call_req s i))
        \<lparr>aw_trace_id = areq_trace_id (call_req s i), aw_ch = i\<rparr> (gs_gate s)\<rparr>))"
| take2: "at_phase s i WTake2 \<Longrightarrow>
     takePendingDecision (req_key (call_req s i)) (areq_trace_id (call_req s i)) (gs_gate s) = (found, g') \<Longrightarrow>
     gate_step s (set_phase i (case found of Some d \<Rightarrow> WLeave (d, None) | None \<Rightarrow> WSelect) (s\<lparr>gs_gate := g'\<rparr>))"
| cancelled: "at_phase s i WSelect \<Longrightarrow> gate_step s (set_phase i (WLeave (zero_decision, Some err)) s)"
| timeout: "at_phase s i WSelect \<Longrightarrow>
     gate_step s (set_phase i (WLeave (timeout_decision (call_req s i) now, Some (errorf ''approval timeout''))) s)"
| received: "at_phase s i WSelect \<Longrightarrow> map_of (ga_chans (gs_gate s)) i = Some d \<Longrightarrow>
     gate_step s (set_phase i (WLeave (d, None))
       (s\<lparr>gs_gate := (gs_gate s)\<lparr>ga_chans := AList.delete i (ga_chans (gs_gate s))\<rparr>\<rparr>))"
| leave: "at_phase s i (WLeave r) \<Longrightarrow>
     gate_step s (set_phase i (WDone r) (s\<lparr>gs_gate := removeWaiter (req_key (call_req s i)) i (gs_gate s)\<rparr>))"
| route: "consume_decision payload = Some d \<Longrightarrow>
     gate_step s (s\<lparr>gs_routed := gs_routed s @ [d], gs_gate := gate_consume payload (gs_gate s)\<rparr>)"
| ignore: "consume_decision payload = None \<Longrightarrow> gate_step s (s\<lparr>gs_gate := gate_consume payload (gs_gate s)\<rparr>)"

definition gate_init :: "go_error option option \<Rightarrow> gate_system" where
  "gate_init subscribed = \<lparr>gs_gate = NewApprovalGate subscribed, gs_calls = [], gs_routed = []\<rparr>"

section \<open>The invariant\<close>

text \<open>A decision fits a call: it was received and valid, for the same key and a compatible trace.\<close>

definition dec_key :: "approval_decision \<Rightarrow> string" where
  "dec_key d = approvalKey (ad_task_id d) (ad_tool_call_id d)"

definition known :: "gate_system \<Rightarrow> approval_decision \<Rightarrow> bool" where
  "known s d = (d \<in> set (gs_routed s) \<and> ApprovalDecision_Validate d = None)"

definition fits :: "gate_system \<Rightarrow> nat \<Rightarrow> approval_decision \<Rightarrow> bool" where
  "fits s i d = (known s d \<and> i < length (gs_calls s) \<and> dec_key d = req_key (call_req s i) \<and>
     approvalTraceMatches (areq_trace_id (call_req s i)) (ad_trace_id d))"

definition pending_ok :: "gate_system \<Rightarrow> bool" where
  "pending_ok s = (\<forall>k. \<forall>d \<in> set (assoc_get k (ga_pending (gs_gate s))). dec_key d = k \<and> known s d)"

definition waiters_ok :: "gate_system \<Rightarrow> bool" where
  "waiters_ok s = (\<forall>k. \<forall>w \<in> set (assoc_get k (ga_waiters (gs_gate s))).
     aw_ch w < length (gs_calls s) \<and> k = req_key (call_req s (aw_ch w)) \<and>
     aw_trace_id w = areq_trace_id (call_req s (aw_ch w)))"

definition chans_ok :: "gate_system \<Rightarrow> bool" where
  "chans_ok s = (\<forall>i d. map_of (ga_chans (gs_gate s)) i = Some d \<longrightarrow> fits s i d)"

definition results_ok :: "gate_system \<Rightarrow> bool" where
  "results_ok s = (\<forall>i d. at_phase s i (WLeave (d, None)) \<or> at_phase s i (WDone (d, None)) \<longrightarrow> fits s i d)"

definition gate_inv :: "gate_system \<Rightarrow> bool" where
  "gate_inv s = (pending_ok s \<and> waiters_ok s \<and> chans_ok s \<and> results_ok s)"

section \<open>Operations\<close>

lemma assoc_get_update [simp]: "assoc_get k (AList.update k' vs m) = (if k = k' then vs else assoc_get k m)"
  by (auto simp: assoc_get_def update_conv)

lemma assoc_get_put [simp]: "assoc_get k (assoc_put k' vs m) = (if k = k' then vs else assoc_get k m)"
  by (auto simp: assoc_put_def assoc_get_def update_conv delete_conv)

lemma take_loop_spec:
  "take_loop t rem ds =
     (find (\<lambda>d. approvalTraceMatches t (ad_trace_id d)) ds,
      rem @ takeWhile (\<lambda>d. \<not> approvalTraceMatches t (ad_trace_id d)) ds)"
  by (induction ds arbitrary: rem) auto

lemma takePendingDecision_spec:
  "takePendingDecision key t g =
     (let ds = assoc_get key (ga_pending g) in
      (find (\<lambda>d. approvalTraceMatches t (ad_trace_id d)) ds,
       if ds = [] then g
       else g\<lparr>ga_pending := assoc_put key (takeWhile (\<lambda>d. \<not> approvalTraceMatches t (ad_trace_id d)) ds) (ga_pending g)\<rparr>))"
  by (simp add: takePendingDecision_def take_loop_spec Let_def)

lemma take_pending_parts:
  assumes "takePendingDecision key t g = (found, g')"
  shows "set (assoc_get k (ga_pending g')) \<subseteq> set (assoc_get k (ga_pending g))"
    and "ga_waiters g' = ga_waiters g" "ga_chans g' = ga_chans g"
    and "found = Some d \<Longrightarrow> d \<in> set (assoc_get key (ga_pending g)) \<and> approvalTraceMatches t (ad_trace_id d)"
  using assms
  by (auto simp: takePendingDecision_spec Let_def find_Some_iff dest: set_takeWhileD split: if_splits)

lemma deliver_loop_parts:
  "deliver_loop d ws chans = (rem, chans', del) \<Longrightarrow>
     set rem \<subseteq> set ws \<and>
     (\<forall>i e. map_of chans' i = Some e \<longrightarrow> map_of chans i = Some e \<or>
        e = d \<and> (\<exists>w \<in> set ws. aw_ch w = i \<and> approvalTraceMatches (aw_trace_id w) (ad_trace_id d)))"
proof (induction d ws chans arbitrary: rem chans' del rule: deliver_loop.induct)
  case (2 d w ws chans)
  consider (other) "\<not> approvalTraceMatches (aw_trace_id w) (ad_trace_id d)"
    | (room) "approvalTraceMatches (aw_trace_id w) (ad_trace_id d)" "map_of chans (aw_ch w) = None"
    | (full) "approvalTraceMatches (aw_trace_id w) (ad_trace_id d)" "map_of chans (aw_ch w) \<noteq> None"
    by blast
  then show ?case
  proof cases
    case other
    obtain r c b where l: "deliver_loop d ws chans = (r, c, b)" by (metis prod_cases3)
    with "2.prems" other "2.IH"(1) [OF other l] show ?thesis by auto
  next
    case room
    obtain r c b where l: "deliver_loop d ws (AList.update (aw_ch w) d chans) = (r, c, b)" by (metis prod_cases3)
    have "\<not> \<not> approvalTraceMatches (aw_trace_id w) (ad_trace_id d)" using room(1) by simp
    from "2.IH"(2) [OF this room(2) l] "2.prems" room l show ?thesis
      by (auto simp: update_conv split: if_splits)
  next
    case full
    have "\<not> \<not> approvalTraceMatches (aw_trace_id w) (ad_trace_id d)" using full(1) by simp
    from "2.IH"(3) [OF this full(2)] "2.prems" full show ?thesis by fastforce
  qed
qed simp

section \<open>Preservation\<close>

text \<open>Calls are only added and decisions only received: what fits keeps fitting.\<close>

definition extends :: "gate_system \<Rightarrow> gate_system \<Rightarrow> bool" where
  "extends s s' = (length (gs_calls s) \<le> length (gs_calls s') \<and>
     (\<forall>i < length (gs_calls s). call_req s' i = call_req s i) \<and> set (gs_routed s) \<subseteq> set (gs_routed s'))"

lemma fits_extends: "fits s i d \<Longrightarrow> extends s s' \<Longrightarrow> fits s' i d"
  by (auto simp: fits_def extends_def known_def)

lemma set_phase_simps [simp]:
  "gs_gate (set_phase i p s) = gs_gate s" "gs_routed (set_phase i p s) = gs_routed s"
  "length (gs_calls (set_phase i p s)) = length (gs_calls s)"
  "call_req (set_phase i p s) j = call_req s j"
  "known (set_phase i p s) = known s" "fits (set_phase i p s) = fits s"
proof -
  show *: "call_req (set_phase i p s) j = call_req s j" for j
    by (cases "i < length (gs_calls s)")
      (simp_all add: set_phase_def call_req_def nth_list_update list_update_beyond)
  show "gs_gate (set_phase i p s) = gs_gate s" "gs_routed (set_phase i p s) = gs_routed s"
    "length (gs_calls (set_phase i p s)) = length (gs_calls s)"
    by (simp_all add: set_phase_def)
  then show "known (set_phase i p s) = known s" "fits (set_phase i p s) = fits s"
    using * by (auto simp: fun_eq_iff known_def fits_def)
qed

lemma at_phase_set [simp]:
  "at_phase (set_phase i p s) j q = (if j = i then i < length (gs_calls s) \<and> p = q else at_phase s j q)"
  by (auto simp: at_phase_def set_phase_def nth_list_update)

lemma gate_inv_set_phase:
  assumes "gate_inv s" "\<And>d. p = WLeave (d, None) \<or> p = WDone (d, None) \<Longrightarrow> fits s i d"
  shows "gate_inv (set_phase i p s)"
  using assms by (auto simp: gate_inv_def pending_ok_def waiters_ok_def chans_ok_def results_ok_def)

lemma gate_inv_extends:
  assumes "gate_inv s" "extends s t" "gs_gate t = gs_gate s"
    and "\<And>i d. at_phase t i (WLeave (d, None)) \<or> at_phase t i (WDone (d, None)) \<Longrightarrow>
      at_phase s i (WLeave (d, None)) \<or> at_phase s i (WDone (d, None))"
  shows "gate_inv t"
proof -
  have f: "fits s i d \<Longrightarrow> fits t i d" for i d using fits_extends [OF _ assms(2)] .
  have "pending_ok t" using assms(1-3) by (auto simp: gate_inv_def pending_ok_def known_def extends_def)
  moreover have "waiters_ok t" using assms(1-3) by (fastforce simp: gate_inv_def waiters_ok_def extends_def)
  moreover have "chans_ok t" using assms(1,3) f by (auto simp: gate_inv_def chans_ok_def)
  moreover have "results_ok t" using assms(1,4) f unfolding gate_inv_def results_ok_def by blast
  ultimately show ?thesis by (simp add: gate_inv_def)
qed

lemma gate_update_simps [simp]:
  "call_req (s\<lparr>gs_gate := g\<rparr>) = call_req s" "known (s\<lparr>gs_gate := g\<rparr>) = known s"
  "fits (s\<lparr>gs_gate := g\<rparr>) = fits s" "at_phase (s\<lparr>gs_gate := g\<rparr>) = at_phase s"
  by (auto simp: fun_eq_iff call_req_def known_def fits_def at_phase_def)

lemma gate_inv_take:
  assumes "gate_inv s" "takePendingDecision key t (gs_gate s) = (found, g')"
  shows "gate_inv (s\<lparr>gs_gate := g'\<rparr>)"
proof -
  note parts = take_pending_parts [OF assms(2)]
  have "pending_ok (s\<lparr>gs_gate := g'\<rparr>)"
    using assms(1) parts(1) unfolding gate_inv_def pending_ok_def by fastforce
  with assms(1) parts(2,3) show ?thesis
    by (simp add: gate_inv_def waiters_ok_def chans_ok_def results_ok_def)
qed

lemma take_fits:
  assumes "gate_inv s" "i < length (gs_calls s)"
    and "takePendingDecision (req_key (call_req s i)) (areq_trace_id (call_req s i)) (gs_gate s) = (Some d, g')"
  shows "fits s i d"
  using take_pending_parts(4) [OF assms(3) refl] assms(1,2)
  by (auto simp: fits_def gate_inv_def pending_ok_def)

lemma gate_inv_route:
  assumes "gate_inv s" "known s d"
  shows "gate_inv (s\<lparr>gs_gate := routeDecision d (gs_gate s)\<rparr>)"
proof -
  define key where "key = dec_key d"
  define ws where "ws = assoc_get key (ga_waiters (gs_gate s))"
  obtain rem chans del where l: "deliver_loop d ws (ga_chans (gs_gate s)) = (rem, chans, del)"
    by (metis prod_cases3)
  define g' where "g' = (gs_gate s)\<lparr>ga_waiters := assoc_put key rem (ga_waiters (gs_gate s)), ga_chans := chans\<rparr>"
  have eq: "routeDecision d (gs_gate s) =
    (if ws = [] then add_pending key d (gs_gate s) else if \<not> del then add_pending key d g' else g')"
    using l by (simp add: routeDecision_def key_def dec_key_def ws_def g'_def Let_def)
  have add: "gate_inv (s\<lparr>gs_gate := add_pending key d g\<rparr>)" if "gate_inv (s\<lparr>gs_gate := g\<rparr>)" for g
    using that assms(2)
    by (auto simp: gate_inv_def pending_ok_def waiters_ok_def chans_ok_def results_ok_def add_pending_def key_def)
  have "gate_inv (s\<lparr>gs_gate := g'\<rparr>)"
  proof -
    note parts = deliver_loop_parts [OF l]
    have w: "waiters_ok (s\<lparr>gs_gate := g'\<rparr>)"
      using assms(1) parts by (fastforce simp: gate_inv_def waiters_ok_def g'_def ws_def)
    have c: "chans_ok (s\<lparr>gs_gate := g'\<rparr>)"
      using assms parts unfolding gate_inv_def waiters_ok_def chans_ok_def g'_def ws_def
      by (fastforce simp: fits_def key_def)
    from assms(1) w c show ?thesis
      by (simp add: gate_inv_def pending_ok_def results_ok_def g'_def)
  qed
  moreover have "gate_inv (s\<lparr>gs_gate := gs_gate s\<rparr>)" using assms(1) by simp
  ultimately show ?thesis using add eq by (cases "ws = []"; cases del) simp_all
qed

lemma wait_start_no_result: "wait_start g req \<noteq> WLeave (d, None)" "wait_start g req \<noteq> WDone (d, None)"
  by (auto simp: wait_start_def split: option.splits)

lemma gate_inv_step: "gate_step s t \<Longrightarrow> gate_inv s \<Longrightarrow> gate_inv t"
proof (induction rule: gate_step.induct)
  case (call s req)
  let ?t = "s\<lparr>gs_calls := gs_calls s @ [\<lparr>wt_req = req, wt_phase = wait_start (gs_gate s) req\<rparr>]\<rparr>"
  have e: "extends s ?t" by (auto simp: extends_def call_req_def nth_append)
  show ?case
  proof (rule gate_inv_extends [OF call e])
    fix i d
    assume "at_phase ?t i (WLeave (d, None)) \<or> at_phase ?t i (WDone (d, None))"
    then show "at_phase s i (WLeave (d, None)) \<or> at_phase s i (WDone (d, None))"
      by (auto simp: at_phase_def nth_append less_Suc_eq wait_start_no_result split: if_splits)
  qed simp
next
  case (take1 s i found g')
  then show ?case
    by (intro gate_inv_set_phase gate_inv_take)
      (auto simp: at_phase_def split: option.splits intro: take_fits)
next
  case (add s i)
  then show ?case
    by (intro gate_inv_set_phase)
      (auto simp: gate_inv_def pending_ok_def waiters_ok_def chans_ok_def results_ok_def addWaiter_def at_phase_def [of s i])
next
  case (take2 s i found g')
  then show ?case
    by (intro gate_inv_set_phase gate_inv_take)
      (auto simp: at_phase_def split: option.splits intro: take_fits)
next
  case (cancelled s i err)
  then show ?case by (intro gate_inv_set_phase) auto
next
  case (timeout s i now)
  then show ?case by (intro gate_inv_set_phase) auto
next
  case (received s i d)
  then have "fits s i d" by (auto simp: gate_inv_def chans_ok_def)
  with received show ?case
    by (intro gate_inv_set_phase)
      (auto simp: gate_inv_def pending_ok_def waiters_ok_def chans_ok_def results_ok_def delete_conv split: if_splits)
next
  case (leave s i r)
  then have "\<And>d. r = (d, None) \<Longrightarrow> fits s i d" by (auto simp: gate_inv_def results_ok_def)
  with leave show ?case
    by (intro gate_inv_set_phase)
      (auto simp: gate_inv_def pending_ok_def waiters_ok_def chans_ok_def results_ok_def removeWaiter_def split: if_splits)
next
  case (route payload d s)
  let ?u = "s\<lparr>gs_routed := gs_routed s @ [d]\<rparr>"
  have "extends s ?u" by (auto simp: extends_def call_req_def)
  then have "gate_inv ?u" by (rule gate_inv_extends [OF route.prems]) (auto simp: at_phase_def)
  moreover have "known ?u d"
    using route.hyps by (auto simp: known_def consume_decision_def split: option.splits if_splits)
  ultimately have "gate_inv (?u\<lparr>gs_gate := routeDecision d (gs_gate ?u)\<rparr>)" by (rule gate_inv_route)
  with route.hyps show ?case by (simp add: gate_consume_def)
next
  case (ignore payload s)
  then show ?case by (simp add: gate_consume_def)
qed

lemma gate_inv_reachable: "gate_step\<^sup>*\<^sup>* (gate_init sub) s \<Longrightarrow> gate_inv s"
proof (induction rule: rtranclp_induct)
  case base
  show ?case
    by (auto simp: gate_init_def gate_inv_def pending_ok_def waiters_ok_def chans_ok_def results_ok_def
        NewApprovalGate_def assoc_get_def at_phase_def)
next
  case (step y z)
  then show ?case by (blast intro: gate_inv_step)
qed

section \<open>Properties\<close>

text \<open>
  C26. A decision returned by \<^verbatim>\<open>WaitDecision\<close> was made for this call: under every interleaving of
  concurrent calls, arriving decisions, timeouts and cancellations, a call that returns without an
  error returns a valid decision that was received on the topic, under the key of the request and
  with a compatible trace; if the ids contain no colon it names exactly this task and tool call.
\<close>

theorem wait_decision_returns_matching_decision:
  assumes "gate_step\<^sup>*\<^sup>* (gate_init sub) s" "at_phase s i (WDone (d, None))"
  shows "d \<in> set (gs_routed s) \<and> ApprovalDecision_Validate d = None \<and>
    approvalKey (ad_task_id d) (ad_tool_call_id d) =
      approvalKey (areq_task_id (call_req s i)) (areq_tool_call_id (call_req s i)) \<and>
    approvalTraceMatches (areq_trace_id (call_req s i)) (ad_trace_id d) \<and>
    (CHR '':'' \<notin> set (ad_task_id d) \<and> CHR '':'' \<notin> set (areq_task_id (call_req s i)) \<longrightarrow>
       ad_task_id d = areq_task_id (call_req s i) \<and> ad_tool_call_id d = areq_tool_call_id (call_req s i))"
proof -
  have "fits s i d"
    using gate_inv_reachable [OF assms(1)] assms(2) by (auto simp: gate_inv_def results_ok_def)
  then have f: "d \<in> set (gs_routed s)" "ApprovalDecision_Validate d = None"
    "approvalKey (ad_task_id d) (ad_tool_call_id d) =
      approvalKey (areq_task_id (call_req s i)) (areq_tool_call_id (call_req s i))"
    "approvalTraceMatches (areq_trace_id (call_req s i)) (ad_trace_id d)"
    by (auto simp: fits_def known_def dec_key_def req_key_def)
  have split: "takeWhile ((\<noteq>) c) (x @ c # y) = x \<and> dropWhile ((\<noteq>) c) (x @ c # y) = c # y" if "c \<notin> set x"
    for c :: char and x y using that by (induction x) auto
  have "ad_task_id d = areq_task_id (call_req s i) \<and> ad_tool_call_id d = areq_tool_call_id (call_req s i)"
    if "CHR '':'' \<notin> set (ad_task_id d)" "CHR '':'' \<notin> set (areq_task_id (call_req s i))"
    using f(3) split [OF that(1)] split [OF that(2)] unfolding approvalKey_def
    by (metis append_Cons append_Nil list.inject)
  with f show ?thesis by blast
qed

definition sample_areq :: approval_request where
  "sample_areq = \<lparr>areq_trace_id = ''tr'', areq_task_id = ''t'', areq_tool_call_id = ''c'', areq_tool_name = ''rm'',
     areq_arguments = [], areq_requested_at_ms = 1\<rparr>"

definition sample_adec :: approval_decision where
  "sample_adec = \<lparr>ad_trace_id = ''tr'', ad_task_id = ''t'', ad_tool_call_id = ''c'', ad_approved = True,
     ad_reviewer = ''bob'', ad_reason = ''fine'', ad_decided_at_ms = 9\<rparr>"

definition sample_adec_json :: "(string \<times> json) list" where
  "sample_adec_json = [(''trace_id'', JStr ''tr''), (''task_id'', JStr ''t''), (''tool_call_id'', JStr ''c''),
     (''approved'', JBool True), (''reviewer'', JStr ''bob''), (''reason'', JStr ''fine''),
     (''decided_at_ms'', JNum (format_int 9))]"

lemma find_decision_field [simp]:
  "find_field decision_fields ''trace_id'' = Some (dec_str (\<lambda>x. ad_trace_id_update (\<lambda>_. x)))"
  "find_field decision_fields ''task_id'' = Some (dec_str (\<lambda>x. ad_task_id_update (\<lambda>_. x)))"
  "find_field decision_fields ''tool_call_id'' = Some (dec_str (\<lambda>x. ad_tool_call_id_update (\<lambda>_. x)))"
  "find_field decision_fields ''approved'' = Some (dec_bool (\<lambda>x. ad_approved_update (\<lambda>_. x)))"
  "find_field decision_fields ''reviewer'' = Some (dec_str (\<lambda>x. ad_reviewer_update (\<lambda>_. x)))"
  "find_field decision_fields ''reason'' = Some (dec_str (\<lambda>x. ad_reason_update (\<lambda>_. x)))"
  "find_field decision_fields ''decided_at_ms'' = Some (dec_int64 (\<lambda>x. ad_decided_at_ms_update (\<lambda>_. x)))"
  by (simp_all add: find_field_def decision_fields_def has_prefix_def upper_char_def Let_def)

definition sample_payload :: string where
  "sample_payload = json_print (JObj sample_adec_json)"

lemma sample_consumed: "consume_decision sample_payload = Some sample_adec"
proof -
  have ok: "json_ok max_nesting (JObj sample_adec_json)"
    by (simp add: sample_adec_json_def max_nesting_def num_ok_format_int)
  have b: "json_parse ''true'' = Some (JBool True)" using json_parse_print [of "JBool True"] by simp
  have "dec_struct False decision_fields (json_print (JObj sample_adec_json)) zero_decision = Some sample_adec"
    using ok by (subst dec_struct_print)
      (simp_all add: sample_adec_json_def dec_str_quote dec_bool_def b dec_int64_format int64_min_def int64_max_def
        zero_decision_def sample_adec_def)
  with json_valid_print [OF ok] show ?thesis
    unfolding sample_payload_def
    by (simp add: consume_decision_def unmarshal_def ApprovalDecision_Validate_def sample_adec_def)
qed

lemma sample_gate_run:
  "\<exists>s. gate_step\<^sup>*\<^sup>* (gate_init (Some None)) s \<and> at_phase s 0 (WDone (sample_adec, None))"
proof -
  let ?s0 = "gate_init (Some None)"
  let ?s1 = "?s0\<lparr>gs_routed := gs_routed ?s0 @ [sample_adec],
    gs_gate := gate_consume sample_payload (gs_gate ?s0)\<rparr>"
  let ?s2 = "?s1\<lparr>gs_calls := gs_calls ?s1 @ [\<lparr>wt_req = sample_areq, wt_phase = wait_start (gs_gate ?s1) sample_areq\<rparr>]\<rparr>"
  have g: "gs_gate ?s2 = NewApprovalGate (Some None)\<lparr>ga_pending := [(''t:c'', [sample_adec])]\<rparr>"
    by (simp add: gate_consume_def sample_consumed gate_init_def routeDecision_def NewApprovalGate_def assoc_get_def
        add_pending_def Let_def approvalKey_def sample_adec_def)
  have c: "call_req ?s2 0 = sample_areq" "at_phase ?s2 0 WTake1"
    by (simp_all add: call_req_def at_phase_def gate_init_def wait_start_def ApprovalRequest_Validate_def sample_areq_def
        gate_consume_def sample_consumed routeDecision_def NewApprovalGate_def assoc_get_def add_pending_def Let_def)
  obtain g' where take: "takePendingDecision (req_key (call_req ?s2 0)) (areq_trace_id (call_req ?s2 0)) (gs_gate ?s2) =
      (Some sample_adec, g')"
    unfolding g c(1)
    by (simp add: takePendingDecision_spec Let_def req_key_def approvalKey_def sample_areq_def assoc_get_def
        approvalTraceMatches_def sample_adec_def)
  have "gate_step ?s0 ?s1" using sample_consumed by (rule gate_step.route)
  moreover have "gate_step ?s1 ?s2" by (rule gate_step.call)
  moreover have "gate_step ?s2 (set_phase 0 (WDone (sample_adec, None)) (?s2\<lparr>gs_gate := g'\<rparr>))"
    using gate_step.take1 [OF c(2) take] by simp
  ultimately have "gate_step\<^sup>*\<^sup>* ?s0 (set_phase 0 (WDone (sample_adec, None)) (?s2\<lparr>gs_gate := g'\<rparr>))"
    by (meson converse_rtranclp_into_rtranclp rtranclp.rtrancl_refl)
  moreover have "at_phase (set_phase 0 (WDone (sample_adec, None)) (?s2\<lparr>gs_gate := g'\<rparr>)) 0 (WDone (sample_adec, None))"
    by simp
  ultimately show ?thesis by blast
qed

theorem wait_decision_returns_matching_decision_witness:
  "\<exists>s. gate_step\<^sup>*\<^sup>* (gate_init (Some None)) s \<and> at_phase s 0 (WDone (sample_adec, None)) \<and>
     sample_adec \<in> set (gs_routed s)"
  using sample_gate_run wait_decision_returns_matching_decision by blast

text \<open>
  C27. What \<^verbatim>\<open>takePendingDecision\<close> does to the pending decisions of a call: it returns the first one
  whose trace is compatible and keeps exactly those before it. Decisions after the one it returns
  are dropped, also those for other traces.
\<close>

theorem take_pending_drops_later_decisions:
  assumes "assoc_get key (ga_pending g) = before @ d # after"
    and "list_all (\<lambda>e. \<not> approvalTraceMatches t (ad_trace_id e)) before" "approvalTraceMatches t (ad_trace_id d)"
  shows "fst (takePendingDecision key t g) = Some d \<and>
    assoc_get key (ga_pending (snd (takePendingDecision key t g))) = before"
proof -
  have "find (\<lambda>e. approvalTraceMatches t (ad_trace_id e)) (before @ d # after) = Some d"
    using assms(2,3) by (induction before) auto
  moreover have "takeWhile (\<lambda>e. \<not> approvalTraceMatches t (ad_trace_id e)) (before @ d # after) = before"
    using assms(2,3) by (induction before) auto
  ultimately show ?thesis using assms(1) by (simp add: takePendingDecision_spec)
qed

theorem take_pending_drops_later_decisions_witness:
  "let g = NewApprovalGate (Some None)\<lparr>ga_pending := [(''t:c'', [sample_adec, sample_adec\<lparr>ad_trace_id := ''other''\<rparr>])]\<rparr> in
   assoc_get ''t:c'' (ga_pending (snd (takePendingDecision ''t:c'' ''tr'' g))) = []"
  using take_pending_drops_later_decisions [of "''t:c''"
      "NewApprovalGate (Some None)\<lparr>ga_pending := [(''t:c'', [sample_adec, sample_adec\<lparr>ad_trace_id := ''other''\<rparr>])]\<rparr>"
      "[]" sample_adec "[sample_adec\<lparr>ad_trace_id := ''other''\<rparr>]" "''tr''"]
  by (simp add: assoc_get_def approvalTraceMatches_def sample_adec_def)

end
