(* ===== verification/Process.thy ===== *)
theory Process
  imports Bus Llm_Contracts Task_Memory "HOL-Library.List_Lexorder" "HOL-Library.Char_ord"
begin

text \<open>
  Package \<^verbatim>\<open>internal/process\<close>: the audit trail (\<^verbatim>\<open>audit.go\<close>), redaction (\<^verbatim>\<open>audit_redactor.go\<close>), the agent
  registry (\<^verbatim>\<open>registry.go\<close>) and the process manager (\<^verbatim>\<open>exec_manager.go\<close>). The event bus and the
  operating system are arguments; the structured log lines are not modelled.
\<close>

section \<open>Redaction\<close>

definition redactedValue :: string where "redactedValue = ''[REDACTED]''"

definition sensitiveFragments :: "string list" where
  "sensitiveFragments = [''apikey'', ''token'', ''secret'', ''password'', ''authorization'', ''credential'']"

definition isSensitiveKey :: "string \<Rightarrow> bool" where
  "isSensitiveKey key =
     (let normalized = filter (\<lambda>c. c \<notin> {CHR ''_'', CHR ''-'', CHR '' ''}) (to_lower key) in
      list_ex (contains normalized) sensitiveFragments)"

fun redactValue :: "json \<Rightarrow> json" where
  "redactValue (JObj ms) =
     JObj (map (\<lambda>(k, v). (k, if isSensitiveKey k then JStr redactedValue else redactValue v)) ms)"
| "redactValue (JArr vs) = JArr (map redactValue vs)"
| "redactValue v = v"

text \<open>
  Decoding into \<^verbatim>\<open>interface{}\<close>: of repeated keys the last one stays, numbers become \<^verbatim>\<open>float64\<close>
  (\<open>fmt64\<close> renders the rounding of a literal, \<open>None\<close> if it is out of range, which is a decoding error).
  Encoding a map writes its keys in byte order.
\<close>

fun all_opt :: "('a \<times> 'b option) list \<Rightarrow> ('a \<times> 'b) list option" where
  "all_opt [] = Some []"
| "all_opt ((k, x) # xs) =
     (case (x, all_opt xs) of (Some v, Some vs) \<Rightarrow> Some ((k, v) # vs) | _ \<Rightarrow> None)"

definition last_wins :: "(string \<times> json) list \<Rightarrow> (string \<times> json) list" where
  "last_wins ms = map (\<lambda>k. (k, the (map_of (rev ms) k))) (sorted_list_of_set (fst ` set ms))"

fun to_interface :: "(string \<Rightarrow> string option) \<Rightarrow> json \<Rightarrow> json option" where
  "to_interface fmt64 (JNum n) = map_option JNum (fmt64 n)"
| "to_interface fmt64 (JArr vs) =
     map_option (\<lambda>xs. JArr (map snd xs)) (all_opt (map (\<lambda>v. ((), to_interface fmt64 v)) vs))"
| "to_interface fmt64 (JObj ms) =
     map_option (\<lambda>xs. JObj (last_wins xs)) (all_opt (map (\<lambda>(k, v). (k, to_interface fmt64 v)) ms))"
| "to_interface fmt64 v = Some v"

definition redactJSON :: "(string \<Rightarrow> string option) \<Rightarrow> string \<Rightarrow> string" where
  "redactJSON fmt64 raw =
     (if length raw = 0 then raw
      else case json_parse raw of
        None \<Rightarrow> raw
      | Some v \<Rightarrow>
          (case to_interface fmt64 v of
             None \<Rightarrow> raw
           | Some x \<Rightarrow> json_print (redactValue x)))"

definition legacyStatus :: "string \<Rightarrow> string" where
  "legacyStatus level =
     (if to_upper level = ''ERROR'' then ''error''
      else if to_upper level \<in> {''WARN'', ''WARNING''} then ''warning''
      else ''ok'')"

section \<open>Audit events\<close>

datatype slog_level = LevelDebug | LevelInfo | LevelWarn | LevelError

definition levelFromString :: "string \<Rightarrow> slog_level" where
  "levelFromString level =
     (if level = ''DEBUG'' then LevelDebug
      else if level \<in> {''WARN'', ''WARNING''} then LevelWarn
      else if level = ''ERROR'' then LevelError
      else LevelInfo)"

definition auditKey :: "string \<Rightarrow> string" where
  "auditKey taskID = (if taskID = [] then ''global'' else taskID)"

definition decodeJSONValue :: "(string \<Rightarrow> string option) \<Rightarrow> string \<Rightarrow> json option" where
  "decodeJSONValue fmt64 raw =
     (if length raw = 0 then None
      else case json_parse raw of None \<Rightarrow> None | Some v \<Rightarrow> to_interface fmt64 v)"

definition marshal_audit_event :: "audit_event \<Rightarrow> string option" where
  "marshal_audit_event e =
     (let opt = (\<lambda>k v. if v = [] then [] else [(k, quote v)]) in
      map_option (\<lambda>data. obj_text
        (opt ''trace_id'' (au_trace_id e) @ opt ''session_id'' (au_session_id e) @
         [(''task_id'', quote (au_task_id e))] @ opt ''parent_task_id'' (au_parent_task_id e) @
         opt ''tool_call_id'' (au_tool_call_id e) @ [(''event'', quote (au_event e)), (''actor'', quote (au_actor e))] @
         opt ''level'' (au_level e) @ opt ''status'' (au_status e) @ opt ''error'' (au_error e) @ data @
         [(''timestamp_ms'', format_int (au_timestamp_ms e))]))
       (if au_data e = [] then Some [] else map_option (\<lambda>d. [(''data'', d)]) (marshal_raw (au_data e))))"

definition zero_audit_event :: audit_event where
  "zero_audit_event =
     \<lparr>au_trace_id = [], au_session_id = [], au_task_id = [], au_parent_task_id = [], au_tool_call_id = [],
      au_event = [], au_actor = [], au_level = [], au_status = [], au_error = [], au_data = [], au_timestamp_ms = 0\<rparr>"

definition fill_defaults :: "string \<Rightarrow> int \<Rightarrow> audit_event \<Rightarrow> audit_event" where
  "fill_defaults senderID now e =
     (let e = (if au_actor e = [] then e\<lparr>au_actor := senderID\<rparr> else e);
          e = (if au_level e = [] then e\<lparr>au_level := ''INFO''\<rparr> else e) in
      if au_timestamp_ms e = 0 then e\<lparr>au_timestamp_ms := now\<rparr> else e)"

definition audit_topic :: "audit_event \<Rightarrow> string" where
  "audit_topic e = (if au_task_id e \<noteq> [] then ''audit.'' @ au_task_id e else ''audit'')"

definition audit_message :: "string \<Rightarrow> audit_event \<Rightarrow> string \<Rightarrow> message" where
  "audit_message senderID e payload =
     zero_message\<lparr>msg_message_id := ''audit.'' @ auditKey (au_task_id e) @ ''.'' @ au_event e @ ''.'' @ format_int (au_timestamp_ms e),
       msg_sender_id := senderID, msg_receiver_id := ''audit'', msg_payload := payload,
       msg_timestamp := au_timestamp_ms e\<rparr>"

text \<open>\<open>publish\<close> is \<open>None\<close> for an auditor without an event bus.\<close>

definition Record :: "(string \<Rightarrow> string) \<Rightarrow> (string \<Rightarrow> message \<Rightarrow> 'w \<Rightarrow> go_error option \<times> 'w) option \<Rightarrow> string \<Rightarrow> int \<Rightarrow>
    audit_event \<Rightarrow> 'w \<Rightarrow> go_error option \<times> 'w" where
  "Record jerr publish senderID now e w =
     (let e = fill_defaults senderID now e in
      case marshal_audit_event e of
        None \<Rightarrow> (Some (errorf (jerr (au_data e))), w)
      | Some payload \<Rightarrow>
          (case publish of
             None \<Rightarrow> (None, w)
           | Some pub \<Rightarrow>
               (case pub (audit_topic e) (audit_message senderID e payload) w of
                  (Some err, w') \<Rightarrow> (Some err, w')
                | (None, w') \<Rightarrow> (None, w'))))"

section \<open>The agent registry\<close>

type_synonym agent_registry = "(string \<times> agent_profile) list"

definition AgentRegistry_Register :: "agent_registry \<Rightarrow> agent_profile \<Rightarrow> agent_registry" where
  "AgentRegistry_Register r profile = AList.update (ap_name profile) profile r"

definition registerDefaults :: "agent_registry \<Rightarrow> agent_registry" where
  "registerDefaults r = fold (\<lambda>p r. AgentRegistry_Register r p)
     [\<lparr>ap_name = ''orchestrator'',
       ap_description = ''The team lead that manages workflows and delegates tasks.'',
       ap_role_prompt = ''You are the Orchestrator. Your job is to break down complex tasks and delegate them to specialized agents using @agent_name.''\<rparr>,
      \<lparr>ap_name = ''researcher'',
       ap_description = ''Specializes in searching information and gathering data.'',
       ap_role_prompt = ''You are a Researcher. Your goal is to find accurate and up-to-date information on the given topic.''\<rparr>,
      \<lparr>ap_name = ''coder'',
       ap_description = ''Expert in writing and debugging Go, Python, and other languages.'',
       ap_role_prompt = ''You are an Expert Coder. You write clean, efficient, and well-documented code.''\<rparr>] r"

definition NewAgentRegistry :: agent_registry where
  "NewAgentRegistry = registerDefaults []"

definition GetProfile :: "agent_registry \<Rightarrow> string \<Rightarrow> agent_profile res" where
  "GetProfile r name =
     (case map_of r name of
        None \<Rightarrow> Inl (errorf (''agent not found: '' @ name))
      | Some profile \<Rightarrow> Inr profile)"

definition ListAgents :: "agent_registry \<Rightarrow> agent_profile list" where
  "ListAgents r = map snd r"

section \<open>The process manager\<close>

record exec_manager =
  em_binary_path :: string
  em_tracked :: "int list"

text \<open>\<open>start\<close> and \<open>kill\<close> are \<^verbatim>\<open>cmd.Start\<close> (with the pid it yields) and \<^verbatim>\<open>FindProcess\<close> with \<^verbatim>\<open>Kill\<close>.\<close>

definition SpawnAgent :: "(string \<Rightarrow> string list \<Rightarrow> 'w \<Rightarrow> int res \<times> 'w) \<Rightarrow> string \<Rightarrow> string \<Rightarrow> exec_manager \<Rightarrow> 'w \<Rightarrow>
    int res \<times> exec_manager \<times> 'w" where
  "SpawnAgent start agentType taskID m w =
     (if em_binary_path m = [] then (Inl (errorf ''binary path is required''), m, w)
      else case start (em_binary_path m) [''--agent-type'', agentType, ''--task-id'', taskID] w of
        (Inl err, w') \<Rightarrow> (Inl err, m, w')
      | (Inr pid, w') \<Rightarrow> (Inr pid, m\<lparr>em_tracked := List.insert pid (em_tracked m)\<rparr>, w'))"

definition KillAgent :: "(int \<Rightarrow> 'w \<Rightarrow> go_error option \<times> 'w) \<Rightarrow> int \<Rightarrow> exec_manager \<Rightarrow> 'w \<Rightarrow>
    go_error option \<times> exec_manager \<times> 'w" where
  "KillAgent kill pid m w =
     (if pid \<le> 0 then (Some (errorf ''invalid pid''), m, w)
      else if pid \<notin> set (em_tracked m) then (Some (errorf (''untracked pid: '' @ format_int pid)), m, w)
      else case kill pid w of
        (Some err, w') \<Rightarrow> (Some err, m, w')
      | (None, w') \<Rightarrow> (None, m\<lparr>em_tracked := removeAll pid (em_tracked m)\<rparr>, w'))"

section \<open>Lemmas\<close>

text \<open>A value in which every member under a sensitive key is the placeholder.\<close>

fun no_secrets :: "json \<Rightarrow> bool" where
  "no_secrets (JObj ms) =
     list_all (\<lambda>(k, v). if isSensitiveKey k then v = JStr redactedValue else no_secrets v) ms"
| "no_secrets (JArr vs) = list_all no_secrets vs"
| "no_secrets v = True"

lemma redactValue_clean: "no_secrets (redactValue v)"
  by (induction v rule: redactValue.induct) (auto simp: list_all_iff)

lemma redactValue_fixed: "no_secrets v \<Longrightarrow> redactValue v = v"
proof (induction v rule: no_secrets.induct)
  case (1 ms)
  have "(if isSensitiveKey k then JStr redactedValue else redactValue v) = v" if "(k, v) \<in> set ms" for k v
    using 1 that by (fastforce simp: list_all_iff)
  then have "map (\<lambda>(k, v). (k, if isSensitiveKey k then JStr redactedValue else redactValue v)) ms = ms"
    by (intro map_idI) auto
  then show ?case by simp
next
  case (2 vs)
  then show ?case by (auto simp: list_all_iff intro: map_idI)
qed simp_all

section \<open>Histories of the process manager\<close>

text \<open>
  A history of calls on one manager, with what the operating system answers; the trace records the
  pids the system was asked to kill and whether it did.
\<close>

datatype em_op = OpSpawn string string "int res" | OpKill int "go_error option"

datatype em_event = Spawned int | KillAsked int "go_error option"

text \<open>The answer of the system is passed through the world, which collects the trace.\<close>

definition run_em_op :: "em_op \<Rightarrow> exec_manager \<times> em_event list \<Rightarrow> exec_manager \<times> em_event list" where
  "run_em_op op st =
     (case op of
        OpSpawn agentType taskID answer \<Rightarrow>
          (case SpawnAgent (\<lambda>path args w. (answer, w @ (case answer of Inr pid \<Rightarrow> [Spawned pid] | Inl _ \<Rightarrow> [])))
                  agentType taskID (fst st) (snd st) of (_, m, w) \<Rightarrow> (m, w))
      | OpKill pid answer \<Rightarrow>
          (case KillAgent (\<lambda>pid w. (answer, w @ [KillAsked pid answer])) pid (fst st) (snd st) of
             (_, m, w) \<Rightarrow> (m, w)))"

definition run_em :: "em_op list \<Rightarrow> exec_manager \<times> em_event list \<Rightarrow> exec_manager \<times> em_event list" where
  "run_em ops st = fold run_em_op ops st"

text \<open>The pids spawned and not successfully killed since.\<close>

definition live_after :: "em_event list \<Rightarrow> int set" where
  "live_after es = fold (\<lambda>e A. case e of
     Spawned pid \<Rightarrow> insert pid A
   | KillAsked pid None \<Rightarrow> A - {pid}
   | KillAsked pid (Some _) \<Rightarrow> A) es {}"

definition kills_tracked :: "em_event list \<Rightarrow> bool" where
  "kills_tracked es = (\<forall>pre pid r post. es = pre @ KillAsked pid r # post \<longrightarrow> 0 < pid \<and> pid \<in> live_after pre)"

lemma live_after_snoc [simp]:
  "live_after (es @ [Spawned pid]) = insert pid (live_after es)"
  "live_after (es @ [KillAsked pid None]) = live_after es - {pid}"
  "live_after (es @ [KillAsked pid (Some e)]) = live_after es"
  "live_after [] = {}"
  by (simp_all add: live_after_def)

lemma kills_tracked_snoc:
  "kills_tracked (es @ [e]) \<longleftrightarrow> kills_tracked es \<and>
     (case e of KillAsked pid r \<Rightarrow> 0 < pid \<and> pid \<in> live_after es | _ \<Rightarrow> True)"
  by (auto simp: kills_tracked_def append_eq_append_conv2 Cons_eq_append_conv append_eq_Cons_conv split: em_event.splits)
    (metis append_Nil2 append_assoc)+

definition em_inv :: "exec_manager \<times> em_event list \<Rightarrow> bool" where
  "em_inv st = (set (em_tracked (fst st)) = live_after (snd st) \<and> kills_tracked (snd st))"

lemma em_inv_step: "em_inv st \<Longrightarrow> em_inv (run_em_op op st)"
proof (cases op)
  case (OpSpawn a t answer)
  assume "em_inv st"
  with OpSpawn show ?thesis
    by (cases answer) (auto simp: run_em_op_def SpawnAgent_def em_inv_def kills_tracked_snoc)
next
  case (OpKill pid answer)
  assume "em_inv st"
  with OpKill show ?thesis
    by (cases answer) (auto simp: run_em_op_def KillAgent_def em_inv_def kills_tracked_snoc)
qed

lemma em_inv_run: "em_inv st \<Longrightarrow> em_inv (run_em ops st)"
  unfolding run_em_def by (induction ops arbitrary: st) (simp_all add: em_inv_step)

section \<open>Properties\<close>

text \<open>
  The manager only kills its own processes: in every history of calls, whatever the operating
  system answers, each pid the system is asked to kill is positive and was spawned by this manager
  and not yet killed, and the tracked pids are exactly those.
\<close>

theorem kill_only_tracked_processes:
  "let (m, trace) = run_em ops (\<lparr>em_binary_path = path, em_tracked = []\<rparr>, []) in
   set (em_tracked m) = live_after trace \<and> kills_tracked trace"
  using em_inv_run [of "(\<lparr>em_binary_path = path, em_tracked = []\<rparr>, [])" ops]
  by (auto simp: em_inv_def kills_tracked_def split: prod.splits)

text \<open>
  Redaction: in a redacted value every member whose key contains a sensitive word (in any case,
  with or without separators), at any depth, is the placeholder, and a value without secrets is
  left as it is, so redacting twice changes nothing more.
\<close>

theorem redaction_removes_secrets:
  "no_secrets (redactValue v) \<and> (redactValue v = v \<longleftrightarrow> no_secrets v) \<and>
   redactValue (redactValue v) = redactValue v"
  using redactValue_clean redactValue_fixed by metis

end
