(* ===== verification/Orchestrator.thy ===== *)
theory Orchestrator
  imports Process Webhook_Auth Approval_Gate Workflow_Exec Task_Memory
begin

text \<open>
  The orchestrator (\<^verbatim>\<open>cmd/orchestrator/main.go\<close>): the approval webhook, the handling of task results,
  starting tasks and recovery at start-up. Queue, event bus, process manager, database faults, clock
  and the iteration order of maps are the environment; task store, workflows and nonces are the
  state of the application. HMAC-SHA256 is an argument. Log lines are not modelled.
\<close>

section \<open>State and environment\<close>

record 'w app =
  app_store :: sqlite_store
  app_workflows :: "(string \<times> workflow) list"
  app_nonces :: nonce_store
  app_world :: 'w

record 'w app_env =
  env_enqueue :: "string \<Rightarrow> message \<Rightarrow> 'w \<Rightarrow> go_error option \<times> 'w"
  env_publish :: "string \<Rightarrow> message \<Rightarrow> 'w \<Rightarrow> go_error option \<times> 'w"
  env_spawn :: "string \<Rightarrow> string \<Rightarrow> 'w \<Rightarrow> int res \<times> 'w"
  env_db_fault :: "'w \<Rightarrow> go_error option"
  env_now_ns :: "'w \<Rightarrow> int"
  env_jerr :: "string \<Rightarrow> string"
  env_rng :: "string list \<Rightarrow> string list"

definition now_unix_ms :: "'w app_env \<Rightarrow> 'w app \<Rightarrow> int" where
  "now_unix_ms env a = env_now_ns env (app_world a) div 1000000"

definition now_unix :: "'w app_env \<Rightarrow> 'w app \<Rightarrow> int" where
  "now_unix env a = env_now_ns env (app_world a) div 1000000000"

definition app_save :: "'w app_env \<Rightarrow> task_state \<Rightarrow> 'w app \<Rightarrow> go_error option \<times> 'w app" where
  "app_save env st a =
     (let (db, err) = sqlite_Save (env_db_fault env (app_world a)) (app_store a) st in
      (err, a\<lparr>app_store := db\<rparr>))"

text \<open>\<^verbatim>\<open>_ = a.auditor.Record(...)\<close>\<close>

definition app_audit :: "'w app_env \<Rightarrow> audit_event \<Rightarrow> 'w app \<Rightarrow> 'w app" where
  "app_audit env e a =
     (let (_, w) = Record (env_jerr env) (Some (env_publish env)) ''orchestrator'' (now_unix_ms env a) e (app_world a) in
      a\<lparr>app_world := w\<rparr>)"

section \<open>The approval webhook\<close>

record http_reply =
  reply_status :: int
  reply_body :: string

definition http_Error :: "string \<Rightarrow> int \<Rightarrow> http_reply" where
  "http_Error msg code = \<lparr>reply_status = code, reply_body = msg @ [CHR 0x0A]\<rparr>"

record webhook_request =
  wr_method :: string
  wr_headers :: webhook_headers
  wr_body :: "string res"

definition marshal_decision :: "approval_decision \<Rightarrow> string" where
  "marshal_decision d =
     obj_text [(''trace_id'', quote (ad_trace_id d)), (''task_id'', quote (ad_task_id d)),
       (''tool_call_id'', quote (ad_tool_call_id d)), (''approved'', bool_text (ad_approved d)),
       (''reviewer'', quote (ad_reviewer d)), (''reason'', quote (ad_reason d)),
       (''decided_at_ms'', format_int (ad_decided_at_ms d))]"

definition approval_message :: "approval_decision \<Rightarrow> int \<Rightarrow> message" where
  "approval_message d now =
     zero_message\<lparr>msg_message_id := ''approval.'' @ ad_task_id d @ ''.'' @ ad_tool_call_id d,
       msg_sender_id := ''orchestrator'', msg_receiver_id := ad_task_id d,
       msg_payload := marshal_decision d, msg_timestamp := now\<rparr>"

text \<open>From the decoded body on: validate, publish, audit.\<close>

definition accept_decision :: "'w app_env \<Rightarrow> approval_decision \<Rightarrow> 'w app \<Rightarrow> http_reply \<times> 'w app" where
  "accept_decision env d a =
     (let d = (if ad_decided_at_ms d = 0 then d\<lparr>ad_decided_at_ms := now_unix_ms env a\<rparr> else d) in
      case ApprovalDecision_Validate d of
        Some err \<Rightarrow> (http_Error (err_msg err) 400, a)
      | None \<Rightarrow>
          let (_, w) = env_publish env ''approvals'' (approval_message d (now_unix_ms env a)) (app_world a);
              a = app_audit env (zero_audit_event\<lparr>au_trace_id := ad_trace_id d, au_task_id := ad_task_id d,
                    au_tool_call_id := ad_tool_call_id d, au_event := ''approval_decision'', au_actor := ''orchestrator'',
                    au_status := (if ad_approved d then ''approved'' else ''rejected''),
                    au_data := marshal_decision d, au_timestamp_ms := ad_decided_at_ms d\<rparr>) (a\<lparr>app_world := w\<rparr>) in
          (\<lparr>reply_status = 200, reply_body = ''OK''\<rparr>, a))"

definition error_reply :: "int \<Rightarrow> string \<Rightarrow> http_reply" where
  "error_reply code errorCode = \<lparr>reply_status = code, reply_body = obj_text [(''error'', [CHR 0x22] @ errorCode @ [CHR 0x22])]\<rparr>"

definition handleApproval :: "(string \<Rightarrow> string \<Rightarrow> string) \<Rightarrow> 'w app_env \<Rightarrow> string \<Rightarrow> webhook_request \<Rightarrow> 'w app \<Rightarrow>
    http_reply \<times> 'w app" where
  "handleApproval hmac env secret r a =
     (if wr_method r \<noteq> ''POST'' then (http_Error ''Method not allowed'' 405, a)
      else case wr_body r of
        Inl _ \<Rightarrow> (http_Error ''Invalid body'' 400, a)
      | Inr body \<Rightarrow>
          let (verdict, a) =
                (if secret = [] then (None, a)
                 else let (err, store) = VerifyWebhookSignature hmac (wr_headers r) body secret
                            (Some (app_nonces a)) (env_now_ns env (app_world a)) in
                      (err, a\<lparr>app_nonces := the store\<rparr>)) in
          (case verdict of
             Some err \<Rightarrow>
               (if contains (err_msg err) ''missing security headers'' then error_reply 400 ''invalid_request''
                else error_reply 401 ''invalid_signature'', a)
           | None \<Rightarrow>
               (case decode_first (dec_struct True decision_fields) zero_decision body of
                  None \<Rightarrow> (http_Error ''Invalid body'' 400, a)
                | Some (d, _) \<Rightarrow> accept_decision env d a)))"

section \<open>Starting a task\<close>

definition OnNodeReady :: "'w app_env \<Rightarrow> 'w on_node_ready" where
  "OnNodeReady env w agentType nodeID =
     (case env_spawn env agentType nodeID w of
        (Inl err, w') \<Rightarrow> (w', Some err)
      | (Inr pid, w') \<Rightarrow> (w', None))"

definition state_of_msg :: "message \<Rightarrow> string \<Rightarrow> string \<Rightarrow> int \<Rightarrow> string \<Rightarrow> task_state" where
  "state_of_msg msg agentType status now errMsg =
     \<lparr>ts_task_id = msg_message_id msg, ts_parent_task_id = msg_parent_task_id msg, ts_agent_name = agentType,
      ts_status = status, ts_updated_at_unix = now, ts_error_message = errMsg\<rparr>"

definition agent_type_of :: "message \<Rightarrow> string" where
  "agent_type_of msg = (if msg_target_agent msg = [] then ''orchestrator'' else msg_target_agent msg)"

definition set_workflow :: "string \<Rightarrow> workflow \<Rightarrow> 'w app \<Rightarrow> 'w app" where
  "set_workflow taskID wfl a = a\<lparr>app_workflows := AList.update taskID wfl (app_workflows a)\<rparr>"

definition enqueueAndStartTask :: "'w app_env \<Rightarrow> message \<Rightarrow> 'w app \<Rightarrow> go_error option \<times> 'w app" where
  "enqueueAndStartTask env msg a =
     (let agentType = agent_type_of msg;
          wfl = fst (AddTask NewWorkflow (msg_message_id msg) agentType []);
          a = set_workflow (msg_message_id msg) wfl a;
          (err, w) = env_enqueue env (''task.'' @ msg_message_id msg) msg (app_world a);
          a = a\<lparr>app_world := w\<rparr> in
      case err of
        Some e \<Rightarrow> (Some e, a)
      | None \<Rightarrow>
          let (w, wfl', err) = Start (env_rng env) (OnNodeReady env) (app_world a) wfl;
              a = set_workflow (msg_message_id msg) wfl' (a\<lparr>app_world := w\<rparr>) in
          (case err of
             Some e \<Rightarrow> (Some e, snd (app_save env (state_of_msg msg agentType ''failed'' (now_unix env a) (err_msg e)) a))
           | None \<Rightarrow>
               (case app_save env (state_of_msg msg agentType ''running'' (now_unix env a) []) a of
                  (Some e, a) \<Rightarrow> (Some e, a)
                | (None, a) \<Rightarrow>
                    (None, app_audit env (zero_audit_event\<lparr>au_task_id := msg_message_id msg,
                       au_parent_task_id := msg_parent_task_id msg, au_event := ''route'', au_actor := ''orchestrator'',
                       au_status := ''running'', au_data := msg_payload msg, au_timestamp_ms := now_unix_ms env a\<rparr>) a))))"

section \<open>Recovery\<close>

definition attempt_id :: "'w app_env \<Rightarrow> 'w app \<Rightarrow> string \<Rightarrow> string" where
  "attempt_id env a taskID = ''recovery-'' @ taskID @ ''-'' @ format_int (env_now_ns env (app_world a))"

definition recovery_payload :: string where
  "recovery_payload = obj_text [(''recovery'', ''true'')]"

definition recovery_message :: "task_state \<Rightarrow> int \<Rightarrow> message" where
  "recovery_message st now =
     \<lparr>msg_message_id = ts_task_id st, msg_parent_task_id = ts_parent_task_id st, msg_sender_id = ''orchestrator'',
      msg_receiver_id = ''orchestrator'', msg_target_agent = ts_agent_name st, msg_payload = recovery_payload,
      msg_timestamp = now\<rparr>"

definition recovery_audit :: "'w app_env \<Rightarrow> task_state \<Rightarrow> string \<Rightarrow> string \<Rightarrow> string \<Rightarrow> string \<Rightarrow> 'w app \<Rightarrow> 'w app" where
  "recovery_audit env st event status err payload a =
     app_audit env (zero_audit_event\<lparr>au_task_id := ts_task_id st, au_parent_task_id := ts_parent_task_id st,
       au_event := event, au_actor := ''orchestrator'', au_status := status, au_error := err,
       au_data := payload, au_timestamp_ms := now_unix_ms env a\<rparr>) a"

definition recoverOneTask :: "'w app_env \<Rightarrow> task_state \<Rightarrow> 'w app \<Rightarrow> go_error option \<times> 'w app" where
  "recoverOneTask env st a =
     (let attemptID = attempt_id env a (ts_task_id st);
          a = recovery_audit env st ''task_recovery_started'' (NormalizeTaskStatus (ts_status st)) []
                (obj_text [(''attempt_id'', quote attemptID), (''status'', quote (ts_status st)), (''task_id'', quote (ts_task_id st))]) a in
      case enqueueAndStartTask env (recovery_message st (now_unix_ms env a)) a of
        (Some err, a) \<Rightarrow>
          let (_, a) = app_save env (st\<lparr>ts_status := TaskStatusPending, ts_updated_at_unix := now_unix env a,
                 ts_error_message := ''recovery attempt '' @ attemptID @ '' failed: '' @ err_msg err\<rparr>) a in
          (Some err, recovery_audit env st ''task_recovery_failed'' TaskStatusPending (err_msg err)
             (obj_text [(''attempt_id'', quote attemptID), (''cause'', quote (err_msg err)), (''task_id'', quote (ts_task_id st))]) a)
      | (None, a) \<Rightarrow>
          (None, recovery_audit env st ''task_recovery_enqueued'' TaskStatusRunning []
             (obj_text [(''attempt_id'', quote attemptID), (''task_id'', quote (ts_task_id st))]) a))"

fun recover_loop :: "'w app_env \<Rightarrow> string list \<Rightarrow> task_state list \<Rightarrow> 'w app \<Rightarrow> 'w app" where
  "recover_loop env seen [] a = a"
| "recover_loop env seen (st # sts) a =
     (if IsTerminalTaskStatus (ts_status st) then recover_loop env seen sts a
      else if ts_task_id st \<in> set seen then recover_loop env seen sts a
      else recover_loop env (ts_task_id st # seen) sts (snd (recoverOneTask env st a)))"

definition RecoverTasksOnStartup :: "'w app_env \<Rightarrow> 'w app \<Rightarrow> go_error option \<times> 'w app" where
  "RecoverTasksOnStartup env a =
     (case sqlite_ListRecoverable (env_db_fault env (app_world a)) (app_store a) of
        Inl err \<Rightarrow> (Some err, a)
      | Inr recoverable \<Rightarrow> (None, recover_loop env [] recoverable a))"

section \<open>Task results\<close>

text \<open>
  \<^verbatim>\<open>_ = json.Unmarshal(msg.Payload, &res)\<close>: the error is ignored, so members of the wrong type are
  skipped and a text that is not an object leaves the zero value.
\<close>

fun dec_members_lenient :: "(string \<times> 'a decoder) list \<Rightarrow> (string \<times> string) list \<Rightarrow> 'a \<Rightarrow> 'a" where
  "dec_members_lenient fs [] a = a"
| "dec_members_lenient fs ((k, x) # ms) a =
     dec_members_lenient fs ms
       (case find_field fs k of None \<Rightarrow> a | Some d \<Rightarrow> (case d x a of None \<Rightarrow> a | Some a' \<Rightarrow> a'))"

definition task_result_fields :: "(string \<times> task_result decoder) list" where
  "task_result_fields =
     [(''task_id'', dec_str (\<lambda>x. tr_task_id_update (\<lambda>_. x))),
      (''parent_task_id'', dec_str (\<lambda>x. tr_parent_task_id_update (\<lambda>_. x))),
      (''agent_name'', dec_str (\<lambda>x. tr_agent_name_update (\<lambda>_. x))),
      (''status'', dec_str (\<lambda>x. tr_status_update (\<lambda>_. x))),
      (''output'', dec_raw (\<lambda>x. tr_output_update (\<lambda>_. x))),
      (''error'', dec_str (\<lambda>x. tr_error_update (\<lambda>_. x))),
      (''timestamp'', dec_int64 (\<lambda>x. tr_timestamp_update (\<lambda>_. x)))]"

definition zero_task_result :: task_result where
  "zero_task_result = \<lparr>tr_task_id = [], tr_parent_task_id = [], tr_agent_name = [], tr_status = [],
     tr_output = [], tr_error = [], tr_timestamp = 0\<rparr>"

definition decode_result :: "string \<Rightarrow> task_result" where
  "decode_result payload =
     (if \<not> json_valid payload then zero_task_result
      else case obj_members payload of
        None \<Rightarrow> zero_task_result
      | Some ms \<Rightarrow> dec_members_lenient task_result_fields ms zero_task_result)"

definition mark_result :: "'w app_env \<Rightarrow> string \<Rightarrow> string \<Rightarrow> workflow \<Rightarrow> 'w app \<Rightarrow> 'w app" where
  "mark_result env taskID status wfl a =
     (if IsSuccessfulTaskStatus status then
        let (w, wfl', _) = MarkNodeCompleted (env_rng env) (OnNodeReady env) (app_world a) wfl taskID in
        set_workflow taskID wfl' (a\<lparr>app_world := w\<rparr>)
      else set_workflow taskID (fst (MarkNodeFailed wfl taskID)) a)"

text \<open>One message of the loop of \<^verbatim>\<open>ListenResults\<close>.\<close>

definition handle_result :: "'w app_env \<Rightarrow> message \<Rightarrow> 'w app \<Rightarrow> 'w app" where
  "handle_result env msg a =
     (let res = decode_result (msg_payload msg);
          status = NormalizeTaskStatus (tr_status res);
          a = snd (app_save env \<lparr>ts_task_id = tr_task_id res, ts_parent_task_id = tr_parent_task_id res,
                 ts_agent_name = tr_agent_name res, ts_status = status, ts_updated_at_unix = now_unix env a,
                 ts_error_message = tr_error res\<rparr> a);
          a = (case map_of (app_workflows a) (tr_task_id res) of
                 None \<Rightarrow> a
               | Some wfl \<Rightarrow> mark_result env (tr_task_id res) status wfl a);
          timestampMs = (if msg_timestamp msg = 0 then now_unix_ms env a else msg_timestamp msg);
          actor = (if msg_sender_id msg = [] then tr_agent_name res else msg_sender_id msg) in
      app_audit env (zero_audit_event\<lparr>au_task_id := tr_task_id res, au_parent_task_id := tr_parent_task_id res,
        au_event := ''task_result'', au_actor := actor, au_status := tr_status res, au_error := tr_error res,
        au_data := msg_payload msg, au_timestamp_ms := timestampMs\<rparr>) a)"

section \<open>The processing loop\<close>

text \<open>
  \<^verbatim>\<open>ProcessOneTask\<close> waits for a message of the queue \<^verbatim>\<open>tasks\<close>; \<open>recv\<close> is what the wait yields: the error
  of the context or of \<^verbatim>\<open>Dequeue\<close>, a closed channel (\<open>None\<close>), or a message.
\<close>

definition ProcessOneTask :: "'w app_env \<Rightarrow> message option res \<Rightarrow> 'w app \<Rightarrow> go_error option \<times> 'w app" where
  "ProcessOneTask env recv a =
     (case recv of
        Inl err \<Rightarrow> (Some err, a)
      | Inr None \<Rightarrow> (Some (errorf ''tasks channel closed''), a)
      | Inr (Some msg) \<Rightarrow> enqueueAndStartTask env msg a)"

text \<open>The loop over what the successive waits yield, each preceded by a look at the context.\<close>

fun ProcessLoop :: "'w app_env \<Rightarrow> (go_ctx \<times> message option res) list \<Rightarrow> 'w app \<Rightarrow> go_error option \<times> 'w app" where
  "ProcessLoop env [] a = (None, a)"
| "ProcessLoop env ((ctx, recv) # rest) a =
     (case ctx of
        Some err \<Rightarrow> (Some err, a)
      | None \<Rightarrow>
          (case ProcessOneTask env recv a of
             (None, a) \<Rightarrow> ProcessLoop env rest a
           | (Some err, a) \<Rightarrow>
               if err_is err ErrNoMessage then ProcessLoop env rest a else (Some err, a)))"

section \<open>Run without the loop\<close>

text \<open>
  \<^verbatim>\<open>Run\<close> announces the orchestrator on the event bus and by a heartbeat and then waits for the end of the
  context, whose error it returns.
\<close>

definition health_message :: "int \<Rightarrow> message" where
  "health_message now =
     zero_message\<lparr>msg_message_id := ''orchestrator.health'', msg_sender_id := ''orchestrator'',
       msg_receiver_id := ''orchestrator'', msg_payload := obj_text [(''status'', quote ''running'')],
       msg_timestamp := now\<rparr>"

definition app_Run :: "'w app_env \<Rightarrow> (string \<Rightarrow> string \<Rightarrow> 'w \<Rightarrow> go_error option \<times> 'w) \<Rightarrow> go_error \<Rightarrow> 'w app \<Rightarrow>
    go_error option \<times> 'w app" where
  "app_Run env heartbeat ctx_err a =
     (let (_, w) = env_publish env ''system.health'' (health_message (now_unix_ms env a)) (app_world a);
          (_, w) = heartbeat ''orchestrator'' ''running'' w in
      (Some ctx_err, a\<lparr>app_world := w\<rparr>))"

section \<open>Lemmas\<close>

lemma app_audit_frame [simp]:
  "app_store (app_audit env e a) = app_store a"
  "app_workflows (app_audit env e a) = app_workflows a"
  "app_nonces (app_audit env e a) = app_nonces a"
  by (simp_all add: app_audit_def split: prod.splits)

lemma app_save_frame [simp]:
  "app_workflows (snd (app_save env st a)) = app_workflows a"
  "app_nonces (snd (app_save env st a)) = app_nonces a"
  "app_world (snd (app_save env st a)) = app_world a"
  by (simp_all add: app_save_def split: prod.splits)

lemma set_workflow_frame [simp]:
  "app_store (set_workflow k v a) = app_store a"
  "app_world (set_workflow k v a) = app_world a"
  "map_of (app_workflows (set_workflow k v a)) i = (if i = k then Some v else map_of (app_workflows a) i)"
  by (simp_all add: set_workflow_def update_conv')

lemma recovery_audit_frame [simp]:
  "app_store (recovery_audit env st ev status err payload a) = app_store a"
  "app_workflows (recovery_audit env st ev status err payload a) = app_workflows a"
  by (simp_all add: recovery_audit_def)

definition no_db_faults :: "'w app_env \<Rightarrow> bool" where
  "no_db_faults env = (\<forall>w. env_db_fault env w = None)"

lemma app_save_ok: "no_db_faults env \<Longrightarrow> app_save env st a = (None, a\<lparr>app_store := upsert st (app_store a)\<rparr>)"
  by (simp add: app_save_def no_db_faults_def sqlite_Save_def)

text \<open>The workflow of a task has one node without dependencies.\<close>

lemma single_start:
  assumes "is_range rng" "Start rng cb x (fst (AddTask NewWorkflow n ty [])) = (x', w', e)"
  shows "NodeState w' n = Some NodeStateRunning \<and> (x', e) = cb x (if ty = [] then ''generic'' else ty) n \<and>
    wf_dag w' = wf_dag (fst (AddTask NewWorkflow n ty []))"
proof -
  have "rng [n] = [n]"
    using assms(1) by (simp add: is_range_def flip: mset_single_iff_right)
  then show ?thesis
    using assms(2)
    by (auto simp: Start_def AddTask_def NewWorkflow_def NewDAG_def AddNode_def NewNodeStateMachine_def InitNode_def
        Dependencies_def readyNode_def Transition_def GetAgentType_def NodeState_def State_def Let_def prod_eq_iff
        split: option.splits prod.splits)
qed

lemma enqueue_store:
  assumes "no_db_faults env" "enqueueAndStartTask env msg a = (err, a')"
  shows "if err = None then \<exists>t. app_store a' = upsert (state_of_msg msg (agent_type_of msg) ''running'' t []) (app_store a)
    else app_store a' = app_store a \<or>
      (\<exists>t m. app_store a' = upsert (state_of_msg msg (agent_type_of msg) ''failed'' t m) (app_store a))"
  using assms(2)
  by (auto simp: enqueueAndStartTask_def Let_def app_save_ok [OF assms(1)] split: prod.splits option.splits) blast

lemma enqueue_workflow:
  assumes "is_range (env_rng env)" "no_db_faults env" "enqueueAndStartTask env msg a = (None, a')"
  shows "\<exists>wfl. map_of (app_workflows a') (msg_message_id msg) = Some wfl \<and>
     NodeState wfl (msg_message_id msg) = Some NodeStateRunning \<and>
     wf_dag wfl = wf_dag (fst (AddTask NewWorkflow (msg_message_id msg) (agent_type_of msg) []))"
proof -
  let ?wfl = "fst (AddTask NewWorkflow (msg_message_id msg) (agent_type_of msg) [])"
  let ?q = "env_enqueue env (''task.'' @ msg_message_id msg) msg (app_world a)"
  obtain w' wfl e where st: "Start (env_rng env) (OnNodeReady env) (snd ?q) ?wfl = (w', wfl, e)"
    by (cases "Start (env_rng env) (OnNodeReady env) (snd ?q) ?wfl")
  have "e = None \<and> map_of (app_workflows a') (msg_message_id msg) = Some wfl"
    using assms(3) st
    by (auto simp: enqueueAndStartTask_def Let_def app_save_ok [OF assms(2)] split: prod.splits option.splits)
  with single_start [OF assms(1) st] show ?thesis by blast
qed

text \<open>\<open>L\<close> reads from the world the log of messages put on queues; only \<^verbatim>\<open>Enqueue\<close> writes it.\<close>

definition queue_log :: "'w app_env \<Rightarrow> ('w \<Rightarrow> (string \<times> message) list) \<Rightarrow> bool" where
  "queue_log env L =
     ((\<forall>q m w. L (snd (env_enqueue env q m w)) = L w @ [(q, m)]) \<and>
      (\<forall>t m w. L (snd (env_publish env t m w)) = L w) \<and>
      (\<forall>ty n w. L (snd (env_spawn env ty n w)) = L w))"

lemma queue_log_audit: "queue_log env L \<Longrightarrow> L (app_world (app_audit env e a)) = L (app_world a)"
  by (auto simp: queue_log_def app_audit_def Record_def Let_def split: prod.splits option.splits) (metis snd_conv)+

lemma queue_log_spawn:
  assumes "queue_log env L" "is_range (env_rng env)"
    "Start (env_rng env) (OnNodeReady env) w (fst (AddTask NewWorkflow n ty [])) = (w', wfl, e)"
  shows "L w' = L w"
proof -
  have "(w', e) = OnNodeReady env w (if ty = [] then ''generic'' else ty) n" using single_start [OF assms(2,3)] by blast
  then show ?thesis using assms(1)
    by (cases "env_spawn env (if ty = [] then ''generic'' else ty) n w")
      (auto simp: OnNodeReady_def queue_log_def split: sum.splits prod.splits, (metis snd_conv)+)
qed

lemma queue_log_enqueue:
  assumes "queue_log env L" "is_range (env_rng env)" "no_db_faults env"
  shows "L (app_world (snd (enqueueAndStartTask env msg a))) = L (app_world a) @ [(''task.'' @ msg_message_id msg, msg)]"
proof -
  let ?wfl = "fst (AddTask NewWorkflow (msg_message_id msg) (agent_type_of msg) [])"
  obtain e1 w1 where q: "env_enqueue env (''task.'' @ msg_message_id msg) msg (app_world a) = (e1, w1)" by force
  obtain w' wfl e where st: "Start (env_rng env) (OnNodeReady env) w1 ?wfl = (w', wfl, e)"
    by (cases "Start (env_rng env) (OnNodeReady env) w1 ?wfl")
  have "L w1 = L (app_world a) @ [(''task.'' @ msg_message_id msg, msg)]"
    using assms(1) q by (metis queue_log_def snd_conv)
  with queue_log_spawn [OF assms(1,2) st] q st show ?thesis
    by (cases e1; cases e)
      (simp_all add: enqueueAndStartTask_def Let_def app_save_ok [OF assms(3)] queue_log_audit [OF assms(1)])
qed

lemma upsert_Get_self:
  "sqlite_schema db \<Longrightarrow> \<exists>st'. sqlite_Get None (upsert st db) (ts_task_id st) = Inr st' \<and> same_outcome st' st"
  using sql_store.get_saved [of db st] by (simp add: sqlite_Save_def)

lemma upsert_Get_other:
  "sqlite_schema db \<Longrightarrow> k \<noteq> ts_task_id st \<Longrightarrow> sqlite_Get None (upsert st db) k = sqlite_Get None db k"
  using sql_store.get_other [of db k st] by (simp add: sqlite_Save_def)

definition recoverable_in :: "sqlite_store \<Rightarrow> string \<Rightarrow> bool" where
  "recoverable_in db k = (\<exists>st. sqlite_Get None db k = Inr st \<and> ts_status st \<in> {''pending'', ''running''})"

lemma recoverable_in_upsert:
  assumes "sqlite_schema db"
  shows "recoverable_in (upsert st db) k \<longleftrightarrow>
    (if k = ts_task_id st then ts_status st \<in> {''pending'', ''running''} else recoverable_in db k)"
  using upsert_Get_self [OF assms, of st] upsert_Get_other [OF assms, of k st]
  by (auto simp: recoverable_in_def same_outcome_def)

lemma ListRecoverable_in:
  assumes "sqlite_schema db" "sqlite_ListRecoverable None db = Inr xs"
  shows "ts_task_id ` set xs = {k. recoverable_in db k}"
proof -
  from sql_store.recoverable [OF assms(1)] assms(2)
  have mem: "st \<in> set xs \<longleftrightarrow> sqlite_Get None db (ts_task_id st) = Inr st \<and> ts_status st \<in> {''pending'', ''running''}" for st
    by auto
  show ?thesis using mem sqlite_Get_id [of db] by (force simp: recoverable_in_def image_iff)
qed

lemma state_of_msg_simps [simp]:
  "ts_task_id (state_of_msg msg ty status t er) = msg_message_id msg"
  "ts_status (state_of_msg msg ty status t er) = status"
  by (simp_all add: state_of_msg_def)

lemma recovery_message_id [simp]: "msg_message_id (recovery_message st t) = ts_task_id st"
  by (simp add: recovery_message_def)

text \<open>Recovering one task leaves it recoverable and touches no other task.\<close>

lemma recover_one:
  assumes "no_db_faults env" "sqlite_schema (app_store a)" "recoverOneTask env st a = (err, a')"
  shows "sqlite_schema (app_store a') \<and>
    (\<forall>k. recoverable_in (app_store a') k \<longleftrightarrow> k = ts_task_id st \<or> recoverable_in (app_store a) k) \<and>
    (\<forall>k. k \<noteq> ts_task_id st \<longrightarrow> sqlite_Get None (app_store a') k = sqlite_Get None (app_store a) k)"
proof -
  let ?a = "recovery_audit env st ''task_recovery_started'' (NormalizeTaskStatus (ts_status st)) []
    (obj_text [(''attempt_id'', quote (attempt_id env a (ts_task_id st))), (''status'', quote (ts_status st)),
      (''task_id'', quote (ts_task_id st))]) a"
  let ?m = "recovery_message st (now_unix_ms env ?a)"
  obtain e b where r: "enqueueAndStartTask env ?m ?a = (e, b)" by force
  show ?thesis
  proof (cases e)
    case None
    with enqueue_store [OF assms(1) r] obtain t where
      "app_store b = upsert (state_of_msg ?m (agent_type_of ?m) ''running'' t []) (app_store a)" by auto
    moreover have "app_store a' = app_store b"
      using assms(3) r None by (auto simp: recoverOneTask_def Let_def)
    ultimately show ?thesis
      using assms(2) by (auto simp: recoverable_in_upsert upsert_schema upsert_Get_other)
  next
    case (Some x)
    with enqueue_store [OF assms(1) r] obtain db where db: "app_store b = db" "sqlite_schema db"
      "\<And>k. k \<noteq> ts_task_id st \<Longrightarrow> sqlite_Get None db k = sqlite_Get None (app_store a) k"
      using assms(2) by (auto simp: upsert_schema upsert_Get_other)
    have o: "recoverable_in db k = recoverable_in (app_store a) k" if "k \<noteq> ts_task_id st" for k
      using db(3) [OF that] by (simp add: recoverable_in_def)
    obtain t m where "app_store a' = upsert (st\<lparr>ts_status := TaskStatusPending, ts_updated_at_unix := t, ts_error_message := m\<rparr>) db"
      using assms(3) r Some db(1) by (auto simp: recoverOneTask_def Let_def app_save_ok [OF assms(1)])
    with db o show ?thesis
      by (simp add: recoverable_in_upsert upsert_schema upsert_Get_other TaskStatusPending_def)
  qed
qed

lemma recover_one_log:
  assumes "queue_log env L" "is_range (env_rng env)" "no_db_faults env"
  shows "\<exists>t. L (app_world (snd (recoverOneTask env st a))) =
    L (app_world a) @ [(''task.'' @ ts_task_id st, recovery_message st t)]"
proof -
  let ?a = "recovery_audit env st ''task_recovery_started'' (NormalizeTaskStatus (ts_status st)) []
    (obj_text [(''attempt_id'', quote (attempt_id env a (ts_task_id st))), (''status'', quote (ts_status st)),
      (''task_id'', quote (ts_task_id st))]) a"
  let ?m = "recovery_message st (now_unix_ms env ?a)"
  obtain e b where r: "enqueueAndStartTask env ?m ?a = (e, b)" by force
  have "L (app_world b) = L (app_world a) @ [(''task.'' @ ts_task_id st, ?m)]"
    using queue_log_enqueue [OF assms, of ?m ?a] r queue_log_audit [OF assms(1)]
    by (simp add: recovery_audit_def)
  moreover have "L (app_world (snd (recoverOneTask env st a))) = L (app_world b)"
    using r by (cases e) (simp_all add: recoverOneTask_def Let_def app_save_ok [OF assms(3)] recovery_audit_def
        queue_log_audit [OF assms(1)])
  ultimately show ?thesis by auto
qed

text \<open>What recovery puts on the queue of a task.\<close>

definition recovery_entry :: "task_state \<Rightarrow> int \<Rightarrow> string \<times> message" where
  "recovery_entry st t = (''task.'' @ ts_task_id st, recovery_message st t)"

lemma recover_loop_spec:
  assumes env: "queue_log env L" "is_range (env_rng env)" "no_db_faults env"
  shows "sqlite_schema (app_store a) \<Longrightarrow> distinct (map ts_task_id sts) \<Longrightarrow> set seen \<inter> ts_task_id ` set sts = {} \<Longrightarrow>
    \<forall>st \<in> set sts. \<not> IsTerminalTaskStatus (ts_status st) \<Longrightarrow>
    sqlite_schema (app_store (recover_loop env seen sts a)) \<and>
    (\<forall>k. recoverable_in (app_store (recover_loop env seen sts a)) k \<longleftrightarrow>
       k \<in> ts_task_id ` set sts \<or> recoverable_in (app_store a) k) \<and>
    (\<forall>k. k \<notin> ts_task_id ` set sts \<longrightarrow>
       sqlite_Get None (app_store (recover_loop env seen sts a)) k = sqlite_Get None (app_store a) k) \<and>
    (\<exists>ts. length ts = length sts \<and> L (app_world (recover_loop env seen sts a)) =
       L (app_world a) @ map2 recovery_entry sts ts)"
proof (induction sts arbitrary: seen a)
  case Nil
  then show ?case by simp
next
  case (Cons st sts)
  obtain err b where r: "recoverOneTask env st a = (err, b)" by force
  from recover_one [OF env(3) Cons.prems(1) r] have b: "sqlite_schema (app_store b)"
    "\<And>k. recoverable_in (app_store b) k \<longleftrightarrow> k = ts_task_id st \<or> recoverable_in (app_store a) k"
    "\<And>k. k \<noteq> ts_task_id st \<Longrightarrow> sqlite_Get None (app_store b) k = sqlite_Get None (app_store a) k" by blast+
  obtain t where t: "L (app_world b) = L (app_world a) @ [recovery_entry st t]"
    using recover_one_log [OF env, of st a] r by (auto simp: recovery_entry_def)
  have l: "recover_loop env seen (st # sts) a = recover_loop env (ts_task_id st # seen) sts b"
    using Cons.prems r by auto
  have "set (ts_task_id st # seen) \<inter> ts_task_id ` set sts = {}" using Cons.prems by auto
  from Cons.IH [OF b(1) _ this] Cons.prems obtain ts where
    h: "sqlite_schema (app_store (recover_loop env (ts_task_id st # seen) sts b))"
      "\<And>k. recoverable_in (app_store (recover_loop env (ts_task_id st # seen) sts b)) k \<longleftrightarrow>
         k \<in> ts_task_id ` set sts \<or> recoverable_in (app_store b) k"
      "\<And>k. k \<notin> ts_task_id ` set sts \<Longrightarrow>
         sqlite_Get None (app_store (recover_loop env (ts_task_id st # seen) sts b)) k = sqlite_Get None (app_store b) k"
      "length ts = length sts"
      "L (app_world (recover_loop env (ts_task_id st # seen) sts b)) =
         L (app_world b) @ map2 recovery_entry sts ts" by auto
  have log: "length (t # ts) = length (st # sts) \<and> L (app_world (recover_loop env seen (st # sts) a)) =
      L (app_world a) @ map2 recovery_entry (st # sts) (t # ts)"
    unfolding l h(5) t using h(4) by simp
  show ?case
  proof (intro conjI)
    show "\<exists>ts. length ts = length (st # sts) \<and> L (app_world (recover_loop env seen (st # sts) a)) =
        L (app_world a) @ map2 recovery_entry (st # sts) ts"
      using log by (rule exI)
  qed (use l h b in auto)
qed

text \<open>
  C3. Recovery at start-up, when the database works: every task whose stored status is pending or
  running is put on its own queue \<^verbatim>\<open>task.<id>\<close> exactly once, whether or not the queue or the process
  manager then fails, and afterwards exactly the same tasks are recoverable: none is lost, none is
  added, no other row changes.
\<close>

theorem recovery_restarts_every_task_once:
  assumes "queue_log env L" "is_range (env_rng env)" "no_db_faults env" "sqlite_schema (app_store a)"
    and "sqlite_ListRecoverable None (app_store a) = Inr sts"
  shows "\<exists>a' ts. RecoverTasksOnStartup env a = (None, a') \<and> length ts = length sts \<and>
    L (app_world a') = L (app_world a) @ map2 recovery_entry sts ts \<and>
    distinct (map ts_task_id sts) \<and>
    (\<forall>k. recoverable_in (app_store a') k = recoverable_in (app_store a) k) \<and>
    (\<forall>k. \<not> recoverable_in (app_store a) k \<longrightarrow>
       sqlite_Get None (app_store a') k = sqlite_Get None (app_store a) k)"
proof -
  from sql_store.recoverable [OF assms(4)] assms(5) have d: "distinct (map ts_task_id sts)"
    and s: "\<forall>st \<in> set sts. \<not> IsTerminalTaskStatus (ts_status st)"
    using recoverable_not_terminal by auto
  have ids: "ts_task_id ` set sts = {k. recoverable_in (app_store a) k}"
    using assms(4,5) by (rule ListRecoverable_in)
  have "RecoverTasksOnStartup env a = (None, recover_loop env [] sts a)"
    using assms(3,5) by (simp add: RecoverTasksOnStartup_def no_db_faults_def)
  with recover_loop_spec [OF assms(1,2,3,4) d _ s, of "[]"] ids d show ?thesis by auto
qed

definition sample_env :: "((string \<times> message) list) app_env" where
  "sample_env = \<lparr>env_enqueue = (\<lambda>q m w. (if q = ''task.t2'' then Some (errorf ''down'') else None, w @ [(q, m)])),
     env_publish = (\<lambda>t m w. (None, w)), env_spawn = (\<lambda>ty n w. (Inr 7, w)), env_db_fault = (\<lambda>w. None),
     env_now_ns = (\<lambda>w. 5000000000), env_jerr = (\<lambda>s. s), env_rng = (\<lambda>xs. xs)\<rparr>"

definition sample_task :: "string \<Rightarrow> string \<Rightarrow> task_state" where
  "sample_task i s = \<lparr>ts_task_id = i, ts_parent_task_id = [], ts_agent_name = ''coder'', ts_status = s,
     ts_updated_at_unix = 1, ts_error_message = []\<rparr>"

definition sample_app :: "((string \<times> message) list) app" where
  "sample_app = \<lparr>app_store = map row_of [sample_task ''t1'' ''running'', sample_task ''t2'' ''pending'', sample_task ''t3'' ''failed''],
     app_workflows = [], app_nonces = [], app_world = []\<rparr>"

theorem recovery_restarts_every_task_once_witness:
  "\<exists>a' ts. RecoverTasksOnStartup sample_env sample_app = (None, a') \<and> length ts = 2 \<and>
    app_world a' = map2 recovery_entry
      [sample_task ''t1'' ''running'', sample_task ''t2'' ''pending''] ts \<and> recoverable_in (app_store a') ''t2''"
proof -
  have "queue_log sample_env (\<lambda>w. w)" "is_range (env_rng sample_env)" "no_db_faults sample_env"
    "sqlite_schema (app_store sample_app)"
    "sqlite_ListRecoverable None (app_store sample_app) = Inr [sample_task ''t1'' ''running'', sample_task ''t2'' ''pending'']"
    "app_world sample_app = []" "recoverable_in (app_store sample_app) ''t2''"
    by (simp_all add: queue_log_def sample_env_def is_range_id no_db_faults_def sqlite_schema_def sample_app_def
        sqlite_ListRecoverable_def row_of_def scan_row_def null_string_def sample_task_def recoverable_in_def sqlite_Get_def)
  note h = this
  from recovery_restarts_every_task_once [OF h(1-5)] obtain a' ts where
    r: "RecoverTasksOnStartup sample_env sample_app = (None, a')" "length ts = 2"
      "app_world a' = map2 recovery_entry [sample_task ''t1'' ''running'', sample_task ''t2'' ''pending''] ts"
      "recoverable_in (app_store a') ''t2''"
    using h(6,7) by (auto simp: numeral_2_eq_2)
  then show ?thesis by blast
qed

section \<open>Results\<close>

lemma single_marks:
  assumes "NodeState wfl n = Some NodeStateRunning" "wf_dag wfl = wf_dag (fst (AddTask NewWorkflow n ty []))" "is_range rng"
  shows "\<exists>wfl'. MarkNodeCompleted rng cb x wfl n = (x, wfl', None) \<and> NodeState wfl' n = Some NodeStateCompleted \<and> wf_dag wfl' = wf_dag wfl"
    and "\<exists>wfl'. MarkNodeFailed wfl n = (wfl', None) \<and> NodeState wfl' n = Some NodeStateFailed \<and> wf_dag wfl' = wf_dag wfl"
proof -
  have "Dependents (wf_dag wfl) n = []"
    using assms(2) by (simp add: AddTask_def NewWorkflow_def NewDAG_def AddNode_def Dependents_def Let_def)
  moreover have "rng [] = []" using is_range_set [OF assms(3), of "[]"] by (simp only: list.set(1) set_empty)
  ultimately show "\<exists>wfl'. MarkNodeCompleted rng cb x wfl n = (x, wfl', None) \<and> NodeState wfl' n = Some NodeStateCompleted \<and> wf_dag wfl' = wf_dag wfl"
    using assms(1) by (simp add: MarkNodeCompleted_def NodeState_def Transition_mark(1) State_def update_conv')
  show "\<exists>wfl'. MarkNodeFailed wfl n = (wfl', None) \<and> NodeState wfl' n = Some NodeStateFailed \<and> wf_dag wfl' = wf_dag wfl"
    using assms(1) by (simp add: MarkNodeFailed_def Let_def NodeState_def Transition_mark(1) State_def update_conv')
qed

lemma handle_result_store:
  assumes "no_db_faults env"
  shows "\<exists>t. app_store (handle_result env msg a) =
    upsert \<lparr>ts_task_id = tr_task_id (decode_result (msg_payload msg)),
      ts_parent_task_id = tr_parent_task_id (decode_result (msg_payload msg)),
      ts_agent_name = tr_agent_name (decode_result (msg_payload msg)),
      ts_status = NormalizeTaskStatus (tr_status (decode_result (msg_payload msg))), ts_updated_at_unix = t,
      ts_error_message = tr_error (decode_result (msg_payload msg))\<rparr> (app_store a)"
  by (auto simp: handle_result_def Let_def app_save_ok [OF assms] mark_result_def split: option.splits prod.splits)

lemma handle_result_workflow:
  assumes "is_range (env_rng env)" "no_db_faults env" "decode_result (msg_payload msg) = res"
    and "map_of (app_workflows a) (tr_task_id res) = Some wfl" "NodeState wfl (tr_task_id res) = Some NodeStateRunning"
    and "wf_dag wfl = wf_dag (fst (AddTask NewWorkflow (tr_task_id res) ty []))"
  shows "\<exists>wfl'. map_of (app_workflows (handle_result env msg a)) (tr_task_id res) = Some wfl' \<and>
    NodeState wfl' (tr_task_id res) =
      Some (if IsSuccessfulTaskStatus (NormalizeTaskStatus (tr_status res)) then NodeStateCompleted else NodeStateFailed)"
proof -
  note single_marks(1) [OF assms(5,6,1), of "OnNodeReady env" "app_world a"]
  moreover note single_marks(2) [OF assms(5,6,1)]
  ultimately show ?thesis
    using assms(3,4) by (auto simp: handle_result_def Let_def app_save_ok [OF assms(2)] mark_result_def)
qed

text \<open>
  The life of a task: once it has been enqueued and started without error, a result message for
  it settles it. Its workflow node becomes completed if the reported status normalises to success and
  failed otherwise, the stored status is the normalised one with the reported error, and a terminal
  status takes the task off the recovery list.
\<close>

lemma result_settles_started_task:
  assumes "is_range (env_rng env)" "no_db_faults env" "sqlite_schema (app_store a)"
    and "enqueueAndStartTask env msg a = (None, a1)"
    and "decode_result (msg_payload rmsg) = res" "tr_task_id res = msg_message_id msg"
  shows "\<exists>wfl st. recoverable_in (app_store a1) (msg_message_id msg) \<and>
    map_of (app_workflows (handle_result env rmsg a1)) (msg_message_id msg) = Some wfl \<and>
    NodeState wfl (msg_message_id msg) =
      Some (if IsSuccessfulTaskStatus (tr_status res) then NodeStateCompleted else NodeStateFailed) \<and>
    sqlite_Get None (app_store (handle_result env rmsg a1)) (msg_message_id msg) = Inr st \<and>
    ts_status st = NormalizeTaskStatus (tr_status res) \<and> ts_error_message st = tr_error res \<and>
    recoverable_in (app_store (handle_result env rmsg a1)) (msg_message_id msg) = (\<not> IsTerminalTaskStatus (tr_status res))"
proof -
  from enqueue_store [OF assms(2,4)] obtain t where
    s1: "app_store a1 = upsert (state_of_msg msg (agent_type_of msg) ''running'' t []) (app_store a)" by auto
  then have sch: "sqlite_schema (app_store a1)" using assms(3) by (simp add: upsert_schema)
  have r1: "recoverable_in (app_store a1) (msg_message_id msg)"
    using s1 assms(3) by (simp add: recoverable_in_upsert)
  from enqueue_workflow [OF assms(1,2,4)] obtain wfl where w1:
    "map_of (app_workflows a1) (tr_task_id res) = Some wfl" "NodeState wfl (tr_task_id res) = Some NodeStateRunning"
    "wf_dag wfl = wf_dag (fst (AddTask NewWorkflow (tr_task_id res) (agent_type_of msg) []))"
    unfolding assms(6) by blast
  have norm: "NormalizeTaskStatus (NormalizeTaskStatus x) = NormalizeTaskStatus x" for x
    by (rule normalize_fixed) (rule normalize_in)
  have suc: "IsSuccessfulTaskStatus (NormalizeTaskStatus x) = IsSuccessfulTaskStatus x"
    "NormalizeTaskStatus x \<in> {''pending'', ''running''} \<longleftrightarrow> \<not> IsTerminalTaskStatus x" for x
    by (auto simp: IsSuccessfulTaskStatus_def norm IsTerminalTaskStatus_def TaskStatusPending_def TaskStatusRunning_def)
  from handle_result_store [OF assms(2), of rmsg a1] obtain t2 st0 where s2:
    "app_store (handle_result env rmsg a1) = upsert st0 (app_store a1)" "ts_task_id st0 = msg_message_id msg"
    "ts_status st0 = NormalizeTaskStatus (tr_status res)" "ts_error_message st0 = tr_error res"
    using assms(5,6) by auto
  from upsert_Get_self [OF sch, of st0] obtain st where
    "sqlite_Get None (upsert st0 (app_store a1)) (ts_task_id st0) = Inr st" "same_outcome st st0" by blast
  with handle_result_workflow [OF assms(1,2,5) w1] s2 r1 recoverable_in_upsert [OF sch, of st0 "msg_message_id msg"] show ?thesis
    unfolding assms(6) suc by (auto simp: same_outcome_def suc simp flip: suc(2))
qed

lemma find_task_result_field [simp]:
  "find_field task_result_fields ''task_id'' = Some (dec_str (\<lambda>x. tr_task_id_update (\<lambda>_. x)))"
  "find_field task_result_fields ''agent_name'' = Some (dec_str (\<lambda>x. tr_agent_name_update (\<lambda>_. x)))"
  "find_field task_result_fields ''status'' = Some (dec_str (\<lambda>x. tr_status_update (\<lambda>_. x)))"
  "find_field task_result_fields ''output'' = Some (dec_raw (\<lambda>x. tr_output_update (\<lambda>_. x)))"
  "find_field task_result_fields ''error'' = Some (dec_str (\<lambda>x. tr_error_update (\<lambda>_. x)))"
  by (simp_all add: find_field_def task_result_fields_def has_prefix_def upper_char_def Let_def)

lemma decode_result_print:
  assumes "json_ok max_nesting (JObj ms)"
  shows "decode_result (json_print (JObj ms)) =
    dec_members_lenient task_result_fields (map (\<lambda>(k, v). (k, json_print v)) ms) zero_task_result"
proof -
  have "list_all (\<lambda>(k, v). utf8_valid k \<and> json_ok max_nesting v) ms"
    using assms json_ok_mono [of "max_nesting - 1" _ max_nesting] by (auto simp: list_all_iff)
  from obj_members_print [OF this] json_valid_print [OF assms] show ?thesis
    by (simp add: decode_result_def)
qed

section \<open>Approvals\<close>

text \<open>
  C8. With a configured secret the approval webhook acts only on authenticated requests: if it answers
  200 or publishes anything, the request was a POST whose signature, timestamp and nonce verified
  against the nonces seen so far, and whose body is one valid decision. In every case tasks and
  workflows are untouched, and a rejected request changes nothing but the nonce store.
\<close>

theorem approval_webhook_authenticated:
  assumes "secret \<noteq> []" "handleApproval hmac env secret r a = (reply, a')"
  shows "app_store a' = app_store a \<and> app_workflows a' = app_workflows a \<and>
    (reply_status reply = 200 \<or> app_world a' \<noteq> app_world a \<longrightarrow>
      wr_method r = ''POST'' \<and>
      (\<exists>body d rest. wr_body r = Inr body \<and>
        VerifyWebhookSignature hmac (wr_headers r) body secret (Some (app_nonces a)) (env_now_ns env (app_world a)) =
          (None, Some (app_nonces a')) \<and>
        decode_first (dec_struct True decision_fields) zero_decision body = Some (d, rest) \<and>
        ad_task_id d \<noteq> [] \<and> ad_tool_call_id d \<noteq> [] \<and> 0 \<le> ad_decided_at_ms d))"
proof (cases "wr_method r = ''POST''")
  case False
  with assms show ?thesis by (auto simp: handleApproval_def http_Error_def)
next
  case True
  show ?thesis
  proof (cases "wr_body r")
    case (Inl e)
    with assms True show ?thesis by (auto simp: handleApproval_def http_Error_def)
  next
    case (Inr body)
    obtain err store where v: "VerifyWebhookSignature hmac (wr_headers r) body secret (Some (app_nonces a))
        (env_now_ns env (app_world a)) = (err, store)" by force
    show ?thesis
    proof (cases err)
      case (Some e)
      with assms True Inr v show ?thesis by (auto simp: handleApproval_def error_reply_def split: if_splits)
    next
      case None
      from verify_accepts [OF v [unfolded None]] obtain st where st: "store = Some st" by blast
      show ?thesis
      proof (cases "decode_first (dec_struct True decision_fields) zero_decision body")
        case None
        with \<open>err = None\<close> assms True Inr v show ?thesis by (auto simp: handleApproval_def http_Error_def)
      next
        case (Some dr)
        then obtain d rest where dr: "decode_first (dec_struct True decision_fields) zero_decision body = Some (d, rest)"
          by (cases dr) auto
        have r: "accept_decision env d (a\<lparr>app_nonces := st\<rparr>) = (reply, a')"
          using assms True Inr v \<open>err = None\<close> st dr by (simp add: handleApproval_def)
        have "app_store a' = app_store a \<and> app_workflows a' = app_workflows a \<and> app_nonces a' = st \<and>
          (reply_status reply = 200 \<or> app_world a' \<noteq> app_world a \<longrightarrow> ad_task_id d \<noteq> [] \<and> ad_tool_call_id d \<noteq> [] \<and> 0 \<le> ad_decided_at_ms d)"
          using r
          by (auto simp: accept_decision_def Let_def http_Error_def ApprovalDecision_Validate_def
              split: option.splits prod.splits if_splits)
        with True Inr v \<open>err = None\<close> st dr show ?thesis by auto
      qed
    qed
  qed
qed

text \<open>The wire form of a decision.\<close>

definition decision_json :: "approval_decision \<Rightarrow> (string \<times> json) list" where
  "decision_json d = [(''trace_id'', JStr (ad_trace_id d)), (''task_id'', JStr (ad_task_id d)),
     (''tool_call_id'', JStr (ad_tool_call_id d)), (''approved'', JBool (ad_approved d)),
     (''reviewer'', JStr (ad_reviewer d)), (''reason'', JStr (ad_reason d)),
     (''decided_at_ms'', JNum (format_int (ad_decided_at_ms d)))]"

definition decision_wire_ok :: "approval_decision \<Rightarrow> bool" where
  "decision_wire_ok d = (list_all utf8_valid [ad_trace_id d, ad_task_id d, ad_tool_call_id d, ad_reviewer d, ad_reason d] \<and>
     ad_decided_at_ms d \<le> int64_max \<and> ApprovalDecision_Validate d = None)"

lemma marshal_decision_json: "marshal_decision d = json_print (JObj (decision_json d))"
  by (simp add: marshal_decision_def decision_json_def bool_text_def)

lemma decision_json_ok: "decision_wire_ok d \<Longrightarrow> json_ok max_nesting (JObj (decision_json d))"
  by (simp add: decision_json_def decision_wire_ok_def num_ok_format_int max_nesting_def)

lemma decode_decision:
  assumes "decision_wire_ok d"
  shows "dec_struct strict decision_fields (marshal_decision d) zero_decision = Some d"
proof -
  have b: "dec_bool upd (if x then ''true'' else ''false'') a = Some (upd x a)"
    for x and upd :: "bool \<Rightarrow> approval_decision \<Rightarrow> approval_decision" and a
    using json_parse_print [of "JBool x"] by (cases x) (simp_all add: dec_bool_def)
  have "0 < ad_decided_at_ms d"
    using assms by (auto simp: decision_wire_ok_def ApprovalDecision_Validate_def split: if_splits)
  then have "dec_int64 upd (format_int (ad_decided_at_ms d)) a = Some (upd (ad_decided_at_ms d) a)"
    for upd :: "int \<Rightarrow> approval_decision \<Rightarrow> approval_decision" and a
    using assms by (intro dec_int64_format) (simp_all add: int64_min_def decision_wire_ok_def)
  with assms decision_json_ok [OF assms] show ?thesis
    unfolding marshal_decision_json
    by (subst dec_struct_print) (simp_all add: decision_json_def decision_wire_ok_def dec_str_quote b zero_decision_def)
qed

lemma consume_marshal_decision:
  assumes "decision_wire_ok d"
  shows "consume_decision (marshal_decision d) = Some d"
  using decode_decision [OF assms, of False] assms json_valid_print [OF decision_json_ok [OF assms]]
  by (simp add: consume_decision_def unmarshal_def decision_wire_ok_def marshal_decision_json)

definition signed_headers :: "string \<Rightarrow> int \<Rightarrow> string \<Rightarrow> webhook_headers" where
  "signed_headers nonce ts body = \<lparr>wh_signature = GenerateSignature xor_hmac ''key'' ts nonce body,
     wh_timestamp = format_int ts, wh_nonce = nonce\<rparr>"

definition sample_request :: webhook_request where
  "sample_request = \<lparr>wr_method = ''POST'', wr_headers = signed_headers ''n1'' 5 (marshal_decision sample_adec),
     wr_body = Inr (marshal_decision sample_adec)\<rparr>"

lemma sample_adec_wire: "decision_wire_ok sample_adec"
  by (simp add: decision_wire_ok_def sample_adec_def ApprovalDecision_Validate_def int64_max_def)

lemma sample_request_accepted:
  "handleApproval xor_hmac sample_env ''key'' sample_request sample_app =
     accept_decision sample_env sample_adec (sample_app\<lparr>app_nonces := [(''n1'', 5 * second + nonceTTL)]\<rparr>)"
proof -
  have "VerifyWebhookSignature xor_hmac (signed_headers ''n1'' 5 (marshal_decision sample_adec)) (marshal_decision sample_adec)
      ''key'' (Some []) (5 * second) = (None, Some [(''n1'', 5 * second + nonceTTL)])"
    using signed_verifies [of "''n1''" "5 * second" 5 "[]" xor_hmac "''key''" "marshal_decision sample_adec"]
    by (simp add: signed_headers_def unix_def second_def sweep_def int64_min_def int64_max_def)
  moreover have "decode_first (dec_struct True decision_fields) zero_decision (marshal_decision sample_adec) = Some (sample_adec, [])"
    using decode_first_print [OF decision_json_ok [OF sample_adec_wire], of "dec_struct True decision_fields" zero_decision]
      decode_decision [OF sample_adec_wire, of True]
    by (simp only: marshal_decision_json option.map)
  ultimately show ?thesis
    by (simp add: handleApproval_def sample_request_def sample_env_def sample_app_def second_def)
qed

theorem approval_webhook_authenticated_witness:
  "\<exists>reply a'. handleApproval xor_hmac sample_env ''key'' sample_request sample_app = (reply, a') \<and> reply_status reply = 200 \<and>
    (\<exists>body. wr_body sample_request = Inr body \<and>
      VerifyWebhookSignature xor_hmac (wr_headers sample_request) body ''key'' (Some (app_nonces sample_app))
        (env_now_ns sample_env (app_world sample_app)) = (None, Some (app_nonces a')))"
proof -
  obtain reply a' where r: "handleApproval xor_hmac sample_env ''key'' sample_request sample_app = (reply, a')" by force
  have "reply_status reply = 200"
    using r unfolding sample_request_accepted
    by (auto simp: accept_decision_def sample_adec_def ApprovalDecision_Validate_def Let_def split: prod.splits)
  with approval_webhook_authenticated [OF _ r] r show ?thesis by blast
qed

definition publish_log :: "'w app_env \<Rightarrow> ('w \<Rightarrow> (string \<times> message) list) \<Rightarrow> bool" where
  "publish_log env P = (\<forall>t m w. P (snd (env_publish env t m w)) = P w @ [(t, m)])"

lemma publish_log_audit:
  assumes "publish_log env P"
  shows "\<exists>rest. P (app_world (app_audit env e a)) = P (app_world a) @ rest"
  using assms [unfolded publish_log_def]
  by (auto simp: app_audit_def Record_def Let_def split: prod.splits option.splits) (metis snd_conv)+

text \<open>
  C28. A decision accepted by the webhook reaches the call of \<^verbatim>\<open>WaitDecision\<close> that waits for it: the
  message published on \<^verbatim>\<open>approvals\<close> passes the validation of the bus, and when the gate consumes its
  payload the waiter registered for this task, tool call and trace gets exactly this decision in its
  channel and leaves the list of waiters.
\<close>

theorem accepted_decision_reaches_waiter:
  assumes "decision_wire_ok d" "publish_log env P" "0 < now_unix_ms env a"
    and "assoc_get (approvalKey (ad_task_id d) (ad_tool_call_id d)) (ga_waiters g) = [w]"
    and "approvalTraceMatches (aw_trace_id w) (ad_trace_id d)" "map_of (ga_chans g) (aw_ch w) = None"
  shows "\<exists>a' m rest. accept_decision env d a = (\<lparr>reply_status = 200, reply_body = ''OK''\<rparr>, a') \<and>
    P (app_world a') = P (app_world a) @ (''approvals'', m) # rest \<and> Validate m = None \<and>
    map_of (ga_chans (gate_consume (msg_payload m) g)) (aw_ch w) = Some d \<and>
    assoc_get (approvalKey (ad_task_id d) (ad_tool_call_id d)) (ga_waiters (gate_consume (msg_payload m) g)) = []"
proof -
  let ?m = "approval_message d (now_unix_ms env a)"
  have v: "ApprovalDecision_Validate d = None" "ad_decided_at_ms d \<noteq> 0"
    using assms(1) by (auto simp: decision_wire_ok_def ApprovalDecision_Validate_def split: if_splits)
  obtain e w1 where p: "env_publish env ''approvals'' ?m (app_world a) = (e, w1)" by force
  have w1: "P w1 = P (app_world a) @ [(''approvals'', ?m)]" using assms(2) p by (metis publish_log_def snd_conv)
  obtain ev where acc: "accept_decision env d a =
      (\<lparr>reply_status = 200, reply_body = ''OK''\<rparr>, app_audit env ev (a\<lparr>app_world := w1\<rparr>))"
    using v p by (simp add: accept_decision_def Let_def)
  obtain rest where "P (app_world (app_audit env ev (a\<lparr>app_world := w1\<rparr>))) = P w1 @ rest"
    using publish_log_audit [OF assms(2), of ev "a\<lparr>app_world := w1\<rparr>"] by auto
  moreover have "Validate ?m = None"
    using assms(3) v(1) json_valid_print [OF decision_json_ok [OF assms(1)]]
    by (auto simp: Validate_def approval_message_def zero_message_def ApprovalDecision_Validate_def marshal_decision_json
        obj_text_def split: if_splits)
  moreover have "gate_consume (msg_payload ?m) g = routeDecision d g"
    using consume_marshal_decision [OF assms(1)] by (simp add: gate_consume_def approval_message_def)
  moreover have "map_of (ga_chans (routeDecision d g)) (aw_ch w) = Some d"
    "assoc_get (approvalKey (ad_task_id d) (ad_tool_call_id d)) (ga_waiters (routeDecision d g)) = []"
    using assms(4-6) by (simp_all add: routeDecision_def Let_def update_conv')
  ultimately show ?thesis using acc w1 by auto
qed

theorem accepted_decision_reaches_waiter_witness:
  "\<exists>a' m rest. accept_decision (sample_env\<lparr>env_publish := (\<lambda>t m w. (None, w @ [(t, m)]))\<rparr>) sample_adec sample_app =
      (\<lparr>reply_status = 200, reply_body = ''OK''\<rparr>, a') \<and>
    app_world a' = app_world sample_app @ (''approvals'', m) # rest \<and>
    map_of (ga_chans (gate_consume (msg_payload m)
      (addWaiter ''t:c'' \<lparr>aw_trace_id = ''tr'', aw_ch = 0\<rparr> (NewApprovalGate (Some None))))) 0 = Some sample_adec"
proof -
  let ?env = "sample_env\<lparr>env_publish := (\<lambda>t m w. (None, w @ [(t, m)]))\<rparr>"
  let ?g = "addWaiter ''t:c'' \<lparr>aw_trace_id = ''tr'', aw_ch = 0\<rparr> (NewApprovalGate (Some None))"
  have "publish_log ?env (\<lambda>w. w)" "0 < now_unix_ms ?env sample_app"
    "assoc_get (approvalKey (ad_task_id sample_adec) (ad_tool_call_id sample_adec)) (ga_waiters ?g) = [\<lparr>aw_trace_id = ''tr'', aw_ch = 0\<rparr>]"
    "approvalTraceMatches (aw_trace_id \<lparr>aw_trace_id = ''tr'', aw_ch = 0\<rparr>) (ad_trace_id sample_adec)"
    "map_of (ga_chans ?g) (aw_ch \<lparr>aw_trace_id = ''tr'', aw_ch = 0\<rparr>) = None"
    by (simp_all add: publish_log_def now_unix_ms_def sample_env_def addWaiter_def NewApprovalGate_def assoc_get_def
        approvalKey_def sample_adec_def approvalTraceMatches_def)
  from accepted_decision_reaches_waiter [OF sample_adec_wire this] show ?thesis by auto
qed

end
