(* ===== verification/Gateway_Stream.thy ===== *)
theory Gateway_Stream
  imports Process Llm_Runtime_Props
begin

text \<open>
  Package \<^verbatim>\<open>internal/gateway\<close>, streaming: SSE frames (\<^verbatim>\<open>sse_handler.go\<close>), the sinks and the \<^verbatim>\<open>Sender\<close> that
  routes chunks from the event bus to the sink of a task (\<^verbatim>\<open>sender.go\<close>), and the bridge that turns the
  SSE stream of a provider into chunks (\<^verbatim>\<open>publishProviderStream\<close> of \<^verbatim>\<open>chat_completions_handler.go\<close>).

  A connection is a number; writing to it is an argument that may fail. Flushing has no result and is
  not modelled. The event bus is \<open>None\<close> when it is nil.
\<close>

section \<open>SSE frames\<close>

definition eol :: char where "eol = CHR 0x0A"

record 'w gw_env =
  ge_write :: "nat \<Rightarrow> string \<Rightarrow> 'w \<Rightarrow> go_error option \<times> 'w"
  ge_events :: "(string \<Rightarrow> message \<Rightarrow> 'w \<Rightarrow> go_error option \<times> 'w) option"
  ge_now_ns :: "'w \<Rightarrow> int"
  ge_jerr :: "string \<Rightarrow> string"

definition WriteSSEFrame :: "'w gw_env \<Rightarrow> nat \<Rightarrow> string \<Rightarrow> string \<Rightarrow> 'w \<Rightarrow> go_error option \<times> 'w" where
  "WriteSSEFrame env c event data w =
     (let (err, w) = (if event \<noteq> [] then ge_write env c (''event: '' @ event @ [eol]) w else (None, w)) in
      case err of
        Some e \<Rightarrow> (Some e, w)
      | None \<Rightarrow> ge_write env c (''data: '' @ data @ [eol, eol]) w)"

definition WriteDoneFrame :: "'w gw_env \<Rightarrow> nat \<Rightarrow> 'w \<Rightarrow> go_error option \<times> 'w" where
  "WriteDoneFrame env c w = WriteSSEFrame env c ''done'' ''[DONE]'' w"

text \<open>The text of a frame.\<close>

definition frame_text :: "string \<Rightarrow> string \<Rightarrow> string" where
  "frame_text event data =
     (if event \<noteq> [] then ''event: '' @ event @ [eol] else []) @ ''data: '' @ data @ [eol, eol]"

section \<open>Chunks on the wire\<close>

definition marshal_chunk :: "stream_chunk \<Rightarrow> string option" where
  "marshal_chunk c =
     map_option (\<lambda>data. obj_text
       ([(''trace_id'', quote (sc_trace_id c)), (''session_id'', quote (sc_session_id c)), (''task_id'', quote (sc_task_id c)),
         (''sequence'', format_int (sc_sequence c)), (''event'', quote (sc_event c))] @
        omit_empty ''delta'' (sc_delta c) @ omit_empty ''role'' (sc_role c) @ omit_empty ''tool_name'' (sc_tool_name c) @
        [(''done'', bool_text (sc_done c))] @ omit_empty ''error'' (sc_error c) @ data @
        [(''timestamp_ms'', format_int (sc_timestamp_ms c))]))
      (if sc_data c = [] then Some [] else map_option (\<lambda>d. [(''data'', d)]) (marshal_raw (sc_data c)))"

definition chunk_fields :: "(string \<times> stream_chunk decoder) list" where
  "chunk_fields =
     [(''trace_id'', dec_str (\<lambda>x. sc_trace_id_update (\<lambda>_. x))),
      (''session_id'', dec_str (\<lambda>x. sc_session_id_update (\<lambda>_. x))),
      (''task_id'', dec_str (\<lambda>x. sc_task_id_update (\<lambda>_. x))),
      (''sequence'', dec_int64 (\<lambda>x. sc_sequence_update (\<lambda>_. x))),
      (''event'', dec_str (\<lambda>x. sc_event_update (\<lambda>_. x))),
      (''delta'', dec_str (\<lambda>x. sc_delta_update (\<lambda>_. x))),
      (''role'', dec_str (\<lambda>x. sc_role_update (\<lambda>_. x))),
      (''tool_name'', dec_str (\<lambda>x. sc_tool_name_update (\<lambda>_. x))),
      (''done'', dec_bool (\<lambda>x. sc_done_update (\<lambda>_. x))),
      (''error'', dec_str (\<lambda>x. sc_error_update (\<lambda>_. x))),
      (''data'', dec_raw (\<lambda>x. sc_data_update (\<lambda>_. x))),
      (''timestamp_ms'', dec_int64 (\<lambda>x. sc_timestamp_ms_update (\<lambda>_. x)))]"

definition zero_chunk :: stream_chunk where
  "zero_chunk = \<lparr>sc_trace_id = [], sc_session_id = [], sc_task_id = [], sc_sequence = 0, sc_event = [], sc_delta = [],
     sc_role = [], sc_tool_name = [], sc_done = False, sc_error = [], sc_data = [], sc_timestamp_ms = 0\<rparr>"

definition decode_chunk :: "string \<Rightarrow> stream_chunk option" where
  "decode_chunk payload = unmarshal (dec_struct False chunk_fields) zero_chunk payload"

text \<open>\<^verbatim>\<open>data, _ := json.Marshal(chunk)\<close>: an error leaves no bytes.\<close>

definition chunk_bytes :: "stream_chunk \<Rightarrow> string" where
  "chunk_bytes c = (case marshal_chunk c of None \<Rightarrow> [] | Some s \<Rightarrow> s)"

section \<open>Sinks\<close>

datatype sink = SSEStreamSink nat | ChatCompletionStreamSink nat

definition SSE_WriteChunk :: "'w gw_env \<Rightarrow> nat \<Rightarrow> stream_chunk \<Rightarrow> 'w \<Rightarrow> go_error option \<times> 'w" where
  "SSE_WriteChunk env c chunk w = WriteSSEFrame env c (sc_event chunk) (chunk_bytes chunk) w"

definition SSE_Close :: "'w gw_env \<Rightarrow> nat \<Rightarrow> 'w \<Rightarrow> go_error option \<times> 'w" where
  "SSE_Close env c w = WriteDoneFrame env c w"

definition Chat_WriteChunk :: "'w gw_env \<Rightarrow> nat \<Rightarrow> stream_chunk \<Rightarrow> 'w \<Rightarrow> go_error option \<times> 'w" where
  "Chat_WriteChunk env c chunk w =
     (if sc_event chunk = ''delta'' then
        (if length (sc_data chunk) > 0 then WriteSSEFrame env c [] (sc_data chunk) w
         else WriteSSEFrame env c [] (obj_text [(''content'', quote (sc_delta chunk))]) w)
      else if sc_event chunk = ''final'' then (None, w)
      else if sc_event chunk \<in> {''error'', ''timeout'', ''cancelled''} then
        let data = (if length (sc_data chunk) = 0 then obj_text [(''error'', quote (sc_error chunk))] else sc_data chunk) in
        WriteSSEFrame env c ''error'' data w
      else WriteSSEFrame env c (sc_event chunk) (chunk_bytes chunk) w)"

definition Chat_Close :: "'w gw_env \<Rightarrow> nat \<Rightarrow> 'w \<Rightarrow> go_error option \<times> 'w" where
  "Chat_Close env c w = WriteDoneFrame env c w"

fun sink_WriteChunk :: "'w gw_env \<Rightarrow> sink \<Rightarrow> stream_chunk \<Rightarrow> 'w \<Rightarrow> go_error option \<times> 'w" where
  "sink_WriteChunk env (SSEStreamSink c) = SSE_WriteChunk env c"
| "sink_WriteChunk env (ChatCompletionStreamSink c) = Chat_WriteChunk env c"

fun sink_Close :: "'w gw_env \<Rightarrow> sink \<Rightarrow> 'w \<Rightarrow> go_error option \<times> 'w" where
  "sink_Close env (SSEStreamSink c) = SSE_Close env c"
| "sink_Close env (ChatCompletionStreamSink c) = Chat_Close env c"

section \<open>The sender\<close>

type_synonym sinks = "(string \<times> sink) list"

definition RegisterSink :: "string \<Rightarrow> sink \<Rightarrow> sinks \<Rightarrow> sinks" where
  "RegisterSink taskID sink s = AList.update taskID sink s"

definition UnregisterSink :: "string \<Rightarrow> sinks \<Rightarrow> sinks" where
  "UnregisterSink taskID s = AList.delete taskID s"

definition HasSink :: "string \<Rightarrow> sinks \<Rightarrow> bool" where
  "HasSink taskID s = (map_of s taskID \<noteq> None)"

definition ge_now_ms :: "'w gw_env \<Rightarrow> 'w \<Rightarrow> int" where
  "ge_now_ms env w = ge_now_ns env w div 1000000"

definition chunk_message :: "stream_chunk \<Rightarrow> string \<Rightarrow> message" where
  "chunk_message chunk payload =
     zero_message\<lparr>msg_message_id := ''chunk.'' @ sc_task_id chunk @ ''.'' @ format_int (sc_sequence chunk),
       msg_sender_id := ''gateway.sender'', msg_receiver_id := ''sender'', msg_payload := payload,
       msg_timestamp := sc_timestamp_ms chunk\<rparr>"

definition PublishChunk :: "'w gw_env \<Rightarrow> stream_chunk \<Rightarrow> 'w \<Rightarrow> go_error option \<times> 'w" where
  "PublishChunk env chunk w =
     (case ge_events env of
        None \<Rightarrow> (None, w)
      | Some publish \<Rightarrow>
          if sc_task_id chunk = [] then (Some (errorf ''task_id is required''), w)
          else let chunk = (if sc_timestamp_ms chunk = 0 then chunk\<lparr>sc_timestamp_ms := ge_now_ms env w\<rparr> else chunk) in
            (case marshal_chunk chunk of
               None \<Rightarrow> (Some (errorf (ge_jerr env (sc_data chunk))), w)
             | Some payload \<Rightarrow>
                 (case publish (''chunks.'' @ sc_task_id chunk) (chunk_message chunk payload) w of
                    (Some err, w) \<Rightarrow> (Some err, w)
                  | (None, w) \<Rightarrow>
                      Record (ge_jerr env) (Some publish) ''gateway.sender'' (ge_now_ms env w)
                        (zero_audit_event\<lparr>au_trace_id := sc_trace_id chunk, au_session_id := sc_session_id chunk,
                           au_task_id := sc_task_id chunk, au_event := sc_event chunk, au_actor := ''gateway.sender'',
                           au_error := sc_error chunk, au_data := sc_data chunk,
                           au_timestamp_ms := sc_timestamp_ms chunk\<rparr>) w)))"

definition recordAbortedStream :: "'w gw_env \<Rightarrow> stream_chunk \<Rightarrow> go_error \<Rightarrow> 'w \<Rightarrow> 'w" where
  "recordAbortedStream env chunk cause w =
     snd (Record (ge_jerr env) (ge_events env) ''gateway.sender'' (ge_now_ms env w)
       (zero_audit_event\<lparr>au_trace_id := sc_trace_id chunk, au_session_id := sc_session_id chunk,
          au_task_id := sc_task_id chunk, au_event := ''aborted_stream'', au_actor := ''gateway.sender'',
          au_status := (if sc_done chunk then ''done'' else ''aborted''), au_error := err_msg cause,
          au_data := obj_text [(''done'', bool_text (sc_done chunk)), (''sequence'', format_int (sc_sequence chunk)),
             (''sink_error'', quote (err_msg cause)), (''stream_event'', quote (sc_event chunk))],
          au_timestamp_ms := ge_now_ms env w\<rparr>) w)"

text \<open>One message of the loop of \<^verbatim>\<open>Sender.Start\<close>, run to its end.\<close>

definition sender_receive :: "'w gw_env \<Rightarrow> string \<Rightarrow> sinks \<times> 'w \<Rightarrow> sinks \<times> 'w" where
  "sender_receive env payload st =
     (let (s, w) = st in
      case decode_chunk payload of
        None \<Rightarrow> (s, w)
      | Some chunk \<Rightarrow>
          (case map_of s (sc_task_id chunk) of
             None \<Rightarrow> (s, w)
           | Some sink \<Rightarrow>
               (case sink_WriteChunk env sink chunk w of
                  (Some err, w) \<Rightarrow> (UnregisterSink (sc_task_id chunk) s, recordAbortedStream env chunk err w)
                | (None, w) \<Rightarrow>
                    if sc_done chunk then (UnregisterSink (sc_task_id chunk) s, snd (sink_Close env sink w))
                    else (s, w))))"

section \<open>The stream of a provider\<close>

text \<open>
  \<^verbatim>\<open>bufio.Scanner\<close> with \<^verbatim>\<open>ScanLines\<close> and a buffer limit of 1 MiB: lines without their end of line (one
  carriage return before it is dropped too); a line that fills the buffer stops the scan with
  \<^verbatim>\<open>ErrTooLong\<close>. A stream is the text that can be read and the error that ends it, if any; what was
  read before an error is still scanned.
\<close>

definition max_token :: nat where "max_token = 1048576"

definition drop_cr :: "string \<Rightarrow> string" where
  "drop_cr l = (if l \<noteq> [] \<and> last l = CHR 0x0D then butlast l else l)"

function scan_lines :: "string \<Rightarrow> string list \<times> bool" where
  "scan_lines s =
     (if s = [] then ([], False)
      else let line = takeWhile (\<lambda>c. c \<noteq> eol) s in
           if max_token \<le> length line then ([], True)
           else case dropWhile (\<lambda>c. c \<noteq> eol) s of
                  [] \<Rightarrow> ([drop_cr line], False)
                | _ # rest \<Rightarrow> let (ls, long) = scan_lines rest in (drop_cr line # ls, long))"
  by pat_completeness auto
termination
proof (relation "measure length", goal_cases)
  case 1
  show ?case by simp
next
  case (2 s line c rest)
  then show ?case using length_dropWhile_le [of "\<lambda>c. c \<noteq> eol" s] by simp
qed

declare scan_lines.simps [simp del]

record provider_stream =
  ps_text :: string
  ps_err :: "go_error option"

definition ErrTooLong :: go_error where
  "ErrTooLong = errorf ''bufio.Scanner: token too long''"

definition scanner_Err :: "provider_stream \<Rightarrow> go_error option" where
  "scanner_Err st = (if snd (scan_lines (ps_text st)) then Some ErrTooLong else ps_err st)"

record stream_envelope =
  pe_error_message :: string
  pe_choices :: "string list"

definition envelope_fields :: "(string \<times> stream_envelope decoder) list" where
  "envelope_fields =
     [(''error'', dec_struct False [(''message'', dec_str (\<lambda>x. pe_error_message_update (\<lambda>_. x)))]),
      (''choices'', dec_slice (dec_struct False [(''delta'', dec_struct False [(''content'', dec_str (\<lambda>x _. x))])]) []
         pe_choices (\<lambda>x. pe_choices_update (\<lambda>_. x)))]"

text \<open>The delta and the error message of a payload.\<close>

definition parseProviderStreamPayload :: "(string \<Rightarrow> string) \<Rightarrow> string \<Rightarrow> (string \<times> string) res" where
  "parseProviderStreamPayload jerr raw =
     (case unmarshal (dec_struct False envelope_fields) \<lparr>pe_error_message = [], pe_choices = []\<rparr> raw of
        None \<Rightarrow> Inl (errorf (''invalid provider stream payload: '' @ jerr raw))
      | Some p \<Rightarrow>
          if pe_error_message p \<noteq> [] then Inr ([], pe_error_message p)
          else case pe_choices p of [] \<Rightarrow> Inr ([], []) | d # _ \<Rightarrow> Inr (d, []))"

text \<open>\<^verbatim>\<open>if fanout != nil { return fanout.Emit...(...) }; return nil\<close>\<close>

definition notify_err :: "(fanout \<Rightarrow> 'w run_state \<Rightarrow> go_error option \<times> 'w run_state) \<Rightarrow> 'w run_state \<Rightarrow>
    go_error option \<times> 'w run_state" where
  "notify_err op s = (case rs_fanout s of None \<Rightarrow> (None, s) | Some f \<Rightarrow> op f s)"

definition EmitDelta :: "'w runtime \<Rightarrow> string \<Rightarrow> string \<Rightarrow> fanout \<Rightarrow> 'w run_state \<Rightarrow> go_error option \<times> 'w run_state" where
  "EmitDelta r delta payload f s =
     (let (chunk, f') = NewChunk f ''delta'' (now_ms r s) in
      Emit r f' (chunk\<lparr>sc_role := ''assistant'', sc_delta := delta, sc_data := payload\<rparr>) (s\<lparr>rs_fanout := Some f'\<rparr>))"

definition frame_payload :: "string list \<Rightarrow> string" where
  "frame_payload dataLines = trim_space (join [eol] dataLines)"

text \<open>The closure \<^verbatim>\<open>flushFrame\<close>: error, content so far and state; the collected lines are dropped.\<close>

definition flushFrame :: "'w runtime \<Rightarrow> string list \<Rightarrow> string \<Rightarrow> 'w run_state \<Rightarrow>
    go_error option \<times> string \<times> 'w run_state" where
  "flushFrame r dataLines content s =
     (if length dataLines = 0 then (None, content, s)
      else let payload = frame_payload dataLines in
        if payload = [] then (None, content, s)
        else if payload = ''[DONE]'' then
          let (err, s) = notify_err (EmitFinal r content) s in (err, content, s)
        else case parseProviderStreamPayload (rn_jerr r) payload of
          Inl err \<Rightarrow> (Some err, content, notify (EmitError r (err_msg err)) s)
        | Inr (delta, streamErr) \<Rightarrow>
            if streamErr \<noteq> [] then (Some (errorf streamErr), content, notify (EmitError r streamErr) s)
            else let content = content @ delta;
                     (err, s) = notify_err (EmitDelta r delta payload) s in (err, content, s))"

text \<open>The loop over the lines and what follows it; \<open>ctx\<close> is what \<^verbatim>\<open>ctx.Err()\<close> returns in a world.\<close>

fun stream_loop :: "('w \<Rightarrow> go_ctx) \<Rightarrow> 'w runtime \<Rightarrow> go_error option \<Rightarrow> string list \<Rightarrow> string list \<Rightarrow> string \<Rightarrow>
    'w run_state \<Rightarrow> go_error option \<times> 'w run_state" where
  "stream_loop ctx r scan_err [] dataLines content s =
     (case scan_err of
        Some err \<Rightarrow> (Some err, notify (EmitError r (err_msg err)) s)
      | None \<Rightarrow>
          (case flushFrame r dataLines content s of
             (Some err, _, s) \<Rightarrow> (Some err, s)
           | (None, content, s) \<Rightarrow> notify_err (EmitFinal r content) s))"
| "stream_loop ctx r scan_err (line # rest) dataLines content s =
     (case ctx (rs_world s) of
        Some err \<Rightarrow> (Some err, notify (EmitCancelled r (err_msg err)) s)
      | None \<Rightarrow>
          if trim_space line = [] then
            (case flushFrame r dataLines content s of
               (Some err, _, s) \<Rightarrow> (Some err, s)
             | (None, content, s) \<Rightarrow> stream_loop ctx r scan_err rest [] content s)
          else if has_prefix line ''data:'' then
            stream_loop ctx r scan_err rest (dataLines @ [trim_space (trim_prefix line ''data:'')]) content s
          else stream_loop ctx r scan_err rest dataLines content s)"

definition publishProviderStream :: "('w \<Rightarrow> go_ctx) \<Rightarrow> 'w runtime \<Rightarrow> provider_stream \<Rightarrow> 'w run_state \<Rightarrow>
    go_error option \<times> 'w run_state" where
  "publishProviderStream ctx r st s =
     stream_loop ctx r (scanner_Err st) (fst (scan_lines (ps_text st))) [] [] s"

definition bridgeProviderStream :: "('w \<Rightarrow> go_ctx) \<Rightarrow> 'w runtime \<Rightarrow> ('w \<Rightarrow> provider_stream res \<times> 'w) \<Rightarrow> 'w run_state \<Rightarrow>
    go_error option \<times> 'w run_state" where
  "bridgeProviderStream ctx r predict_stream s =
     (case predict_stream (rs_world s) of
        (Inl err, w) \<Rightarrow> (Some err, notify (EmitError r (err_msg err)) (s\<lparr>rs_world := w\<rparr>))
      | (Inr st, w) \<Rightarrow> publishProviderStream ctx r st (s\<lparr>rs_world := w\<rparr>))"

section \<open>One terminal event per provider stream\<close>

definition terminals :: "'w run_state \<Rightarrow> stream_chunk list" where
  "terminals s = filter sc_done (chunks (rs_log s))"

text \<open>A fan-out somebody listens to, and how many terminal chunks it has sent.\<close>

definition live :: "bool \<Rightarrow> 'w run_state \<Rightarrow> bool" where
  "live b s = (\<exists>f. rs_fanout s = Some f \<and> fo_has_publisher f \<and> fo_terminal_sent f = b \<and>
     length (terminals s) = (if b then 1 else 0))"

lemma live_terminal:
  assumes "live b s" "rs_fanout s = Some f" "NewChunk f event now = (c, f')" "sc_done d"
  shows "live True (snd (emitTerminal r f' d (s\<lparr>rs_fanout := Some f'\<rparr>)))"
  using assms(1,2,4) NewChunk_effect(1) [OF assms(3)]
  by (auto simp: live_def emitTerminal_def Let_def terminals_def split: if_splits)

lemma live_fanout: "live b s \<Longrightarrow> \<exists>f. rs_fanout s = Some f"
  by (auto simp: live_def)

lemma live_final: "live b s \<Longrightarrow> live True (notify (EmitFinal r x) s)"
  using live_fanout [of b s]
  by (auto simp: notify_def EmitFinal_def Let_def split: prod.splits intro!: live_terminal [of b s])

lemma live_failure: "live b s \<Longrightarrow> live True (notify (emit_failure event r x) s)"
  using live_fanout [of b s]
  by (auto simp: notify_def emit_failure_def Let_def split: prod.splits intro!: live_terminal [of b s])

lemmas live_failures = live_failure [of _ _ "''error''", folded EmitError_def]
  live_failure [of _ _ "''cancelled''", folded EmitCancelled_def]

lemma notify_err_notify: "snd (notify_err op s) = notify op s"
  by (simp add: notify_err_def notify_def split: option.splits)

lemma EmitDelta_progress: "progress_op (EmitDelta r delta payload)"
  by (rule progress_opI [of "''delta''" r _ False "\<lambda>c. c\<lparr>sc_role := ''assistant'', sc_delta := delta, sc_data := payload\<rparr>"])
    (auto simp: EmitDelta_def Let_def)

lemma live_delta:
  assumes "live b s"
  shows "live b (notify (EmitDelta r delta payload) s)"
proof -
  obtain es where p: "progress zero_inference_request 1 0 s es (notify (EmitDelta r delta payload) s)"
    using progress_notify [OF EmitDelta_progress] by blast
  with assms show ?thesis
    by (auto simp: live_def progress_def seg_def sent_def terminals_def filter_append list_all_iff split: if_splits)
qed

definition reliable :: "'w runtime \<Rightarrow> bool" where
  "reliable r = (\<forall>c w. fst (rn_publish r c w) = None)"

lemma reliable_final: "reliable r \<Longrightarrow> fst (notify_err (EmitFinal r x) s) = None"
  by (auto simp: notify_err_def EmitFinal_def emitTerminal_def Emit_def reliable_def Let_def split_beta split: option.splits)

lemma reliable_delta: "reliable r \<Longrightarrow> fst (notify_err (EmitDelta r d p) s) = None"
  by (auto simp: notify_err_def EmitDelta_def Emit_def reliable_def Let_def split_beta split: option.splits)

text \<open>A frame either keeps the stream going or reports an error after a terminal event.\<close>

lemma flushFrame_live:
  assumes "flushFrame r ls content s = (err, content', s')" "reliable r" "live b s"
  shows "live True s' \<or> (err = None \<and> live b s')"
proof -
  have f: "notify_err (EmitFinal r content) s = (None, notify (EmitFinal r content) s)"
    using reliable_final [OF assms(2)] by (metis notify_err_notify prod.collapse)
  have d: "notify_err (EmitDelta r x p) s = (None, notify (EmitDelta r x p) s)" for x p
    using reliable_delta [OF assms(2)] by (metis notify_err_notify prod.collapse)
  show ?thesis
    using assms(1,3) live_final [OF assms(3)] live_failures(1) [OF assms(3)] live_delta [OF assms(3)]
    by (auto simp: flushFrame_def f d Let_def split: if_splits sum.splits prod.splits)
qed

lemma stream_loop_live:
  assumes "reliable r"
  shows "live b s \<Longrightarrow> live True (snd (stream_loop ctx r scan_err lines ls content s))"
proof (induction lines arbitrary: ls content s b)
  case Nil
  obtain err content' s' where f: "flushFrame r ls content s = (err, content', s')" by (metis prod_cases3)
  from flushFrame_live [OF f assms Nil] obtain b' where "live b' s'" "err \<noteq> None \<longrightarrow> b'" by (cases err) auto
  with f live_final live_failures(1) [OF Nil] show ?case
    by (cases scan_err; cases err) (simp_all add: notify_err_notify)
next
  case (Cons line lines)
  obtain err content' s' where f: "flushFrame r ls content s = (err, content', s')" by (metis prod_cases3)
  from flushFrame_live [OF f assms Cons.prems] obtain b' where b': "live b' s'" "err \<noteq> None \<longrightarrow> b'" by (cases err) auto
  show ?case
  proof (cases "ctx (rs_world s)")
    case (Some e)
    then show ?thesis using live_failures(2) [OF Cons.prems] by simp
  next
    case None
    then show ?thesis
      using f b' Cons.IH [OF b'(1)] Cons.IH [OF Cons.prems] by (cases err) simp_all
  qed
qed

text \<open>
  C13. Whatever a provider sends, and whether the stream ends normally, with an error payload, with a
  read error, with an overlong line or by cancellation: as long as the publisher accepts the chunks,
  the subscribers of the task see exactly one terminal chunk, so every streamed request is brought to
  an end and no end is announced twice (a \<^verbatim>\<open>[DONE]\<close> frame followed by the end of the stream included).
\<close>

theorem provider_stream_has_one_terminal_event:
  assumes "reliable r" "rs_fanout s = Some f" "fo_has_publisher f" "\<not> fo_terminal_sent f" "rs_log s = []"
  shows "length (terminals (snd (bridgeProviderStream ctx r predict_stream s))) = 1"
proof -
  have l: "live False (s\<lparr>rs_world := w\<rparr>)" for w
    using assms by (simp add: live_def terminals_def)
  have "live True (snd (bridgeProviderStream ctx r predict_stream s))"
    using live_failures(1) [OF l] stream_loop_live [OF assms(1) l]
    by (auto simp: bridgeProviderStream_def publishProviderStream_def split: prod.splits sum.splits)
  then show ?thesis by (auto simp: live_def)
qed

section \<open>Frames survive the trip\<close>

lemma trim_lead_chars: "\<exists>p. s = p @ trim_lead pats s \<and> set p \<subseteq> \<Union> (set ` set pats)"
proof (induction pats s rule: trim_lead.induct)
  case (1 pats)
  show ?case by simp
next
  case (2 pats c s)
  show ?case
  proof (cases "lead_len pats (c # s)")
    case 0
    then show ?thesis by simp
  next
    case (Suc n)
    then obtain q where q: "find (has_prefix (c # s)) pats = Some q" "length q = Suc n"
      by (auto simp: lead_len_def split: option.splits)
    then have m: "q \<in> set pats" "take (Suc n) (c # s) = q"
      by (auto simp: find_Some_iff has_prefix_def)
    from "2.IH" [OF Suc] obtain p where p: "drop n s = p @ trim_lead pats (drop n s)"
      "set p \<subseteq> \<Union> (set ` set pats)" by blast
    have "c # s = take (Suc n) (c # s) @ drop (Suc n) (c # s)" by (simp only: append_take_drop_id)
    also have "\<dots> = (q @ p) @ trim_lead pats (c # s)" using m(2) p(1) Suc by simp
    finally show ?thesis using m(1) p(2) by (intro exI [of _ "q @ p"]) auto
  qed
qed

lemma trim_lead_keeps: "c \<in> set s \<Longrightarrow> c \<notin> \<Union> (set ` set pats) \<Longrightarrow> trim_lead pats s \<noteq> []"
  using trim_lead_chars [of s pats] by fastforce

lemma trim_left_space: "trim_left (CHR '' '' # s) = trim_left s"
  by (simp add: trim_left_def lead_len_def space_runes_def has_prefix_def)

lemma trim_space_space: "trim_space (CHR '' '' # s) = trim_space s"
  by (simp add: trim_space_def trim_left_space)

lemma trim_space_nonblank:
  assumes "c \<notin> \<Union> (set ` set space_runes)"
  shows "trim_space (c # s) \<noteq> []"
proof -
  have "lead_len space_runes (c # s) = 0"
    unfolding lead_len_zero_iff [OF space_runes_nonempty(1)]
  proof
    fix q assume q: "q \<in> set space_runes"
    with space_runes_nonempty(1) obtain d t where "q = d # t" by (cases q) auto
    with q assms show "\<not> has_prefix (c # s) q" by (auto simp: has_prefix_def)
  qed
  then have l: "trim_left (c # s) = c # s" by (simp add: trim_left_def)
  have "c \<notin> \<Union> (set ` set (map rev space_runes))" using assms by simp
  then have "trim_lead (map rev space_runes) (rev (c # s)) \<noteq> []" by (intro trim_lead_keeps [of c]) simp_all
  then show ?thesis by (simp only: trim_space_def l trim_right_def rev_is_Nil_conv) simp
qed

lemma scan_line:
  assumes "eol \<notin> set l" "length l < max_token"
  shows "scan_lines (l @ eol # rest) = (drop_cr l # fst (scan_lines rest), snd (scan_lines rest))"
proof -
  have "takeWhile (\<lambda>c. c \<noteq> eol) (l @ eol # rest) = l" "dropWhile (\<lambda>c. c \<noteq> eol) (l @ eol # rest) = eol # rest"
    using assms(1) by (auto simp: takeWhile_append dropWhile_append takeWhile_eq_all_conv)
  then show ?thesis using assms(2) by (subst scan_lines.simps) (simp add: split_beta Let_def)
qed

text \<open>A payload that fits on one line and carries a delta.\<close>

definition plain_line :: "string \<Rightarrow> bool" where
  "plain_line p = (p \<noteq> [] \<and> trim_space p = p \<and> eol \<notin> set p \<and> CHR 0x0D \<notin> set p \<and> length p + 6 < max_token)"

definition delta_payload :: "(string \<Rightarrow> string) \<Rightarrow> string \<Rightarrow> string \<Rightarrow> bool" where
  "delta_payload jerr p d = (plain_line p \<and> p \<noteq> ''[DONE]'' \<and> parseProviderStreamPayload jerr p = Inr (d, []))"

lemma scan_frame:
  assumes "plain_line p"
  shows "fst (scan_lines (frame_text [] p @ rest)) = (''data: '' @ p) # [] # fst (scan_lines rest)"
    "snd (scan_lines (frame_text [] p @ rest)) = snd (scan_lines rest)"
proof -
  have s: "scan_lines (eol # rest) = ([] # fst (scan_lines rest), snd (scan_lines rest))"
    using scan_line [of "[]" rest] by (simp add: drop_cr_def max_token_def)
  have "frame_text [] p @ rest = (''data: '' @ p) @ eol # eol # rest" by (simp add: frame_text_def)
  moreover have "last p \<noteq> CHR 0x0D" "p \<noteq> []" using assms by (auto simp: plain_line_def) (metis last_in_set)
  then have "drop_cr (''data: '' @ p) = ''data: '' @ p" by (simp add: drop_cr_def)
  ultimately have "scan_lines (frame_text [] p @ rest) = ((''data: '' @ p) # [] # fst (scan_lines rest), snd (scan_lines rest))"
    using scan_line [of "''data: '' @ p" "eol # rest"] assms s by (simp add: plain_line_def eol_def)
  then show "fst (scan_lines (frame_text [] p @ rest)) = (''data: '' @ p) # [] # fst (scan_lines rest)"
    "snd (scan_lines (frame_text [] p @ rest)) = snd (scan_lines rest)" by simp_all
qed

lemma frame_lines:
  assumes "plain_line p" "\<forall>w. ctx w = None"
  shows "stream_loop ctx r e ((''data: '' @ p) # [] # ls) [] content s =
     (case flushFrame r [p] content s of
        (Some err, _, s) \<Rightarrow> (Some err, s)
      | (None, content, s) \<Rightarrow> stream_loop ctx r e ls [] content s)"
proof -
  have "trim_space (''data: '' @ p) \<noteq> []"
    using trim_space_nonblank [of "CHR ''d''" "''ata: '' @ p"] by (simp add: space_runes_def)
  moreover have "trim_space (trim_prefix (''data: '' @ p) ''data:'') = p"
    using assms(1) by (simp add: trim_prefix_def has_prefix_def trim_space_space plain_line_def)
  moreover have "has_prefix (''data: '' @ p) ''data:''" by (simp add: has_prefix_def)
  moreover have "trim_space [] = []" by (simp add: trim_space_def trim_left_def trim_right_def)
  ultimately show ?thesis using assms(2) by (simp only: stream_loop.simps option.case if_True if_False append_Nil simp_thms)
qed

definition chunk_view :: "stream_chunk \<Rightarrow> string \<times> string \<times> string" where
  "chunk_view c = (sc_event c, sc_delta c, sc_data c)"

definition views :: "'w run_state \<Rightarrow> (string \<times> string \<times> string) list" where
  "views s = map chunk_view (chunks (rs_log s))"

lemma flush_delta:
  assumes "delta_payload (rn_jerr r) p d" "reliable r" "live False s"
  shows "\<exists>s'. flushFrame r [p] content s = (None, content @ d, s') \<and> live False s' \<and> views s' = views s @ [(''delta'', d, p)]"
proof -
  from assms(3) obtain f where f: "rs_fanout s = Some f" "fo_has_publisher f" by (auto simp: live_def)
  obtain c f' where c: "NewChunk f ''delta'' (now_ms r s) = (c, f')" by force
  have "fo_has_publisher f'" using NewChunk_effect(1) [OF c] f by simp
  then have "views (notify (EmitDelta r d p) s) = views s @ [(''delta'', d, p)]"
    using f c NewChunk_effect(4) [OF c]
    by (simp add: notify_def EmitDelta_def views_def chunk_view_def)
  moreover have "notify_err (EmitDelta r d p) s = (None, notify (EmitDelta r d p) s)"
    using reliable_delta [OF assms(2)] by (metis notify_err_notify prod.collapse)
  ultimately show ?thesis
    using assms(1) live_delta [OF assms(3)]
    by (simp add: flushFrame_def frame_payload_def delta_payload_def plain_line_def)
qed

lemma frames_forwarded:
  assumes "reliable r" "\<forall>w. ctx w = None" "list_all (\<lambda>(p, d). delta_payload (rn_jerr r) p d) pds" "live False s"
  shows "\<exists>s'. stream_loop ctx r e (concat (map (\<lambda>(p, d). [''data: '' @ p, []]) pds) @ ls) [] content s =
      stream_loop ctx r e ls [] (content @ concat (map snd pds)) s' \<and> live False s' \<and>
    views s' = views s @ map (\<lambda>(p, d). (''delta'', d, p)) pds"
  using assms(3,4)
proof (induction pds arbitrary: content s)
  case Nil
  then show ?case by auto
next
  case (Cons pd pds)
  obtain p d where pd: "pd = (p, d)" by force
  with Cons.prems have dp: "delta_payload (rn_jerr r) p d" by simp
  from flush_delta [OF dp assms(1) Cons.prems(2)] obtain s1 where
    s1: "flushFrame r [p] content s = (None, content @ d, s1)" "live False s1" "views s1 = views s @ [(''delta'', d, p)]" by blast
  from Cons.IH [OF _ s1(2), of "content @ d"] Cons.prems(1) obtain s2 where
    s2: "stream_loop ctx r e (concat (map (\<lambda>(p, d). [''data: '' @ p, []]) pds) @ ls) [] (content @ d) s1 =
      stream_loop ctx r e ls [] ((content @ d) @ concat (map snd pds)) s2" "live False s2"
      "views s2 = views s1 @ map (\<lambda>(p, d). (''delta'', d, p)) pds" by auto
  have "plain_line p" using dp by (simp add: delta_payload_def)
  with s1 s2 pd frame_lines [OF _ assms(2), of p r e "concat (map (\<lambda>(p, d). [''data: '' @ p, []]) pds) @ ls" content s]
  show ?case by (intro exI [of _ s2]) (simp del: stream_loop.simps)
qed

lemma final_views:
  assumes "live b s"
  shows "views (notify (EmitFinal r x) s) = views s @ (if b then [] else [(''final'', [], obj_text [(''content'', quote x)])])"
proof -
  from assms obtain f where f: "rs_fanout s = Some f" "fo_has_publisher f" "fo_terminal_sent f = b" by (auto simp: live_def)
  obtain c f' where c: "NewChunk f ''final'' (now_ms r s) = (c, f')" by force
  moreover have "sc_delta c = []" using c by (auto simp: NewChunk_def NextSequence_def)
  ultimately show ?thesis
    using f NewChunk_effect(1,4) [OF c]
    by (simp add: notify_def EmitFinal_def emitTerminal_def views_def chunk_view_def Let_def)
qed

lemma done_frame_lines: "scan_lines (frame_text ''done'' ''[DONE]'') = ([''event: done'', ''data: [DONE]'', []], False)"
proof -
  have e: "scan_lines [] = ([], False)" by (subst scan_lines.simps) simp
  have b: "scan_lines [eol] = ([[]], False)"
    using scan_line [of "[]" "[]"] e by (simp add: drop_cr_def max_token_def)
  have d: "scan_lines (''data: [DONE]'' @ eol # [eol]) = ([''data: [DONE]'', []], False)"
    using scan_line [of "''data: [DONE]''" "[eol]"] b by (simp add: drop_cr_def max_token_def eol_def)
  show ?thesis
    using scan_line [of "''event: done''" "''data: [DONE]'' @ eol # [eol]"] d
    by (simp add: frame_text_def drop_cr_def max_token_def eol_def)
qed

lemma done_frame_closes:
  assumes "reliable r" "\<forall>w. ctx w = None" "live False s"
  shows "\<exists>s'. stream_loop ctx r None [''event: done'', ''data: [DONE]'', []] [] content s = (None, s') \<and>
    views s' = views s @ [(''final'', [], obj_text [(''content'', quote content)])]"
proof -
  let ?s1 = "notify (EmitFinal r content) s"
  have fin: "notify_err (EmitFinal r content) u = (None, notify (EmitFinal r content) u)" for u
    using reliable_final [OF assms(1)] by (metis notify_err_notify prod.collapse)
  have l1: "live True ?s1" using assms(3) by (rule live_final)
  have p: "plain_line ''[DONE]''" by (simp add: plain_line_def max_token_def eol_def) code_simp
  then have fl: "flushFrame r [''[DONE]''] content s = (None, content, ?s1)"
    by (simp add: flushFrame_def frame_payload_def plain_line_def fin)
  have "stream_loop ctx r None [''event: done'', ''data: [DONE]'', []] [] content s =
      stream_loop ctx r None [''data: [DONE]'', []] [] content s"
    using trim_space_nonblank [of "CHR ''e''" "''vent: done''"] assms(2) by (simp add: has_prefix_def space_runes_def)
  also have "\<dots> = stream_loop ctx r None [] [] content ?s1"
    using frame_lines [OF p assms(2), of r None "[]" content s] fl by simp
  also have "\<dots> = (None, notify (EmitFinal r content) ?s1)" by (simp add: flushFrame_def fin)
  finally show ?thesis using final_views [OF assms(3), of r content] final_views [OF l1, of r content] by simp
qed

text \<open>
  C14. The frames a provider sends arrive unchanged and in order: if the stream is the SSE text of
  payloads that each carry a delta, closed by the \<^verbatim>\<open>[DONE]\<close> frame, then the published chunks are one
  delta chunk per payload, with its delta and the payload itself as data, followed by one final chunk
  whose content is the concatenation of the deltas, and no error is reported.
\<close>

theorem provider_stream_forwards_deltas:
  assumes "reliable r" "\<forall>w. ctx w = None" "list_all (\<lambda>(p, d). delta_payload (rn_jerr r) p d) pds"
    and "rs_fanout s = Some f" "fo_has_publisher f" "\<not> fo_terminal_sent f" "rs_log s = []"
    and "ps_text st = concat (map (frame_text [] \<circ> fst) pds) @ frame_text ''done'' ''[DONE]''" "ps_err st = None"
  shows "\<exists>s'. publishProviderStream ctx r st s = (None, s') \<and>
    map (\<lambda>c. (sc_event c, sc_delta c, sc_data c)) (chunks (rs_log s')) =
      map (\<lambda>(p, d). (''delta'', d, p)) pds @ [(''final'', [], obj_text [(''content'', quote (concat (map snd pds)))])]"
proof -
  have "fst (scan_lines (concat (map (frame_text [] \<circ> fst) pds) @ rest)) =
      concat (map (\<lambda>(p, d). [''data: '' @ p, []]) pds) @ fst (scan_lines rest) \<and>
      snd (scan_lines (concat (map (frame_text [] \<circ> fst) pds) @ rest)) = snd (scan_lines rest)" for rest
    using assms(3)
  proof (induction pds)
    case Nil
    then show ?case by simp
  next
    case (Cons pd pds)
    then have "plain_line (fst pd)" by (auto simp: delta_payload_def)
    with Cons show ?case by (cases pd) (simp add: scan_frame)
  qed
  from this [of "frame_text ''done'' ''[DONE]''"] have
    ls: "fst (scan_lines (ps_text st)) = concat (map (\<lambda>(p, d). [''data: '' @ p, []]) pds) @ [''event: done'', ''data: [DONE]'', []]"
      "scanner_Err st = None"
    using assms(8,9) by (simp_all add: done_frame_lines scanner_Err_def)
  have "live False s" using assms by (simp add: live_def terminals_def)
  from frames_forwarded [OF assms(1-3) this, of None "[''event: done'', ''data: [DONE]'', []]" "[]"] obtain s1 where
    s1: "publishProviderStream ctx r st s =
        stream_loop ctx r None [''event: done'', ''data: [DONE]'', []] [] (concat (map snd pds)) s1"
      "live False s1" "views s1 = views s @ map (\<lambda>(p, d). (''delta'', d, p)) pds"
    by (auto simp: publishProviderStream_def ls simp del: stream_loop.simps)
  from done_frame_closes [OF assms(1,2) s1(2), of "concat (map snd pds)"] obtain s2 where
    "publishProviderStream ctx r st s = (None, s2)"
    "views s2 = views s1 @ [(''final'', [], obj_text [(''content'', quote (concat (map snd pds)))])]"
    unfolding s1(1) by blast
  with s1(3) assms(7) show ?thesis by (intro exI [of _ s2]) (simp add: views_def chunk_view_def [abs_def])
qed

definition delta_json :: "string \<Rightarrow> json" where
  "delta_json d = JObj [(''choices'', JArr [JObj [(''delta'', JObj [(''content'', JStr d)])]])]"

lemma find_envelope_field [simp]:
  "find_field envelope_fields ''choices'' =
     Some (dec_slice (dec_struct False [(''delta'', dec_struct False [(''content'', dec_str (\<lambda>x _. x))])]) []
       pe_choices (\<lambda>x. pe_choices_update (\<lambda>_. x)))"
  by (simp add: find_field_def envelope_fields_def has_prefix_def upper_char_def Let_def)

lemma parse_delta_json:
  assumes "utf8_valid d"
  shows "parseProviderStreamPayload jerr (json_print (delta_json d)) = Inr (d, [])"
proof -
  let ?c = "JObj [(''content'', JStr d)]" and ?e = "JObj [(''delta'', JObj [(''content'', JStr d)])]"
  have ok: "json_ok max_nesting (delta_json d)" "json_ok max_nesting ?e" "json_ok max_nesting ?c" "json_ok max_nesting (JArr [?e])"
    using assms by (simp_all add: delta_json_def max_nesting_def)
  have ff: "find_field [(''content'', x)] ''content'' = Some x" "find_field [(''delta'', y)] ''delta'' = Some y" for x y
    by (simp_all add: find_field_def has_prefix_def upper_char_def Let_def)
  have c: "dec_struct False [(''content'', dec_str (\<lambda>x _. x))] (json_print ?c) a = Some d" for a
    unfolding dec_struct_print [OF ok(3)] using assms by (simp add: ff dec_str_quote)
  have e: "dec_struct False [(''delta'', dec_struct False [(''content'', dec_str (\<lambda>x _. x))])] (json_print ?e) a = Some d" for a
    unfolding dec_struct_print [OF ok(2)] using c by (simp add: ff del: json_print.simps)
  have "dec_slice (dec_struct False [(''delta'', dec_struct False [(''content'', dec_str (\<lambda>x _. x))])]) [] pe_choices
      (\<lambda>x. pe_choices_update (\<lambda>_. x)) (json_print (JArr [?e])) a = Some (a\<lparr>pe_choices := [d]\<rparr>)" for a :: stream_envelope
    unfolding dec_slice_print [OF ok(4)] using e by (simp del: json_print.simps)
  then have "dec_struct False envelope_fields (json_print (delta_json d)) a = Some (a\<lparr>pe_choices := [d]\<rparr>)" for a :: stream_envelope
    unfolding delta_json_def dec_struct_print [OF ok(1) [unfolded delta_json_def]] by (simp del: json_print.simps)
  then show ?thesis
    using json_valid_print [OF ok(1)] by (simp add: parseProviderStreamPayload_def unmarshal_def)
qed

definition stream_runtime :: "unit runtime" where
  "stream_runtime = NewRuntime (\<lambda>q w. (Inr [], w)) (\<lambda>c w. (Inl (errorf []), w)) None (\<lambda>c w. (None, w)) (\<lambda>w. 7) (\<lambda>s. s)"

definition stream_start :: "unit run_state" where
  "stream_start = \<lparr>rs_world = (), rs_fanout = Some (SetPublisher True (NewFanout ''tr'' [] ''tr'')), rs_log = []\<rparr>"

definition hello_payload :: string where "hello_payload = json_print (delta_json ''Hi'')"

lemma hello_delta: "delta_payload jerr hello_payload ''Hi''"
proof -
  have "hello_payload \<noteq> [] \<and> trim_space hello_payload = hello_payload \<and> eol \<notin> set hello_payload \<and>
      CHR 0x0D \<notin> set hello_payload \<and> hello_payload \<noteq> ''[DONE]''" "length hello_payload = 40" by code_simp+
  then have "plain_line hello_payload" "hello_payload \<noteq> ''[DONE]''" by (simp_all add: plain_line_def max_token_def)
  moreover have "utf8_valid ''Hi''" by code_simp
  ultimately show ?thesis using parse_delta_json unfolding delta_payload_def hello_payload_def by blast
qed

theorem provider_stream_has_one_terminal_event_witness:
  "length (terminals (snd (bridgeProviderStream (\<lambda>w. None) stream_runtime
     (\<lambda>w. (Inr \<lparr>ps_text = frame_text [] hello_payload, ps_err = Some (errorf ''reset'')\<rparr>, w)) stream_start))) = 1"
  by (rule provider_stream_has_one_terminal_event [where f = "SetPublisher True (NewFanout ''tr'' [] ''tr'')"])
    (simp_all add: reliable_def stream_runtime_def stream_start_def NewRuntime_def NewFanout_def SetPublisher_def)

theorem provider_stream_forwards_deltas_witness:
  "\<exists>s'. publishProviderStream (\<lambda>w. None) stream_runtime
       \<lparr>ps_text = frame_text [] hello_payload @ frame_text [] hello_payload @ frame_text ''done'' ''[DONE]'', ps_err = None\<rparr>
       stream_start = (None, s') \<and>
    map (\<lambda>c. (sc_event c, sc_delta c, sc_data c)) (chunks (rs_log s')) =
      [(''delta'', ''Hi'', hello_payload), (''delta'', ''Hi'', hello_payload),
       (''final'', [], obj_text [(''content'', quote ''HiHi'')])]"
  using provider_stream_forwards_deltas [of stream_runtime "\<lambda>w. None" "[(hello_payload, ''Hi''), (hello_payload, ''Hi'')]" stream_start
      "SetPublisher True (NewFanout ''tr'' [] ''tr'')"
      "\<lparr>ps_text = frame_text [] hello_payload @ frame_text [] hello_payload @ frame_text ''done'' ''[DONE]'', ps_err = None\<rparr>"]
    hello_delta
  by (simp add: reliable_def stream_runtime_def stream_start_def NewRuntime_def NewFanout_def SetPublisher_def)

end
