(* ===== verification/Gateway_Sender.thy ===== *)
theory Gateway_Sender
  imports Gateway_Stream
begin

text \<open>
  What the \<^verbatim>\<open>Sender\<close> (\<^verbatim>\<open>internal/gateway/sender.go\<close>) guarantees to the client of a stream: the wire form of
  chunks, the bytes written to the connection of a task, and the race between the sender's goroutine
  and the HTTP handler that waits for it.
\<close>

section \<open>The wire form of chunks\<close>

definition chunk_utf8 :: "stream_chunk \<Rightarrow> bool" where
  "chunk_utf8 c = list_all utf8_valid [sc_trace_id c, sc_session_id c, sc_task_id c, sc_event c, sc_delta c, sc_role c,
     sc_tool_name c, sc_error c]"

text \<open>\<open>data\<close> is the JSON value in the data field, if there is one.\<close>

definition chunk_wire_ok :: "json option \<Rightarrow> stream_chunk \<Rightarrow> bool" where
  "chunk_wire_ok data c =
     (chunk_utf8 c \<and> int64_min \<le> sc_sequence c \<and> sc_sequence c \<le> int64_max \<and>
      int64_min \<le> sc_timestamp_ms c \<and> sc_timestamp_ms c \<le> int64_max \<and>
      (case data of None \<Rightarrow> sc_data c = [] | Some v \<Rightarrow> json_ok (max_nesting - 1) v \<and> sc_data c = json_print v))"

definition chunk_json :: "json option \<Rightarrow> stream_chunk \<Rightarrow> (string \<times> json) list" where
  "chunk_json data c =
     [(''trace_id'', JStr (sc_trace_id c)), (''session_id'', JStr (sc_session_id c)), (''task_id'', JStr (sc_task_id c)),
      (''sequence'', JNum (format_int (sc_sequence c))), (''event'', JStr (sc_event c))] @
     opt_member ''delta'' (sc_delta c) @ opt_member ''role'' (sc_role c) @ opt_member ''tool_name'' (sc_tool_name c) @
     [(''done'', JBool (sc_done c))] @ opt_member ''error'' (sc_error c) @
     (case data of None \<Rightarrow> [] | Some v \<Rightarrow> [(''data'', v)]) @ [(''timestamp_ms'', JNum (format_int (sc_timestamp_ms c)))]"

lemma find_chunk_field [simp]:
  "find_field chunk_fields ''trace_id'' = Some (dec_str (\<lambda>x. sc_trace_id_update (\<lambda>_. x)))"
  "find_field chunk_fields ''session_id'' = Some (dec_str (\<lambda>x. sc_session_id_update (\<lambda>_. x)))"
  "find_field chunk_fields ''task_id'' = Some (dec_str (\<lambda>x. sc_task_id_update (\<lambda>_. x)))"
  "find_field chunk_fields ''sequence'' = Some (dec_int64 (\<lambda>x. sc_sequence_update (\<lambda>_. x)))"
  "find_field chunk_fields ''event'' = Some (dec_str (\<lambda>x. sc_event_update (\<lambda>_. x)))"
  "find_field chunk_fields ''delta'' = Some (dec_str (\<lambda>x. sc_delta_update (\<lambda>_. x)))"
  "find_field chunk_fields ''role'' = Some (dec_str (\<lambda>x. sc_role_update (\<lambda>_. x)))"
  "find_field chunk_fields ''tool_name'' = Some (dec_str (\<lambda>x. sc_tool_name_update (\<lambda>_. x)))"
  "find_field chunk_fields ''done'' = Some (dec_bool (\<lambda>x. sc_done_update (\<lambda>_. x)))"
  "find_field chunk_fields ''error'' = Some (dec_str (\<lambda>x. sc_error_update (\<lambda>_. x)))"
  "find_field chunk_fields ''data'' = Some (dec_raw (\<lambda>x. sc_data_update (\<lambda>_. x)))"
  "find_field chunk_fields ''timestamp_ms'' = Some (dec_int64 (\<lambda>x. sc_timestamp_ms_update (\<lambda>_. x)))"
  by (simp_all add: find_field_def chunk_fields_def has_prefix_def upper_char_def Let_def)

lemma chunk_json_ok:
  "chunk_wire_ok data c \<Longrightarrow> json_ok max_nesting (JObj (chunk_json data c))"
  by (auto simp: chunk_wire_ok_def chunk_json_def chunk_utf8_def opt_member_def num_ok_format_int max_nesting_def
      split: option.splits)

lemma marshal_chunk_json:
  assumes "chunk_wire_ok data c"
  shows "marshal_chunk c = Some (json_print (JObj (chunk_json data c)))"
proof (cases data)
  case None
  with assms show ?thesis
    by (simp add: marshal_chunk_def chunk_json_def chunk_wire_ok_def opt_member_print bool_text_def)
next
  case (Some v)
  with assms have v: "json_ok max_nesting v" "sc_data c = json_print v"
    using json_ok_mono [of "max_nesting - 1" v max_nesting] by (simp_all add: chunk_wire_ok_def)
  then have "sc_data c \<noteq> []" using print_head [of max_nesting v] by (metis list.distinct(1))
  with Some v show ?thesis
    by (simp add: marshal_chunk_def chunk_json_def opt_member_print bool_text_def marshal_raw_print)
qed

lemma decode_chunk_json:
  assumes "chunk_wire_ok data c"
  shows "decode_chunk (json_print (JObj (chunk_json data c))) = Some c"
proof -
  have b: "dec_bool upd (if x then ''true'' else ''false'') a = Some (upd x a)"
    for x and upd :: "bool \<Rightarrow> stream_chunk \<Rightarrow> stream_chunk" and a
    using json_parse_print [of "JBool x"] by (cases x) (simp_all add: dec_bool_def)
  have "dec_members False chunk_fields (map (\<lambda>(k, v). (k, json_print v)) (chunk_json data c)) zero_chunk = Some c"
    using assms
    by (cases data) (simp_all add: chunk_json_def chunk_wire_ok_def chunk_utf8_def opt_member_print dec_members_opt_member dec_str_quote
        dec_int64_format b dec_raw_def zero_chunk_def)
  then show ?thesis
    using chunk_json_ok [OF assms] json_valid_print
    by (simp add: decode_chunk_def unmarshal_def dec_struct_print del: json_print.simps json_ok.simps)
qed

lemma chunk_wire_roundtrip:
  "chunk_wire_ok data c \<Longrightarrow> \<exists>p. marshal_chunk c = Some p \<and> decode_chunk p = Some c"
  using marshal_chunk_json decode_chunk_json by blast

section \<open>What a client receives\<close>

text \<open>The bytes a sink writes for a chunk, and the connection it writes to.\<close>

fun sink_frame :: "sink \<Rightarrow> stream_chunk \<Rightarrow> string" where
  "sink_frame (SSEStreamSink c) chunk = frame_text (sc_event chunk) (chunk_bytes chunk)"
| "sink_frame (ChatCompletionStreamSink c) chunk =
     (if sc_event chunk = ''delta'' then
        frame_text [] (if sc_data chunk = [] then obj_text [(''content'', quote (sc_delta chunk))] else sc_data chunk)
      else if sc_event chunk = ''final'' then []
      else if sc_event chunk \<in> {''error'', ''timeout'', ''cancelled''} then
        frame_text ''error'' (if sc_data chunk = [] then obj_text [(''error'', quote (sc_error chunk))] else sc_data chunk)
      else frame_text (sc_event chunk) (chunk_bytes chunk))"

fun sink_conn :: "sink \<Rightarrow> nat" where
  "sink_conn (SSEStreamSink c) = c"
| "sink_conn (ChatCompletionStreamSink c) = c"

definition done_frame :: string where
  "done_frame = frame_text ''done'' ''[DONE]''"

text \<open>Connections that accept every write; \<open>out c w\<close> is what was written to \<open>c\<close>.\<close>

definition accepts :: "'w gw_env \<Rightarrow> (nat \<Rightarrow> 'w \<Rightarrow> string) \<Rightarrow> bool" where
  "accepts env out = (\<forall>c t w. fst (ge_write env c t w) = None \<and>
     (\<forall>c'. out c' (snd (ge_write env c t w)) = out c' w @ (if c' = c then t else [])))"

lemma WriteSSEFrame_accepts:
  assumes "accepts env out"
  shows "fst (WriteSSEFrame env c event data w) = None"
    "out c' (snd (WriteSSEFrame env c event data w)) = out c' w @ (if c' = c then frame_text event data else [])"
proof -
  have a: "fst (ge_write env c t w) = None"
    "out i (snd (ge_write env c t w)) = out i w @ (if i = c then t else [])" for t w i
    using assms by (simp_all add: accepts_def)
  show "fst (WriteSSEFrame env c event data w) = None"
    "out c' (snd (WriteSSEFrame env c event data w)) = out c' w @ (if c' = c then frame_text event data else [])"
    using a(1) a(2) by (simp_all add: WriteSSEFrame_def frame_text_def Let_def split_beta)
qed

lemma sink_WriteChunk_accepts:
  assumes "accepts env out"
  shows "fst (sink_WriteChunk env k chunk w) = None"
    "out c' (snd (sink_WriteChunk env k chunk w)) = out c' w @ (if c' = sink_conn k then sink_frame k chunk else [])"
  using WriteSSEFrame_accepts [OF assms]
  by (cases k; simp add: SSE_WriteChunk_def Chat_WriteChunk_def Let_def)+

lemma sink_Close_accepts:
  assumes "accepts env out"
  shows "out c' (snd (sink_Close env k w)) = out c' w @ (if c' = sink_conn k then done_frame else [])"
  using WriteSSEFrame_accepts [OF assms]
  by (cases k) (simp_all add: SSE_Close_def Chat_Close_def WriteDoneFrame_def done_frame_def)

text \<open>The chunks of a task among the messages received, and what they amount to on its connection.\<close>

definition task_chunks :: "string \<Rightarrow> string list \<Rightarrow> stream_chunk list" where
  "task_chunks t ps = filter (\<lambda>c. sc_task_id c = t) (List.map_filter decode_chunk ps)"

fun stream_text :: "sink \<Rightarrow> stream_chunk list \<Rightarrow> string" where
  "stream_text k [] = []"
| "stream_text k (c # cs) = sink_frame k c @ (if sc_done c then done_frame else stream_text k cs)"

definition receive_all :: "'w gw_env \<Rightarrow> string list \<Rightarrow> sinks \<times> 'w \<Rightarrow> sinks \<times> 'w" where
  "receive_all env ps st = fold (sender_receive env) ps st"

lemma task_chunks_Cons:
  "task_chunks t (p # ps) =
     (case decode_chunk p of Some c \<Rightarrow> if sc_task_id c = t then c # task_chunks t ps else task_chunks t ps
      | None \<Rightarrow> task_chunks t ps)"
  by (simp add: task_chunks_def map_filter_simps split: option.splits)

lemma UnregisterSink_map [simp]: "map_of (UnregisterSink t s) i = (if i = t then None else map_of s i)"
  by (simp add: UnregisterSink_def delete_conv')

lemma sender_receive_cases:
  assumes "accepts env out"
  shows "sender_receive env p (s, w) =
    (case decode_chunk p of
       None \<Rightarrow> (s, w)
     | Some c \<Rightarrow>
         (case map_of s (sc_task_id c) of
            None \<Rightarrow> (s, w)
          | Some k \<Rightarrow>
              if sc_done c then (UnregisterSink (sc_task_id c) s, snd (sink_Close env k (snd (sink_WriteChunk env k c w))))
              else (s, snd (sink_WriteChunk env k c w))))"
  using sink_WriteChunk_accepts(1) [OF assms]
  by (auto simp: sender_receive_def split: option.splits prod.splits) (metis fst_conv option.distinct(1))+

text \<open>Nothing is written for a task without a sink: its connection is closed.\<close>

definition exclusive :: "nat \<Rightarrow> string \<Rightarrow> sinks \<Rightarrow> bool" where
  "exclusive c t s = (\<forall>t' k. map_of s t' = Some k \<and> t' \<noteq> t \<longrightarrow> sink_conn k \<noteq> c)"

lemma exclusive_unregister [simp]: "exclusive c t s \<Longrightarrow> exclusive c t (UnregisterSink i s)"
  unfolding exclusive_def UnregisterSink_map by (metis option.distinct(1))

lemma receive_other:
  assumes "accepts env out" "exclusive c t s" "sender_receive env p (s, w) = (s', w')"
    and "\<And>x. decode_chunk p = Some x \<Longrightarrow> sc_task_id x \<noteq> t \<or> map_of s t = None"
  shows "exclusive c t s' \<and> map_of s' t = map_of s t \<and> out c w' = out c w"
proof (cases "\<exists>x k. decode_chunk p = Some x \<and> map_of s (sc_task_id x) = Some k")
  case False
  then have "s' = s \<and> w' = w"
    using assms(3) unfolding sender_receive_cases [OF assms(1)] by (auto split: option.splits)
  with assms(2) show ?thesis by simp
next
  case True
  then obtain x k where x: "decode_chunk p = Some x" "map_of s (sc_task_id x) = Some k" by blast
  with assms(4) have ne: "sc_task_id x \<noteq> t" by auto
  with assms(2) x have "sink_conn k \<noteq> c" by (auto simp: exclusive_def)
  then show ?thesis
    using assms(2,3) x ne sink_WriteChunk_accepts(2) [OF assms(1), of c k] sink_Close_accepts [OF assms(1), of c k]
    unfolding sender_receive_cases [OF assms(1)] by (auto split: if_splits)
qed

lemma receive_own:
  assumes "accepts env out" "exclusive c t s" "sender_receive env p (s, w) = (s', w')"
    and "decode_chunk p = Some x" "sc_task_id x = t" "map_of s t = Some k" "c = sink_conn k"
  shows "exclusive c t s' \<and> map_of s' t = (if sc_done x then None else Some k) \<and>
    out c w' = out c w @ sink_frame k x @ (if sc_done x then done_frame else [])"
  using assms(2-7) sink_WriteChunk_accepts(2) [OF assms(1), of c k] sink_Close_accepts [OF assms(1), of c k]
  unfolding sender_receive_cases [OF assms(1)] by (auto split: if_splits)

lemma receive_all_Cons:
  "sender_receive env p (s, w) = (s', w') \<Longrightarrow> receive_all env (p # ps) (s, w) = receive_all env ps (s', w')"
  by (simp add: receive_all_def)

lemma receive_all_closed:
  assumes "accepts env out"
  shows "exclusive c t s \<Longrightarrow> map_of s t = None \<Longrightarrow>
    out c (snd (receive_all env ps (s, w))) = out c w \<and> map_of (fst (receive_all env ps (s, w))) t = None"
proof (induction ps arbitrary: s w)
  case Nil
  then show ?case by (simp add: receive_all_def)
next
  case (Cons p ps)
  obtain s' w' where r: "sender_receive env p (s, w) = (s', w')" by force
  from receive_other [OF assms Cons.prems(1) r] Cons.prems Cons.IH [of s' w'] receive_all_Cons [OF r]
  show ?case by simp
qed

lemma receive_all_stream:
  assumes "accepts env out" "c = sink_conn k"
  shows "exclusive c t s \<Longrightarrow> map_of s t = Some k \<Longrightarrow>
    out c (snd (receive_all env ps (s, w))) = out c w @ stream_text k (task_chunks t ps) \<and>
    (map_of (fst (receive_all env ps (s, w))) t = None) = list_ex sc_done (task_chunks t ps)"
proof (induction ps arbitrary: s w)
  case Nil
  then show ?case by (simp add: receive_all_def task_chunks_def map_filter_simps)
next
  case (Cons p ps)
  obtain s' w' where r: "sender_receive env p (s, w) = (s', w')" by force
  note l = receive_all_Cons [OF r]
  show ?case
  proof (cases "\<exists>x. decode_chunk p = Some x \<and> sc_task_id x = t")
    case False
    from receive_other [OF assms(1) Cons.prems(1) r] False Cons.prems(2)
    have "exclusive c t s'" "map_of s' t = Some k" "out c w' = out c w" by auto
    moreover have "task_chunks t (p # ps) = task_chunks t ps"
      using False by (auto simp: task_chunks_Cons split: option.splits)
    ultimately show ?thesis using Cons.IH [of s' w'] l by simp
  next
    case True
    then obtain x where x: "decode_chunk p = Some x" "sc_task_id x = t" by blast
    from receive_own [OF assms(1) Cons.prems(1) r x Cons.prems(2) assms(2)]
    show ?thesis using Cons.IH [of s' w'] receive_all_closed [OF assms(1), of c t s' ps w'] l x
      by (cases "sc_done x") (simp_all add: task_chunks_Cons)
  qed
qed


definition log_env :: "((nat \<times> string) list) gw_env" where
  "log_env = \<lparr>ge_write = (\<lambda>c t w. (None, w @ [(c, t)])), ge_events = None, ge_now_ns = (\<lambda>w. 0), ge_jerr = (\<lambda>s. s)\<rparr>"

definition log_out :: "nat \<Rightarrow> (nat \<times> string) list \<Rightarrow> string" where
  "log_out c w = concat (map snd (filter (\<lambda>e. fst e = c) w))"

definition sample_chunk :: "string \<Rightarrow> string \<Rightarrow> bool \<Rightarrow> stream_chunk" where
  "sample_chunk t event d = zero_chunk\<lparr>sc_task_id := t, sc_event := event, sc_done := d, sc_delta := ''Hi''\<rparr>"

lemma sample_chunk_wire: "t \<in> {''a'', ''b''} \<Longrightarrow> event \<in> {''delta'', ''final''} \<Longrightarrow>
    decode_chunk (json_print (JObj (chunk_json None (sample_chunk t event d)))) = Some (sample_chunk t event d)"
  by (rule decode_chunk_json)
    (auto simp: chunk_wire_ok_def sample_chunk_def zero_chunk_def chunk_utf8_def int64_min_def int64_max_def)

definition sample_traffic :: "string list" where
  "sample_traffic = map (\<lambda>c. json_print (JObj (chunk_json None c)))
     [sample_chunk ''a'' ''delta'' False, sample_chunk ''b'' ''delta'' False, sample_chunk ''a'' ''final'' True,
      sample_chunk ''a'' ''delta'' False]"


section \<open>The handler and the sender\<close>

text \<open>
  The HTTP handler waits until the sink of its task is gone and then returns, which ends the response.
  The sender's goroutine unregisters the sink before it closes it. The two run concurrently.
\<close>

datatype sender_pc = SReceive | SWrite sink stream_chunk | SClose sink

record stream_system =
  sy_sinks :: sinks
  sy_pc :: sender_pc
  sy_out :: string
  sy_returned :: bool

inductive stream_step :: "string \<Rightarrow> stream_system \<Rightarrow> stream_system \<Rightarrow> bool" for t :: string where
  receive: "sy_pc s = SReceive \<Longrightarrow> map_of (sy_sinks s) (sc_task_id c) = Some k \<Longrightarrow>
     stream_step t s (s\<lparr>sy_pc := SWrite k c\<rparr>)"
| written: "sy_pc s = SWrite k c \<Longrightarrow> \<not> sc_done c \<Longrightarrow>
     stream_step t s (s\<lparr>sy_pc := SReceive, sy_out := sy_out s @ sink_frame k c\<rparr>)"
| aborted: "sy_pc s = SWrite k c \<Longrightarrow>
     stream_step t s (s\<lparr>sy_pc := SReceive, sy_sinks := UnregisterSink (sc_task_id c) (sy_sinks s)\<rparr>)"
| written_last: "sy_pc s = SWrite k c \<Longrightarrow> sc_done c \<Longrightarrow>
     stream_step t s (s\<lparr>sy_pc := SClose k, sy_sinks := UnregisterSink (sc_task_id c) (sy_sinks s),
       sy_out := sy_out s @ sink_frame k c\<rparr>)"
| closed: "sy_pc s = SClose k \<Longrightarrow> stream_step t s (s\<lparr>sy_pc := SReceive, sy_out := sy_out s @ done_frame\<rparr>)"
| returned: "\<not> HasSink t (sy_sinks s) \<Longrightarrow> stream_step t s (s\<lparr>sy_returned := True\<rparr>)"
| cancelled: "stream_step t s (s\<lparr>sy_sinks := UnregisterSink t (sy_sinks s), sy_returned := True\<rparr>)"

text \<open>
  Waiting for the sink to disappear does not wait for the \<^verbatim>\<open>[DONE]\<close> frame: with no cancellation and no
  failed write, the handler can return, ending the response, after the last chunk was written and
  before the sender wrote the frame that tells the client the stream is complete.
\<close>

theorem handler_can_return_before_done_frame:
  "\<exists>s. (stream_step ''a'')\<^sup>*\<^sup>* \<lparr>sy_sinks = [(''a'', ChatCompletionStreamSink 1)], sy_pc = SReceive, sy_out = [], sy_returned = False\<rparr> s \<and>
    sy_returned s \<and> sy_pc s = SClose (ChatCompletionStreamSink 1) \<and> sy_out s = sink_frame (ChatCompletionStreamSink 1) (sample_chunk ''a'' ''final'' True)"
proof -
  let ?k = "ChatCompletionStreamSink 1" and ?c = "sample_chunk ''a'' ''final'' True"
  let ?s0 = "\<lparr>sy_sinks = [(''a'', ?k)], sy_pc = SReceive, sy_out = [], sy_returned = False\<rparr>"
  let ?s1 = "?s0\<lparr>sy_pc := SWrite ?k ?c\<rparr>"
  let ?s2 = "?s1\<lparr>sy_pc := SClose ?k, sy_sinks := UnregisterSink (sc_task_id ?c) (sy_sinks ?s1), sy_out := sy_out ?s1 @ sink_frame ?k ?c\<rparr>"
  have c: "sc_task_id ?c = ''a''" "sc_done ?c" by (simp_all add: sample_chunk_def)
  have "stream_step ''a'' ?s0 ?s1" by (rule stream_step.receive) (simp_all add: c)
  moreover have "stream_step ''a'' ?s1 ?s2" by (rule stream_step.written_last) (simp_all add: c)
  moreover have "stream_step ''a'' ?s2 (?s2\<lparr>sy_returned := True\<rparr>)"
    by (rule stream_step.returned) (simp add: HasSink_def c)
  ultimately have "(stream_step ''a'')\<^sup>*\<^sup>* ?s0 (?s2\<lparr>sy_returned := True\<rparr>)"
    by (meson converse_rtranclp_into_rtranclp rtranclp.rtrancl_refl)
  then show ?thesis by (intro exI [of _ "?s2\<lparr>sy_returned := True\<rparr>"]) simp
qed

end
