(* ===== verification/Gateway_Router.thy ===== *)
theory Gateway_Router
  imports Process Webhook_Auth Orchestrator
begin

text \<open>
  Package \<^verbatim>\<open>internal/gateway\<close>, routing: the channel message (\<^verbatim>\<open>types.go\<close>), the session router that turns
  incoming messages into tasks and results into replies (\<^verbatim>\<open>router.go\<close>), and the HTTP ingress
  (\<^verbatim>\<open>ingress_handler.go\<close>).

  A \<^verbatim>\<open>map[string]interface{}\<close> and a slice are \<open>None\<close> when nil; values of type \<^verbatim>\<open>interface{}\<close> are JSON values
  whose numbers were rendered by \<open>fmt64\<close>. The task queue, the adapters and the clock are arguments.
\<close>

section \<open>Channel messages\<close>

type_synonym go_map = "(string \<times> json) list option"

record media_item =
  mi_kind :: string
  mi_media_id :: string
  mi_file_name :: string
  mi_path :: string
  mi_data_base64 :: string
  mi_url :: string
  mi_mime_type :: string
  mi_title :: string
  mi_description :: string
  mi_thumbnail_media_id :: string
  mi_size :: int
  mi_metadata :: go_map

record article =
  ar_title :: string
  ar_description :: string
  ar_url :: string
  ar_pic_url :: string

record standard_message =
  sm_session_id :: string
  sm_channel_name :: string
  sm_message_id :: string
  sm_parent_message_id :: string
  sm_sender_id :: string
  sm_sender_name :: string
  sm_receiver_id :: string
  sm_text :: string
  sm_message_type :: string
  sm_format :: string
  sm_media :: "media_item list option"
  sm_articles :: "article list option"
  sm_card :: go_map
  sm_raw_content :: string
  sm_metadata :: go_map

definition zero_media_item :: media_item where
  "zero_media_item = \<lparr>mi_kind = [], mi_media_id = [], mi_file_name = [], mi_path = [], mi_data_base64 = [], mi_url = [],
     mi_mime_type = [], mi_title = [], mi_description = [], mi_thumbnail_media_id = [], mi_size = 0, mi_metadata = None\<rparr>"

definition zero_article :: article where
  "zero_article = \<lparr>ar_title = [], ar_description = [], ar_url = [], ar_pic_url = []\<rparr>"

definition zero_standard_message :: standard_message where
  "zero_standard_message = \<lparr>sm_session_id = [], sm_channel_name = [], sm_message_id = [], sm_parent_message_id = [],
     sm_sender_id = [], sm_sender_name = [], sm_receiver_id = [], sm_text = [], sm_message_type = [], sm_format = [],
     sm_media = None, sm_articles = None, sm_card = None, sm_raw_content = [], sm_metadata = None\<rparr>"

definition map_len :: "go_map \<Rightarrow> nat" where
  "map_len m = (case m of None \<Rightarrow> 0 | Some ms \<Rightarrow> length ms)"

text \<open>Decoding into a map keeps the entries it already has; into a slice, \<^verbatim>\<open>null\<close> gives nil.\<close>

definition dec_map :: "(string \<Rightarrow> string option) \<Rightarrow> ('a \<Rightarrow> go_map) \<Rightarrow> (go_map \<Rightarrow> 'a \<Rightarrow> 'a) \<Rightarrow> 'a decoder" where
  "dec_map fmt64 get upd x a =
     (case json_parse x of
        Some JNull \<Rightarrow> Some (upd None a)
      | Some (JObj ms) \<Rightarrow>
          (case to_interface fmt64 (JObj ms) of
             Some (JObj new) \<Rightarrow> Some (upd (Some (last_wins ((case get a of None \<Rightarrow> [] | Some old \<Rightarrow> old) @ new))) a)
           | _ \<Rightarrow> None)
      | _ \<Rightarrow> None)"

definition dec_slice_opt :: "'b decoder \<Rightarrow> 'b \<Rightarrow> ('a \<Rightarrow> 'b list option) \<Rightarrow> ('b list option \<Rightarrow> 'a \<Rightarrow> 'a) \<Rightarrow> 'a decoder" where
  "dec_slice_opt d z get upd x a =
     (if json_parse x = Some JNull then Some (upd None a)
      else dec_slice d z (\<lambda>a. case get a of None \<Rightarrow> [] | Some vs \<Rightarrow> vs) (\<lambda>vs. upd (Some vs)) x a)"

definition media_fields :: "(string \<Rightarrow> string option) \<Rightarrow> (string \<times> media_item decoder) list" where
  "media_fields fmt64 =
     [(''kind'', dec_str (\<lambda>x. mi_kind_update (\<lambda>_. x))), (''media_id'', dec_str (\<lambda>x. mi_media_id_update (\<lambda>_. x))),
      (''file_name'', dec_str (\<lambda>x. mi_file_name_update (\<lambda>_. x))), (''path'', dec_str (\<lambda>x. mi_path_update (\<lambda>_. x))),
      (''data_base64'', dec_str (\<lambda>x. mi_data_base64_update (\<lambda>_. x))), (''url'', dec_str (\<lambda>x. mi_url_update (\<lambda>_. x))),
      (''mime_type'', dec_str (\<lambda>x. mi_mime_type_update (\<lambda>_. x))), (''title'', dec_str (\<lambda>x. mi_title_update (\<lambda>_. x))),
      (''description'', dec_str (\<lambda>x. mi_description_update (\<lambda>_. x))),
      (''thumbnail_media_id'', dec_str (\<lambda>x. mi_thumbnail_media_id_update (\<lambda>_. x))),
      (''size'', dec_int64 (\<lambda>x. mi_size_update (\<lambda>_. x))),
      (''metadata'', dec_map fmt64 mi_metadata (\<lambda>x. mi_metadata_update (\<lambda>_. x)))]"

definition article_fields :: "(string \<times> article decoder) list" where
  "article_fields =
     [(''title'', dec_str (\<lambda>x. ar_title_update (\<lambda>_. x))), (''description'', dec_str (\<lambda>x. ar_description_update (\<lambda>_. x))),
      (''url'', dec_str (\<lambda>x. ar_url_update (\<lambda>_. x))), (''pic_url'', dec_str (\<lambda>x. ar_pic_url_update (\<lambda>_. x)))]"

text \<open>\<open>strict\<close> reaches the nested structs too.\<close>

definition standard_message_fields :: "(string \<Rightarrow> string option) \<Rightarrow> bool \<Rightarrow> (string \<times> standard_message decoder) list" where
  "standard_message_fields fmt64 strict =
     [(''session_id'', dec_str (\<lambda>x. sm_session_id_update (\<lambda>_. x))),
      (''channel_name'', dec_str (\<lambda>x. sm_channel_name_update (\<lambda>_. x))),
      (''message_id'', dec_str (\<lambda>x. sm_message_id_update (\<lambda>_. x))),
      (''parent_message_id'', dec_str (\<lambda>x. sm_parent_message_id_update (\<lambda>_. x))),
      (''sender_id'', dec_str (\<lambda>x. sm_sender_id_update (\<lambda>_. x))),
      (''sender_name'', dec_str (\<lambda>x. sm_sender_name_update (\<lambda>_. x))),
      (''receiver_id'', dec_str (\<lambda>x. sm_receiver_id_update (\<lambda>_. x))),
      (''text'', dec_str (\<lambda>x. sm_text_update (\<lambda>_. x))),
      (''message_type'', dec_str (\<lambda>x. sm_message_type_update (\<lambda>_. x))),
      (''format'', dec_str (\<lambda>x. sm_format_update (\<lambda>_. x))),
      (''media'', dec_slice_opt (dec_struct strict (media_fields fmt64)) zero_media_item sm_media (\<lambda>x. sm_media_update (\<lambda>_. x))),
      (''articles'', dec_slice_opt (dec_struct strict article_fields) zero_article sm_articles (\<lambda>x. sm_articles_update (\<lambda>_. x))),
      (''card'', dec_map fmt64 sm_card (\<lambda>x. sm_card_update (\<lambda>_. x))),
      (''raw_content'', dec_raw (\<lambda>x. sm_raw_content_update (\<lambda>_. x))),
      (''metadata'', dec_map fmt64 sm_metadata (\<lambda>x. sm_metadata_update (\<lambda>_. x)))]"

text \<open>Encoding: map keys in byte order, nil as \<^verbatim>\<open>null\<close>.\<close>

definition map_text :: "go_map \<Rightarrow> string" where
  "map_text m = (case m of None \<Rightarrow> ''null'' | Some ms \<Rightarrow> json_print (JObj (last_wins ms)))"

definition omit_map :: "string \<Rightarrow> go_map \<Rightarrow> (string \<times> string) list" where
  "omit_map k m = (if map_len m = 0 then [] else [(k, map_text m)])"

definition marshal_media :: "media_item \<Rightarrow> string" where
  "marshal_media m =
     obj_text ([(''kind'', quote (mi_kind m))] @ omit_empty ''media_id'' (mi_media_id m) @ omit_empty ''file_name'' (mi_file_name m) @
       omit_empty ''path'' (mi_path m) @ omit_empty ''data_base64'' (mi_data_base64 m) @ omit_empty ''url'' (mi_url m) @
       omit_empty ''mime_type'' (mi_mime_type m) @ omit_empty ''title'' (mi_title m) @ omit_empty ''description'' (mi_description m) @
       omit_empty ''thumbnail_media_id'' (mi_thumbnail_media_id m) @
       (if mi_size m = 0 then [] else [(''size'', format_int (mi_size m))]) @ omit_map ''metadata'' (mi_metadata m))"

definition marshal_article :: "article \<Rightarrow> string" where
  "marshal_article a =
     obj_text ([(''title'', quote (ar_title a))] @ omit_empty ''description'' (ar_description a) @ [(''url'', quote (ar_url a))] @
       omit_empty ''pic_url'' (ar_pic_url a))"

definition slice_text :: "('a \<Rightarrow> string) \<Rightarrow> 'a list option \<Rightarrow> string" where
  "slice_text f xs = (case xs of None \<Rightarrow> ''null'' | Some ys \<Rightarrow> arr_text (map f ys))"

section \<open>The session router\<close>

record route_binding =
  rb_session_id :: string
  rb_channel_name :: string
  rb_metadata :: go_map

record 'w router =
  ro_adapters :: "(string \<times> bool) list"
  ro_routes :: "(string \<times> route_binding) list"
  ro_world :: 'w

text \<open>An adapter is known by its name and whether it is a \<^verbatim>\<open>RichAdapter\<close>.\<close>

record 'w router_env =
  re_enqueue :: "string \<Rightarrow> message \<Rightarrow> 'w \<Rightarrow> go_error option \<times> 'w"
  re_send :: "string \<Rightarrow> standard_message \<Rightarrow> 'w \<Rightarrow> go_error option \<times> 'w"
  re_send_text :: "string \<Rightarrow> string \<Rightarrow> string \<Rightarrow> 'w \<Rightarrow> go_error option \<times> 'w"
  re_now_ns :: "'w \<Rightarrow> int"
  re_fmt64 :: "string \<Rightarrow> string option"

definition NewSessionRouter :: "'w \<Rightarrow> 'w router" where
  "NewSessionRouter w = \<lparr>ro_adapters = [], ro_routes = [], ro_world = w\<rparr>"

definition RegisterAdapter :: "string \<Rightarrow> bool \<Rightarrow> 'w router \<Rightarrow> 'w router" where
  "RegisterAdapter name rich r = r\<lparr>ro_adapters := AList.update name rich (ro_adapters r)\<rparr>"

definition cloneMetadata :: "go_map \<Rightarrow> go_map" where
  "cloneMetadata src = (if map_len src = 0 then None else src)"

definition mergeMetadata :: "go_map \<Rightarrow> go_map \<Rightarrow> go_map" where
  "mergeMetadata base override =
     (if map_len base = 0 \<and> map_len override = 0 then None
      else let merged = (case cloneMetadata base of None \<Rightarrow> [] | Some ms \<Rightarrow> ms) in
           Some (fold (\<lambda>(k, v) m. AList.update k v m) (case override of None \<Rightarrow> [] | Some ms \<Rightarrow> ms) merged))"

definition rememberRoute :: "string \<Rightarrow> standard_message \<Rightarrow> 'w router \<Rightarrow> 'w router" where
  "rememberRoute taskID req r =
     r\<lparr>ro_routes := AList.update taskID \<lparr>rb_session_id = sm_session_id req, rb_channel_name = sm_channel_name req,
        rb_metadata = cloneMetadata (sm_metadata req)\<rparr> (ro_routes r)\<rparr>"

definition routeForTask :: "string \<Rightarrow> 'w router \<Rightarrow> route_binding option" where
  "routeForTask taskID r = map_of (ro_routes r) taskID"

definition deleteRoute :: "string \<Rightarrow> 'w router \<Rightarrow> 'w router" where
  "deleteRoute taskID r = r\<lparr>ro_routes := AList.delete taskID (ro_routes r)\<rparr>"

text \<open>The payload of the task; an encoding error (a raw content that is not JSON) leaves it empty.\<close>

definition task_payload :: "standard_message \<Rightarrow> string" where
  "task_payload req =
     (case raw_field (sm_raw_content req) of
        None \<Rightarrow> []
      | Some raw \<Rightarrow> obj_text
          [(''articles'', slice_text marshal_article (sm_articles req)), (''card'', map_text (sm_card req)),
           (''channel'', quote (sm_channel_name req)), (''format'', quote (sm_format req)),
           (''media'', slice_text marshal_media (sm_media req)), (''message_id'', quote (sm_message_id req)),
           (''message_type'', quote (sm_message_type req)), (''metadata'', map_text (sm_metadata req)),
           (''parent_msg_id'', quote (sm_parent_message_id req)), (''raw_content'', raw),
           (''receiver_id'', quote (sm_receiver_id req)), (''require_chat'', ''true''),
           (''sender_id'', quote (sm_sender_id req)), (''sender_name'', quote (sm_sender_name req)),
           (''session_id'', quote (sm_session_id req)), (''task'', quote (sm_text req))])"

definition task_message :: "string \<Rightarrow> standard_message \<Rightarrow> int \<Rightarrow> message" where
  "task_message taskID req now =
     zero_message\<lparr>msg_message_id := taskID, msg_sender_id := ''gateway.'' @ sm_channel_name req,
       msg_receiver_id := ''orchestrator'', msg_target_agent := ''orchestrator'', msg_payload := task_payload req,
       msg_timestamp := now\<rparr>"

definition DispatchIncoming :: "'w router_env \<Rightarrow> standard_message \<Rightarrow> 'w router \<Rightarrow> string res \<times> 'w router" where
  "DispatchIncoming env req r =
     (let taskID = ''session_'' @ format_int (re_now_ns env (ro_world r));
          msg = task_message taskID req (re_now_ns env (ro_world r) div 1000000);
          r = rememberRoute taskID req r;
          (err, w) = re_enqueue env ''tasks'' msg (ro_world r);
          r = r\<lparr>ro_world := w\<rparr> in
      case err of Some e \<Rightarrow> (Inl e, r) | None \<Rightarrow> (Inr taskID, r))"

definition HandleIncoming :: "'w router_env \<Rightarrow> standard_message \<Rightarrow> 'w router \<Rightarrow> go_error option \<times> 'w router" where
  "HandleIncoming env req r =
     (case DispatchIncoming env req r of (Inl e, r) \<Rightarrow> (Some e, r) | (Inr _, r) \<Rightarrow> (None, r))"

record result_envelope =
  en_result :: string
  en_message :: "standard_message option"

definition envelope_result_fields :: "(string \<Rightarrow> string option) \<Rightarrow> (string \<times> result_envelope decoder) list" where
  "envelope_result_fields fmt64 =
     [(''result'', dec_str (\<lambda>x. en_result_update (\<lambda>_. x))),
      (''message'', dec_ptr (dec_struct False (standard_message_fields fmt64 False)) zero_standard_message en_message
         (\<lambda>x. en_message_update (\<lambda>_. x)))]"

definition decodeGatewayResponse :: "(string \<Rightarrow> string option) \<Rightarrow> string \<Rightarrow> standard_message option" where
  "decodeGatewayResponse fmt64 output =
     (case unmarshal (dec_struct False (envelope_result_fields fmt64)) \<lparr>en_result = [], en_message = None\<rparr> output of
        None \<Rightarrow> None
      | Some e \<Rightarrow>
          (case en_message e of
             Some m \<Rightarrow> Some m
           | None \<Rightarrow>
               if en_result e \<noteq> [] then
                 Some (zero_standard_message\<lparr>sm_message_type := ''text'', sm_format := ''plain_text'', sm_text := en_result e\<rparr>)
               else None))"

text \<open>The session and channel of the binding fill what the response leaves open.\<close>

definition apply_binding :: "route_binding option \<Rightarrow> standard_message \<Rightarrow> standard_message" where
  "apply_binding binding resp =
     (case binding of
        None \<Rightarrow> resp
      | Some b \<Rightarrow>
          let resp = (if sm_session_id resp = [] then resp\<lparr>sm_session_id := rb_session_id b\<rparr> else resp);
              resp = (if sm_channel_name resp = [] then resp\<lparr>sm_channel_name := rb_channel_name b\<rparr> else resp) in
          resp\<lparr>sm_metadata := mergeMetadata (rb_metadata b) (sm_metadata resp)\<rparr>)"

definition send_response :: "'w router_env \<Rightarrow> standard_message \<Rightarrow> 'w router \<Rightarrow> 'w router" where
  "send_response env resp r =
     (case map_of (ro_adapters r) (sm_channel_name resp) of
        None \<Rightarrow> r
      | Some rich \<Rightarrow>
          let (_, w) = (if rich then re_send env (sm_channel_name resp) resp (ro_world r)
                        else re_send_text env (sm_channel_name resp) (sm_session_id resp) (sm_text resp) (ro_world r)) in
          r\<lparr>ro_world := w\<rparr>)"

text \<open>One message of the loop of \<^verbatim>\<open>StartStreamListener\<close>.\<close>

definition router_on_result :: "'w router_env \<Rightarrow> message \<Rightarrow> 'w router \<Rightarrow> 'w router" where
  "router_on_result env msg r =
     (case unmarshal (dec_struct False task_result_fields) zero_task_result (msg_payload msg) of
        None \<Rightarrow> r
      | Some result \<Rightarrow>
          (case decodeGatewayResponse (re_fmt64 env) (tr_output result) of
             None \<Rightarrow> r
           | Some resp \<Rightarrow>
               let binding = routeForTask (tr_task_id result) r;
                   resp = apply_binding binding resp;
                   forget = (\<lambda>r. if binding \<noteq> None then deleteRoute (tr_task_id result) r else r) in
               if sm_channel_name resp = [] then forget r
               else forget (send_response env resp r)))"

section \<open>HTTP ingress\<close>

text \<open>\<open>store\<close> is the nonce store of the handler: \<^verbatim>\<open>NewIngressHandler\<close> creates one when there is a secret.\<close>

definition NewIngressHandler :: "string \<Rightarrow> nonce_store option \<Rightarrow> nonce_store option" where
  "NewIngressHandler secret store =
     (if secret \<noteq> [] \<and> store = None then Some NewInMemNonceStore else store)"

definition ingress_accepted :: "string \<Rightarrow> http_reply" where
  "ingress_accepted taskID = \<lparr>reply_status = 202,
     reply_body = obj_text ([(''status'', quote ''accepted'')] @ omit_empty ''task_id'' taskID) @ [CHR 0x0A]\<rparr>"

definition ingress_dispatch :: "'w router_env \<Rightarrow> string \<Rightarrow> 'w router \<Rightarrow> http_reply \<times> 'w router" where
  "ingress_dispatch env body r =
     (case decode_first (dec_struct True (standard_message_fields (re_fmt64 env) True)) zero_standard_message body of
        None \<Rightarrow> (http_Error ''invalid body'' 400, r)
      | Some (req, _) \<Rightarrow>
          if sm_session_id req = [] \<or> sm_channel_name req = []
          then (http_Error ''session_id and channel_name are required'' 400, r)
          else case DispatchIncoming env req r of
            (Inl _, r) \<Rightarrow> (http_Error ''enqueue failed'' 502, r)
          | (Inr taskID, r) \<Rightarrow> (ingress_accepted taskID, r))"

definition ingress_ServeHTTP :: "(string \<Rightarrow> string \<Rightarrow> string) \<Rightarrow> 'w router_env \<Rightarrow> string \<Rightarrow> webhook_request \<Rightarrow>
    nonce_store option \<times> 'w router \<Rightarrow> http_reply \<times> nonce_store option \<times> 'w router" where
  "ingress_ServeHTTP hmac env secret req st =
     (let (store, r) = st in
      if wr_method req \<noteq> ''POST'' then (http_Error ''method not allowed'' 405, store, r)
      else case wr_body req of
        Inl _ \<Rightarrow> (http_Error ''invalid body'' 400, store, r)
      | Inr body \<Rightarrow>
          let (err, store) = (if secret = [] then (None, store)
                else VerifyWebhookSignature hmac (wr_headers req) body secret store (re_now_ns env (ro_world r))) in
          (case err of
             Some _ \<Rightarrow> (http_Error ''invalid signature'' 401, store, r)
           | None \<Rightarrow> let (reply, r) = ingress_dispatch env body r in (reply, store, r)))"

section \<open>Metadata\<close>

definition map_get :: "go_map \<Rightarrow> string \<Rightarrow> json option" where
  "map_get m k = (case m of None \<Rightarrow> None | Some ms \<Rightarrow> map_of ms k)"

lemma fold_update_map_of:
  "map_of (fold (\<lambda>(k, v) m. AList.update k v m) kvs m) k =
     (case map_of (rev kvs) k of Some v \<Rightarrow> Some v | None \<Rightarrow> map_of m k)"
  by (induction kvs arbitrary: m) (auto simp: update_conv' map_add_def split: option.splits)

text \<open>Merging looks a key up in the override first and in the base second.\<close>

lemma mergeMetadata_get:
  assumes "\<And>ms. override = Some ms \<Longrightarrow> distinct (map fst ms)"
  shows "map_get (mergeMetadata base override) k =
    (case map_get override k of Some v \<Rightarrow> Some v | None \<Rightarrow> map_get base k)"
proof -
  have r: "map_of (rev ms) k = map_of ms k" if "override = Some ms" for ms
    using assms [OF that] map_of_inject_set [of "rev ms" ms] by (simp add: rev_map [symmetric])
  show ?thesis
    by (cases base; cases override)
      (auto simp: mergeMetadata_def map_get_def cloneMetadata_def map_len_def Let_def fold_update_map_of r split: option.splits)
qed

section \<open>Properties\<close>

text \<open>\<open>S\<close> reads from the world the messages handed to adapters: channel, session and text.\<close>

definition send_log :: "'w router_env \<Rightarrow> ('w \<Rightarrow> (string \<times> string \<times> string) list) \<Rightarrow> bool" where
  "send_log env S =
     ((\<forall>ch m w. S (snd (re_send env ch m w)) = S w @ [(ch, sm_session_id m, sm_text m)]) \<and>
      (\<forall>ch sid t w. S (snd (re_send_text env ch sid t w)) = S w @ [(ch, sid, t)]) \<and>
      (\<forall>q m w. S (snd (re_enqueue env q m w)) = S w))"

lemma send_response_log:
  assumes "send_log env S" "map_of (ro_adapters r) (sm_channel_name resp) = Some rich"
  shows "S (ro_world (send_response env resp r)) =
    S (ro_world r) @ [(sm_channel_name resp, sm_session_id resp, sm_text resp)]"
  using assms by (simp add: send_response_def send_log_def split_beta Let_def)

lemma send_response_frame [simp]: "ro_routes (send_response env resp r) = ro_routes r"
  "ro_adapters (send_response env resp r) = ro_adapters r"
  by (simp_all add: send_response_def split_beta Let_def split: option.splits)

lemma route_simps [simp]:
  "routeForTask t (deleteRoute t' r) = (if t = t' then None else routeForTask t r)"
  "routeForTask t (rememberRoute t' req r) = (if t = t' then Some \<lparr>rb_session_id = sm_session_id req,
     rb_channel_name = sm_channel_name req, rb_metadata = cloneMetadata (sm_metadata req)\<rparr> else routeForTask t r)"
  "routeForTask t (r\<lparr>ro_world := w\<rparr>) = routeForTask t r"
  by (simp_all add: routeForTask_def deleteRoute_def rememberRoute_def delete_conv' update_conv')

lemma dispatch_binding:
  assumes "DispatchIncoming env req r = (res, r1)"
  shows "\<exists>taskID. routeForTask taskID r1 = Some \<lparr>rb_session_id = sm_session_id req, rb_channel_name = sm_channel_name req,
      rb_metadata = cloneMetadata (sm_metadata req)\<rparr> \<and> (\<forall>i. res = Inr i \<longrightarrow> i = taskID) \<and>
    taskID = ''session_'' @ format_int (re_now_ns env (ro_world r)) \<and> ro_adapters r1 = ro_adapters r \<and>
    (\<forall>t. t \<noteq> taskID \<longrightarrow> routeForTask t r1 = routeForTask t r)"
  using assms
  by (auto simp: DispatchIncoming_def Let_def split_beta rememberRoute_def [of _ _ r] routeForTask_def update_conv'
      split: option.splits)

text \<open>
  C7. The reply to a channel message goes back where the message came from: after a dispatch, a result
  for the returned task id whose response names no channel and session of its own is handed to the
  adapter of the originating channel, once, for the originating session and with the response's text;
  the route is forgotten, so the same result delivered again is dropped; routes of other tasks stay.
\<close>

theorem reply_returns_to_origin:
  assumes "send_log env S" "DispatchIncoming env req r = (Inr taskID, r1)"
    and "sm_channel_name req \<noteq> []" "map_of (ro_adapters r) (sm_channel_name req) = Some rich"
    and "unmarshal (dec_struct False task_result_fields) zero_task_result (msg_payload msg) = Some result"
    and "tr_task_id result = taskID" "decodeGatewayResponse (re_fmt64 env) (tr_output result) = Some resp"
    and "sm_channel_name resp = []" "sm_session_id resp = []"
  shows "S (ro_world (router_on_result env msg r1)) =
      S (ro_world r1) @ [(sm_channel_name req, sm_session_id req, sm_text resp)] \<and>
    routeForTask taskID (router_on_result env msg r1) = None \<and>
    router_on_result env msg (router_on_result env msg r1) = router_on_result env msg r1 \<and>
    (\<forall>t. t \<noteq> taskID \<longrightarrow> routeForTask t (router_on_result env msg r1) = routeForTask t r)"
proof -
  from dispatch_binding [OF assms(2)] have b:
    "routeForTask taskID r1 = Some \<lparr>rb_session_id = sm_session_id req, rb_channel_name = sm_channel_name req,
      rb_metadata = cloneMetadata (sm_metadata req)\<rparr>" "ro_adapters r1 = ro_adapters r"
    "\<And>t. t \<noteq> taskID \<Longrightarrow> routeForTask t r1 = routeForTask t r" by auto
  let ?resp = "apply_binding (routeForTask taskID r1) resp"
  have resp: "sm_channel_name ?resp = sm_channel_name req" "sm_session_id ?resp = sm_session_id req" "sm_text ?resp = sm_text resp"
    using assms(8,9) by (simp_all add: b apply_binding_def Let_def)
  have r2: "router_on_result env msg r1 = deleteRoute taskID (send_response env ?resp r1)"
    using assms(3,5-7) b(1) resp by (simp add: router_on_result_def Let_def)
  have w: "ro_world (deleteRoute t x) = ro_world x" for t and x :: "'a router" by (simp add: deleteRoute_def)
  have n: "routeForTask taskID (router_on_result env msg r1) = None" by (simp add: r2)
  have "router_on_result env msg (router_on_result env msg r1) = router_on_result env msg r1"
    using assms(5-8) n by (subst router_on_result_def) (simp add: Let_def apply_binding_def)
  moreover have "routeForTask t (router_on_result env msg r1) = routeForTask t r" if "t \<noteq> taskID" for t
    using b(3) [OF that] that by (simp add: r2) (simp add: routeForTask_def)
  ultimately show ?thesis
    using n send_response_log [OF assms(1), of r1 ?resp rich] assms(4) resp b(2) by (simp add: r2 w)
qed

text \<open>
  A dispatch whose enqueue fails leaves the route it remembered behind: nothing will ever remove it, as
  no result comes for a task that was not enqueued.
\<close>

lemma failed_dispatch_leaks_route:
  "DispatchIncoming env req r = (Inl e, r1) \<Longrightarrow>
     routeForTask (''session_'' @ format_int (re_now_ns env (ro_world r))) r1 \<noteq> None"
  using dispatch_binding by fastforce

definition demo_env :: "((string \<times> string \<times> string) list) router_env" where
  "demo_env = \<lparr>re_enqueue = (\<lambda>q m w. (None, w)), re_send = (\<lambda>ch m w. (None, w @ [(ch, sm_session_id m, sm_text m)])),
     re_send_text = (\<lambda>ch sid t w. (None, w @ [(ch, sid, t)])), re_now_ns = (\<lambda>w. 7), re_fmt64 = (\<lambda>n. Some n)\<rparr>"

definition demo_request :: standard_message where
  "demo_request = zero_standard_message\<lparr>sm_session_id := ''s1'', sm_channel_name := ''web'', sm_text := ''hello''\<rparr>"

definition demo_router :: "((string \<times> string \<times> string) list) router" where
  "demo_router = RegisterAdapter ''web'' True (NewSessionRouter [])"

definition demo_output :: json where "demo_output = JObj [(''result'', JStr ''hi'')]"

definition demo_reply :: message where
  "demo_reply = zero_message\<lparr>msg_payload := json_print (JObj [(''task_id'', JStr ''session_7''), (''output'', demo_output)])\<rparr>"

lemma demo_output_decoded:
  "decodeGatewayResponse fmt64 (json_print demo_output) =
     Some (zero_standard_message\<lparr>sm_message_type := ''text'', sm_format := ''plain_text'', sm_text := ''hi''\<rparr>)"
proof -
  have ok: "json_ok max_nesting (JObj [(''result'', JStr ''hi'')])" by (simp add: max_nesting_def)
  have f: "find_field (envelope_result_fields fmt64) ''result'' = Some (dec_str (\<lambda>x. en_result_update (\<lambda>_. x)))"
    by (simp add: find_field_def envelope_result_fields_def has_prefix_def upper_char_def Let_def)
  show ?thesis
    unfolding decodeGatewayResponse_def unmarshal_def demo_output_def dec_struct_print [OF ok]
    using json_valid_print [OF ok] by (simp add: f dec_str_quote)
qed

lemma demo_reply_decoded:
  "unmarshal (dec_struct False task_result_fields) zero_task_result (msg_payload demo_reply) =
     Some (zero_task_result\<lparr>tr_task_id := ''session_7'', tr_output := json_print demo_output\<rparr>)"
proof -
  have ok: "json_ok max_nesting (JObj [(''task_id'', JStr ''session_7''), (''output'', demo_output)])"
    by (simp add: max_nesting_def demo_output_def)
  have p: "msg_payload demo_reply = json_print (JObj [(''task_id'', JStr ''session_7''), (''output'', demo_output)])"
    by (simp add: demo_reply_def del: json_print.simps)
  show ?thesis
    unfolding p unmarshal_def dec_struct_print [OF ok]
    using json_valid_print [OF ok] by (simp add: dec_str_quote dec_raw_def demo_output_def)
qed

theorem reply_returns_to_origin_witness:
  "\<exists>r1. DispatchIncoming demo_env demo_request demo_router = (Inr ''session_7'', r1) \<and>
    ro_world (router_on_result demo_env demo_reply r1) = [(''web'', ''s1'', ''hi'')] \<and>
    ro_world (router_on_result demo_env demo_reply (router_on_result demo_env demo_reply r1)) = [(''web'', ''s1'', ''hi'')]"
proof -
  have t: "''session_'' @ format_int 7 = ''session_7''" by code_simp
  obtain r1 where r1: "DispatchIncoming demo_env demo_request demo_router = (Inr ''session_7'', r1)" "ro_world r1 = []"
    using t by (auto simp: DispatchIncoming_def demo_env_def Let_def demo_router_def RegisterAdapter_def NewSessionRouter_def rememberRoute_def)
  have "send_log demo_env (\<lambda>w. w)" by (simp add: send_log_def demo_env_def)
  from reply_returns_to_origin [OF this r1(1), of True demo_reply] demo_reply_decoded demo_output_decoded r1
  show ?thesis
    by (simp add: demo_request_def demo_router_def RegisterAdapter_def NewSessionRouter_def zero_standard_message_def)
qed

text \<open>
  C29. With a secret the HTTP ingress lets only authenticated messages in: if it answers 202 or touches
  the router at all, the request was a POST whose signature, timestamp and nonce verified, and its body
  is a channel message with session and channel; it was dispatched exactly once.
\<close>

theorem ingress_admits_only_signed_messages:
  assumes "secret \<noteq> []" "ingress_ServeHTTP hmac env secret req (store, r) = (reply, store', r')"
    and "reply_status reply = 202 \<or> r' \<noteq> r"
  shows "wr_method req = ''POST'' \<and>
    (\<exists>body m rest. wr_body req = Inr body \<and>
      VerifyWebhookSignature hmac (wr_headers req) body secret store (re_now_ns env (ro_world r)) = (None, store') \<and>
      decode_first (dec_struct True (standard_message_fields (re_fmt64 env) True)) zero_standard_message body = Some (m, rest) \<and>
      sm_session_id m \<noteq> [] \<and> sm_channel_name m \<noteq> [] \<and> r' = snd (DispatchIncoming env m r))"
proof -
  have d: "\<exists>m rest. decode_first (dec_struct True (standard_message_fields (re_fmt64 env) True)) zero_standard_message body = Some (m, rest) \<and>
      sm_session_id m \<noteq> [] \<and> sm_channel_name m \<noteq> [] \<and> r' = snd (DispatchIncoming env m r)"
    if "ingress_dispatch env body r = (reply, r')" for body
    using that assms(3) by (auto simp: ingress_dispatch_def http_Error_def split: option.splits if_splits sum.splits prod.splits)
  from assms(1-3) show ?thesis
    by (auto simp: ingress_ServeHTTP_def http_Error_def Let_def split: if_splits sum.splits prod.splits option.splits dest!: d)
qed

definition demo_body_json :: json where
  "demo_body_json = JObj [(''session_id'', JStr ''s1''), (''channel_name'', JStr ''web'')]"

definition demo_body :: string where "demo_body = json_print demo_body_json"

definition demo_post :: webhook_request where
  "demo_post = \<lparr>wr_method = ''POST'', wr_headers = signed_headers ''n1'' 0 demo_body, wr_body = Inr demo_body\<rparr>"

lemma demo_body_decoded:
  "decode_first (dec_struct True (standard_message_fields fmt64 True)) zero_standard_message demo_body =
     Some (zero_standard_message\<lparr>sm_session_id := ''s1'', sm_channel_name := ''web''\<rparr>, [])"
proof -
  have ok: "json_ok max_nesting (JObj [(''session_id'', JStr ''s1''), (''channel_name'', JStr ''web'')])" by (simp add: max_nesting_def)
  have f: "find_field (standard_message_fields fmt64 True) ''session_id'' = Some (dec_str (\<lambda>x. sm_session_id_update (\<lambda>_. x)))"
    "find_field (standard_message_fields fmt64 True) ''channel_name'' = Some (dec_str (\<lambda>x. sm_channel_name_update (\<lambda>_. x)))"
    by (simp_all add: find_field_def standard_message_fields_def has_prefix_def upper_char_def Let_def)
  show ?thesis
    unfolding demo_body_def demo_body_json_def decode_first_print [OF ok] dec_struct_print [OF ok]
    by (simp add: f dec_str_quote)
qed

theorem ingress_admits_only_signed_messages_witness:
  "\<exists>reply store' r'. ingress_ServeHTTP xor_hmac demo_env ''key'' demo_post (NewIngressHandler ''key'' None, demo_router) = (reply, store', r') \<and>
    reply_status reply = 202 \<and>
    (\<exists>body. wr_body demo_post = Inr body \<and>
      VerifyWebhookSignature xor_hmac (wr_headers demo_post) body ''key'' (NewIngressHandler ''key'' None) 7 = (None, store'))"
proof -
  have v: "VerifyWebhookSignature xor_hmac (signed_headers ''n1'' 0 demo_body) demo_body ''key'' (Some []) 7 =
      (None, Some [(''n1'', 7 + nonceTTL)])"
    using signed_verifies [of "''n1''" 7 0 "[]" xor_hmac "''key''" demo_body]
    by (simp add: signed_headers_def unix_def second_def sweep_def int64_min_def int64_max_def)
  have s: "NewIngressHandler ''key'' None = Some []" by (simp add: NewIngressHandler_def NewInMemNonceStore_def)
  obtain reply store' r' where
    r: "ingress_ServeHTTP xor_hmac demo_env ''key'' demo_post (NewIngressHandler ''key'' None, demo_router) = (reply, store', r')"
    by (metis prod_cases3)
  have now: "re_now_ns demo_env w = 7" for w by (simp add: demo_env_def)
  have "reply_status reply = 202"
    using r v demo_body_decoded
    by (auto simp: ingress_ServeHTTP_def demo_post_def s now ingress_dispatch_def zero_standard_message_def DispatchIncoming_def
        ingress_accepted_def Let_def) (auto simp: demo_env_def ingress_accepted_def split: prod.splits)
  with ingress_admits_only_signed_messages [OF _ r] r show ?thesis by (auto simp: now)
qed

end
