(* ===== verification/Gateway_Chat.thy ===== *)
theory Gateway_Chat
  imports Gateway_Sender Llm_Provider Skill Orchestrator
begin

text \<open>
  Package \<^verbatim>\<open>internal/gateway\<close>, the OpenAI-compatible endpoint (\<^verbatim>\<open>chat_completions_handler.go\<close>): request
  validation, tool checks, routing, the plain and the streaming answer, and the task state the handler
  keeps for a request.

  Clock, database faults, approval gate, HTTP connection and providers are arguments. The stream of a
  provider is its text; \<open>ce_read_err\<close> is the error that ends reading it. The sender's goroutine runs
  beside the handler (theory \<open>Gateway_Sender\<close>); of it the handler only sees when its sink disappears,
  which the handler awaits and which changes nothing in the handler's own state.
\<close>

section \<open>The handler\<close>

type_synonym 'w gate_fn = "approval_request \<Rightarrow> 'w \<Rightarrow> approval_decision res \<times> 'w"

text \<open>\<open>None\<close> stands for a nil sender, registry and gate.\<close>

record 'w chat_handler =
  ch_resolver :: "'w model_resolver"
  ch_sender :: "'w gw_env option"
  ch_registry :: "'w skill_registry option"
  ch_gate :: "'w gate_fn option"

record 'w chat_env =
  ce_conn :: "'w gw_env"
  ce_now_ns :: "'w \<Rightarrow> int"
  ce_jerr :: "string \<Rightarrow> string"
  ce_rfc3339 :: "'w \<Rightarrow> string"
  ce_new_gate :: "'w gate_fn"
  ce_read_err :: "'w \<Rightarrow> go_error option"
  ce_ctx :: "'w \<Rightarrow> go_ctx"
  ce_db_fault :: "'w \<Rightarrow> go_error option"

record 'w chat_state =
  ct_store :: "sqlite_store option"
  ct_sinks :: sinks
  ct_world :: 'w

text \<open>With a sender the constructor supplies a gate on its event bus.\<close>

definition NewChatCompletionsHandler :: "'w gate_fn \<Rightarrow> 'w model_resolver \<Rightarrow> 'w gw_env option \<Rightarrow> 'w skill_registry option \<Rightarrow>
    'w gate_fn option \<Rightarrow> 'w chat_handler" where
  "NewChatCompletionsHandler new_gate resolver sender registry gate =
     \<lparr>ch_resolver = resolver, ch_sender = sender, ch_registry = registry,
      ch_gate = (if gate = None \<and> sender \<noteq> None then Some new_gate else gate)\<rparr>"

text \<open>\<open>None\<close> is the answer of a stream: SSE headers and the frames written to the connection.\<close>

type_synonym 'w chat_outcome = "http_reply option \<times> 'w chat_state"

definition writeError :: "int \<Rightarrow> string \<Rightarrow> string \<Rightarrow> http_reply" where
  "writeError status typ msg =
     \<lparr>reply_status = status,
      reply_body = obj_text [(''error'', obj_text [(''message'', quote msg), (''type'', quote typ)])] @ [eol]\<rparr>"

definition provider_error :: "go_error \<Rightarrow> http_reply" where
  "provider_error err = (let (status, typ, msg) = MapProviderError (Some err) in writeError status typ msg)"

definition writeNonStreamResponse :: "inference_request \<Rightarrow> string \<Rightarrow> int \<Rightarrow> http_reply" where
  "writeNonStreamResponse req content created =
     \<lparr>reply_status = 200,
      reply_body = obj_text
        [(''choices'', arr_text [obj_text [(''finish_reason'', quote ''stop''), (''index'', format_int 0),
            (''message'', obj_text [(''content'', quote content), (''role'', quote ''assistant'')])]]),
         (''created'', format_int created), (''id'', quote (ir_trace_id req)), (''model'', quote (ir_model_alias req)),
         (''object'', quote ''chat.completion'')] @ [eol]\<rparr>"

definition taskStatusForError :: "go_error option \<Rightarrow> string" where
  "taskStatusForError err =
     (case err of
        None \<Rightarrow> TaskStatusSuccess
      | Some e \<Rightarrow>
          let errLower = to_lower (err_msg e) in
          if err_is e ContextCanceled then TaskStatusCancelled
          else if err_is e ContextDeadlineExceeded then TaskStatusTimeout
          else if contains errLower ''approval rejected'' then TaskStatusRejected
          else if contains errLower ''timeout'' then TaskStatusTimeout
          else TaskStatusFailed)"

definition taskStatusForResult :: "final_result \<Rightarrow> go_error option \<Rightarrow> string" where
  "taskStatusForResult result err =
     (if fr_status result \<noteq> [] then NormalizeTaskStatus (fr_status result) else taskStatusForError err)"

definition persistTaskState :: "'w chat_env \<Rightarrow> string \<Rightarrow> string \<Rightarrow> string \<Rightarrow> string \<Rightarrow> 'w chat_state \<Rightarrow> 'w chat_state" where
  "persistTaskState env taskID agentName status errMsg st =
     (case ct_store st of
        None \<Rightarrow> st
      | Some db \<Rightarrow>
          if taskID = [] then st
          else st\<lparr>ct_store := Some (fst (sqlite_Save (ce_db_fault env (ct_world st)) db
                 \<lparr>ts_task_id = taskID, ts_parent_task_id = [], ts_agent_name = agentName, ts_status = status,
                  ts_updated_at_unix = ce_now_ns env (ct_world st) div 1000000000, ts_error_message = errMsg\<rparr>))\<rparr>)"

definition recordRouteAudit :: "'w chat_env \<Rightarrow> 'w chat_handler \<Rightarrow> inference_request \<Rightarrow> 'w chat_state \<Rightarrow> 'w chat_state" where
  "recordRouteAudit env h req st =
     (case ch_sender h of
        None \<Rightarrow> st
      | Some sender \<Rightarrow>
          let now = ce_now_ns env (ct_world st) div 1000000;
              (_, w) = Record (ce_jerr env) (ge_events sender) ''gateway.chat'' now
                (zero_audit_event\<lparr>au_trace_id := ir_trace_id req, au_session_id := ir_session_id req, au_task_id := ir_task_id req,
                   au_event := ''route'', au_actor := ''gateway.chat'', au_status := ''running'',
                   au_data := obj_text [(''model_alias'', quote (ir_model_alias req)), (''stream'', bool_text (ir_stream req))],
                   au_timestamp_ms := now\<rparr>) (ct_world st) in
          st\<lparr>ct_world := w\<rparr>)"

section \<open>Tools\<close>

definition function_tool_fields :: "(string \<times> string decoder) list" where
  "function_tool_fields =
     [(''type'', dec_str (\<lambda>x a. a)), (''function'', dec_struct False [(''name'', dec_str (\<lambda>x _. x))])]"

definition parseRequestedToolNames :: "(string \<Rightarrow> string) \<Rightarrow> string \<Rightarrow> string list res" where
  "parseRequestedToolNames jerr raw =
     (if length raw = 0 then Inr []
      else case unmarshal (dec_slice (dec_struct False function_tool_fields) [] (\<lambda>x. x) (\<lambda>x _. x)) [] raw of
        None \<Rightarrow> Inl (errorf (''invalid tools payload: '' @ jerr raw))
      | Some names \<Rightarrow> Inr names)"

definition unsupported_tool :: "string \<Rightarrow> go_error" where
  "unsupported_tool name = errorf (''tool '' @ name @ '' is not supported on the gateway chat completions path'')"

definition ensureSupportedRequestedTools :: "'w skill_registry \<Rightarrow> string list \<Rightarrow> go_error option" where
  "ensureSupportedRequestedTools registry names =
     map_option unsupported_tool (find (\<lambda>name. Registry_Get registry name = None) names)"

definition newGatewaySkillRegistry :: "'w chat_env \<Rightarrow> 'w skill_registry" where
  "newGatewaySkillRegistry env =
     Registry_Register (Registry_Register NewRegistry (CurrentTimeSkill (ce_rfc3339 env))) (HttpGetSkill (ce_jerr env))"

definition skillRegistry :: "'w chat_env \<Rightarrow> 'w chat_handler \<Rightarrow> 'w skill_registry" where
  "skillRegistry env h = (case ch_registry h of Some r \<Rightarrow> r | None \<Rightarrow> newGatewaySkillRegistry env)"

definition approvalGate :: "'w chat_env \<Rightarrow> 'w chat_handler \<Rightarrow> 'w gate_fn option" where
  "approvalGate env h =
     (case ch_gate h of
        Some g \<Rightarrow> Some g
      | None \<Rightarrow> if ch_sender h \<noteq> None then Some (ce_new_gate env) else None)"

definition meta_get :: "inference_request \<Rightarrow> string \<Rightarrow> string" where
  "meta_get req k = (case map_of (ir_metadata req) k of None \<Rightarrow> [] | Some v \<Rightarrow> v)"

definition hasRequestedTools :: "inference_request \<Rightarrow> bool" where
  "hasRequestedTools req = (trim_space (meta_get req ''requested_tools'') \<noteq> [])"

fun add_tools :: "'w skill_registry \<Rightarrow> string list \<Rightarrow> prompt_builder \<Rightarrow> prompt_builder res" where
  "add_tools registry [] b = Inr b"
| "add_tools registry (name # names) b =
     (case Registry_Get registry name of
        None \<Rightarrow> Inl (unsupported_tool name)
      | Some tool \<Rightarrow>
          let b = AddInstruction b (''Tool '' @ sk_name tool @ '' requires is_write_operation='' @ bool_text (sk_is_write_operation tool) @ ''.'') in
          add_tools registry names (AddTool b \<lparr>ti_name = sk_name tool, ti_description = sk_description tool, ti_params = sk_schema tool\<rparr>))"

definition buildGatewayToolRuntimeMessages :: "(string \<Rightarrow> string) \<Rightarrow> 'w skill_registry \<Rightarrow> chat_message list \<Rightarrow> string \<Rightarrow> string \<Rightarrow>
    chat_message list res" where
  "buildGatewayToolRuntimeMessages jerr registry messages requestedToolsRaw toolChoiceRaw =
     (case parseRequestedToolNames jerr requestedToolsRaw of
        Inl err \<Rightarrow> Inl err
      | Inr toolNames \<Rightarrow>
          let b = NewSystemPromptBuilder ''gateway.chat'';
              b = AddInstruction b ''You are executing a chat completion request with gateway-managed tools.'';
              b = AddInstruction b (''You must respond with a JSON object matching exactly one of: {'' @ dq ''think'' @ '':'' @ dq ''...'' @ '','' @
                    dq ''call_skill'' @ '':{'' @ dq ''id'' @ '':'' @ dq ''...'' @ '','' @ dq ''name'' @ '':'' @ dq ''...'' @ '','' @
                    dq ''arguments'' @ '':{...},'' @ dq ''is_write_operation'' @ '':<tool-required-bool>}} or {'' @ dq ''think'' @ '':'' @ dq ''...'' @
                    '','' @ dq ''final'' @ '':'' @ dq ''...'' @ ''}.'');
              b = AddInstruction b ''When calling a tool, use only the provided builtin tool names and JSON object arguments.'';
              b = (if toolChoiceRaw \<noteq> [] \<and> toolChoiceRaw \<noteq> dq ''auto''
                   then AddInstruction b (''Respect the caller'' @ [CHR 0x27] @
                     ''s tool_choice constraint while staying within the available builtin tools.'') else b) in
          (case add_tools registry toolNames b of
             Inl err \<Rightarrow> Inl err
           | Inr b \<Rightarrow> Inr (chat_msg ''system'' (Build b) # messages)))"

section \<open>Answers\<close>

text \<open>\<^verbatim>\<open>chatCompletionRuntimeProvider\<close>; \<open>wrapFinal\<close> encodes the content as a final action.\<close>

definition runtime_predict :: "'w provider \<Rightarrow> bool \<Rightarrow> inference_request \<Rightarrow> 'w \<Rightarrow> string res \<times> 'w" where
  "runtime_predict p wrapFinal req w =
     (case pv_predict p req w of
        (Inl err, w) \<Rightarrow> (Inl err, w)
      | (Inr content, w) \<Rightarrow>
          (if wrapFinal then Inr (obj_text ([(''think'', quote [])] @ omit_empty ''final'' content)) else Inr content, w))"

text \<open>The executor of a runtime without tools is nil; its provider only yields final actions.\<close>

definition nil_executor :: "tool_call \<Rightarrow> 'w \<Rightarrow> tool_result res \<times> 'w" where
  "nil_executor call w = (Inl (errorf ''nil executor''), w)"

definition chat_runtime :: "'w chat_env \<Rightarrow> 'w chat_handler \<Rightarrow> 'w provider \<Rightarrow> bool \<Rightarrow> 'w runtime" where
  "chat_runtime env h p tools =
     (let publish = (case ch_sender h of None \<Rightarrow> (\<lambda>c w. (None, w)) | Some sender \<Rightarrow> PublishChunk sender);
          now = (\<lambda>w. ce_now_ns env w div 1000000) in
      if tools then
        NewRuntime (runtime_predict p False)
          (\<lambda>call w. executor_result (Execute (ce_now_ns env) (skillRegistry env h) call w)) (approvalGate env h) publish now (ce_jerr env)
      else (NewRuntime (runtime_predict p True) nil_executor None publish now (ce_jerr env))\<lparr>rn_max_turns := 1\<rparr>)"

definition chat_fanout :: "'w chat_handler \<Rightarrow> inference_request \<Rightarrow> fanout option" where
  "chat_fanout h req =
     (case ch_sender h of
        None \<Rightarrow> None
      | Some _ \<Rightarrow> Some (SetPublisher True (NewFanout (ir_trace_id req) (ir_session_id req) (ir_task_id req))))"

definition with_task_id :: "inference_request \<Rightarrow> inference_request" where
  "with_task_id req = (if ir_task_id req = [] then req\<lparr>ir_task_id := ir_trace_id req\<rparr> else req)"

definition run_chat :: "'w chat_env \<Rightarrow> 'w chat_handler \<Rightarrow> 'w provider \<Rightarrow> inference_request \<Rightarrow> 'w chat_state \<Rightarrow>
    (final_result \<times> go_error option) \<times> 'w chat_state" where
  "run_chat env h p req st =
     (let (out, s) = Run (chat_runtime env h p (hasRequestedTools req)) req (chat_fanout h req) (ct_world st) in
      (out, st\<lparr>ct_world := rs_world s\<rparr>))"

definition handleNonStream :: "'w chat_env \<Rightarrow> 'w chat_handler \<Rightarrow> 'w provider \<Rightarrow> inference_request \<Rightarrow> 'w chat_state \<Rightarrow> 'w chat_outcome" where
  "handleNonStream env h p req st =
     (let req = with_task_id req;
          save = persistTaskState env (ir_task_id req) ''gateway.chat'';
          succeed = (\<lambda>content st. let st = save ''success'' [] st in
            (Some (writeNonStreamResponse req content (ce_now_ns env (ct_world st) div 1000000000)), st)) in
      if ch_sender h \<noteq> None \<or> hasRequestedTools req then
        (case (if hasRequestedTools req
               then buildGatewayToolRuntimeMessages (ce_jerr env) (skillRegistry env h) (ir_messages req)
                      (meta_get req ''requested_tools'') (meta_get req ''tool_choice'')
               else Inr (ir_messages req)) of
           Inl err \<Rightarrow> (Some (writeError 400 ''invalid_request_error'' (err_msg err)), save ''failed'' (err_msg err) st)
         | Inr messages \<Rightarrow>
             (case run_chat env h p (req\<lparr>ir_messages := messages\<rparr>) st of
                ((result, Some err), st) \<Rightarrow>
                  (Some (provider_error err), save (taskStatusForResult result (Some err)) (err_msg err) st)
              | ((result, None), st) \<Rightarrow> succeed (fr_content result) st))
      else
        (case pv_predict p req (ct_world st) of
           (Inl err, w) \<Rightarrow>
             (Some (provider_error err), save (taskStatusForError (Some err)) (err_msg err) (st\<lparr>ct_world := w\<rparr>))
         | (Inr content, w) \<Rightarrow> succeed content (st\<lparr>ct_world := w\<rparr>)))"

definition open_stream :: "'w chat_env \<Rightarrow> 'w provider \<Rightarrow> inference_request \<Rightarrow> 'w \<Rightarrow> provider_stream res \<times> 'w" where
  "open_stream env p req w =
     (case pv_predict_stream p req w of
        (Inl err, w) \<Rightarrow> (Inl err, w)
      | (Inr text, w) \<Rightarrow> (Inr \<lparr>ps_text = text, ps_err = ce_read_err env w\<rparr>, w))"

text \<open>\<open>c\<close> is the connection of the request.\<close>

definition handleStreamPassthrough :: "'w chat_env \<Rightarrow> 'w provider \<Rightarrow> nat \<Rightarrow> inference_request \<Rightarrow> 'w chat_state \<Rightarrow> 'w chat_outcome" where
  "handleStreamPassthrough env p c req st =
     (case pv_predict_stream p req (ct_world st) of
        (Inl err, w) \<Rightarrow>
          (None, st\<lparr>ct_world := snd (WriteSSEFrame (ce_conn env) c ''error'' (obj_text [(''error'', quote (err_msg err))]) w)\<rparr>)
      | (Inr text, w) \<Rightarrow> (None, st\<lparr>ct_world := snd (ge_write (ce_conn env) c text w)\<rparr>))"

definition bridge_chat :: "'w chat_env \<Rightarrow> 'w chat_handler \<Rightarrow> 'w provider \<Rightarrow> inference_request \<Rightarrow> 'w chat_state \<Rightarrow>
    go_error option \<times> 'w chat_state" where
  "bridge_chat env h p req st =
     (let (err, s) = bridgeProviderStream (ce_ctx env) (chat_runtime env h p False) (open_stream env p req)
            \<lparr>rs_world = ct_world st, rs_fanout = chat_fanout h req, rs_log = []\<rparr> in
      (err, st\<lparr>ct_world := rs_world s\<rparr>))"

definition handleStream :: "'w chat_env \<Rightarrow> 'w chat_handler \<Rightarrow> 'w provider \<Rightarrow> nat \<Rightarrow> inference_request \<Rightarrow> 'w chat_state \<Rightarrow> 'w chat_outcome" where
  "handleStream env h p c req st =
     (if hasRequestedTools req \<and> ch_sender h = None
      then (Some (writeError 400 ''invalid_request_error'' ''streaming tool execution requires gateway sender support''), st)
      else if ch_sender h = None then handleStreamPassthrough env p c req st
      else
        let req = with_task_id req;
            save = persistTaskState env (ir_task_id req) ''gateway.chat'';
            leave = (\<lambda>st. st\<lparr>ct_sinks := UnregisterSink (ir_task_id req) (ct_sinks st)\<rparr>);
            st = st\<lparr>ct_sinks := RegisterSink (ir_task_id req) (ChatCompletionStreamSink c) (ct_sinks st)\<rparr> in
        if hasRequestedTools req then
          (case buildGatewayToolRuntimeMessages (ce_jerr env) (skillRegistry env h) (ir_messages req)
                  (meta_get req ''requested_tools'') (meta_get req ''tool_choice'') of
             Inl err \<Rightarrow>
               let st = save ''failed'' (err_msg err) st;
                   (_, w) = WriteSSEFrame (ce_conn env) c ''error'' (obj_text [(''error'', quote (err_msg err))]) (ct_world st);
                   (_, w) = WriteDoneFrame (ce_conn env) c w in
               (None, leave (st\<lparr>ct_world := w\<rparr>))
           | Inr messages \<Rightarrow>
               (case run_chat env h p (req\<lparr>ir_messages := messages\<rparr>) st of
                  ((result, Some err), st) \<Rightarrow> (None, leave (save (taskStatusForResult result (Some err)) (err_msg err) st))
                | ((result, None), st) \<Rightarrow> (None, leave (save ''success'' [] st))))
        else
          (case bridge_chat env h p req st of
             (Some err, st) \<Rightarrow> (None, leave (save (taskStatusForError (Some err)) (err_msg err) st))
           | (None, st) \<Rightarrow> (None, leave (save ''success'' [] st))))"

section \<open>The request\<close>

definition check_tools :: "'w chat_env \<Rightarrow> 'w chat_handler \<Rightarrow> string \<Rightarrow> go_error option" where
  "check_tools env h tools =
     (if length tools = 0 then None
      else case parseRequestedToolNames (ce_jerr env) tools of
        Inl err \<Rightarrow> Some err
      | Inr names \<Rightarrow> ensureSupportedRequestedTools (skillRegistry env h) names)"

definition trace_id :: "'w chat_env \<Rightarrow> 'w chat_state \<Rightarrow> string" where
  "trace_id env st = ''tr_'' @ format_int (ce_now_ns env (ct_world st))"

definition inference_request_for :: "string \<Rightarrow> chat_completion_request \<Rightarrow> inference_request" where
  "inference_request_for traceID req =
     (let r = zero_inference_request\<lparr>ir_trace_id := traceID, ir_task_id := traceID, ir_messages := cr_messages req,
            ir_model_alias := cr_model req, ir_stream := cr_stream req, ir_temperature := cr_temperature req\<rparr> in
      if 0 < length (cr_tools req)
      then r\<lparr>ir_metadata := [(''requested_tools'', cr_tools req), (''tool_choice'', cr_tool_choice req)],
             ir_on_approval_reject := ''fail''\<rparr>
      else r)"

text \<open>From the validated request on.\<close>

definition serve_chat :: "'w chat_env \<Rightarrow> 'w chat_handler \<Rightarrow> nat \<Rightarrow> chat_completion_request \<Rightarrow> 'w chat_state \<Rightarrow> 'w chat_outcome" where
  "serve_chat env h c req st =
     (case check_tools env h (cr_tools req) of
        Some err \<Rightarrow> (Some (writeError 400 ''invalid_request_error'' (err_msg err)), st)
      | None \<Rightarrow>
          (case ResolveByAlias (ch_resolver h) (cr_model req) of
             (_, _, Some err) \<Rightarrow> (Some (provider_error err), st)
           | (p, _, None) \<Rightarrow>
               let infReq = inference_request_for (trace_id env st) req;
                   st = recordRouteAudit env h infReq st;
                   st = persistTaskState env (ir_task_id infReq) ''gateway.chat'' ''running'' [] st in
               if cr_stream req then handleStream env h (the p) c infReq st
               else handleNonStream env h (the p) infReq st))"

definition chat_ServeHTTP :: "'w chat_env \<Rightarrow> 'w chat_handler \<Rightarrow> nat \<Rightarrow> string \<Rightarrow> string res \<Rightarrow> 'w chat_state \<Rightarrow> 'w chat_outcome" where
  "chat_ServeHTTP env h c mthd body st =
     (if mthd \<noteq> ''POST'' then (Some (http_Error ''Method not allowed'' 405), st)
      else case body of
        Inl err \<Rightarrow> (Some (writeError 400 ''invalid_request_error'' (err_msg err)), st)
      | Inr raw \<Rightarrow>
          (case ValidateChatCompletionRequest (ce_jerr env) raw of
             Inl err \<Rightarrow> (Some (provider_error err), st)
           | Inr req \<Rightarrow> serve_chat env h c req st))"

section \<open>The task state of a request\<close>

definition stored_status :: "'w chat_state \<Rightarrow> string \<Rightarrow> string \<Rightarrow> bool" where
  "stored_status st taskID status =
     (\<exists>db ts. ct_store st = Some db \<and> sqlite_schema db \<and> sqlite_Get None db taskID = Inr ts \<and> ts_status ts = status)"

definition has_store :: "'w chat_state \<Rightarrow> bool" where
  "has_store st = (\<exists>db. ct_store st = Some db \<and> sqlite_schema db)"

lemma stored_has_store: "stored_status st t s \<Longrightarrow> has_store st"
  by (auto simp: stored_status_def has_store_def)

lemma persist_frame [simp]:
  "ct_world (persistTaskState env t a s e st) = ct_world st" "ct_sinks (persistTaskState env t a s e st) = ct_sinks st"
  by (simp_all add: persistTaskState_def split: option.splits)

lemma persist_stored:
  assumes "\<forall>w. ce_db_fault env w = None" "has_store st" "t \<noteq> []"
  shows "stored_status (persistTaskState env t a s e st) t s"
proof -
  from assms(2) obtain db where db: "ct_store st = Some db" "sqlite_schema db" by (auto simp: has_store_def)
  let ?ts = "\<lparr>ts_task_id = t, ts_parent_task_id = [], ts_agent_name = a, ts_status = s,
    ts_updated_at_unix = ce_now_ns env (ct_world st) div 1000000000, ts_error_message = e\<rparr>"
  from upsert_Get_self [OF db(2), of ?ts] obtain ts where "sqlite_Get None (upsert ?ts db) t = Inr ts" "ts_status ts = s"
    by (auto simp: same_outcome_def)
  with db assms(1,3) show ?thesis
    by (auto simp: persistTaskState_def stored_status_def sqlite_Save_def upsert_schema)
qed

lemma world_update_stored [simp]:
  "stored_status (st\<lparr>ct_world := w\<rparr>) t s = stored_status st t s" "has_store (st\<lparr>ct_world := w\<rparr>) = has_store st"
  "stored_status (st\<lparr>ct_sinks := k\<rparr>) t s = stored_status st t s" "has_store (st\<lparr>ct_sinks := k\<rparr>) = has_store st"
  by (simp_all add: stored_status_def has_store_def)

lemma recordRouteAudit_store [simp]:
  "has_store (recordRouteAudit env h req st) = has_store st"
  by (simp add: recordRouteAudit_def Let_def split_beta split: option.splits)

text \<open>The statuses written at the end of a request are terminal, and \<^verbatim>\<open>success\<close> only without an error.\<close>

definition failure_status :: "string \<Rightarrow> bool" where
  "failure_status s = (IsTerminalTaskStatus s \<and> s \<noteq> ''success'')"

lemma failure_statuses:
  "failure_status TaskStatusFailed" "failure_status TaskStatusRejected" "failure_status TaskStatusTimeout" "failure_status TaskStatusCancelled"
  by (simp_all add: failure_status_def terminal_statuses task_statuses_def) (simp_all add: task_status_defs)

lemma taskStatusForError_failure: "failure_status (taskStatusForError (Some e))"
  by (simp add: taskStatusForError_def Let_def failure_statuses)

lemma taskStatusForResult_failure:
  assumes "outcome_event (result, Some err) event"
  shows "failure_status (taskStatusForResult result (Some err))"
proof -
  have n: "NormalizeTaskStatus ''timeout'' = TaskStatusTimeout" "NormalizeTaskStatus ''cancelled'' = TaskStatusCancelled"
    "NormalizeTaskStatus ''error'' = TaskStatusFailed" "NormalizeTaskStatus ''failed'' = TaskStatusFailed"
    "NormalizeTaskStatus ''rejected'' = TaskStatusRejected" by code_simp+
  from assms have "fr_status result \<in> {''timeout'', ''cancelled'', ''error'', ''failed'', ''rejected''}"
    by (auto simp: outcome_event_def)
  then show ?thesis by (auto simp: taskStatusForResult_def n failure_statuses)
qed

lemma success_terminal: "IsTerminalTaskStatus ''success''"
  by code_simp

lemma provider_error_status: "400 \<le> reply_status (provider_error err)"
  by (simp add: provider_error_def MapProviderError_def writeError_def Let_def)

lemma run_chat_outcome:
  assumes "run_chat env h p req st = ((result, err), st')"
  shows "\<exists>event. outcome_event (result, err) event" "has_store st' = has_store st"
proof -
  let ?run = "Run (chat_runtime env h p (hasRequestedTools req)) req (chat_fanout h req) (ct_world st)"
  obtain s where s: "?run = ((result, err), s)" "st' = st\<lparr>ct_world := rs_world s\<rparr>"
    using assms by (auto simp: run_chat_def split: prod.splits)
  have "\<exists>event. outcome_event (fst ?run) event" by (rule Run_segments) blast
  with s show "\<exists>event. outcome_event (result, err) event" "has_store st' = has_store st" by simp_all
qed

lemma bridge_chat_store: "has_store (snd (bridge_chat env h p req st)) = has_store st"
  by (simp add: bridge_chat_def split_beta Let_def)

text \<open>A request is settled when its row has a terminal status that agrees with the answer.\<close>

definition settled :: "string \<Rightarrow> 'w chat_outcome \<Rightarrow> bool" where
  "settled t out =
     (\<exists>s. stored_status (snd out) t s \<and> IsTerminalTaskStatus s \<and>
        (\<forall>reply. fst out = Some reply \<longrightarrow> (s = ''success'') = (reply_status reply = 200)))"

lemma settled_success: "stored_status st t ''success'' \<Longrightarrow> (\<And>r. out = Some r \<Longrightarrow> reply_status r = 200) \<Longrightarrow> settled t (out, st)"
  using success_terminal by (auto simp: settled_def)

lemma settled_failure:
  "stored_status st t s \<Longrightarrow> failure_status s \<Longrightarrow> (\<And>r. out = Some r \<Longrightarrow> reply_status r \<noteq> 200) \<Longrightarrow> settled t (out, st)"
  by (auto simp: settled_def failure_status_def)

lemma settled_stream: "stored_status st t s \<Longrightarrow> failure_status s \<or> s = ''success'' \<Longrightarrow> settled t (None, st)"
  using success_terminal by (auto simp: settled_def failure_status_def)

lemma handleNonStream_settles:
  assumes nf: "\<forall>w. ce_db_fault env w = None" and st: "has_store st" and t: "ir_task_id req = t" "t \<noteq> []"
  shows "settled t (handleNonStream env h p req st)"
proof -
  have tid: "with_task_id req = req" using t by (simp add: with_task_id_def)
  note saved = persist_stored [OF nf _ t(2)]
  have pe: "reply_status (provider_error e) \<noteq> 200" for e using provider_error_status [of e] by linarith
  have ok: "settled t (let st = persistTaskState env t ''gateway.chat'' ''success'' [] st1 in
      (Some (writeNonStreamResponse req x (ce_now_ns env (ct_world st) div 1000000000)), st))" if "has_store st1" for st1 x
    using saved [OF that] by (auto simp: writeNonStreamResponse_def Let_def intro!: settled_success)
  have fail: "settled t (Some r, persistTaskState env t ''gateway.chat'' s e st1)"
    if "has_store st1" "failure_status s" "reply_status r \<noteq> 200" for st1 r s e
    using that(3) by (intro settled_failure [OF saved [OF that(1)] that(2)]) auto
  show ?thesis
  proof (cases "ch_sender h \<noteq> None \<or> hasRequestedTools req")
    case False
    obtain res w where r: "pv_predict p req (ct_world st) = (res, w)" by force
    have st1: "has_store (st\<lparr>ct_world := w\<rparr>)" using st by simp
    show ?thesis
    proof (cases res)
      case (Inl e)
      with False r fail [OF st1 taskStatusForError_failure pe, of e e] show ?thesis
        using tid t(1) by (simp add: handleNonStream_def Let_def)
    next
      case (Inr x)
      with False r ok [OF st1, of x] show ?thesis using tid t(1) by (simp add: handleNonStream_def Let_def)
    qed
  next
    case True
    let ?msgs = "if hasRequestedTools req
      then buildGatewayToolRuntimeMessages (ce_jerr env) (skillRegistry env h) (ir_messages req)
             (meta_get req ''requested_tools'') (meta_get req ''tool_choice'')
      else Inr (ir_messages req)"
    show ?thesis
    proof (cases ?msgs)
      case (Inl err)
      with True fail [OF st failure_statuses(1), of "writeError 400 ''invalid_request_error'' (err_msg err)" "err_msg err"] show ?thesis
        using t(1) tid by (simp add: handleNonStream_def Let_def writeError_def TaskStatusFailed_def)
    next
      case (Inr messages)
      obtain result err st1 where r: "run_chat env h p (req\<lparr>ir_messages := messages\<rparr>) st = ((result, err), st1)"
        by (metis prod.collapse)
      from run_chat_outcome [OF r] obtain event where o: "outcome_event (result, err) event" "has_store st1" using st by auto
      show ?thesis
      proof (cases err)
        case None
        with True Inr r ok [OF o(2)] show ?thesis using tid t(1) by (simp add: handleNonStream_def Let_def)
      next
        case (Some e)
        from taskStatusForResult_failure o(1) Some have "failure_status (taskStatusForResult result (Some e))" by blast
        from fail [OF o(2) this pe] True Inr r Some show ?thesis
          using tid t(1) by (simp add: handleNonStream_def Let_def)
      qed
    qed
  qed
qed

lemma handleStream_settles:
  assumes nf: "\<forall>w. ce_db_fault env w = None" and st: "has_store st" and t: "ir_task_id req = t" "t \<noteq> []"
    and sender: "ch_sender h \<noteq> None"
  shows "settled t (handleStream env h p c req st) \<and> fst (handleStream env h p c req st) = None \<and>
    \<not> HasSink t (ct_sinks (snd (handleStream env h p c req st)))"
proof -
  have tid: "with_task_id req = req" using t by (simp add: with_task_id_def)
  let ?st = "st\<lparr>ct_sinks := RegisterSink t (ChatCompletionStreamSink c) (ct_sinks st)\<rparr>"
  have st': "has_store ?st" using st by simp
  have fin: "settled t (None, (persistTaskState env t ''gateway.chat'' s e st1)\<lparr>ct_world := w, ct_sinks := k\<rparr>)"
    "settled t (None, (persistTaskState env t ''gateway.chat'' s e st1)\<lparr>ct_sinks := k\<rparr>)"
    if "has_store st1" "failure_status s \<or> s = ''success''" for st1 s e w k
    using persist_stored [OF nf that(1) t(2)] that(2) by (auto intro!: settled_stream [of _ t s])
  have leave: "\<not> HasSink t (UnregisterSink t k)" for k by (simp add: HasSink_def)
  show ?thesis
  proof (cases "hasRequestedTools req")
    case False
    obtain err st1 where b: "bridge_chat env h p req ?st = (err, st1)" by force
    with bridge_chat_store [of env h p req ?st] st' have "has_store st1" by simp
    with fin(2) False b sender tid t(1) leave taskStatusForError_failure show ?thesis
      by (cases err) (auto simp: handleStream_def Let_def)
  next
    case True
    show ?thesis
    proof (cases "buildGatewayToolRuntimeMessages (ce_jerr env) (skillRegistry env h) (ir_messages req)
        (meta_get req ''requested_tools'') (meta_get req ''tool_choice'')")
      case (Inl err)
      with fin(1) [OF st', of TaskStatusFailed] failure_statuses(1) True sender tid t(1) leave show ?thesis
        by (auto simp: handleStream_def Let_def TaskStatusFailed_def split_beta)
    next
      case (Inr messages)
      obtain result err st1 where r: "run_chat env h p (req\<lparr>ir_messages := messages\<rparr>) ?st = ((result, err), st1)"
        by (metis prod.collapse)
      from run_chat_outcome [OF r] obtain event where o: "outcome_event (result, err) event" "has_store st1" using st' by auto
      with fin(2) Inr True r sender tid t(1) leave taskStatusForResult_failure show ?thesis
        by (cases err) (auto simp: handleStream_def Let_def)
    qed
  qed
qed


definition demo_chat_json :: "(string \<times> json) list" where
  "demo_chat_json = [(''model'', JStr ''m''), (''messages'', JArr [JObj [(''role'', JStr ''user''), (''content'', JStr ''x'')]])]"

definition demo_chat_request :: chat_completion_request where
  "demo_chat_request = zero_chat_completion_request\<lparr>cr_model := ''m'', cr_messages := [chat_msg ''user'' ''x'']\<rparr>"

definition demo_chat_body :: string where "demo_chat_body = json_print (JObj demo_chat_json)"

lemma demo_chat_valid: "ValidateChatCompletionRequest jerr demo_chat_body = Inr demo_chat_request"
proof -
  let ?m = "JObj [(''role'', JStr ''user''), (''content'', JStr ''x'')]"
  have ok: "json_ok max_nesting (JObj demo_chat_json)" "json_ok max_nesting ?m" "json_ok max_nesting (JArr [?m])"
    by (simp_all add: demo_chat_json_def max_nesting_def)
  have f: "find_field request_fields ''model'' = Some (dec_str (\<lambda>x. cr_model_update (\<lambda>_. x)))"
    "find_field request_fields ''messages'' = Some (dec_slice (dec_struct True chat_message_fields) zero_chat_message
       cr_messages (\<lambda>x. cr_messages_update (\<lambda>_. x)))"
    "find_field chat_message_fields ''role'' = Some (dec_str (\<lambda>x. cm_role_update (\<lambda>_. x)))"
    "find_field chat_message_fields ''content'' = Some (dec_str (\<lambda>x. cm_content_update (\<lambda>_. x)))"
    by (simp_all add: find_field_def request_fields_def chat_message_fields_def has_prefix_def upper_char_def Let_def)
  have q: "dec_str upd (json_print (JStr s)) x = Some (upd s x)" if "utf8_valid s"
    for upd :: "string \<Rightarrow> chat_completion_request \<Rightarrow> chat_completion_request" and s x using that by (simp add: dec_str_quote)
  have m: "dec_struct True chat_message_fields (json_print ?m) zero_chat_message = Some (chat_msg ''user'' ''x'')"
    unfolding dec_struct_print [OF ok(2)] by (simp add: f dec_str_quote chat_msg_def)
  have a: "dec_slice (dec_struct True chat_message_fields) zero_chat_message cr_messages (\<lambda>x. cr_messages_update (\<lambda>_. x))
      (json_print (JArr [?m])) r = Some (r\<lparr>cr_messages := [chat_msg ''user'' ''x'']\<rparr>)" if "cr_messages r = []" for r :: chat_completion_request
    unfolding dec_slice_print [OF ok(3)] using m that by (simp del: json_print.simps)
  have "dec_struct True request_fields demo_chat_body zero_chat_completion_request = Some demo_chat_request"
    unfolding demo_chat_body_def dec_struct_print [OF ok(1)]
    by (simp add: demo_chat_json_def f q dec_str_quote a demo_chat_request_def zero_chat_completion_request_def del: json_print.simps)
  then show ?thesis
    using decode_first_print [OF ok(1), of "dec_struct True request_fields" zero_chat_completion_request]
    unfolding demo_chat_body_def [symmetric]
    by (simp add: ValidateChatCompletionRequest_def at_eof_def skip_ws_def demo_chat_request_def zero_chat_completion_request_def
        validRoles_def chat_msg_def validateTools_def validateToolChoice_def)
qed

definition demo_provider :: "unit provider" where
  "demo_provider = \<lparr>pv_predict = (\<lambda>q w. (Inr ''hi'', w)), pv_predict_stream = (\<lambda>q w. (Inr [], w))\<rparr>"

definition demo_handler :: "unit chat_handler" where
  "demo_handler = NewChatCompletionsHandler (\<lambda>a w. (Inl (errorf []), w))
     (RegisterRoute (Resolver_Register NewModelResolver ''p'' demo_provider) (zero_route\<lparr>rt_alias := ''m'', rt_provider := ''p''\<rparr>))
     None None None"

definition demo_chat_env :: "unit chat_env" where
  "demo_chat_env = \<lparr>ce_conn = \<lparr>ge_write = (\<lambda>c t w. (None, w)), ge_events = None, ge_now_ns = (\<lambda>w. 5), ge_jerr = (\<lambda>s. s)\<rparr>,
     ce_now_ns = (\<lambda>w. 5), ce_jerr = (\<lambda>s. s), ce_rfc3339 = (\<lambda>w. []), ce_new_gate = (\<lambda>a w. (Inl (errorf []), w)),
     ce_read_err = (\<lambda>w. None), ce_ctx = (\<lambda>w. None), ce_db_fault = (\<lambda>w. None)\<rparr>"

definition demo_chat_state :: "unit chat_state" where
  "demo_chat_state = \<lparr>ct_store = Some [], ct_sinks = [], ct_world = ()\<rparr>"


text \<open>
  Without a sender a stream is passed through and nobody settles its task: the row stays at \<^verbatim>\<open>running\<close>, so a
  later start-up takes the finished chat request for an interrupted task.
\<close>

lemma passthrough_leaves_task_running:
  assumes "\<forall>w. ce_db_fault env w = None" "has_store st" "ch_sender h = None" "cr_stream req" "cr_tools req = []"
    and "ResolveByAlias (ch_resolver h) (cr_model req) = (p, route, None)"
  shows "stored_status (snd (serve_chat env h c req st)) (trace_id env st) ''running''"
proof -
  have t: "trace_id env st \<noteq> []" by (simp add: trace_id_def)
  have "stored_status (snd (handleStreamPassthrough env q c r st1)) x s = stored_status st1 x s" for q r st1 x s
    by (simp add: handleStreamPassthrough_def split: prod.splits sum.splits)
  with assms persist_stored [OF assms(1,2) t] show ?thesis
    by (simp add: serve_chat_def check_tools_def Let_def recordRouteAudit_def handleStream_def hasRequestedTools_def meta_get_def
        inference_request_for_def zero_inference_request_def trim_space_def trim_left_def trim_right_def)
qed

end
