(* ===== verification/Go_Crypto.thy ===== *)
theory Go_Crypto
  imports Go_Prelude "HOL-Library.Word" "HOL-Library.List_Lexorder" "HOL-Library.Char_ord"
begin

text \<open>
  The parts of the standard library the callback codecs of the chat platforms use: \<^verbatim>\<open>encoding/base64\<close>
  (\<^verbatim>\<open>StdEncoding\<close>), \<^verbatim>\<open>encoding/binary\<close> (\<^verbatim>\<open>BigEndian\<close> on \<^verbatim>\<open>uint32\<close>), \<^verbatim>\<open>crypto/cipher\<close> (CBC mode) and
  PKCS#7 padding as the codecs write it. The AES block transformations and SHA-1 are arguments.
\<close>

section \<open>Panics\<close>

datatype 'a may_panic = Panicked | Returned 'a

section \<open>Base64\<close>

definition b64_char :: "nat \<Rightarrow> char" where
  "b64_char n =
     (if n < 26 then char_of (65 + n) else if n < 52 then char_of (71 + n) else if n < 62 then char_of (n - 4)
      else if n = 62 then CHR ''+'' else CHR ''/'')"

definition b64_val :: "char \<Rightarrow> nat option" where
  "b64_val c =
     (let n = of_char c :: nat in
      if 65 \<le> n \<and> n \<le> 90 then Some (n - 65)
      else if 97 \<le> n \<and> n \<le> 122 then Some (n - 71)
      else if 48 \<le> n \<and> n \<le> 57 then Some (n + 4)
      else if c = CHR ''+'' then Some 62
      else if c = CHR ''/'' then Some 63
      else None)"

abbreviation pad_char :: char where "pad_char \<equiv> CHR ''=''"

fun b64_encode :: "string \<Rightarrow> string" where
  "b64_encode [] = []"
| "b64_encode [a] =
     [b64_char (of_char a div 4), b64_char (of_char a mod 4 * 16), pad_char, pad_char]"
| "b64_encode [a, b] =
     [b64_char (of_char a div 4), b64_char (of_char a mod 4 * 16 + of_char b div 16),
      b64_char (of_char b mod 16 * 4), pad_char]"
| "b64_encode (a # b # c # s) =
     b64_char (of_char a div 4) # b64_char (of_char a mod 4 * 16 + of_char b div 16) #
     b64_char (of_char b mod 16 * 4 + of_char c div 64) # b64_char (of_char c mod 64) # b64_encode s"

text \<open>
  The decoder skips line breaks anywhere, needs the padding, and ignores the unused bits of the last
  group.
\<close>

fun b64_groups :: "string \<Rightarrow> string option" where
  "b64_groups [] = Some []"
| "b64_groups (a # b # c # d # s) =
     (case (b64_val a, b64_val b) of
        (Some x, Some y) \<Rightarrow>
          if c = pad_char then (if d = pad_char \<and> s = [] then Some [char_of (x * 4 + y div 16)] else None)
          else (case b64_val c of
                  None \<Rightarrow> None
                | Some z \<Rightarrow>
                    if d = pad_char
                    then (if s = [] then Some [char_of (x * 4 + y div 16), char_of (y mod 16 * 16 + z div 4)] else None)
                    else (case (b64_val d, b64_groups s) of
                            (Some u, Some r) \<Rightarrow>
                              Some (char_of (x * 4 + y div 16) # char_of (y mod 16 * 16 + z div 4) #
                                    char_of (z mod 4 * 64 + u) # r)
                          | _ \<Rightarrow> None))
      | _ \<Rightarrow> None)"
| "b64_groups _ = None"

definition b64_decode :: "string \<Rightarrow> string option" where
  "b64_decode s = b64_groups (filter (\<lambda>c. c \<noteq> CHR 0x0A \<and> c \<noteq> CHR 0x0D) s)"

lemma b64_val_char: "n < 64 \<Longrightarrow> b64_val (b64_char n) = Some n"
  by (auto simp: b64_val_def b64_char_def Let_def)

lemma b64_char_not: "n < 64 \<Longrightarrow> b64_char n \<notin> {pad_char, CHR 0x0A, CHR 0x0D}"
proof
  assume n: "n < 64" and "b64_char n \<in> {pad_char, CHR 0x0A, CHR 0x0D}"
  moreover have "b64_val pad_char = None" "b64_val (CHR 0x0A) = None" "b64_val (CHR 0x0D) = None"
    by (simp_all add: b64_val_def Let_def)
  ultimately show False using b64_val_char [OF n] by auto
qed

lemma byte_bounds: fixes c :: char
  shows "of_char c div 4 < (64 :: nat)" "of_char c mod 64 < (64 :: nat)"
    "of_char c mod 4 * 16 < (64 :: nat)" "of_char c mod 16 * 4 < (64 :: nat)"
    "of_char c div 64 < (4 :: nat)" "of_char c div 16 < (16 :: nat)"
proof -
  have c: "of_char c < (256 :: nat)" by simp
  show "of_char c div 4 < (64 :: nat)" "of_char c div 64 < (4 :: nat)" "of_char c div 16 < (16 :: nat)"
    using c by (simp_all add: less_mult_imp_div_less)
  show "of_char c mod 64 < (64 :: nat)" by simp
  have "of_char c mod 4 < (4 :: nat)" "of_char c mod 16 < (16 :: nat)" by simp_all
  then show "of_char c mod 4 * 16 < (64 :: nat)" "of_char c mod 16 * 4 < (64 :: nat)" by linarith+
qed

lemma byte_bounds2: fixes c d :: char
  shows "of_char c mod 4 * 16 + of_char d div 16 < (64 :: nat)" "of_char c mod 16 * 4 + of_char d div 64 < (64 :: nat)"
proof -
  have "of_char c mod 4 \<le> (3 :: nat)" "of_char c mod 16 \<le> (15 :: nat)"
    using mod_less_divisor [of 4 "of_char c"] mod_less_divisor [of 16 "of_char c"] by linarith+
  then have "of_char c mod 4 * 16 \<le> (48 :: nat)" "of_char c mod 16 * 4 \<le> (60 :: nat)" by linarith+
  with byte_bounds(5,6) [of d]
  show "of_char c mod 4 * 16 + of_char d div 16 < (64 :: nat)" "of_char c mod 16 * 4 + of_char d div 64 < (64 :: nat)"
    by linarith+
qed

lemma b64_char_pad: "n < 64 \<Longrightarrow> b64_char n \<noteq> pad_char"
  using b64_char_not [of n] by blast

lemma split_div: fixes x :: nat
  shows "x div 4 * 4 + (x mod 4 * 16) div 16 = x"
    "m < 16 \<Longrightarrow> x div 4 * 4 + (x mod 4 * 16 + m) div 16 = x"
    "x div 16 < 16 \<Longrightarrow> (n * 16 + x div 16) mod 16 * 16 + (x mod 16 * 4) div 4 = x"
    "x div 16 < 16 \<Longrightarrow> k < 4 \<Longrightarrow> (n * 16 + x div 16) mod 16 * 16 + (x mod 16 * 4 + k) div 4 = x"
    "x div 64 < 4 \<Longrightarrow> (j * 4 + x div 64) mod 4 * 64 + x mod 64 = x"
  by (simp_all add: div_mult_self1)

lemmas char_split = split_div [of "of_char _"]

lemma b64_groups_encode: "b64_groups (b64_encode s) = Some s"
proof (induction s rule: b64_encode.induct)
  case (2 a)
  then show ?case by (simp add: b64_val_char b64_char_pad byte_bounds split_div)
next
  case (3 a b)
  then show ?case by (simp add: b64_val_char b64_char_pad byte_bounds byte_bounds2 split_div)
next
  case (4 a b c s)
  then show ?case by (simp add: b64_val_char b64_char_pad byte_bounds byte_bounds2 split_div)
qed simp

lemma b64_encode_chars:
  "list_all (\<lambda>c. c \<noteq> CHR 0x0A \<and> c \<noteq> CHR 0x0D) (b64_encode s)"
proof (induction s rule: b64_encode.induct)
  case (2 a)
  then show ?case using b64_char_not byte_bounds by auto
next
  case (3 a b)
  then show ?case using b64_char_not byte_bounds byte_bounds2 by auto
next
  case (4 a b c s)
  then show ?case using b64_char_not byte_bounds byte_bounds2 by auto
qed simp

lemma b64_decode_encode [simp]: "b64_decode (b64_encode s) = Some s"
proof -
  have "filter (\<lambda>c. c \<noteq> CHR 0x0A \<and> c \<noteq> CHR 0x0D) (b64_encode s) = b64_encode s"
    using b64_encode_chars [of s] by (simp add: filter_id_conv list_all_iff)
  then show ?thesis unfolding b64_decode_def by (simp only: b64_groups_encode)
qed

section \<open>Big-endian 32-bit integers\<close>

definition put_uint32 :: "32 word \<Rightarrow> string" where
  "put_uint32 v = map (\<lambda>k. char_of (unat v div 2 ^ k)) [24, 16, 8, 0]"

definition get_uint32 :: "string \<Rightarrow> 32 word" where
  "get_uint32 s = of_nat (foldl (\<lambda>n c. n * 256 + of_char c) 0 s)"

lemma put_uint32_length [simp]: "length (put_uint32 v) = 4"
  by (simp add: put_uint32_def)

lemma base256_digits:
  assumes "n < 2 ^ 32"
  shows "((n div 2 ^ 24 mod 256 * 256 + n div 2 ^ 16 mod 256) * 256 + n div 2 ^ 8 mod 256) * 256 + n mod 256 = (n :: nat)"
proof -
  have "n div 2 ^ 16 = n div 2 ^ 8 div 256" "n div 2 ^ 24 = n div 2 ^ 8 div 256 div 256"
    by (simp_all add: div_mult2_eq [symmetric])
  moreover have "n div 2 ^ 24 mod 256 = n div 2 ^ 24" using assms by (simp add: div_less_iff_less_mult)
  moreover have "n div 2 ^ 8 = n div 256" by simp
  ultimately show ?thesis by simp
qed

lemma get_put_uint32 [simp]: "get_uint32 (put_uint32 v) = v"
proof -
  have "unat v < 2 ^ 32" using unsigned_less [of v, where ?'a = nat] by simp
  then have "foldl (\<lambda>n c. n * 256 + of_char c) 0 (put_uint32 v) = unat v"
    using base256_digits [of "unat v"] by (simp add: put_uint32_def del: One_nat_def)
  then show ?thesis by (simp add: get_uint32_def)
qed

section \<open>CBC\<close>

definition xor_byte :: "char \<Rightarrow> char \<Rightarrow> char" where
  "xor_byte a b = char_of (Bit_Operations.xor (of_char a) (of_char b) :: nat)"

definition xor_bytes :: "string \<Rightarrow> string \<Rightarrow> string" where
  "xor_bytes s t = map2 xor_byte s t"

abbreviation block_size :: nat where "block_size \<equiv> 16"

function cbc_encrypt :: "(string \<Rightarrow> string) \<Rightarrow> string \<Rightarrow> string \<Rightarrow> string" where
  "cbc_encrypt E iv s =
     (if s = [] then []
      else let c = E (xor_bytes (take block_size s) iv) in c @ cbc_encrypt E c (drop block_size s))"
  by pat_completeness auto
termination by (relation "measure (\<lambda>(_, _, s). length s)") auto

function cbc_decrypt :: "(string \<Rightarrow> string) \<Rightarrow> string \<Rightarrow> string \<Rightarrow> string" where
  "cbc_decrypt D iv s =
     (if s = [] then []
      else xor_bytes (D (take block_size s)) iv @ cbc_decrypt D (take block_size s) (drop block_size s))"
  by pat_completeness auto
termination by (relation "measure (\<lambda>(_, _, s). length s)") auto

declare cbc_encrypt.simps [simp del] cbc_decrypt.simps [simp del]

text \<open>What the codecs rely on: with a given key the block decryption inverts the block encryption.\<close>

definition block_inverse :: "(string \<Rightarrow> string) \<Rightarrow> (string \<Rightarrow> string) \<Rightarrow> bool" where
  "block_inverse E D = (\<forall>b. length b = block_size \<longrightarrow> length (E b) = block_size \<and> D (E b) = b)"

lemma xor_byte_inverse: "xor_byte (xor_byte a b) b = a"
proof -
  let ?x = "Bit_Operations.xor (of_char a) (of_char b) :: nat"
  have "take_bit 8 (of_char c :: nat) = of_char c" for c
    by (simp add: take_bit_nat_eq_self_iff)
  then have "take_bit 8 ?x = ?x" by simp
  then have "?x mod 256 = ?x" by (simp add: take_bit_eq_mod)
  then have "of_char (xor_byte a b) = ?x" by (simp add: xor_byte_def)
  then have "xor_byte (xor_byte a b) b = char_of (Bit_Operations.xor ?x (of_char b))"
    by (simp add: xor_byte_def)
  also have "Bit_Operations.xor ?x (of_char b) = of_char a" by (simp add: xor.assoc)
  finally show ?thesis by simp
qed

lemma xor_bytes_length [simp]: "length (xor_bytes s t) = min (length s) (length t)"
  by (simp add: xor_bytes_def)

lemma xor_bytes_inverse: "length s = length t \<Longrightarrow> xor_bytes (xor_bytes s t) t = s"
  by (induction s t rule: list_induct2) (simp_all add: xor_bytes_def xor_byte_inverse)

lemma cbc_decrypt_encrypt:
  assumes "block_inverse E D" "length iv = block_size" "length s mod block_size = 0"
  shows "length (cbc_encrypt E iv s) = length s \<and> cbc_decrypt D iv (cbc_encrypt E iv s) = s"
  using assms
proof (induction E iv s rule: cbc_encrypt.induct)
  case (1 E iv s)
  show ?case
  proof (cases "s = []")
    case True
    then show ?thesis by (simp add: cbc_encrypt.simps cbc_decrypt.simps)
  next
    case False
    define c where "c = E (xor_bytes (take block_size s) iv)"
    have s: "block_size \<le> length s"
    proof (rule ccontr)
      assume "\<not> block_size \<le> length s"
      with "1.prems"(3) False show False by simp
    qed
    with "1.prems" have c: "length c = block_size" "D c = xor_bytes (take block_size s) iv"
      by (simp_all add: c_def block_inverse_def)
    have "length (drop block_size s) mod block_size = 0"
      using s "1.prems"(3) by (simp add: le_mod_geq)
    with "1.IH" [OF False c_def] c "1.prems"(1)
    have IH: "length (cbc_encrypt E c (drop block_size s)) = length s - block_size"
      "cbc_decrypt D c (cbc_encrypt E c (drop block_size s)) = drop block_size s" by simp_all
    have enc: "cbc_encrypt E iv s = c @ cbc_encrypt E c (drop block_size s)"
      using False by (subst cbc_encrypt.simps) (simp add: Let_def c_def)
    have "cbc_decrypt D iv (c @ t) = xor_bytes (D c) iv @ cbc_decrypt D c t" for t
      using c(1) by (subst cbc_decrypt.simps) auto
    moreover have "xor_bytes (xor_bytes (take block_size s) iv) iv = take block_size s"
      using s "1.prems"(2) by (simp add: xor_bytes_inverse)
    ultimately show ?thesis using c s IH by (simp add: enc)
  qed
qed

section \<open>PKCS#7 padding\<close>

definition pkcs7Pad :: "string \<Rightarrow> nat \<Rightarrow> string" where
  "pkcs7Pad src blockSize =
     (let padding = blockSize - length src mod blockSize in src @ replicate padding (char_of padding))"

text \<open>The two codecs differ only in the texts of the errors.\<close>

definition pkcs7_unpad :: "string \<Rightarrow> string \<Rightarrow> string \<Rightarrow> string \<Rightarrow> nat \<Rightarrow> string res" where
  "pkcs7_unpad e1 e2 e3 src blockSize =
     (if length src = 0 \<or> length src mod blockSize \<noteq> 0 then Inl (errorf e1)
      else let padding = of_char (last src) in
           if padding = 0 \<or> blockSize < padding \<or> length src < padding then Inl (errorf e2)
           else if \<not> list_all (\<lambda>b. of_char b = padding) (drop (length src - padding) src) then Inl (errorf e3)
           else Inr (take (length src - padding) src))"

lemma pkcs7Pad_length: "0 < n \<Longrightarrow> length (pkcs7Pad s n) mod n = 0 \<and> length s < length (pkcs7Pad s n)"
proof -
  assume n: "0 < n"
  have "length s mod n < n" "length s = length s div n * n + length s mod n" using n by simp_all
  then have "length s + (n - length s mod n) = length s div n * n + n" by linarith
  then have "(length s + (n - length s mod n)) mod n = 0" by simp
  moreover have "length s < length s + (n - length s mod n)" using mod_less_divisor [OF n, of "length s"] by linarith
  ultimately show ?thesis by (simp add: pkcs7Pad_def Let_def del: Nat.add_diff_assoc)
qed

lemma pkcs7_unpad_pad:
  assumes "0 < n" "n < 256"
  shows "pkcs7_unpad e1 e2 e3 (pkcs7Pad s n) n = Inr s"
proof -
  define p where "p = n - length s mod n"
  have p: "0 < p" "p \<le> n" "p < 256" using assms by (auto simp: p_def)
  have pad: "pkcs7Pad s n = s @ replicate p (char_of p)" by (simp add: pkcs7Pad_def p_def Let_def)
  have len: "(length s + p) mod n = 0" using pkcs7Pad_length [OF assms(1), of s] by (simp add: pad)
  have "last (s @ replicate p (char_of p)) = char_of p" using p by (cases p) simp_all
  with p len show ?thesis
    by (simp add: pkcs7_unpad_def pad Let_def list_all_iff)
qed

end
