(* ===== verification/Wecom_Codec.thy ===== *)
theory Wecom_Codec
  imports Go_Crypto
begin

text \<open>
  Package \<^verbatim>\<open>internal/gateway/wecom\<close>: the configuration (\<^verbatim>\<open>config.go\<close>), the codec of encrypted callbacks
  (\<^verbatim>\<open>crypto.go\<close>) and the clean-up of downloaded media (\<^verbatim>\<open>media_retention.go\<close>).

  SHA-1, the AES block transformations and the texts of base64 errors are the fields of \<open>crypto\<close>; the
  random bytes are an argument.
\<close>

section \<open>Configuration\<close>

record wecom_config =
  wx_corp_id :: string
  wx_agent_id :: int
  wx_corp_secret :: string
  wx_token :: string
  wx_encoding_aes_key :: string
  wx_callback_path :: string
  wx_api_base_url :: string
  wx_http_timeout :: int
  wx_media_dir :: string

definition blank :: "string \<Rightarrow> bool" where
  "blank s = (trim_space s = [])"

text \<open>\<open>media\<close> is the directory under \<^verbatim>\<open>os.TempDir()\<close>; times are in nanoseconds.\<close>

definition wecom_normalize :: "string \<Rightarrow> wecom_config \<Rightarrow> wecom_config" where
  "wecom_normalize media c =
     (let c = (if blank (wx_callback_path c) then c\<lparr>wx_callback_path := ''/callbacks/wecom''\<rparr> else c);
          c = (if blank (wx_api_base_url c) then c\<lparr>wx_api_base_url := ''https://qyapi.weixin.qq.com''\<rparr> else c);
          c = (if wx_http_timeout c \<le> 0 then c\<lparr>wx_http_timeout := 10 * 1000000000\<rparr> else c) in
      if blank (wx_media_dir c) then c\<lparr>wx_media_dir := media\<rparr> else c)"

definition wecom_Validate :: "wecom_config \<Rightarrow> go_error option" where
  "wecom_Validate c =
     (if blank (wx_corp_id c) then Some (errorf ''wecom corp id is required'')
      else if wx_agent_id c \<le> 0 then Some (errorf ''wecom agent id must be positive'')
      else if blank (wx_corp_secret c) then Some (errorf ''wecom corp secret is required'')
      else if blank (wx_token c) then Some (errorf ''wecom token is required'')
      else if blank (wx_encoding_aes_key c) then Some (errorf ''wecom encoding aes key is required'')
      else None)"

section \<open>The codec\<close>

record crypto =
  cy_sha1 :: "string \<Rightarrow> string"
  cy_aes_encrypt :: "string \<Rightarrow> string \<Rightarrow> string"
  cy_aes_decrypt :: "string \<Rightarrow> string \<Rightarrow> string"
  cy_berr :: "string \<Rightarrow> string"

definition base64_DecodeString :: "crypto \<Rightarrow> string \<Rightarrow> string res" where
  "base64_DecodeString cy s = (case b64_decode s of None \<Rightarrow> Inl (errorf (cy_berr cy s)) | Some x \<Rightarrow> Inr x)"

definition aes_NewCipher :: "string \<Rightarrow> go_error option" where
  "aes_NewCipher key =
     (if length key \<in> {16, 24, 32} then None
      else Some (errorf (''crypto/aes: invalid key size '' @ format_nat (length key))))"

record codec =
  cd_token :: string
  cd_receive_id :: string
  cd_aes_key :: string

definition NewCodec :: "crypto \<Rightarrow> wecom_config \<Rightarrow> codec res" where
  "NewCodec cy cfg =
     (let key = trim_space (wx_encoding_aes_key cfg) in
      if key = [] then Inl (errorf ''encoding aes key is required'')
      else case base64_DecodeString cy (key @ ''='') of
        Inl err \<Rightarrow> Inl (GoError (''decode aes key: '' @ err_msg err) (err_chain err))
      | Inr decoded \<Rightarrow>
          if length decoded \<noteq> 32 then Inl (errorf (''invalid aes key length '' @ format_nat (length decoded)))
          else Inr \<lparr>cd_token = trim_space (wx_token cfg), cd_receive_id = trim_space (wx_corp_id cfg), cd_aes_key = decoded\<rparr>)"

definition Signature :: "crypto \<Rightarrow> codec \<Rightarrow> string \<Rightarrow> string \<Rightarrow> string \<Rightarrow> string" where
  "Signature cy c timestamp nonce encrypted =
     hex_encode (cy_sha1 cy (join [] (sort [cd_token c, timestamp, nonce, encrypted])))"

text \<open>The frame that is encrypted: 16 random bytes, the length, the message and the receiver.\<close>

definition callback_frame :: "string \<Rightarrow> string \<Rightarrow> string \<Rightarrow> string" where
  "callback_frame randomBytes plain receiver =
     randomBytes @ put_uint32 (of_nat (length plain)) @ plain @ receiver"

definition seal :: "crypto \<Rightarrow> string \<Rightarrow> string \<Rightarrow> string" where
  "seal cy key buf = b64_encode (cbc_encrypt (cy_aes_encrypt cy key) (take 16 key) (pkcs7Pad buf 32))"

definition Encrypt :: "crypto \<Rightarrow> string res \<Rightarrow> codec \<Rightarrow> string \<Rightarrow> string res" where
  "Encrypt cy rand c plain =
     (case rand of
        Inl err \<Rightarrow> Inl err
      | Inr randomBytes \<Rightarrow>
          (case aes_NewCipher (cd_aes_key c) of
             Some err \<Rightarrow> Inl err
           | None \<Rightarrow> Inr (seal cy (cd_aes_key c) (callback_frame randomBytes plain (cd_receive_id c)))))"

definition wecom_pkcs7Unpad :: "string \<Rightarrow> nat \<Rightarrow> string res" where
  "wecom_pkcs7Unpad = pkcs7_unpad ''invalid padded data'' ''invalid padding'' ''invalid padding content''"

text \<open>
  From the decrypted frame on. The end of the message is \<^verbatim>\<open>20+msgLength\<close> in \<^verbatim>\<open>uint32\<close>: where the sum wraps
  around, the slice \<^verbatim>\<open>unpadded[20:end]\<close> has its bounds in the wrong order and the code panics.
\<close>

definition open_frame :: "codec \<Rightarrow> string \<Rightarrow> string res may_panic" where
  "open_frame c unpadded =
     (if length unpadded < 20 then Returned (Inl (errorf ''plaintext too short''))
      else let msgLength = get_uint32 (take 4 (drop 16 unpadded));
               stop = unat (20 + msgLength) in
           if length unpadded < stop then Returned (Inl (errorf ''invalid plaintext message length''))
           else if stop < 20 then Panicked
           else if cd_receive_id c \<noteq> [] \<and> drop stop unpadded \<noteq> cd_receive_id c
           then Returned (Inl (errorf ''receive id mismatch''))
           else Returned (Inr (drop 20 (take stop unpadded))))"

definition Decrypt :: "crypto \<Rightarrow> codec \<Rightarrow> string \<Rightarrow> string \<Rightarrow> string \<Rightarrow> string \<Rightarrow> string res may_panic" where
  "Decrypt cy c signature timestamp nonce encrypted =
     (if signature \<noteq> Signature cy c timestamp nonce encrypted then Returned (Inl (errorf ''invalid signature''))
      else case base64_DecodeString cy encrypted of
        Inl err \<Rightarrow> Returned (Inl (GoError (''decode ciphertext: '' @ err_msg err) (err_chain err)))
      | Inr ciphertext \<Rightarrow>
          if length ciphertext = 0 \<or> length ciphertext mod 16 \<noteq> 0
          then Returned (Inl (errorf ''invalid ciphertext size''))
          else case aes_NewCipher (cd_aes_key c) of
            Some err \<Rightarrow> Returned (Inl err)
          | None \<Rightarrow>
              (case wecom_pkcs7Unpad (cbc_decrypt (cy_aes_decrypt cy (cd_aes_key c)) (take 16 (cd_aes_key c)) ciphertext) 32 of
                 Inl err \<Rightarrow> Returned (Inl err)
               | Inr unpadded \<Rightarrow> open_frame c unpadded))"

definition VerifyURL :: "crypto \<Rightarrow> codec \<Rightarrow> string \<Rightarrow> string \<Rightarrow> string \<Rightarrow> string \<Rightarrow> string res may_panic" where
  "VerifyURL cy c signature timestamp nonce echostr = Decrypt cy c signature timestamp nonce echostr"

section \<open>Media retention\<close>

text \<open>A directory is the list \<^verbatim>\<open>os.ReadDir\<close> returns; \<open>info\<close> and \<open>remove\<close> are the file system.\<close>

record dir_entry =
  de_name :: string
  de_is_dir :: bool

fun cleanup_loop :: "(string \<Rightarrow> 'w \<Rightarrow> int res) \<Rightarrow> (string \<Rightarrow> 'w \<Rightarrow> go_error option \<times> 'w) \<Rightarrow> int \<Rightarrow> dir_entry list \<Rightarrow>
    nat \<Rightarrow> 'w \<Rightarrow> (nat \<times> go_error option) \<times> 'w" where
  "cleanup_loop info remove cutoff [] removed w = ((removed, None), w)"
| "cleanup_loop info remove cutoff (e # es) removed w =
     (if de_is_dir e then cleanup_loop info remove cutoff es removed w
      else case info (de_name e) w of
        Inl err \<Rightarrow> ((removed, Some err), w)
      | Inr modTime \<Rightarrow>
          if cutoff < modTime then cleanup_loop info remove cutoff es removed w
          else (case remove (de_name e) w of
                  (Some err, w) \<Rightarrow> ((removed, Some err), w)
                | (None, w) \<Rightarrow> cleanup_loop info remove cutoff es (removed + 1) w))"

text \<open>\<open>entries\<close> is what reading the directory gives; \<open>None\<close> when it does not exist.\<close>

definition CleanupExpiredMediaFiles :: "(string \<Rightarrow> 'w \<Rightarrow> int res) \<Rightarrow> (string \<Rightarrow> 'w \<Rightarrow> go_error option \<times> 'w) \<Rightarrow> string \<Rightarrow>
    int \<Rightarrow> int \<Rightarrow> dir_entry list option res \<Rightarrow> 'w \<Rightarrow> (nat \<times> go_error option) \<times> 'w" where
  "CleanupExpiredMediaFiles info remove mediaDir retention now entries w =
     (if retention \<le> 0 \<or> mediaDir = [] then ((0, None), w)
      else case entries of
        Inl err \<Rightarrow> ((0, Some err), w)
      | Inr None \<Rightarrow> ((0, None), w)
      | Inr (Some es) \<Rightarrow> cleanup_loop info remove (now - retention) es 0 w)"

text \<open>\<^verbatim>\<open>normalize\<close> of the interval between sweeps, in nanoseconds; the clock it also fills in is an argument here.\<close>

definition sweep_interval :: "int \<Rightarrow> int" where
  "sweep_interval interval = (if interval \<le> 0 then 3600000000000 else interval)"

text \<open>
  One sweep at once and one for each tick; \<open>True\<close> is a tick, \<open>False\<close> the end of the context. \<open>read\<close> lists the directory.
\<close>

fun sweep_loop :: "('w \<Rightarrow> 'w) \<Rightarrow> bool list \<Rightarrow> 'w \<Rightarrow> 'w" where
  "sweep_loop sweep [] w = w"
| "sweep_loop sweep (tick # sel) w = (if tick then sweep_loop sweep sel (sweep w) else w)"

definition StartMediaRetention :: "(string \<Rightarrow> 'w \<Rightarrow> int res) \<Rightarrow> (string \<Rightarrow> 'w \<Rightarrow> go_error option \<times> 'w) \<Rightarrow>
    ('w \<Rightarrow> dir_entry list option res) \<Rightarrow> ('w \<Rightarrow> int) \<Rightarrow> string \<Rightarrow> int \<Rightarrow> bool list \<Rightarrow> 'w \<Rightarrow> 'w" where
  "StartMediaRetention info remove read clock mediaDir retention sel w =
     (let sweep = (\<lambda>w. snd (CleanupExpiredMediaFiles info remove mediaDir retention (clock w) (read w) w)) in
      if retention \<le> 0 \<or> mediaDir = [] then w else sweep_loop sweep sel (sweep w))"

section \<open>Correctness of the codec\<close>

lemma frame_parts:
  assumes "length r = 16"
  shows "take 4 (drop 16 (callback_frame r m t)) = put_uint32 (of_nat (length m))"
    "drop 20 (callback_frame r m t) = m @ t" "length (callback_frame r m t) = 20 + length m + length t"
  using assms by (simp_all add: callback_frame_def)

lemma open_frame_frame:
  assumes "length r = 16" "20 + length m < 2 ^ 32"
  shows "open_frame c (callback_frame r m (cd_receive_id c)) = Returned (Inr m)"
proof -
  have e: "unat (20 + of_nat (length m) :: 32 word) = 20 + length m"
    using assms(2) by (simp add: unat_word_ariths unat_of_nat take_bit_eq_mod)
  let ?f = "callback_frame r m (cd_receive_id c)"
  have "drop (20 + length m) ?f = drop (length m) (drop 20 ?f)" by (simp add: add.commute)
  then have "drop (20 + length m) ?f = cd_receive_id c" "drop 20 (take (20 + length m) ?f) = m"
    using frame_parts(2) [OF assms(1), of m "cd_receive_id c"] by (simp_all add: drop_take)
  then show ?thesis using frame_parts [OF assms(1), of m "cd_receive_id c"] e
    by (simp add: open_frame_def Let_def)
qed

text \<open>What \<^verbatim>\<open>Decrypt\<close> computes for a sealed frame under its own signature.\<close>

lemma Decrypt_seal:
  assumes "length (cd_aes_key c) = 32" "block_inverse (cy_aes_encrypt cy (cd_aes_key c)) (cy_aes_decrypt cy (cd_aes_key c))"
  shows "Decrypt cy c (Signature cy c ts nonce (seal cy (cd_aes_key c) buf)) ts nonce (seal cy (cd_aes_key c) buf) = open_frame c buf"
proof -
  have pad: "length (pkcs7Pad buf 32) mod 32 = 0" "0 < length (pkcs7Pad buf 32)"
    using pkcs7Pad_length [of 32 buf] by auto
  then have "length (pkcs7Pad buf 32) mod 16 = 0" using mod_mod_cancel [of 16 32 "length (pkcs7Pad buf 32)"] by simp
  with cbc_decrypt_encrypt [OF assms(2), of "take 16 (cd_aes_key c)" "pkcs7Pad buf 32"] assms(1) pad
  show ?thesis
    by (simp add: Decrypt_def seal_def base64_DecodeString_def aes_NewCipher_def wecom_pkcs7Unpad_def pkcs7_unpad_pad)
qed

lemma NewCodec_key: "NewCodec cy cfg = Inr c \<Longrightarrow> length (cd_aes_key c) = 32"
  by (auto simp: NewCodec_def Let_def split: if_splits sum.splits)

text \<open>
  What the codec of a valid configuration encrypts it decrypts again, for every message whose frame
  length fits into 32 bits, every choice of the random bytes, and any timestamp and nonce under which the
  ciphertext is signed.
\<close>

theorem wecom_decrypt_inverts_encrypt:
  assumes "NewCodec cy cfg = Inr c" "length r = 16" "20 + length plain < 2 ^ 32"
    and "block_inverse (cy_aes_encrypt cy (cd_aes_key c)) (cy_aes_decrypt cy (cd_aes_key c))"
  shows "\<exists>e. Encrypt cy (Inr r) c plain = Inr e \<and>
    Decrypt cy c (Signature cy c timestamp nonce e) timestamp nonce e = Returned (Inr plain)"
proof -
  have key: "length (cd_aes_key c) = 32" using assms(1) by (rule NewCodec_key)
  then have "Encrypt cy (Inr r) c plain = Inr (seal cy (cd_aes_key c) (callback_frame r plain (cd_receive_id c)))"
    by (simp add: Encrypt_def aes_NewCipher_def)
  with Decrypt_seal [OF key assms(4)] open_frame_frame [OF assms(2,3)] show ?thesis by auto
qed

definition rev_crypto :: crypto where
  "rev_crypto = \<lparr>cy_sha1 = (\<lambda>s. take 20 s), cy_aes_encrypt = (\<lambda>_. rev), cy_aes_decrypt = (\<lambda>_. rev), cy_berr = (\<lambda>_. [])\<rparr>"

definition sample_wecom_config :: wecom_config where
  "sample_wecom_config = \<lparr>wx_corp_id = ''corp'', wx_agent_id = 7, wx_corp_secret = ''secret'', wx_token = ''tok'',
     wx_encoding_aes_key = replicate 43 (CHR ''A''), wx_callback_path = [], wx_api_base_url = [], wx_http_timeout = 0,
     wx_media_dir = []\<rparr>"

definition sample_codec :: codec where
  "sample_codec = \<lparr>cd_token = ''tok'', cd_receive_id = ''corp'', cd_aes_key = replicate 32 (CHR 0x00)\<rparr>"

lemma sample_NewCodec: "NewCodec rev_crypto sample_wecom_config = Inr sample_codec"
  by code_simp

lemma rev_crypto_inverse: "block_inverse (cy_aes_encrypt rev_crypto k) (cy_aes_decrypt rev_crypto k)"
  by (simp add: block_inverse_def rev_crypto_def)

theorem wecom_decrypt_inverts_encrypt_witness:
  "\<exists>e. Encrypt rev_crypto (Inr (replicate 16 (CHR ''r''))) sample_codec ''hello'' = Inr e \<and>
     Decrypt rev_crypto sample_codec (Signature rev_crypto sample_codec ''1'' ''n'' e) ''1'' ''n'' e = Returned (Inr ''hello'')"
  using wecom_decrypt_inverts_encrypt [OF sample_NewCodec _ _ rev_crypto_inverse, of "replicate 16 (CHR ''r'')" "''hello''" "''1''" "''n''"]
  by simp

lemma wrapped_end: "unat (20 + m :: 32 word) < 20 \<longleftrightarrow> 2 ^ 32 - 20 \<le> unat m"
proof -
  have "unat m < 2 ^ 32" using unsigned_less [of m, where ?'a = nat] by simp
  moreover have "unat (20 + m) = (20 + unat m) mod 2 ^ 32" by (simp add: unat_word_ariths)
  ultimately show ?thesis by (cases "20 + unat m < 2 ^ 32") (auto simp: mod_if)
qed

lemma open_frame_panics:
  "open_frame c u = Panicked \<longleftrightarrow> 20 \<le> length u \<and> 2 ^ 32 - 20 \<le> unat (get_uint32 (take 4 (drop 16 u)))"
  unfolding wrapped_end [symmetric] by (auto simp: open_frame_def Let_def)

text \<open>
  C30. \<^verbatim>\<open>Decrypt\<close> panics exactly on a correctly signed ciphertext whose frame declares a message length of
  \<open>2 ^ 32 - 20\<close> or more, where the end of the message wraps around in 32 bits; and whoever knows the key can
  produce such a ciphertext.
\<close>

theorem wecom_decrypt_panics_on_wrapped_length:
  assumes "length (cd_aes_key c) = 32"
    and "block_inverse (cy_aes_encrypt cy (cd_aes_key c)) (cy_aes_decrypt cy (cd_aes_key c))"
  shows "(Decrypt cy c sg ts nonce e = Panicked \<longleftrightarrow>
      sg = Signature cy c ts nonce e \<and>
      (\<exists>ct u. b64_decode e = Some ct \<and> ct \<noteq> [] \<and> length ct mod 16 = 0 \<and>
         wecom_pkcs7Unpad (cbc_decrypt (cy_aes_decrypt cy (cd_aes_key c)) (take 16 (cd_aes_key c)) ct) 32 = Inr u \<and>
         20 \<le> length u \<and> 2 ^ 32 - 20 \<le> unat (get_uint32 (take 4 (drop 16 u))))) \<and>
    (\<exists>e. Decrypt cy c (Signature cy c ts nonce e) ts nonce e = Panicked)"
proof
  show "Decrypt cy c sg ts nonce e = Panicked \<longleftrightarrow>
      sg = Signature cy c ts nonce e \<and>
      (\<exists>ct u. b64_decode e = Some ct \<and> ct \<noteq> [] \<and> length ct mod 16 = 0 \<and>
         wecom_pkcs7Unpad (cbc_decrypt (cy_aes_decrypt cy (cd_aes_key c)) (take 16 (cd_aes_key c)) ct) 32 = Inr u \<and>
         20 \<le> length u \<and> 2 ^ 32 - 20 \<le> unat (get_uint32 (take 4 (drop 16 u))))"
    using assms(1) open_frame_panics
    by (auto simp: Decrypt_def base64_DecodeString_def aes_NewCipher_def split: option.splits sum.splits)
  have "open_frame c (replicate 16 (CHR 0x00) @ put_uint32 (- 1)) = Panicked"
    by (simp add: open_frame_panics unsigned_minus_1_eq_mask mask_eq_exp_minus_1)
  then show "\<exists>e. Decrypt cy c (Signature cy c ts nonce e) ts nonce e = Panicked"
    using Decrypt_seal [OF assms] by metis
qed

theorem wecom_decrypt_panics_on_wrapped_length_witness:
  "length (cd_aes_key sample_codec) = 32 \<and>
   (\<exists>e. Decrypt rev_crypto sample_codec (Signature rev_crypto sample_codec ''1'' ''n'' e) ''1'' ''n'' e = Panicked)"
proof -
  have "length (cd_aes_key sample_codec) = 32" by (simp add: sample_codec_def)
  with wecom_decrypt_panics_on_wrapped_length [OF this rev_crypto_inverse, of "[]" "''1''" "''n''" "[]"] show ?thesis by blast
qed

lemma cleanup_removes_expired:
  "cleanup_loop (\<lambda>n _. Inr (mtime n)) (\<lambda>n w. (None, w @ [n])) cutoff es k w =
     (let xs = map de_name (filter (\<lambda>e. \<not> de_is_dir e \<and> mtime (de_name e) \<le> cutoff) es) in
      ((k + length xs, None), w @ xs))"
  by (induction es arbitrary: k w) (auto simp: Let_def)

end
