(* ===== verification/Channel_Http.thy ===== *)
theory Channel_Http
  imports Llm_Provider Go_Crypto Gateway_Router
begin

text \<open>
  What the clients of the chat platforms share: query strings (\<^verbatim>\<open>net/url\<close>), multipart uploads
  (\<^verbatim>\<open>mime/multipart\<close>), \<^verbatim>\<open>fmt.Sprint\<close> of interface values, the contents of media items, and the cached access
  token, whose contract is the locale \<open>token_source\<close>.

  The HTTP transport, the file system and the clock are the fields of \<open>channel_env\<close>.
\<close>

section \<open>Query strings\<close>

definition hex_upper :: "nat \<Rightarrow> char" where
  "hex_upper n = (if n < 10 then char_of (48 + n) else char_of (55 + n))"

definition is_unreserved :: "char \<Rightarrow> bool" where
  "is_unreserved c =
     (let n = of_char c :: nat in
      (97 \<le> n \<and> n \<le> 122) \<or> (65 \<le> n \<and> n \<le> 90) \<or> (48 \<le> n \<and> n \<le> 57) \<or> c \<in> set ''-_.~'')"

definition query_escape :: "string \<Rightarrow> string" where
  "query_escape s =
     concat (map (\<lambda>c. if c = CHR '' '' then ''+'' else if is_unreserved c then [c]
                      else [CHR ''%'', hex_upper (of_char c div 16), hex_upper (of_char c mod 16)]) s)"

text \<open>\<^verbatim>\<open>url.Values\<close> as the list of its pairs; \<^verbatim>\<open>Set\<close> replaces all values of a key, \<^verbatim>\<open>Encode\<close> sorts the keys.\<close>

definition values_set :: "string \<Rightarrow> string \<Rightarrow> (string \<times> string) list \<Rightarrow> (string \<times> string) list" where
  "values_set k v vs = filter (\<lambda>(x, _). x \<noteq> k) vs @ [(k, v)]"

definition values_encode :: "(string \<times> string) list \<Rightarrow> string" where
  "values_encode vs = join ''&'' (map (\<lambda>(k, v). query_escape k @ ''='' @ query_escape v) (sort_key fst vs))"

definition trim_slashes :: "string \<Rightarrow> string" where
  "trim_slashes s = rev (dropWhile (\<lambda>c. c = CHR ''/'') (rev s))"

section \<open>The environment of a client\<close>

record api_reply =
  ap_headers :: "string \<Rightarrow> string"
  ap_body :: "string res"

text \<open>
  \<open>cx_url_err\<close> is the error of \<^verbatim>\<open>http.NewRequestWithContext\<close> for a URL that does not parse; \<open>cx_fmtv\<close> renders a
  number the way \<^verbatim>\<open>%v\<close> does; \<open>cx_base\<close> is \<^verbatim>\<open>filepath.Base\<close>, \<open>cx_join\<close> is \<^verbatim>\<open>filepath.Join\<close>. A body that fails
  before it is complete is \<open>Inl\<close> of the error of the reader.
\<close>

record 'w channel_env =
  cx_do :: "http_request \<Rightarrow> 'w \<Rightarrow> api_reply res \<times> 'w"
  cx_now :: "'w \<Rightarrow> int"
  cx_boundary :: "'w \<Rightarrow> string"
  cx_read_file :: "string \<Rightarrow> 'w \<Rightarrow> string res"
  cx_url_err :: "string \<Rightarrow> go_error option"
  cx_jerr :: "string \<Rightarrow> string"
  cx_berr :: "string \<Rightarrow> string"
  cx_fmtv :: "string \<Rightarrow> string"
  cx_fmt64 :: "string \<Rightarrow> string option"
  cx_base :: "string \<Rightarrow> string"
  cx_join :: "string \<Rightarrow> string \<Rightarrow> string"

fun sprint :: "(string \<Rightarrow> string) \<Rightarrow> json \<Rightarrow> string" where
  "sprint fmtv JNull = ''<nil>''"
| "sprint fmtv (JBool b) = (if b then ''true'' else ''false'')"
| "sprint fmtv (JNum n) = fmtv n"
| "sprint fmtv (JStr s) = s"
| "sprint fmtv (JArr xs) = ''['' @ join '' '' (map (sprint fmtv) xs) @ '']''"
| "sprint fmtv (JObj ms) = ''map['' @ join '' '' (map (\<lambda>(k, v). k @ '':'' @ sprint fmtv v) ms) @ '']''"

text \<open>\<^verbatim>\<open>json.NewDecoder(resp.Body).Decode(&parsed)\<close>\<close>

definition decode_reply :: "'w channel_env \<Rightarrow> (string \<times> 'a decoder) list \<Rightarrow> 'a \<Rightarrow> api_reply \<Rightarrow> 'a res" where
  "decode_reply env fs z rep =
     (case ap_body rep of
        Inl err \<Rightarrow> Inl err
      | Inr body \<Rightarrow>
          (case decode_first (dec_struct False fs) z body of
             None \<Rightarrow> Inl (errorf (cx_jerr env body))
           | Some (v, _) \<Rightarrow> Inr v))"

definition http_call :: "'w channel_env \<Rightarrow> http_request \<Rightarrow> 'w \<Rightarrow> api_reply res \<times> 'w" where
  "http_call env req w = (case cx_url_err env (hr_url req) of Some err \<Rightarrow> (Inl err, w) | None \<Rightarrow> cx_do env req w)"

section \<open>Multipart uploads\<close>

abbreviation crlf :: string where "crlf \<equiv> [CHR 0x0D, CHR 0x0A]"

abbreviation dquote :: char where "dquote \<equiv> CHR 0x22"

definition escape_quotes :: "string \<Rightarrow> string" where
  "escape_quotes s = concat (map (\<lambda>c. if c = CHR 0x5C \<or> c = dquote then [CHR 0x5C, c] else [c]) s)"

definition form_file :: "string \<Rightarrow> string \<Rightarrow> string \<Rightarrow> string" where
  "form_file boundary fileName content =
     ''--'' @ boundary @ crlf @
     ''Content-Disposition: form-data; name='' @ [dquote] @ ''media'' @ [dquote] @ ''; filename='' @
       [dquote] @ escape_quotes fileName @ [dquote] @ crlf @
     ''Content-Type: application/octet-stream'' @ crlf @ crlf @
     content @ crlf @ ''--'' @ boundary @ ''--'' @ crlf"

definition upload_request :: "'w channel_env \<Rightarrow> string \<Rightarrow> string \<Rightarrow> string \<Rightarrow> 'w \<Rightarrow> http_request" where
  "upload_request env url fileName content w =
     \<lparr>hr_method = ''POST'', hr_url = url,
      hr_headers = [(''Content-Type'', ''multipart/form-data; boundary='' @ cx_boundary env w)],
      hr_body = form_file (cx_boundary env w) fileName content\<rparr>"

section \<open>Media contents\<close>

text \<open>
  The clients share the shape of \<^verbatim>\<open>mediaBytes\<close>: a path wins over inline data, and the file name falls back to
  the base name of the path or to \<^verbatim>\<open>upload.bin\<close>. \<open>tidy\<close> is how the client looks at a string before it
  tests it for emptiness (\<^verbatim>\<open>strings.TrimSpace\<close> or nothing), \<open>name\<close> what it uses of the file name.
\<close>

definition media_bytes :: "'w channel_env \<Rightarrow> (string \<Rightarrow> string) \<Rightarrow> (string \<Rightarrow> string) \<Rightarrow> string \<Rightarrow> media_item \<Rightarrow> 'w \<Rightarrow> (string \<times> string) res" where
  "media_bytes env tidy name missing media w =
     (let named = (\<lambda>fallback. if tidy (mi_file_name media) = [] then fallback else name (mi_file_name media)) in
      if tidy (mi_path media) \<noteq> [] then
        (case cx_read_file env (mi_path media) w of
           Inl err \<Rightarrow> Inl err
         | Inr content \<Rightarrow> Inr (content, named (cx_base env (mi_path media))))
      else if tidy (mi_data_base64 media) \<noteq> [] then
        (case b64_decode (mi_data_base64 media) of
           None \<Rightarrow> Inl (errorf (cx_berr env (mi_data_base64 media)))
         | Some content \<Rightarrow> Inr (content, named ''upload.bin''))
      else Inl (errorf missing))"

section \<open>Access tokens\<close>

record token_cache =
  tk_token :: string
  tk_expires_at :: int

definition no_token :: token_cache where
  "no_token = \<lparr>tk_token = [], tk_expires_at = 0\<rparr>"

text \<open>\<^verbatim>\<open>int64\<close> arithmetic, for the lifetime of a token in nanoseconds.\<close>

definition wrap64 :: "int \<Rightarrow> int" where
  "wrap64 n = (n + 2 ^ 63) mod 2 ^ 64 - 2 ^ 63"

lemma wrap64_bounds: "int64_min \<le> wrap64 n \<and> wrap64 n \<le> int64_max"
proof -
  have "0 \<le> (n + 2 ^ 63) mod 2 ^ 64" "(n + 2 ^ 63) mod 2 ^ 64 < (2 ^ 64 :: int)" by simp_all
  then show ?thesis by (simp add: wrap64_def int64_min_def int64_max_def)
qed

lemma wrap64_id: "int64_min \<le> n \<Longrightarrow> n \<le> int64_max \<Longrightarrow> wrap64 n = n"
  by (simp add: wrap64_def int64_min_def int64_max_def)

definition token_fresh :: "('w \<Rightarrow> int) \<Rightarrow> token_cache \<times> 'w \<Rightarrow> bool" where
  "token_fresh now st = (tk_token (fst st) \<noteq> [] \<and> now (snd st) < tk_expires_at (fst st))"

text \<open>
  The contract of \<^verbatim>\<open>getAccessToken\<close>: a fresh token is handed out and nothing happens; a call that returns a
  token leaves it in the cache, and it is not empty; a call that fails leaves the cache as it was.
\<close>

locale token_source =
  fixes now :: "'w \<Rightarrow> int" and get :: "token_cache \<times> 'w \<Rightarrow> string res \<times> token_cache \<times> 'w"
  assumes get_fresh: "token_fresh now st \<Longrightarrow> get st = (Inr (tk_token (fst st)), st)"
    and get_stores: "get st = (Inr t, st') \<Longrightarrow> t \<noteq> [] \<and> tk_token (fst st') = t"
    and get_fails: "get st = (Inl err, st') \<Longrightarrow> fst st' = fst st"
begin

lemma get_twice:
  assumes "get st = (Inr t, st')" "now (snd st') < tk_expires_at (fst st')"
  shows "get st' = (Inr t, st')"
  using get_fresh [of st'] get_stores [OF assms(1)] assms(2) by (simp add: token_fresh_def)

lemma get_never_empty: "fst (get st) \<noteq> Inr []"
  using get_stores [of st "[]" "snd (get st)"] by (cases "get st") auto

lemma fresh_get_is_stable: "token_fresh now st \<Longrightarrow> snd (get st) = st"
  by (simp add: get_fresh)

end

text \<open>
  The part the two clients share: use the cache while the token is fresh, otherwise fetch one with its
  lifetime and keep it. \<open>emptyErr\<close> is the error for an empty token, \<open>life\<close> the time until the cached token is
  considered expired.
\<close>

definition cached_token :: "('w \<Rightarrow> int) \<Rightarrow> ('w \<Rightarrow> (string \<times> int) res \<times> 'w) \<Rightarrow> (string \<Rightarrow> bool) \<Rightarrow> string \<Rightarrow> (int \<Rightarrow> int) \<Rightarrow>
    token_cache \<times> 'w \<Rightarrow> string res \<times> token_cache \<times> 'w" where
  "cached_token now fetch is_empty emptyErr life st =
     (if token_fresh now st then (Inr (tk_token (fst st)), st)
      else case fetch (snd st) of
        (Inl err, w) \<Rightarrow> (Inl err, fst st, w)
      | (Inr (token, expiresIn), w) \<Rightarrow>
          if is_empty token then (Inl (errorf emptyErr), fst st, w)
          else (Inr token, \<lparr>tk_token = token, tk_expires_at = now w + life expiresIn\<rparr>, w))"

lemma cached_token_source:
  assumes "is_empty []"
  shows "token_source now (cached_token now fetch is_empty emptyErr life)"
proof
  fix st t st'
  assume "cached_token now fetch is_empty emptyErr life st = (Inr t, st')"
  then show "t \<noteq> [] \<and> tk_token (fst st') = t"
    using assms by (auto simp: cached_token_def token_fresh_def split: if_splits prod.splits sum.splits)
next
  fix st err st'
  assume "cached_token now fetch is_empty emptyErr life st = (Inl err, st')"
  then show "fst st' = fst st"
    by (auto simp: cached_token_def split: if_splits prod.splits sum.splits)
qed (simp add: cached_token_def)

section \<open>Webhook URLs\<close>

text \<open>
  \<^verbatim>\<open>url.Parse\<close> as the scheme, host and path of a URL as \<^verbatim>\<open>String\<close> writes them, the pairs of its query, and the
  fragment.
\<close>

type_synonym url_parser = "string \<Rightarrow> (string \<times> (string \<times> string) list \<times> string) res"

definition url_text :: "string \<Rightarrow> (string \<times> string) list \<Rightarrow> string \<Rightarrow> string" where
  "url_text front query frag = front @ (if query = [] then [] else ''?'' @ values_encode query) @ frag"

section \<open>Adapters\<close>

text \<open>
  Every adapter of the repository implements \<^verbatim>\<open>SendMessage\<close> by sending a plain text message over \<^verbatim>\<open>Send\<close>.
\<close>

definition text_message :: "string \<Rightarrow> string \<Rightarrow> string \<Rightarrow> standard_message" where
  "text_message channel sessionID text =
     zero_standard_message\<lparr>sm_session_id := sessionID, sm_channel_name := channel, sm_message_type := ''text'',
       sm_format := ''plain_text'', sm_text := text\<rparr>"

end
