(* ===== verification/Wecom.thy ===== *)
theory Wecom
  imports Wecom_Codec Channel_Http
begin

text \<open>
  Package \<^verbatim>\<open>internal/gateway/wecom\<close>: the client of the WeCom API (\<^verbatim>\<open>client.go\<close>) and the adapter with its
  callback handler (\<^verbatim>\<open>handler.go\<close>, \<^verbatim>\<open>xml_types.go\<close>).

  The state of the client is its token cache and the world. The XML decoder, the parsers of MIME headers
  and the file operations of a download are fields of \<open>wecom_env\<close>.
\<close>

section \<open>API calls\<close>

record 'w wecom_env =
  we_ch :: "'w channel_env"
  we_cy :: crypto
  we_disposition_filename :: "string \<Rightarrow> string option"
  we_extension :: "string \<Rightarrow> string option"
  we_mkdir :: "string \<Rightarrow> 'w \<Rightarrow> go_error option \<times> 'w"
  we_create :: "string \<Rightarrow> 'w \<Rightarrow> go_error option \<times> 'w"
  we_copy :: "string \<Rightarrow> string res \<Rightarrow> 'w \<Rightarrow> int res \<times> 'w"

record wecom_api_response =
  wa_errcode :: int
  wa_errmsg :: string
  wa_access_token :: string
  wa_expires_in :: int
  wa_media_id :: string
  wa_type :: string
  wa_invalid_user :: string

definition zero_api_response :: wecom_api_response where
  "zero_api_response = \<lparr>wa_errcode = 0, wa_errmsg = [], wa_access_token = [], wa_expires_in = 0, wa_media_id = [],
     wa_type = [], wa_invalid_user = []\<rparr>"

definition wecom_api_fields :: "(string \<times> wecom_api_response decoder) list" where
  "wecom_api_fields =
     [(''errcode'', dec_int64 (\<lambda>x. wa_errcode_update (\<lambda>_. x))), (''errmsg'', dec_str (\<lambda>x. wa_errmsg_update (\<lambda>_. x))),
      (''access_token'', dec_str (\<lambda>x. wa_access_token_update (\<lambda>_. x))),
      (''expires_in'', dec_int64 (\<lambda>x. wa_expires_in_update (\<lambda>_. x))),
      (''media_id'', dec_str (\<lambda>x. wa_media_id_update (\<lambda>_. x))), (''type'', dec_str (\<lambda>x. wa_type_update (\<lambda>_. x))),
      (''invaliduser'', dec_str (\<lambda>x. wa_invalid_user_update (\<lambda>_. x)))]"

definition wecom_url :: "wecom_config \<Rightarrow> string \<Rightarrow> string \<Rightarrow> (string \<times> string) list \<Rightarrow> string" where
  "wecom_url cfg path token query =
     (let values = (if token \<noteq> [] then values_set ''access_token'' token query else query);
          encoded = values_encode values in
      trim_slashes (wx_api_base_url cfg) @ path @ (if encoded \<noteq> [] then ''?'' @ encoded else []))"

text \<open>\<open>code_text\<close> renders \<^verbatim>\<open>%s (%d)\<close> of the API's error.\<close>

definition code_text :: "string \<Rightarrow> int \<Rightarrow> string" where
  "code_text msg code = msg @ '' ('' @ format_int code @ '')''"

definition wecom_doJSON :: "'w wecom_env \<Rightarrow> wecom_config \<Rightarrow> string \<Rightarrow> string \<Rightarrow> string \<Rightarrow> string option \<Rightarrow> (string \<times> string) list \<Rightarrow>
    'w \<Rightarrow> wecom_api_response res \<times> 'w" where
  "wecom_doJSON env cfg method path token body query w =
     (case http_call (we_ch env) \<lparr>hr_method = method, hr_url = wecom_url cfg path token query,
             hr_headers = (case body of None \<Rightarrow> [] | Some _ \<Rightarrow> [(''Content-Type'', ''application/json'')]),
             hr_body = (case body of None \<Rightarrow> [] | Some raw \<Rightarrow> raw)\<rparr> w of
        (Inl err, w) \<Rightarrow> (Inl err, w)
      | (Inr rep, w) \<Rightarrow>
          (case decode_reply (we_ch env) wecom_api_fields zero_api_response rep of
             Inl err \<Rightarrow> (Inl err, w)
           | Inr parsed \<Rightarrow>
               if wa_errcode parsed \<noteq> 0
               then (Inl (errorf (''wecom api failed: '' @ code_text (wa_errmsg parsed) (wa_errcode parsed))), w)
               else (Inr parsed, w)))"

section \<open>The access token\<close>

definition wecom_fetch_token :: "'w wecom_env \<Rightarrow> wecom_config \<Rightarrow> 'w \<Rightarrow> (string \<times> int) res \<times> 'w" where
  "wecom_fetch_token env cfg w =
     (case wecom_doJSON env cfg ''GET'' ''/cgi-bin/gettoken'' [] None
             [(''corpid'', wx_corp_id cfg), (''corpsecret'', wx_corp_secret cfg)] w of
        (Inl err, w) \<Rightarrow> (Inl err, w)
      | (Inr resp, w) \<Rightarrow> (Inr (wa_access_token resp, wa_expires_in resp), w))"

definition wecom_life :: "int \<Rightarrow> int" where
  "wecom_life expiresIn = wrap64 (wrap64 (expiresIn - 60) * 1000000000)"

definition wecom_getAccessToken :: "'w wecom_env \<Rightarrow> wecom_config \<Rightarrow> token_cache \<times> 'w \<Rightarrow> string res \<times> token_cache \<times> 'w" where
  "wecom_getAccessToken env cfg =
     cached_token (cx_now (we_ch env)) (wecom_fetch_token env cfg) (\<lambda>t. t = []) ''wecom access token is empty'' wecom_life"

interpretation wecom_token: token_source "cx_now (we_ch env)" "wecom_getAccessToken env cfg" for env cfg
  unfolding wecom_getAccessToken_def by (rule cached_token_source) simp

section \<open>Sending\<close>

definition media_kind_type :: "string \<Rightarrow> string option" where
  "media_kind_type kind =
     (if kind = ''image'' then Some ''image'' else if kind = ''audio'' then Some ''voice''
      else if kind = ''video'' then Some ''video'' else if kind = ''file'' then Some ''file'' else None)"

definition first_media :: "standard_message \<Rightarrow> media_item option" where
  "first_media msg = (case sm_media msg of Some (m # _) \<Rightarrow> Some m | _ \<Rightarrow> None)"

definition has_articles :: "standard_message \<Rightarrow> bool" where
  "has_articles msg = (case sm_articles msg of None \<Rightarrow> False | Some xs \<Rightarrow> xs \<noteq> [])"

definition effectiveMessageType :: "standard_message \<Rightarrow> string" where
  "effectiveMessageType msg =
     (let t = sm_message_type msg; md = (sm_format msg = ''markdown'') in
      if t = ''markdown'' then ''markdown''
      else if t = ''text'' then (if md then ''markdown'' else ''text'')
      else if t = ''image'' then ''image''
      else if t = ''audio'' then ''voice''
      else if t = ''video'' then ''video''
      else if t = ''file'' then ''file''
      else if t = ''news'' then ''news''
      else if md then ''markdown''
      else case (case first_media msg of None \<Rightarrow> None | Some m \<Rightarrow> media_kind_type (mi_kind m)) of
        Some x \<Rightarrow> x
      | None \<Rightarrow> if has_articles msg then ''news'' else ''text'')"

definition recipientFields :: "(string \<Rightarrow> string) \<Rightarrow> standard_message \<Rightarrow> (string \<times> json) list" where
  "recipientFields fmtv msg =
     (if map_len (sm_metadata msg) = 0 then []
      else concat (map (\<lambda>(key, field).
             case map_get (sm_metadata msg) key of
               None \<Rightarrow> []
             | Some v \<Rightarrow> if v \<noteq> JNull \<and> sprint fmtv v \<noteq> [] then [(field, v)] else [])
           [(''wecom_touser'', ''touser''), (''wecom_toparty'', ''toparty''), (''wecom_totag'', ''totag''), (''wecom_chatid'', ''chatid'')]))"

definition wecom_materializeMedia :: "'w wecom_env \<Rightarrow> media_item \<Rightarrow> 'w \<Rightarrow> (string \<times> string) res" where
  "wecom_materializeMedia env = media_bytes (we_ch env) trim_space (\<lambda>n. n) ''wecom media requires media_id, path or data_base64''"

definition wecom_uploadMedia :: "'w wecom_env \<Rightarrow> wecom_config \<Rightarrow> string \<Rightarrow> string \<Rightarrow> media_item \<Rightarrow> 'w \<Rightarrow> string res \<times> 'w" where
  "wecom_uploadMedia env cfg token msgType media w =
     (case wecom_materializeMedia env media w of
        Inl err \<Rightarrow> (Inl err, w)
      | Inr (content, fileName) \<Rightarrow>
          (case http_call (we_ch env) (upload_request (we_ch env)
                  (wecom_url cfg ''/cgi-bin/media/upload'' token [(''type'', msgType)]) fileName content w) w of
             (Inl err, w) \<Rightarrow> (Inl err, w)
           | (Inr rep, w) \<Rightarrow>
               (case decode_reply (we_ch env) wecom_api_fields zero_api_response rep of
                  Inl err \<Rightarrow> (Inl err, w)
                | Inr parsed \<Rightarrow>
                    (if wa_errcode parsed \<noteq> 0
                     then Inl (errorf (''wecom media/upload failed: '' @ code_text (wa_errmsg parsed) (wa_errcode parsed)))
                     else if wa_media_id parsed = [] then Inl (errorf ''wecom media/upload returned empty media id'')
                     else Inr (wa_media_id parsed), w))))"

definition wecom_resolveMediaID :: "'w wecom_env \<Rightarrow> wecom_config \<Rightarrow> string \<Rightarrow> media_item \<Rightarrow> token_cache \<times> 'w \<Rightarrow> string res \<times> token_cache \<times> 'w" where
  "wecom_resolveMediaID env cfg msgType media st =
     (if trim_space (mi_media_id media) \<noteq> [] then (Inr (mi_media_id media), st)
      else case wecom_getAccessToken env cfg st of
        (Inl err, st) \<Rightarrow> (Inl err, st)
      | (Inr token, (cache, w)) \<Rightarrow>
          let (r, w) = wecom_uploadMedia env cfg token msgType media w in (r, cache, w))"

text \<open>The content of the payload; keys of nested objects in byte order.\<close>

definition article_json :: "article \<Rightarrow> json" where
  "article_json a = JObj [(''description'', JStr (ar_description a)), (''picurl'', JStr (ar_pic_url a)),
     (''title'', JStr (ar_title a)), (''url'', JStr (ar_url a))]"

definition articles_json :: "standard_message \<Rightarrow> json" where
  "articles_json msg = JArr (map article_json (case sm_articles msg of None \<Rightarrow> [] | Some xs \<Rightarrow> xs))"

definition media_json :: "string \<Rightarrow> media_item \<Rightarrow> string \<Rightarrow> json" where
  "media_json msgType media mediaID =
     (if msgType = ''video''
      then JObj [(''description'', JStr (mi_description media)), (''media_id'', JStr mediaID), (''title'', JStr (mi_title media))]
      else JObj [(''media_id'', JStr mediaID)])"

definition wecom_base_payload :: "(string \<Rightarrow> string) \<Rightarrow> wecom_config \<Rightarrow> standard_message \<Rightarrow> (string \<times> json) list" where
  "wecom_base_payload fmtv cfg msg =
     (let recipients = recipientFields fmtv msg in
      [(''agentid'', JNum (format_int (wx_agent_id cfg))), (''msgtype'', JStr (effectiveMessageType msg))] @ recipients @
      (if recipients = [] \<and> sm_session_id msg \<noteq> [] then [(''touser'', JStr (sm_session_id msg))] else []))"

definition wecom_buildPayload :: "'w wecom_env \<Rightarrow> wecom_config \<Rightarrow> standard_message \<Rightarrow> token_cache \<times> 'w \<Rightarrow>
    (string \<times> json) list res \<times> token_cache \<times> 'w" where
  "wecom_buildPayload env cfg msg st =
     (let msgType = effectiveMessageType msg; payload = wecom_base_payload (cx_fmtv (we_ch env)) cfg msg in
      if msgType = ''markdown'' \<or> msgType = ''text''
      then (Inr (payload @ [(msgType, JObj [(''content'', JStr (sm_text msg))])]), st)
      else if msgType \<in> {''image'', ''voice'', ''video'', ''file''} then
        (case first_media msg of
           None \<Rightarrow> (Inl (errorf (''wecom '' @ msgType @ '' message requires media'')), st)
         | Some media \<Rightarrow>
             (case wecom_resolveMediaID env cfg msgType media st of
                (Inl err, st) \<Rightarrow> (Inl err, st)
              | (Inr mediaID, st) \<Rightarrow> (Inr (payload @ [(msgType, media_json msgType media mediaID)]), st)))
      else if msgType = ''news''
      then (Inr (payload @ [(''news'', JObj [(''articles'', articles_json msg)])]), st)
      else (Inl (errorf (''unsupported wecom message type: '' @ msgType)), st))"

definition wecom_client_Send :: "'w wecom_env \<Rightarrow> wecom_config \<Rightarrow> standard_message \<Rightarrow> token_cache \<times> 'w \<Rightarrow> go_error option \<times> token_cache \<times> 'w" where
  "wecom_client_Send env cfg msg st =
     (case wecom_getAccessToken env cfg st of
        (Inl err, st) \<Rightarrow> (Some err, st)
      | (Inr token, st) \<Rightarrow>
          (case wecom_buildPayload env cfg msg st of
             (Inl err, st) \<Rightarrow> (Some err, st)
           | (Inr payload, (cache, w)) \<Rightarrow>
               (case wecom_doJSON env cfg ''POST'' ''/cgi-bin/message/send'' token (Some (map_text (Some payload))) [] w of
                  (Inl err, w) \<Rightarrow> (Some err, cache, w)
                | (Inr resp, w) \<Rightarrow>
                    (if wa_invalid_user resp \<noteq> [] then Some (errorf (''wecom invalid user: '' @ wa_invalid_user resp)) else None,
                     cache, w))))"

definition wecom_SendMessage :: "'w wecom_env \<Rightarrow> wecom_config \<Rightarrow> string \<Rightarrow> string \<Rightarrow> token_cache \<times> 'w \<Rightarrow> go_error option \<times> token_cache \<times> 'w" where
  "wecom_SendMessage env cfg sessionID text = wecom_client_Send env cfg (text_message ''wecom'' sessionID text)"

section \<open>Downloading\<close>

record downloaded_media =
  dm_path :: string
  dm_file_name :: string
  dm_mime_type :: string
  dm_size :: int

definition filenameFromHeader :: "'w wecom_env \<Rightarrow> string \<Rightarrow> string" where
  "filenameFromHeader env contentDisposition =
     (if trim_space contentDisposition = [] then []
      else case we_disposition_filename env contentDisposition of
        None \<Rightarrow> []
      | Some filename \<Rightarrow> cx_base (we_ch env) filename)"

definition extensionFromContentType :: "'w wecom_env \<Rightarrow> string \<Rightarrow> string" where
  "extensionFromContentType env contentType = (case we_extension env contentType of None \<Rightarrow> ''.bin'' | Some e \<Rightarrow> e)"

text \<open>Storing the body of a successful reply.\<close>

definition store_media :: "'w wecom_env \<Rightarrow> wecom_config \<Rightarrow> string \<Rightarrow> api_reply \<Rightarrow> 'w \<Rightarrow> downloaded_media res \<times> 'w" where
  "store_media env cfg mediaID rep w =
     (case we_mkdir env (wx_media_dir cfg) w of
        (Some err, w) \<Rightarrow> (Inl err, w)
      | (None, w) \<Rightarrow>
          let contentType = ap_headers rep ''Content-Type'';
              fileName = filenameFromHeader env (ap_headers rep ''Content-Disposition'');
              fileName = (if fileName = [] then mediaID @ extensionFromContentType env contentType else fileName);
              targetPath = cx_join (we_ch env) (wx_media_dir cfg)
                (format_int (cx_now (we_ch env) w) @ ''_'' @ fileName) in
          (case we_create env targetPath w of
             (Some err, w) \<Rightarrow> (Inl err, w)
           | (None, w) \<Rightarrow>
               (case we_copy env targetPath (ap_body rep) w of
                  (Inl err, w) \<Rightarrow> (Inl err, w)
                | (Inr n, w) \<Rightarrow>
                    (Inr \<lparr>dm_path = targetPath, dm_file_name = fileName, dm_mime_type = contentType, dm_size = n\<rparr>, w))))"

definition DownloadMedia :: "'w wecom_env \<Rightarrow> wecom_config \<Rightarrow> string \<Rightarrow> token_cache \<times> 'w \<Rightarrow> downloaded_media res \<times> token_cache \<times> 'w" where
  "DownloadMedia env cfg mediaID st =
     (case wecom_getAccessToken env cfg st of
        (Inl err, st) \<Rightarrow> (Inl err, st)
      | (Inr token, (cache, w)) \<Rightarrow>
          (case http_call (we_ch env) \<lparr>hr_method = ''GET'', hr_url = wecom_url cfg ''/cgi-bin/media/get'' token [(''media_id'', mediaID)],
                  hr_headers = [], hr_body = []\<rparr> w of
             (Inl err, w) \<Rightarrow> (Inl err, cache, w)
           | (Inr rep, w) \<Rightarrow>
               if contains (to_lower (ap_headers rep ''Content-Type'')) ''application/json'' then
                 (case decode_reply (we_ch env) wecom_api_fields zero_api_response rep of
                    Inl err \<Rightarrow> Inl err
                  | Inr parsed \<Rightarrow>
                      Inl (errorf (if wa_errcode parsed \<noteq> 0
                        then ''wecom media/get failed: '' @ code_text (wa_errmsg parsed) (wa_errcode parsed)
                        else ''wecom media/get returned json without file body'')), cache, w)
               else let (r, w) = store_media env cfg mediaID rep w in (r, cache, w)))"

section \<open>Callback messages\<close>

record callback_message =
  cb_to_user :: string
  cb_from_user :: string
  cb_create_time :: int
  cb_msg_type :: string
  cb_content :: string
  cb_msg_id :: string
  cb_agent_id :: int
  cb_event :: string
  cb_change_type :: string
  cb_pic_url :: string
  cb_media_id :: string
  cb_thumb_media_id :: string
  cb_format :: string
  cb_title :: string
  cb_description :: string
  cb_url :: string
  cb_location_x :: string
  cb_location_y :: string
  cb_scale :: string
  cb_label :: string
  cb_recognition :: string
  cb_thumb_url :: string
  cb_selected_items :: string
  cb_selected_ticket :: string

definition media_of :: "string \<Rightarrow> string \<Rightarrow> media_item" where
  "media_of kind mediaID = zero_media_item\<lparr>mi_kind := kind, mi_media_id := mediaID\<rparr>"

definition with_media :: "string \<Rightarrow> media_item \<Rightarrow> standard_message \<Rightarrow> standard_message" where
  "with_media t m req = req\<lparr>sm_message_type := t, sm_text := ''['' @ t @ '']'', sm_media := Some [m]\<rparr>"

definition add_metadata :: "(string \<times> json) list \<Rightarrow> standard_message \<Rightarrow> standard_message" where
  "add_metadata kvs req =
     req\<lparr>sm_metadata := Some ((case sm_metadata req of None \<Rightarrow> [] | Some ms \<Rightarrow> ms) @ kvs)\<rparr>"

definition toStandardMessage :: "callback_message \<Rightarrow> standard_message" where
  "toStandardMessage msg =
     (let req = zero_standard_message\<lparr>sm_session_id := cb_from_user msg, sm_channel_name := ''wecom'', sm_message_id := cb_msg_id msg,
            sm_sender_id := cb_from_user msg, sm_sender_name := cb_from_user msg, sm_receiver_id := cb_to_user msg,
            sm_metadata := Some [(''wecom_msg_type'', JStr (cb_msg_type msg)), (''wecom_agent_id'', JNum (format_int (cb_agent_id msg))),
              (''wecom_to_user'', JStr (cb_to_user msg)), (''wecom_from_user'', JStr (cb_from_user msg)),
              (''wecom_create_time'', JNum (format_int (cb_create_time msg)))]\<rparr>;
          t = to_lower (trim_space (cb_msg_type msg));
          req =
            (if t = ''text'' then req\<lparr>sm_message_type := ''text'', sm_format := ''plain_text'', sm_text := cb_content msg\<rparr>
             else if t = ''image'' then with_media ''image'' ((media_of ''image'' (cb_media_id msg))\<lparr>mi_url := cb_pic_url msg\<rparr>) req
             else if t = ''voice'' then
               with_media ''audio'' ((media_of ''audio'' (cb_media_id msg))\<lparr>mi_metadata := Some [(''format'', JStr (cb_format msg))]\<rparr>) req
             else if t = ''video'' then
               with_media ''video'' ((media_of ''video'' (cb_media_id msg))\<lparr>mi_thumbnail_media_id := cb_thumb_media_id msg\<rparr>) req
             else if t = ''file'' then with_media ''file'' (media_of ''file'' (cb_media_id msg)) req
             else if t = ''link'' then
               add_metadata [(''title'', JStr (cb_title msg)), (''description'', JStr (cb_description msg)), (''url'', JStr (cb_url msg))]
                 (req\<lparr>sm_message_type := ''link'',
                    sm_text := trim_space (join [CHR 0x0A] [cb_title msg, cb_description msg, cb_url msg])\<rparr>)
             else if t = ''location'' then
               add_metadata [(''location_x'', JStr (cb_location_x msg)), (''location_y'', JStr (cb_location_y msg)), (''scale'', JStr (cb_scale msg))]
                 (req\<lparr>sm_message_type := ''location'', sm_text := cb_label msg\<rparr>)
             else if t = ''event'' then
               add_metadata [(''event'', JStr (cb_event msg)), (''change_type'', JStr (cb_change_type msg))]
                 (req\<lparr>sm_message_type := ''event'', sm_text := cb_event msg\<rparr>)
             else req\<lparr>sm_message_type := ''unknown'', sm_text := cb_content msg\<rparr>) in
      if sm_message_id req = [] then req\<lparr>sm_message_id := sm_message_type req @ ''-'' @ format_int (cb_create_time msg)\<rparr> else req)"

text \<open>One media item: what can be downloaded is, an error is noted in its metadata.\<close>

definition enrich_media :: "'w wecom_env \<Rightarrow> wecom_config \<Rightarrow> media_item \<Rightarrow> token_cache \<times> 'w \<Rightarrow> media_item \<times> token_cache \<times> 'w" where
  "enrich_media env cfg media st =
     (if trim_space (mi_media_id media) = [] \<or> trim_space (mi_path media) \<noteq> [] then (media, st)
      else case DownloadMedia env cfg (mi_media_id media) st of
        (Inl err, st) \<Rightarrow>
          (media\<lparr>mi_metadata := Some (AList.update ''download_error'' (JStr (err_msg err))
             (case mi_metadata media of None \<Rightarrow> [] | Some ms \<Rightarrow> ms))\<rparr>, st)
      | (Inr d, st) \<Rightarrow>
          (media\<lparr>mi_path := dm_path d, mi_file_name := dm_file_name d, mi_mime_type := dm_mime_type d, mi_size := dm_size d\<rparr>, st))"

fun enrich_all :: "'w wecom_env \<Rightarrow> wecom_config \<Rightarrow> media_item list \<Rightarrow> token_cache \<times> 'w \<Rightarrow> media_item list \<times> token_cache \<times> 'w" where
  "enrich_all env cfg [] st = ([], st)"
| "enrich_all env cfg (m # ms) st =
     (let (m, st) = enrich_media env cfg m st; (ms, st) = enrich_all env cfg ms st in (m # ms, st))"

definition enrichInboundMedia :: "'w wecom_env \<Rightarrow> wecom_config \<Rightarrow> standard_message \<Rightarrow> token_cache \<times> 'w \<Rightarrow> standard_message \<times> token_cache \<times> 'w" where
  "enrichInboundMedia env cfg msg st =
     (case sm_media msg of
        None \<Rightarrow> (msg, st)
      | Some ms \<Rightarrow> let (ms, st) = enrich_all env cfg ms st in (msg\<lparr>sm_media := Some ms\<rparr>, st))"

section \<open>The callback handler\<close>

record wecom_request =
  wq_method :: string
  wq_query :: "string \<Rightarrow> string"
  wq_body :: "string res"

record wecom_adapter =
  wad_cfg :: wecom_config
  wad_codec :: codec

definition wecom_NewAdapter :: "crypto \<Rightarrow> string \<Rightarrow> wecom_config \<Rightarrow> wecom_adapter res" where
  "wecom_NewAdapter cy media cfg =
     (let cfg = wecom_normalize media cfg in
      case wecom_Validate cfg of
        Some err \<Rightarrow> Inl err
      | None \<Rightarrow>
          (case NewCodec cy cfg of
             Inl err \<Rightarrow> Inl err
           | Inr codec \<Rightarrow> Inr \<lparr>wad_cfg = cfg, wad_codec = codec\<rparr>))"

definition wecom_decrypt_query :: "'w wecom_env \<Rightarrow> wecom_adapter \<Rightarrow> wecom_request \<Rightarrow> string \<Rightarrow> string res may_panic" where
  "wecom_decrypt_query env a req encrypted =
     Decrypt (we_cy env) (wad_codec a) (wq_query req ''msg_signature'') (wq_query req ''timestamp'') (wq_query req ''nonce'') encrypted"

text \<open>
  \<open>xml_envelope\<close> reads the field \<^verbatim>\<open>Encrypt\<close> of the envelope, \<open>xml_message\<close> the callback message; \<open>None\<close> is an XML
  error. The state is the client's token cache and the router, which holds the world.
\<close>

definition wecom_handleVerifyURL :: "'w wecom_env \<Rightarrow> wecom_adapter \<Rightarrow> wecom_request \<Rightarrow> http_reply may_panic" where
  "wecom_handleVerifyURL env a req =
     (case VerifyURL (we_cy env) (wad_codec a) (wq_query req ''msg_signature'') (wq_query req ''timestamp'')
             (wq_query req ''nonce'') (wq_query req ''echostr'') of
        Panicked \<Rightarrow> Panicked
      | Returned (Inl _) \<Rightarrow> Returned (http_Error ''invalid signature'' 401)
      | Returned (Inr plain) \<Rightarrow> Returned \<lparr>reply_status = 200, reply_body = plain\<rparr>)"

definition wecom_admit :: "'w wecom_env \<Rightarrow> 'w router_env \<Rightarrow> wecom_adapter \<Rightarrow> callback_message \<Rightarrow>
    token_cache \<times> 'w router \<Rightarrow> http_reply \<times> token_cache \<times> 'w router" where
  "wecom_admit env renv a msg st =
     (let (cache, r) = st;
          (standard, (cache, w)) = enrichInboundMedia env (wad_cfg a) (toStandardMessage msg) (cache, ro_world r) in
      case HandleIncoming renv standard (r\<lparr>ro_world := w\<rparr>) of
        (Some _, r) \<Rightarrow> (http_Error ''enqueue failed'' 502, cache, r)
      | (None, r) \<Rightarrow> (\<lparr>reply_status = 200, reply_body = []\<rparr>, cache, r))"

definition wecom_handleCallback :: "'w wecom_env \<Rightarrow> 'w router_env \<Rightarrow> (string \<Rightarrow> string option) \<Rightarrow> (string \<Rightarrow> callback_message option) \<Rightarrow>
    wecom_adapter \<Rightarrow> wecom_request \<Rightarrow> token_cache \<times> 'w router \<Rightarrow> (http_reply \<times> token_cache \<times> 'w router) may_panic" where
  "wecom_handleCallback env renv xml_envelope xml_message a req st =
     (case wq_body req of
        Inl _ \<Rightarrow> Returned (http_Error ''invalid body'' 400, st)
      | Inr body \<Rightarrow>
          (case xml_envelope body of
             None \<Rightarrow> Returned (http_Error ''invalid xml'' 400, st)
           | Some encrypted \<Rightarrow>
               (case wecom_decrypt_query env a req encrypted of
                  Panicked \<Rightarrow> Panicked
                | Returned (Inl _) \<Rightarrow> Returned (http_Error ''invalid signature'' 401, st)
                | Returned (Inr plain) \<Rightarrow>
                    (case xml_message plain of
                       None \<Rightarrow> Returned (http_Error ''invalid callback xml'' 400, st)
                     | Some msg \<Rightarrow> Returned (wecom_admit env renv a msg st)))))"

definition wecom_CallbackHandler where
  "wecom_CallbackHandler env renv xml_envelope xml_message a req st =
     (if wq_method req = ''GET''
      then (case wecom_handleVerifyURL env a req of Panicked \<Rightarrow> Panicked | Returned rep \<Rightarrow> Returned (rep, st))
      else if wq_method req = ''POST'' then wecom_handleCallback env renv xml_envelope xml_message a req st
      else Returned (http_Error ''method not allowed'' 405, st))"

section \<open>Properties\<close>

definition message_types :: "string list" where
  "message_types = [''unknown'', ''text'', ''markdown'', ''image'', ''audio'', ''video'', ''file'', ''news'', ''event'', ''link'', ''location'']"

definition media_kinds :: "string list" where
  "media_kinds = [''image'', ''audio'', ''video'', ''file'']"

definition well_typed :: "standard_message \<Rightarrow> bool" where
  "well_typed m =
     (sm_message_type m \<in> set message_types \<and> sm_format m \<in> {[], ''plain_text'', ''markdown''} \<and>
      (case sm_media m of
         None \<Rightarrow> sm_message_type m \<notin> set media_kinds
       | Some ms \<Rightarrow> \<exists>x. ms = [x] \<and> mi_kind x = sm_message_type m \<and> sm_message_type m \<in> set media_kinds))"

lemma well_typed_update [simp]:
  "well_typed (m\<lparr>sm_message_id := i\<rparr>) = well_typed m" "well_typed (m\<lparr>sm_metadata := d\<rparr>) = well_typed m"
  by (simp_all add: well_typed_def split: option.split)

lemma enrich_media_kind [simp]: "mi_kind (fst (enrich_media env cfg m st)) = mi_kind m"
  by (auto simp: enrich_media_def split: prod.split sum.split)

lemma enrich_well_typed: "well_typed (fst (enrichInboundMedia env cfg m st)) = well_typed m"
proof (cases "sm_media m")
  case (Some ms)
  have "\<exists>ms'. fst (enrich_all env cfg ms st) = ms' \<and> map mi_kind ms' = map mi_kind ms"
  proof (induction ms arbitrary: st)
    case (Cons m ms)
    then show ?case by (simp add: split_beta Let_def)
  qed simp
  with Some show ?thesis
    by (auto simp: enrichInboundMedia_def well_typed_def split_beta Let_def Cons_eq_map_conv map_eq_Cons_conv)
qed (simp add: enrichInboundMedia_def)


text \<open>
  The callback handler acts only on authentic requests: it answers 200 or changes any state (the token
  cache, the router, the outside world) only if the signature in the query is the codec's signature of the
  echo string (\<^verbatim>\<open>GET\<close>) or of the encrypted body (\<^verbatim>\<open>POST\<close>), and then it does exactly what the decrypted
  content says.
\<close>

theorem wecom_callback_acts_only_on_signed_requests:
  assumes "wecom_CallbackHandler env renv xml_envelope xml_message a req st = Returned (rep, st')"
    and "reply_status rep = 200 \<or> st' \<noteq> st"
  shows "\<exists>encrypted plain. wq_query req ''msg_signature'' =
      Signature (we_cy env) (wad_codec a) (wq_query req ''timestamp'') (wq_query req ''nonce'') encrypted \<and>
    wecom_decrypt_query env a req encrypted = Returned (Inr plain) \<and>
    (wq_method req = ''GET'' \<and> encrypted = wq_query req ''echostr'' \<and> st' = st \<and> reply_body rep = plain \<or>
     wq_method req = ''POST'' \<and> (\<exists>body msg. wq_body req = Inr body \<and> xml_envelope body = Some encrypted \<and>
       xml_message plain = Some msg \<and> (rep, st') = wecom_admit env renv a msg st))"
proof -
  have sig: "sg = Signature cy c ts n e" if "Decrypt cy c sg ts n e = Returned (Inr x)" for cy c sg ts n e x
    using that by (auto simp: Decrypt_def split: if_splits)
  from assms show ?thesis
    by (auto simp: wecom_CallbackHandler_def wecom_handleCallback_def wecom_handleVerifyURL_def VerifyURL_def
        wecom_decrypt_query_def http_Error_def dest: sig
        split: if_splits sum.splits option.splits may_panic.splits)
qed

definition sample_channel :: "'w channel_env" where
  "sample_channel = \<lparr>cx_do = (\<lambda>_ w. (Inr \<lparr>ap_headers = (\<lambda>_. []), ap_body = Inr ''{}''\<rparr>, w)), cx_now = (\<lambda>_. 0), cx_boundary = (\<lambda>_. ''b''),
     cx_read_file = (\<lambda>_ _. Inr []), cx_url_err = (\<lambda>_. None), cx_jerr = (\<lambda>_. []), cx_berr = (\<lambda>_. []), cx_fmtv = (\<lambda>x. x),
     cx_fmt64 = Some, cx_base = (\<lambda>x. x), cx_join = (\<lambda>a b. a @ ''/'' @ b)\<rparr>"

definition sample_wecom :: "unit wecom_env" where
  "sample_wecom = \<lparr>we_ch = sample_channel, we_cy = rev_crypto, we_disposition_filename = (\<lambda>_. None), we_extension = (\<lambda>_. None),
     we_mkdir = (\<lambda>_ w. (None, w)), we_create = (\<lambda>_ w. (None, w)), we_copy = (\<lambda>_ _ w. (Inr 0, w))\<rparr>"

definition sample_adapter :: wecom_adapter where
  "sample_adapter = \<lparr>wad_cfg = sample_wecom_config, wad_codec = sample_codec\<rparr>"

definition sample_renv :: "unit router_env" where
  "sample_renv = \<lparr>re_enqueue = (\<lambda>_ _ w. (None, w)), re_send = (\<lambda>_ _ w. (None, w)), re_send_text = (\<lambda>_ _ _ w. (None, w)),
     re_now_ns = (\<lambda>_. 5), re_fmt64 = Some\<rparr>"

definition sample_sealed :: string where
  "sample_sealed = seal rev_crypto (cd_aes_key sample_codec) (callback_frame (replicate 16 (CHR ''r'')) ''hello'' ''corp'')"

definition sample_query :: "string \<Rightarrow> string" where
  "sample_query k =
     (if k = ''msg_signature'' then Signature rev_crypto sample_codec ''1'' ''n'' sample_sealed
      else if k = ''timestamp'' then ''1'' else if k = ''nonce'' then ''n'' else if k = ''echostr'' then sample_sealed else [])"

lemma sample_decrypt: "wecom_decrypt_query sample_wecom sample_adapter \<lparr>wq_method = m, wq_query = sample_query, wq_body = b\<rparr> sample_sealed =
  Returned (Inr ''hello'')"
proof -
  have "length (cd_aes_key sample_codec) = 32" by (simp add: sample_codec_def)
  from Decrypt_seal [OF this rev_crypto_inverse, of "''1''" "''n''"] open_frame_frame [of "replicate 16 (CHR ''r'')" "''hello''" sample_codec]
  show ?thesis
    by (simp add: wecom_decrypt_query_def sample_wecom_def sample_adapter_def sample_query_def sample_sealed_def sample_codec_def)
qed

theorem wecom_callback_acts_only_on_signed_requests_witness:
  "\<exists>encrypted plain. sample_query ''msg_signature'' = Signature rev_crypto sample_codec ''1'' ''n'' encrypted \<and>
     wecom_decrypt_query sample_wecom sample_adapter \<lparr>wq_method = ''GET'', wq_query = sample_query, wq_body = Inr []\<rparr> encrypted = Returned (Inr plain)"
proof -
  let ?req = "\<lparr>wq_method = ''GET'', wq_query = sample_query, wq_body = Inr []\<rparr> :: wecom_request"
  have "wecom_CallbackHandler sample_wecom sample_renv (\<lambda>_. None) (\<lambda>_. None) sample_adapter ?req (no_token, NewSessionRouter ()) =
    Returned (\<lparr>reply_status = 200, reply_body = ''hello''\<rparr>, no_token, NewSessionRouter ())"
    using sample_decrypt [of "''GET''" "Inr []"]
    by (simp add: wecom_CallbackHandler_def wecom_handleVerifyURL_def VerifyURL_def wecom_decrypt_query_def sample_query_def)
  from wecom_callback_acts_only_on_signed_requests [OF this] show ?thesis
    by (auto simp: sample_wecom_def sample_adapter_def sample_query_def)
qed

text \<open>The whole inbound path of a text message that is encrypted for this codec, signed and posted.\<close>

lemma sealed_message_dispatched:
  assumes "length (cd_aes_key (wad_codec a)) = 32" "length r = 16" "20 + length plain < 2 ^ 32"
    and "block_inverse (cy_aes_encrypt (we_cy env) (cd_aes_key (wad_codec a))) (cy_aes_decrypt (we_cy env) (cd_aes_key (wad_codec a)))"
    and "Encrypt (we_cy env) (Inr r) (wad_codec a) plain = Inr e"
    and "wq_method req = ''POST''" "wq_body req = Inr body" "xml_envelope body = Some e" "xml_message plain = Some msg"
    and "wq_query req ''msg_signature'' = Signature (we_cy env) (wad_codec a) (wq_query req ''timestamp'') (wq_query req ''nonce'') e"
    and "to_lower (trim_space (cb_msg_type msg)) = ''text''"
    and "\<And>q m w. fst (re_enqueue renv q m w) = None"
  shows "\<exists>r'. wecom_CallbackHandler env renv xml_envelope xml_message a req (cache, ro) =
      Returned (\<lparr>reply_status = 200, reply_body = []\<rparr>, cache, r') \<and>
    DispatchIncoming renv (toStandardMessage msg) ro = (Inr (''session_'' @ format_int (re_now_ns renv (ro_world ro))), r') \<and>
    sm_text (toStandardMessage msg) = cb_content msg \<and>
    map_option (\<lambda>b. (rb_channel_name b, rb_session_id b))
      (routeForTask (''session_'' @ format_int (re_now_ns renv (ro_world ro))) r') = Some (''wecom'', cb_from_user msg)"
proof -
  let ?m = "toStandardMessage msg"
  have m: "sm_media ?m = None" "sm_text ?m = cb_content msg" "sm_channel_name ?m = ''wecom''" "sm_session_id ?m = cb_from_user msg"
    using assms(11) by (simp_all add: toStandardMessage_def Let_def zero_standard_message_def)
  have e: "e = seal (we_cy env) (cd_aes_key (wad_codec a)) (callback_frame r plain (cd_receive_id (wad_codec a)))"
    using assms(1,5) by (simp add: Encrypt_def aes_NewCipher_def)
  have "wecom_decrypt_query env a req e = Returned (Inr plain)"
    using Decrypt_seal [OF assms(1,4)] open_frame_frame [OF assms(2,3)] assms(10) by (simp add: wecom_decrypt_query_def e)
  then have h: "wecom_CallbackHandler env renv xml_envelope xml_message a req (cache, ro) = Returned (wecom_admit env renv a msg (cache, ro))"
    using assms(6-9) by (simp add: wecom_CallbackHandler_def wecom_handleCallback_def)
  obtain res r' where d: "DispatchIncoming renv ?m ro = (res, r')" by fastforce
  with assms(12) have res: "res = Inr (''session_'' @ format_int (re_now_ns renv (ro_world ro)))"
    by (auto simp: DispatchIncoming_def Let_def split_beta split: option.splits)
  have "wecom_admit env renv a msg (cache, ro) = (\<lparr>reply_status = 200, reply_body = []\<rparr>, cache, r')"
    using d res by (simp add: wecom_admit_def enrichInboundMedia_def m HandleIncoming_def)
  with h d res dispatch_binding [OF d] m show ?thesis by auto
qed

end
