(* ===== verification/Dingtalk_Callback.thy ===== *)
theory Dingtalk_Callback
  imports Wecom
begin

text \<open>
  Package \<^verbatim>\<open>internal/gateway/dingtalk\<close>, inbound: the configuration (\<^verbatim>\<open>config.go\<close>), the callback types
  (\<^verbatim>\<open>callback_types.go\<close>), signature and encryption of callbacks (\<^verbatim>\<open>app_support.go\<close>), their mapping to channel
  messages (\<^verbatim>\<open>app_mapper.go\<close>) and the handler (\<^verbatim>\<open>app_adapter.go\<close>).
\<close>

section \<open>Configuration\<close>

record dingtalk_app_config =
  da_client_id :: string
  da_client_secret :: string
  da_agent_id :: int
  da_event_callback_path :: string
  da_card_callback_path :: string
  da_api_base_url :: string
  da_oapi_base_url :: string
  da_token :: string
  da_aes_key :: string
  da_media_dir :: string
  da_card_template_id :: string
  da_card_callback_route_key :: string
  da_http_timeout :: int

record dingtalk_robot_config =
  dr_webhook_url :: string
  dr_secret :: string
  dr_http_timeout :: int

definition default_timeout :: "int \<Rightarrow> int" where
  "default_timeout t = (if t \<le> 0 then 10 * 1000000000 else t)"

definition dingtalk_app_normalize :: "dingtalk_app_config \<Rightarrow> dingtalk_app_config" where
  "dingtalk_app_normalize c = c\<lparr>da_http_timeout := default_timeout (da_http_timeout c)\<rparr>"

definition dingtalk_robot_normalize :: "dingtalk_robot_config \<Rightarrow> dingtalk_robot_config" where
  "dingtalk_robot_normalize c = c\<lparr>dr_http_timeout := default_timeout (dr_http_timeout c)\<rparr>"

definition dingtalk_app_Validate :: "dingtalk_app_config \<Rightarrow> go_error option" where
  "dingtalk_app_Validate c =
     (if blank (da_client_id c) then Some (errorf ''dingtalk app client id is required'')
      else if blank (da_client_secret c) then Some (errorf ''dingtalk app client secret is required'')
      else if da_agent_id c \<le> 0 then Some (errorf ''dingtalk app agent id must be positive'')
      else if blank (da_token c) then Some (errorf ''dingtalk app token is required'')
      else if blank (da_aes_key c) then Some (errorf ''dingtalk app aes key is required'')
      else None)"

definition dingtalk_robot_Validate :: "dingtalk_robot_config \<Rightarrow> go_error option" where
  "dingtalk_robot_Validate c =
     (if blank (dr_webhook_url c) then Some (errorf ''dingtalk robot webhook url is required'') else None)"

section \<open>Signatures and encryption\<close>

fun ding_firstNonEmpty :: "string list \<Rightarrow> string" where
  "ding_firstNonEmpty [] = []"
| "ding_firstNonEmpty (v # vs) = (if v \<noteq> [] then v else ding_firstNonEmpty vs)"

definition requiredString :: "string \<Rightarrow> string \<Rightarrow> go_error option" where
  "requiredString name value = (if value = [] then Some (errorf (name @ '' is required'')) else None)"

definition callbackSignature :: "crypto \<Rightarrow> string \<Rightarrow> string \<Rightarrow> string \<Rightarrow> string \<Rightarrow> string" where
  "callbackSignature cy token timestamp nonce encrypt =
     hex_encode (cy_sha1 cy (join [] (sort [token, timestamp, nonce, encrypt])))"

definition ding_pkcs7Unpad :: "string \<Rightarrow> nat \<Rightarrow> string res" where
  "ding_pkcs7Unpad = pkcs7_unpad ''invalid pkcs7 data length'' ''invalid pkcs7 padding'' ''invalid pkcs7 padding bytes''"

text \<open>From the decrypted frame on; the end of the message is computed in \<^verbatim>\<open>int\<close>, so it does not wrap around.\<close>

definition ding_open_frame :: "string \<Rightarrow> string \<Rightarrow> string res" where
  "ding_open_frame receiveKey plain =
     (if length plain < 20 then Inl (errorf ''dingtalk callback body too short'')
      else let stop = 20 + unat (get_uint32 (take 4 (drop 16 plain))) in
           if length plain < stop then Inl (errorf ''dingtalk callback body length is invalid'')
           else if drop stop plain \<noteq> receiveKey then Inl (errorf ''dingtalk callback receive key mismatch'')
           else Inr (drop 20 (take stop plain)))"

text \<open>\<^verbatim>\<open>CryptBlocks\<close> panics on a ciphertext that is not a whole number of blocks.\<close>

definition decryptCallbackBody :: "crypto \<Rightarrow> string \<Rightarrow> string \<Rightarrow> string \<Rightarrow> string res may_panic" where
  "decryptCallbackBody cy aesKey receiveKey encrypt =
     (case base64_DecodeString cy (aesKey @ ''='') of
        Inl err \<Rightarrow> Returned (Inl err)
      | Inr key \<Rightarrow>
          (case base64_DecodeString cy encrypt of
             Inl err \<Rightarrow> Returned (Inl err)
           | Inr cipherText \<Rightarrow>
               (case aes_NewCipher key of
                  Some err \<Rightarrow> Returned (Inl err)
                | None \<Rightarrow>
                    if length cipherText mod 16 \<noteq> 0 then Panicked
                    else case ding_pkcs7Unpad (cbc_decrypt (cy_aes_decrypt cy key) (take 16 key) cipherText) 32 of
                      Inl err \<Rightarrow> Returned (Inl err)
                    | Inr plain \<Rightarrow> Returned (ding_open_frame receiveKey plain))))"

definition encryptCallbackBody :: "crypto \<Rightarrow> string \<Rightarrow> string \<Rightarrow> string \<Rightarrow> string res" where
  "encryptCallbackBody cy aesKey receiveKey body =
     (case base64_DecodeString cy (aesKey @ ''='') of
        Inl err \<Rightarrow> Inl err
      | Inr key \<Rightarrow>
          (case aes_NewCipher key of
             Some err \<Rightarrow> Inl err
           | None \<Rightarrow> Inr (seal cy key (callback_frame ''0123456789abcdef'' body receiveKey))))"

section \<open>Callback types\<close>

record event_callback =
  ev_challenge :: string
  ev_conversation_id :: string
  ev_msg_id :: string
  ev_chatbot_user_id :: string
  ev_sender_staff_id :: string
  ev_sender_nick :: string
  ev_msg_type :: string
  ev_event_type :: string
  ev_text_content :: string
  ev_image_media_id :: string
  ev_image_file_name :: string
  ev_audio_media_id :: string
  ev_audio_file_name :: string
  ev_video_media_id :: string
  ev_video_file_name :: string
  ev_file_media_id :: string
  ev_file_file_name :: string

definition zero_event_callback :: event_callback where
  "zero_event_callback = \<lparr>ev_challenge = [], ev_conversation_id = [], ev_msg_id = [], ev_chatbot_user_id = [], ev_sender_staff_id = [],
     ev_sender_nick = [], ev_msg_type = [], ev_event_type = [], ev_text_content = [], ev_image_media_id = [], ev_image_file_name = [],
     ev_audio_media_id = [], ev_audio_file_name = [], ev_video_media_id = [], ev_video_file_name = [], ev_file_media_id = [],
     ev_file_file_name = []\<rparr>"

definition media_payload :: "(string \<Rightarrow> 'a \<Rightarrow> 'a) \<Rightarrow> (string \<Rightarrow> 'a \<Rightarrow> 'a) \<Rightarrow> 'a decoder" where
  "media_payload mediaID fileName = dec_struct False [(''mediaId'', dec_str mediaID), (''fileName'', dec_str fileName)]"

definition event_callback_fields :: "(string \<times> event_callback decoder) list" where
  "event_callback_fields =
     [(''challenge'', dec_str (\<lambda>x. ev_challenge_update (\<lambda>_. x))),
      (''conversationId'', dec_str (\<lambda>x. ev_conversation_id_update (\<lambda>_. x))),
      (''msgId'', dec_str (\<lambda>x. ev_msg_id_update (\<lambda>_. x))),
      (''chatbotUserId'', dec_str (\<lambda>x. ev_chatbot_user_id_update (\<lambda>_. x))),
      (''senderStaffId'', dec_str (\<lambda>x. ev_sender_staff_id_update (\<lambda>_. x))),
      (''senderNick'', dec_str (\<lambda>x. ev_sender_nick_update (\<lambda>_. x))),
      (''msgtype'', dec_str (\<lambda>x. ev_msg_type_update (\<lambda>_. x))),
      (''eventType'', dec_str (\<lambda>x. ev_event_type_update (\<lambda>_. x))),
      (''text'', dec_struct False [(''content'', dec_str (\<lambda>x. ev_text_content_update (\<lambda>_. x)))]),
      (''image'', media_payload (\<lambda>x. ev_image_media_id_update (\<lambda>_. x)) (\<lambda>x. ev_image_file_name_update (\<lambda>_. x))),
      (''audio'', media_payload (\<lambda>x. ev_audio_media_id_update (\<lambda>_. x)) (\<lambda>x. ev_audio_file_name_update (\<lambda>_. x))),
      (''video'', media_payload (\<lambda>x. ev_video_media_id_update (\<lambda>_. x)) (\<lambda>x. ev_video_file_name_update (\<lambda>_. x))),
      (''file'', media_payload (\<lambda>x. ev_file_media_id_update (\<lambda>_. x)) (\<lambda>x. ev_file_file_name_update (\<lambda>_. x)))]"

record card_callback =
  cc_challenge :: string
  cc_card_callback_id :: string
  cc_conversation_id :: string
  cc_msg_id :: string
  cc_chatbot_user_id :: string
  cc_sender_staff_id :: string
  cc_value :: go_map
  cc_card_data :: go_map

definition zero_card_callback :: card_callback where
  "zero_card_callback = \<lparr>cc_challenge = [], cc_card_callback_id = [], cc_conversation_id = [], cc_msg_id = [], cc_chatbot_user_id = [],
     cc_sender_staff_id = [], cc_value = None, cc_card_data = None\<rparr>"

definition card_callback_fields :: "(string \<Rightarrow> string option) \<Rightarrow> (string \<times> card_callback decoder) list" where
  "card_callback_fields fmt64 =
     [(''challenge'', dec_str (\<lambda>x. cc_challenge_update (\<lambda>_. x))),
      (''cardCallbackId'', dec_str (\<lambda>x. cc_card_callback_id_update (\<lambda>_. x))),
      (''conversationId'', dec_str (\<lambda>x. cc_conversation_id_update (\<lambda>_. x))),
      (''msgId'', dec_str (\<lambda>x. cc_msg_id_update (\<lambda>_. x))),
      (''chatbotUserId'', dec_str (\<lambda>x. cc_chatbot_user_id_update (\<lambda>_. x))),
      (''senderStaffId'', dec_str (\<lambda>x. cc_sender_staff_id_update (\<lambda>_. x))),
      (''value'', dec_map fmt64 cc_value (\<lambda>x. cc_value_update (\<lambda>_. x))),
      (''cardData'', dec_map fmt64 cc_card_data (\<lambda>x. cc_card_data_update (\<lambda>_. x)))]"

text \<open>A struct with a single string field.\<close>

definition string_field :: "string \<Rightarrow> string \<Rightarrow> string option" where
  "string_field name body = unmarshal (dec_struct False [(name, dec_str (\<lambda>x _. x))]) [] body"

definition extractChallenge :: "string \<Rightarrow> string option" where
  "extractChallenge body = string_field ''challenge'' body"

definition encrypted_envelope :: "string \<Rightarrow> string option" where
  "encrypted_envelope body = string_field ''encrypt'' body"

section \<open>Mapping\<close>

definition mapEventCallback :: "(string \<Rightarrow> string) \<Rightarrow> string \<Rightarrow> standard_message res" where
  "mapEventCallback jerr body =
     (case unmarshal (dec_struct False event_callback_fields) zero_event_callback body of
        None \<Rightarrow> Inl (errorf (jerr body))
      | Some cb \<Rightarrow>
          let session = ding_firstNonEmpty [ev_conversation_id cb, ev_chatbot_user_id cb];
              t = ev_msg_type cb;
              req = zero_standard_message\<lparr>sm_session_id := session, sm_channel_name := ''dingtalk_app'', sm_message_id := ev_msg_id cb,
                sm_sender_id := ev_sender_staff_id cb, sm_sender_name := ev_sender_nick cb,
                sm_metadata := Some [(''conversationId'', JStr (ev_conversation_id cb)), (''chatbotUserId'', JStr (ev_chatbot_user_id cb)),
                  (''senderStaffId'', JStr (ev_sender_staff_id cb)), (''senderNick'', JStr (ev_sender_nick cb)),
                  (''msgId'', JStr (ev_msg_id cb)), (''eventType'', JStr (ev_event_type cb)), (''msgtype'', JStr t)],
                sm_raw_content := body\<rparr> in
          (case requiredString ''conversationId'' session of
             Some err \<Rightarrow> Inl err
           | None \<Rightarrow>
               if t = ''text'' then Inr (req\<lparr>sm_message_type := ''text'', sm_format := ''plain_text'', sm_text := ev_text_content cb\<rparr>)
               else if t = ''image'' then Inr (with_media ''image'' (media_of ''image'' (ev_image_media_id cb)) req)
               else if t = ''audio'' then Inr (with_media ''audio'' (media_of ''audio'' (ev_audio_media_id cb)) req)
               else if t = ''video'' then Inr (with_media ''video'' (media_of ''video'' (ev_video_media_id cb)) req)
               else if t = ''file'' then
                 Inr (with_media ''file'' ((media_of ''file'' (ev_file_media_id cb))\<lparr>mi_file_name := ev_file_file_name cb\<rparr>) req)
               else if ev_event_type cb \<noteq> [] then Inr (req\<lparr>sm_message_type := ''event'', sm_text := ev_event_type cb\<rparr>)
               else Inl (errorf (''unsupported dingtalk event message type: '' @ t))))"

definition map_json :: "go_map \<Rightarrow> json" where
  "map_json m = (case m of None \<Rightarrow> JNull | Some ms \<Rightarrow> JObj ms)"

definition mapCardCallback :: "(string \<Rightarrow> string option) \<Rightarrow> (string \<Rightarrow> string) \<Rightarrow> string \<Rightarrow> standard_message res" where
  "mapCardCallback fmt64 jerr body =
     (case unmarshal (dec_struct False (card_callback_fields fmt64)) zero_card_callback body of
        None \<Rightarrow> Inl (errorf (jerr body))
      | Some cb \<Rightarrow>
          let session = ding_firstNonEmpty [cc_conversation_id cb, cc_chatbot_user_id cb] in
          (case requiredString ''conversationId'' session of
             Some err \<Rightarrow> Inl err
           | None \<Rightarrow> Inr (zero_standard_message\<lparr>sm_session_id := session, sm_channel_name := ''dingtalk_app'',
               sm_message_id := ding_firstNonEmpty [cc_msg_id cb, cc_card_callback_id cb], sm_sender_id := cc_sender_staff_id cb,
               sm_text := ''card_action'', sm_message_type := ''event'',
               sm_card := Some [(''value'', map_json (cc_value cb)), (''cardData'', map_json (cc_card_data cb))],
               sm_raw_content := body,
               sm_metadata := Some [(''cardCallbackId'', JStr (cc_card_callback_id cb)), (''conversationId'', JStr (cc_conversation_id cb)),
                 (''chatbotUserId'', JStr (cc_chatbot_user_id cb)), (''senderStaffId'', JStr (cc_sender_staff_id cb)),
                 (''msgId'', JStr (cc_msg_id cb))]\<rparr>)))"

section \<open>The handler\<close>

record parsed_callback =
  pc_plain :: string
  pc_challenge :: string
  pc_unauthorized :: bool
  pc_encrypted :: bool
  pc_err :: "go_error option"

definition parsed :: "string \<Rightarrow> string \<Rightarrow> bool \<Rightarrow> parsed_callback" where
  "parsed plain challenge encrypted =
     \<lparr>pc_plain = plain, pc_challenge = challenge, pc_unauthorized = False, pc_encrypted = encrypted, pc_err = None\<rparr>"

definition parse_failed :: "bool \<Rightarrow> bool \<Rightarrow> go_error \<Rightarrow> parsed_callback" where
  "parse_failed unauthorized encrypted err =
     \<lparr>pc_plain = [], pc_challenge = [], pc_unauthorized = unauthorized, pc_encrypted = encrypted, pc_err = Some err\<rparr>"

definition parseCallbackBody :: "crypto \<Rightarrow> (string \<Rightarrow> string) \<Rightarrow> dingtalk_app_config \<Rightarrow> (string \<Rightarrow> string) \<Rightarrow> string \<Rightarrow> parsed_callback may_panic" where
  "parseCallbackBody cy jerr cfg query body =
     (case extractChallenge body of
        Some (c # cs) \<Rightarrow> Returned (parsed body (c # cs) False)
      | _ \<Rightarrow>
          (case encrypted_envelope body of
             None \<Rightarrow> Returned (parse_failed False False (errorf (jerr body)))
           | Some encrypt \<Rightarrow>
               if encrypt = [] then Returned (parsed body [] False)
               else let signature = ding_firstNonEmpty [query ''signature'', query ''msg_signature''] in
                 if signature = [] \<or> signature \<noteq> callbackSignature cy (da_token cfg) (query ''timestamp'') (query ''nonce'') encrypt
                 then Returned (parse_failed True True (errorf ''invalid signature''))
                 else case decryptCallbackBody cy (da_aes_key cfg) (da_client_id cfg) encrypt of
                   Panicked \<Rightarrow> Panicked
                 | Returned (Inl err) \<Rightarrow> Returned (parse_failed False True err)
                 | Returned (Inr plain) \<Rightarrow>
                     Returned (parsed plain (case extractChallenge plain of None \<Rightarrow> [] | Some c \<Rightarrow> c) True)))"

definition challenge_reply :: "string \<Rightarrow> http_reply" where
  "challenge_reply challenge = \<lparr>reply_status = 200, reply_body = obj_text [(''challenge'', quote challenge)] @ [CHR 0x0A]\<rparr>"

definition writeEncryptedResponse :: "crypto \<Rightarrow> dingtalk_app_config \<Rightarrow> (string \<Rightarrow> string) \<Rightarrow> string \<Rightarrow> http_reply res" where
  "writeEncryptedResponse cy cfg query body =
     (let timestamp = ding_firstNonEmpty [query ''timestamp'', ''0''];
          nonce = ding_firstNonEmpty [query ''nonce'', ''nonce''] in
      case encryptCallbackBody cy (da_aes_key cfg) (da_client_id cfg) body of
        Inl err \<Rightarrow> Inl err
      | Inr encrypted \<Rightarrow> Inr \<lparr>reply_status = 200,
          reply_body = obj_text [(''encrypt'', quote encrypted),
            (''msg_signature'', quote (callbackSignature cy (da_token cfg) timestamp nonce encrypted)),
            (''nonce'', quote nonce), (''timeStamp'', quote timestamp)] @ [CHR 0x0A]\<rparr>)"

definition encrypted_reply :: "crypto \<Rightarrow> dingtalk_app_config \<Rightarrow> (string \<Rightarrow> string) \<Rightarrow> string \<Rightarrow> http_reply" where
  "encrypted_reply cy cfg query body =
     (case writeEncryptedResponse cy cfg query body of Inl _ \<Rightarrow> http_Error ''invalid body'' 400 | Inr rep \<Rightarrow> rep)"

text \<open>\<open>mapper\<close> is \<^verbatim>\<open>mapEventCallback\<close> or \<^verbatim>\<open>mapCardCallback\<close>.\<close>

definition ding_handleCallback :: "crypto \<Rightarrow> (string \<Rightarrow> string) \<Rightarrow> 'w router_env \<Rightarrow> dingtalk_app_config \<Rightarrow> (string \<Rightarrow> standard_message res) \<Rightarrow>
    (string \<Rightarrow> string) \<Rightarrow> string res \<Rightarrow> 'w router \<Rightarrow> (http_reply \<times> 'w router) may_panic" where
  "ding_handleCallback cy jerr renv cfg mapper query req_body r =
     (case req_body of
        Inl _ \<Rightarrow> Returned (http_Error ''invalid body'' 400, r)
      | Inr body \<Rightarrow>
          (case parseCallbackBody cy jerr cfg query body of
             Panicked \<Rightarrow> Panicked
           | Returned p \<Rightarrow>
               if pc_err p \<noteq> None
               then Returned (if pc_unauthorized p then http_Error ''invalid signature'' 401 else http_Error ''invalid body'' 400, r)
               else if pc_challenge p \<noteq> []
               then Returned (if pc_encrypted p then encrypted_reply cy cfg query (pc_challenge p) else challenge_reply (pc_challenge p), r)
               else case mapper (pc_plain p) of
                 Inl _ \<Rightarrow> Returned (http_Error ''invalid callback'' 400, r)
               | Inr req \<Rightarrow>
                   (case HandleIncoming renv req r of
                      (Some _, r) \<Rightarrow> Returned (http_Error ''enqueue failed'' 502, r)
                    | (None, r) \<Rightarrow>
                        Returned (if pc_encrypted p then encrypted_reply cy cfg query ''success''
                                  else \<lparr>reply_status = 200, reply_body = []\<rparr>, r))))"

definition ding_EventHandler where
  "ding_EventHandler cy jerr renv cfg = ding_handleCallback cy jerr renv cfg (mapEventCallback jerr)"

definition ding_CardHandler where
  "ding_CardHandler cy fmt64 jerr renv cfg = ding_handleCallback cy jerr renv cfg (mapCardCallback fmt64 jerr)"

section \<open>Encryption round trip\<close>

lemma ding_open_frame_frame:
  assumes "length r = 16" "length m < 2 ^ 32"
  shows "ding_open_frame k (callback_frame r m k) = Inr m"
proof -
  let ?f = "callback_frame r m k"
  have e: "unat (of_nat (length m) :: 32 word) = length m" using assms(2) by (simp add: unat_of_nat take_bit_eq_mod)
  have "drop (20 + length m) ?f = drop (length m) (drop 20 ?f)" by (simp add: add.commute)
  then have "drop (20 + length m) ?f = k" "drop 20 (take (20 + length m) ?f) = m"
    using frame_parts(2) [OF assms(1), of m k] by (simp_all add: drop_take)
  then show ?thesis using frame_parts [OF assms(1), of m k] e by (simp add: ding_open_frame_def Let_def)
qed

lemma base64_DecodeString_encode [simp]: "base64_DecodeString cy (b64_encode s) = Inr s"
  by (simp add: base64_DecodeString_def)

lemma decrypt_seal:
  assumes "base64_DecodeString cy (aesKey @ ''='') = Inr key" "length key \<in> {16, 24, 32}"
    and "block_inverse (cy_aes_encrypt cy key) (cy_aes_decrypt cy key)"
  shows "decryptCallbackBody cy aesKey k (seal cy key buf) = Returned (ding_open_frame k buf)"
proof -
  have pad: "length (pkcs7Pad buf 32) mod 32 = 0" using pkcs7Pad_length [of 32 buf] by auto
  then have "length (pkcs7Pad buf 32) mod 16 = 0" using mod_mod_cancel [of 16 32 "length (pkcs7Pad buf 32)"] by simp
  with cbc_decrypt_encrypt [OF assms(3), of "take 16 key" "pkcs7Pad buf 32"] assms(2)
  show ?thesis
    by (auto simp: decryptCallbackBody_def assms(1) seal_def aes_NewCipher_def ding_pkcs7Unpad_def pkcs7_unpad_pad)
qed

lemma b64_encode_ascii: "list_all (\<lambda>c. of_char c < (128 :: nat)) (b64_encode s)"
proof -
  have "of_char (b64_char n) < (128 :: nat)" for n by (auto simp: b64_char_def)
  then show ?thesis by (induction s rule: b64_encode.induct) simp_all
qed

lemma b64_encode_utf8 [simp]: "utf8_valid (b64_encode s)"
  using b64_encode_ascii by (rule utf8_valid_ascii)

lemma string_field_print:
  assumes "utf8_valid v" "utf8_valid k"
  shows "string_field k (json_print (JObj [(k, JStr v)])) = Some v"
proof -
  have ok: "json_ok max_nesting (JObj [(k, JStr v)])" using assms by (simp add: max_nesting_def)
  have ff: "find_field [(k, x)] k = Some x" for x by (simp add: find_field_def)
  show ?thesis
    using json_valid_print [OF ok] assms
    by (simp add: string_field_def unmarshal_def dec_struct_print [OF ok] ff dec_str_quote del: json_print.simps(6))
qed

lemma other_field_print:
  assumes "utf8_valid v" "utf8_valid k" "fold_name name \<noteq> fold_name k"
  shows "string_field name (json_print (JObj [(k, JStr v)])) = Some []"
proof -
  have ok: "json_ok max_nesting (JObj [(k, JStr v)])" using assms by (simp add: max_nesting_def)
  have ff: "find_field [(name, x)] k = None" for x using assms(3) by (simp add: find_field_def)
  show ?thesis
    using json_valid_print [OF ok]
    by (simp add: string_field_def unmarshal_def dec_struct_print [OF ok] ff del: json_print.simps)
qed

text \<open>
  A callback that is encrypted for the app, signed with its token and posted as \<^verbatim>\<open>{"encrypt": ...}\<close> is
  opened to exactly the plain text, for every text of less than \<open>2 ^ 32\<close> bytes; the code's own encrypted
  answers are made this way, so they can be opened too.
\<close>

theorem dingtalk_sealed_callback_opens:
  assumes "base64_DecodeString cy (da_aes_key cfg @ ''='') = Inr key" "length key \<in> {16, 24, 32}"
    and "block_inverse (cy_aes_encrypt cy key) (cy_aes_decrypt cy key)" "length plain < 2 ^ 32"
    and "callbackSignature cy (da_token cfg) (query ''timestamp'') (query ''nonce'')
      (seal cy key (callback_frame ''0123456789abcdef'' plain (da_client_id cfg))) = query ''signature''" "query ''signature'' \<noteq> []"
  shows "\<exists>e. encryptCallbackBody cy (da_aes_key cfg) (da_client_id cfg) plain = Inr e \<and>
    decryptCallbackBody cy (da_aes_key cfg) (da_client_id cfg) e = Returned (Inr plain) \<and>
    parseCallbackBody cy jerr cfg query (json_print (JObj [(''encrypt'', JStr e)])) =
      Returned (parsed plain (case extractChallenge plain of None \<Rightarrow> [] | Some c \<Rightarrow> c) True)"
proof -
  let ?e = "seal cy key (callback_frame ''0123456789abcdef'' plain (da_client_id cfg))"
  have e: "encryptCallbackBody cy (da_aes_key cfg) (da_client_id cfg) plain = Inr ?e"
    using assms(2) by (auto simp: encryptCallbackBody_def assms(1) aes_NewCipher_def)
  have d: "decryptCallbackBody cy (da_aes_key cfg) (da_client_id cfg) ?e = Returned (Inr plain)"
    using decrypt_seal [OF assms(1-3)] ding_open_frame_frame [of "''0123456789abcdef''" plain] assms(4) by simp
  have v: "utf8_valid ?e" "?e \<noteq> []" by (simp add: seal_def) (use d in \<open>auto simp: decryptCallbackBody_def assms(1)
      base64_DecodeString_def b64_decode_def ding_pkcs7Unpad_def pkcs7_unpad_def cbc_decrypt.simps split: option.splits\<close>)
  have f: "encrypted_envelope (json_print (JObj [(''encrypt'', JStr ?e)])) = Some ?e"
    "extractChallenge (json_print (JObj [(''encrypt'', JStr ?e)])) = Some []"
    using string_field_print [OF v(1), of "''encrypt''"] other_field_print [OF v(1), of "''encrypt''" "''challenge''"]
    by (simp_all add: encrypted_envelope_def extractChallenge_def has_prefix_def upper_char_def Let_def del: json_print.simps)
  show ?thesis
    using e d f v assms(5,6) by (auto simp: parseCallbackBody_def Let_def simp del: json_print.simps)
qed

definition sample_ding_config :: dingtalk_app_config where
  "sample_ding_config = \<lparr>da_client_id = ''app'', da_client_secret = ''s'', da_agent_id = 1, da_event_callback_path = [], da_card_callback_path = [],
     da_api_base_url = [], da_oapi_base_url = [], da_token = ''tok'', da_aes_key = replicate 43 (CHR ''A''), da_media_dir = [],
     da_card_template_id = [], da_card_callback_route_key = [], da_http_timeout = 0\<rparr>"

definition ding_crypto :: crypto where
  "ding_crypto = rev_crypto\<lparr>cy_sha1 := (\<lambda>_. ''x'')\<rparr>"

lemma ding_crypto_inverse: "block_inverse (cy_aes_encrypt ding_crypto k) (cy_aes_decrypt ding_crypto k)"
  by (simp add: block_inverse_def ding_crypto_def rev_crypto_def)

definition sample_ding_sealed :: string where
  "sample_ding_sealed = seal ding_crypto (replicate 32 (CHR 0x00)) (callback_frame ''0123456789abcdef'' ''hello'' ''app'')"

definition sample_ding_query :: "string \<Rightarrow> string" where
  "sample_ding_query k =
     (if k = ''signature'' then callbackSignature ding_crypto ''tok'' ''1'' ''n'' sample_ding_sealed
      else if k = ''timestamp'' then ''1'' else if k = ''nonce'' then ''n'' else [])"

lemma sample_ding_key: "base64_DecodeString ding_crypto (da_aes_key sample_ding_config @ ''='') = Inr (replicate 32 (CHR 0x00))"
  by code_simp

lemma sample_ding_signature: "sample_ding_query ''signature'' \<noteq> []"
  by (simp add: sample_ding_query_def callbackSignature_def ding_crypto_def)

theorem dingtalk_sealed_callback_opens_witness:
  "\<exists>e. encryptCallbackBody ding_crypto (da_aes_key sample_ding_config) ''app'' ''hello'' = Inr e \<and>
    decryptCallbackBody ding_crypto (da_aes_key sample_ding_config) ''app'' e = Returned (Inr ''hello'')"
  using dingtalk_sealed_callback_opens [OF sample_ding_key _ ding_crypto_inverse, where plain = "''hello''" and query = sample_ding_query]
    sample_ding_signature
  by (auto simp: sample_ding_query_def sample_ding_sealed_def sample_ding_config_def)

section \<open>Authentication\<close>

text \<open>
  An encrypted callback reaches the router only if the signature of the query is the one computed with
  the app's token: whenever the handler changes the router's state for a body whose \<^verbatim>\<open>encrypt\<close> field is not
  empty, the signature matched, the body decrypted under the app's key for the app's client id, and the
  message dispatched is the mapping of the decrypted text.
\<close>

theorem dingtalk_encrypted_callback_authenticated:
  assumes "ding_handleCallback cy jerr renv cfg mapper query (Inr body) r = Returned (rep, r')" "r' \<noteq> r"
    and "encrypted_envelope body = Some e" "e \<noteq> []"
  shows "ding_firstNonEmpty [query ''signature'', query ''msg_signature''] =
      callbackSignature cy (da_token cfg) (query ''timestamp'') (query ''nonce'') e \<and>
    (\<exists>plain req. decryptCallbackBody cy (da_aes_key cfg) (da_client_id cfg) e = Returned (Inr plain) \<and>
      mapper plain = Inr req \<and> snd (HandleIncoming renv req r) = r')"
proof -
  from assms(1,2) obtain p where p: "parseCallbackBody cy jerr cfg query body = Returned p" "pc_err p = None" "pc_challenge p = []"
    "\<exists>req. mapper (pc_plain p) = Inr req \<and> snd (HandleIncoming renv req r) = r'"
    by (auto simp: ding_handleCallback_def split: may_panic.splits if_splits sum.splits prod.splits option.splits)
  from p(1-3) assms(3,4)
  have "ding_firstNonEmpty [query ''signature'', query ''msg_signature''] =
      callbackSignature cy (da_token cfg) (query ''timestamp'') (query ''nonce'') e \<and>
    decryptCallbackBody cy (da_aes_key cfg) (da_client_id cfg) e = Returned (Inr (pc_plain p))"
    by (auto simp: parseCallbackBody_def Let_def parsed_def parse_failed_def
        split: option.splits list.splits if_splits may_panic.splits sum.splits)
  with p(4) show ?thesis by auto
qed

definition sample_ding_body :: string where
  "sample_ding_body = json_print (JObj [(''encrypt'', JStr sample_ding_sealed)])"

lemma sample_ding_parsed:
  "encrypted_envelope sample_ding_body = Some sample_ding_sealed" "sample_ding_sealed \<noteq> []"
  "parseCallbackBody ding_crypto jerr sample_ding_config sample_ding_query sample_ding_body = Returned (parsed ''hello'' [] True)"
proof -
  have v: "utf8_valid sample_ding_sealed" by (simp add: sample_ding_sealed_def seal_def)
  show e: "encrypted_envelope sample_ding_body = Some sample_ding_sealed"
    using string_field_print [OF v, of "''encrypt''"] by (simp add: sample_ding_body_def encrypted_envelope_def del: json_print.simps)
  have c: "extractChallenge sample_ding_body = Some []"
    using other_field_print [OF v, of "''encrypt''" "''challenge''"]
    by (simp add: sample_ding_body_def extractChallenge_def has_prefix_def upper_char_def Let_def del: json_print.simps)
  have d: "decryptCallbackBody ding_crypto (da_aes_key sample_ding_config) (da_client_id sample_ding_config) sample_ding_sealed =
      Returned (Inr ''hello'')"
    using decrypt_seal [OF sample_ding_key _ ding_crypto_inverse, of "''app''"] ding_open_frame_frame [of "''0123456789abcdef''" "''hello''" "''app''"]
    by (simp add: sample_ding_sealed_def sample_ding_config_def)
  then show n: "sample_ding_sealed \<noteq> []"
    by (auto simp: decryptCallbackBody_def sample_ding_key base64_DecodeString_def b64_decode_def ding_pkcs7Unpad_def pkcs7_unpad_def
        cbc_decrypt.simps split: option.splits)
  have h: "extractChallenge ''hello'' = None" by code_simp
  show "parseCallbackBody ding_crypto jerr sample_ding_config sample_ding_query sample_ding_body = Returned (parsed ''hello'' [] True)"
    using e c d n h sample_ding_signature
    by (simp add: parseCallbackBody_def Let_def) (simp add: sample_ding_query_def sample_ding_config_def)
qed

theorem dingtalk_encrypted_callback_authenticated_witness:
  "\<exists>plain. decryptCallbackBody ding_crypto (da_aes_key sample_ding_config) (da_client_id sample_ding_config) sample_ding_sealed = Returned (Inr plain)"
proof -
  let ?m = "\<lambda>_ :: string. Inr zero_standard_message :: standard_message res"
  obtain rep r' where h: "ding_handleCallback ding_crypto (\<lambda>_. []) sample_renv sample_ding_config ?m sample_ding_query (Inr sample_ding_body)
      (NewSessionRouter ()) = Returned (rep, r')" "ro_routes r' \<noteq> []"
    by (auto simp: ding_handleCallback_def sample_ding_parsed parsed_def HandleIncoming_def DispatchIncoming_def Let_def sample_renv_def
        rememberRoute_def NewSessionRouter_def)
  then have "r' \<noteq> NewSessionRouter ()" by (auto simp: NewSessionRouter_def)
  from dingtalk_encrypted_callback_authenticated [OF h(1) this sample_ding_parsed(1,2)] show ?thesis by blast
qed

text \<open>A forged text message, as anybody can post it.\<close>

definition forged_event :: "string \<Rightarrow> string \<Rightarrow> json" where
  "forged_event c x = JObj [(''conversationId'', JStr c), (''msgtype'', JStr ''text''), (''text'', JObj [(''content'', JStr x)])]"

lemma event_field [simp]:
  "find_field event_callback_fields ''conversationId'' = Some (dec_str (\<lambda>x. ev_conversation_id_update (\<lambda>_. x)))"
  "find_field event_callback_fields ''msgtype'' = Some (dec_str (\<lambda>x. ev_msg_type_update (\<lambda>_. x)))"
  "find_field event_callback_fields ''text'' =
     Some (dec_struct False [(''content'', dec_str (\<lambda>x. ev_text_content_update (\<lambda>_. x)))])"
  by (simp_all add: find_field_def event_callback_fields_def has_prefix_def upper_char_def Let_def)

lemma forged_event_mapped:
  assumes "utf8_valid c" "utf8_valid x" "c \<noteq> []"
  shows "\<exists>req. mapEventCallback jerr (json_print (forged_event c x)) = Inr req \<and> sm_session_id req = c \<and> sm_text req = x \<and>
      sm_channel_name req = ''dingtalk_app''" (is ?mapped)
    and "extractChallenge (json_print (forged_event c x)) = Some []"
    and "encrypted_envelope (json_print (forged_event c x)) = Some []"
proof -
  let ?t = "JObj [(''content'', JStr x)]"
  have ok: "json_ok max_nesting (forged_event c x)" "json_ok max_nesting ?t"
    using assms by (simp_all add: forged_event_def max_nesting_def)
  have ff: "find_field [(''content'', y)] ''content'' = Some y" for y by (simp add: find_field_def)
  have nf: "find_field [(''challenge'', y)] k = None" "find_field [(''encrypt'', y)] k = None"
    if "k \<in> {''conversationId'', ''msgtype'', ''text''}" for y k
    using that by (auto simp: find_field_def has_prefix_def upper_char_def Let_def)
  have x: "dec_struct False [(''content'', dec_str upd)] (json_print ?t) a = Some (upd x a)" for upd and a :: event_callback
    unfolding dec_struct_print [OF ok(2)] using assms(2) by (simp add: ff dec_str_quote)
  have "unmarshal (dec_struct False event_callback_fields) zero_event_callback (json_print (forged_event c x)) =
      Some (zero_event_callback\<lparr>ev_conversation_id := c, ev_msg_type := ''text'', ev_text_content := x\<rparr>)"
    unfolding unmarshal_def using json_valid_print [OF ok(1)] assms x
    by (simp add: forged_event_def dec_struct_print [OF ok(1) [unfolded forged_event_def]] dec_str_quote del: json_print.simps(6))
  then show ?mapped
    using assms(3) by (simp add: mapEventCallback_def Let_def requiredString_def zero_event_callback_def zero_standard_message_def)
  show "extractChallenge (json_print (forged_event c x)) = Some []" "encrypted_envelope (json_print (forged_event c x)) = Some []"
    using json_valid_print [OF ok(1)]
    by (simp_all add: extractChallenge_def encrypted_envelope_def string_field_def unmarshal_def forged_event_def
        dec_struct_print [OF ok(1) [unfolded forged_event_def]] nf del: json_print.simps)
qed

text \<open>
  The signature protects encrypted callbacks only: a body without the \<^verbatim>\<open>encrypt\<close> field is taken as it is.
  For every configuration of the app and whatever the query says, anybody who can reach the callback URL
  gets a message of his choice, for a conversation of his choice, dispatched and answered with 200.
\<close>

theorem dingtalk_plain_callback_is_not_authenticated:
  assumes "utf8_valid c" "utf8_valid x" "c \<noteq> []" "\<And>q m w. fst (re_enqueue renv q m w) = None"
  shows "\<exists>req r'. ding_EventHandler cy jerr renv cfg query (Inr (json_print (forged_event c x))) r =
      Returned (\<lparr>reply_status = 200, reply_body = []\<rparr>, r') \<and>
    HandleIncoming renv req r = (None, r') \<and> sm_session_id req = c \<and> sm_text req = x"
proof -
  obtain req where req: "mapEventCallback jerr (json_print (forged_event c x)) = Inr req" "sm_session_id req = c" "sm_text req = x"
    using forged_event_mapped(1) [OF assms(1-3)] by blast
  have p: "parseCallbackBody cy jerr cfg query (json_print (forged_event c x)) = Returned (parsed (json_print (forged_event c x)) [] False)"
    by (simp add: parseCallbackBody_def forged_event_mapped [OF assms(1-3)])
  have "fst (HandleIncoming renv req r) = None"
    using assms(4) by (auto simp: HandleIncoming_def DispatchIncoming_def Let_def split_beta split: option.splits sum.splits)
  then obtain r' where "HandleIncoming renv req r = (None, r')" by (cases "HandleIncoming renv req r") simp
  with req p show ?thesis by (auto simp: ding_EventHandler_def ding_handleCallback_def parsed_def)
qed

theorem dingtalk_plain_callback_is_not_authenticated_witness:
  "\<exists>r'. ding_EventHandler ding_crypto (\<lambda>_. []) sample_renv sample_ding_config (\<lambda>_. []) (Inr (json_print (forged_event ''cid1'' ''hi''))) (NewSessionRouter ()) =
     Returned (\<lparr>reply_status = 200, reply_body = []\<rparr>, r')"
  using dingtalk_plain_callback_is_not_authenticated [of "''cid1''" "''hi''" sample_renv ding_crypto "\<lambda>_. []" sample_ding_config "\<lambda>_. []" "NewSessionRouter ()"]
  by (auto simp: sample_renv_def)

text \<open>
  \<^verbatim>\<open>decryptCallbackBody\<close> panics exactly when key and ciphertext decode, the key has a valid size and the
  ciphertext is not a whole number of blocks; the length of the message cannot make it panic.
\<close>

theorem dingtalk_decrypt_panics_iff:
  "decryptCallbackBody cy aesKey k e = Panicked \<longleftrightarrow>
     (\<exists>key ct. b64_decode (aesKey @ ''='') = Some key \<and> b64_decode e = Some ct \<and> length key \<in> {16, 24, 32} \<and> length ct mod 16 \<noteq> 0)"
  by (auto simp: decryptCallbackBody_def base64_DecodeString_def aes_NewCipher_def split: option.splits sum.splits)

end
