(* ===== verification/Dingtalk.thy ===== *)
theory Dingtalk
  imports Dingtalk_Callback
begin

text \<open>
  Package \<^verbatim>\<open>internal/gateway/dingtalk\<close>, outbound: the app client with its API (\<^verbatim>\<open>app_client.go\<close>), the rest of
  the app adapter (\<^verbatim>\<open>app_adapter.go\<close>), and the robot (\<^verbatim>\<open>robot_payload.go\<close>, \<^verbatim>\<open>robot_client.go\<close>,
  \<^verbatim>\<open>robot_adapter.go\<close>).

  The vendor SDK (token, interactive cards), the conversion of floating point numbers to integers and the
  resolution of URLs are fields of \<open>ding_env\<close>.
\<close>

section \<open>Values of type any\<close>

record 'w ding_env =
  de_ch :: "'w channel_env"
  de_int32 :: "string \<Rightarrow> int"
  de_int64 :: "string \<Rightarrow> int"

text \<open>A missing key of a map, and every key of a nil map, reads as nil.\<close>

definition any_get :: "go_map \<Rightarrow> string \<Rightarrow> json" where
  "any_get m k = (case map_get m k of None \<Rightarrow> JNull | Some v \<Rightarrow> v)"

definition stringValue :: "(string \<Rightarrow> string) \<Rightarrow> json \<Rightarrow> string" where
  "stringValue fmtv v = (case v of JNull \<Rightarrow> [] | JStr s \<Rightarrow> trim_space s | _ \<Rightarrow> trim_space (sprint fmtv v))"

definition boolValue :: "json \<Rightarrow> bool" where
  "boolValue v = (case v of JBool b \<Rightarrow> b | JStr s \<Rightarrow> parse_bool (trim_space s) = Some True | _ \<Rightarrow> False)"

definition parse_int32 :: "string \<Rightarrow> int option" where
  "parse_int32 s = (case parse_int64 s of None \<Rightarrow> None | Some n \<Rightarrow> if - (2 ^ 31) \<le> n \<and> n < 2 ^ 31 then Some n else None)"

definition int32Value :: "'w ding_env \<Rightarrow> json \<Rightarrow> int option" where
  "int32Value env v = (case v of JNum n \<Rightarrow> Some (de_int32 env n) | JStr s \<Rightarrow> parse_int32 (trim_space s) | _ \<Rightarrow> None)"

definition non_empty :: "string list \<Rightarrow> string list" where
  "non_empty = filter (\<lambda>s. s \<noteq> [])"

definition stringListValue :: "(string \<Rightarrow> string) \<Rightarrow> json \<Rightarrow> string list" where
  "stringListValue fmtv v =
     (case v of
        JNull \<Rightarrow> []
      | JStr s \<Rightarrow> non_empty (map trim_space (split_on (CHR '','') s))
      | JArr xs \<Rightarrow> non_empty (map (stringValue fmtv) xs)
      | _ \<Rightarrow> non_empty [stringValue fmtv v])"

definition int64_item :: "'w ding_env \<Rightarrow> json \<Rightarrow> int list" where
  "int64_item env v =
     (case v of
        JNum n \<Rightarrow> [de_int64 env n]
      | JStr s \<Rightarrow> (case parse_int64 (trim_space s) of None \<Rightarrow> [] | Some n \<Rightarrow> [n])
      | _ \<Rightarrow> [])"

definition int64ListValue :: "'w ding_env \<Rightarrow> json \<Rightarrow> int list" where
  "int64ListValue env v =
     (case v of
        JNum n \<Rightarrow> [de_int64 env n]
      | JStr s \<Rightarrow> concat (map (\<lambda>part. int64_item env (JStr part)) (split_on (CHR '','') s))
      | JArr xs \<Rightarrow> concat (map (int64_item env) xs)
      | _ \<Rightarrow> [])"

fun unique_loop :: "'a list \<Rightarrow> 'a list \<Rightarrow> 'a list" where
  "unique_loop seen [] = []"
| "unique_loop seen (v # vs) = (if v \<in> set seen then unique_loop seen vs else v # unique_loop (v # seen) vs)"

definition uniqueStrings :: "string list \<Rightarrow> string list" where
  "uniqueStrings values = unique_loop [] values"

definition uniqueInt64s :: "int list \<Rightarrow> int list" where
  "uniqueInt64s values = unique_loop [] values"

definition mapValue :: "json \<Rightarrow> go_map option" where
  "mapValue v = (case v of JObj ms \<Rightarrow> Some (if ms = [] then None else Some ms) | _ \<Rightarrow> None)"

fun go_type_name :: "json \<Rightarrow> string" where
  "go_type_name JNull = ''<nil>''"
| "go_type_name (JBool _) = ''bool''"
| "go_type_name (JNum _) = ''float64''"
| "go_type_name (JStr _) = ''string''"
| "go_type_name (JArr _) = ''[]interface {}''"
| "go_type_name (JObj _) = ''map[string]interface {}''"

definition toStringMap :: "(string \<Rightarrow> string) \<Rightarrow> json \<Rightarrow> (string \<times> string) list option res" where
  "toStringMap fmtv v =
     (case v of
        JNull \<Rightarrow> Inr None
      | JObj ms \<Rightarrow> Inr (Some (map (\<lambda>(k, x). (k, stringValue fmtv x)) ms))
      | _ \<Rightarrow> Inl (errorf (''expected map value, got '' @ go_type_name v)))"

section \<open>Targets\<close>

record ding_target =
  dt_conversation_id :: string
  dt_conversation_sender :: string
  dt_user_ids :: "string list"
  dt_dept_ids :: "int list"
  dt_to_all_user :: bool

definition isConversationID :: "string \<Rightarrow> bool" where
  "isConversationID v = has_prefix (trim_space v) ''cid''"

definition hasConversation :: "ding_target \<Rightarrow> bool" where
  "hasConversation t = (trim_space (dt_conversation_id t) \<noteq> [] \<and> trim_space (dt_conversation_sender t) \<noteq> [])"

definition hasWorkNotice :: "ding_target \<Rightarrow> bool" where
  "hasWorkNotice t = (dt_to_all_user t \<or> dt_user_ids t \<noteq> [] \<or> dt_dept_ids t \<noteq> [])"

fun first_nonempty_list :: "'a list list \<Rightarrow> 'a list" where
  "first_nonempty_list [] = []"
| "first_nonempty_list (xs # xss) = (if xs \<noteq> [] then xs else first_nonempty_list xss)"

definition user_id_of :: "string \<Rightarrow> string list" where
  "user_id_of v = (if trim_space v \<noteq> [] \<and> \<not> isConversationID v then [trim_space v] else [])"

definition resolveDingTalkTarget :: "'w ding_env \<Rightarrow> standard_message \<Rightarrow> ding_target" where
  "resolveDingTalkTarget env msg =
     (let fmtv = cx_fmtv (de_ch env); md = any_get (sm_metadata msg); str = (\<lambda>k. stringValue fmtv (md k));
          users = (\<lambda>k. stringListValue fmtv (md k)) in
      \<lparr>dt_conversation_id = trim_space (ding_firstNonEmpty [str ''conversationId'', str ''cid'', sm_session_id msg]),
       dt_conversation_sender = trim_space (ding_firstNonEmpty [str ''chatbotUserId'', str ''chatBotId'', str ''sender'']),
       dt_user_ids = uniqueStrings (first_nonempty_list [users ''dingtalk_userid_list'', users ''userid_list'', users ''receiverUserIdList'',
         users ''senderStaffId'', user_id_of (sm_receiver_id msg), user_id_of (sm_session_id msg)]),
       dt_dept_ids = uniqueInt64s (int64ListValue env (md ''dingtalk_dept_id_list'')),
       dt_to_all_user = boolValue (md ''dingtalk_to_all_user'')\<rparr>)"

section \<open>Requests of the API\<close>

record conversation_request =
  cq_sender :: string
  cq_cid :: string
  cq_msg :: go_map

record card_request =
  kq_open_conversation_id :: string
  kq_conversation_type :: int
  kq_card_template_id :: string
  kq_out_track_id :: string
  kq_callback_route_key :: string
  kq_chat_bot_id :: string
  kq_card_param_map :: "(string \<times> string) list option"
  kq_card_media_id_param_map :: "(string \<times> string) list option"
  kq_support_forward :: bool

record work_notice_request =
  nq_agent_id :: int
  nq_user_id_list :: "string list"
  nq_dept_id_list :: "int list"
  nq_to_all_user :: bool
  nq_msg :: go_map

record upload_media_request =
  uq_media_type :: string
  uq_file_name :: string
  uq_content :: string

text \<open>The interface \<^verbatim>\<open>appAPI\<close>.\<close>

record 'w ding_api =
  api_GetAccessToken :: "'w \<Rightarrow> (string \<times> int) res \<times> 'w"
  api_SendConversation :: "string \<Rightarrow> conversation_request \<Rightarrow> 'w \<Rightarrow> go_error option \<times> 'w"
  api_SendInteractiveCard :: "string \<Rightarrow> card_request \<Rightarrow> 'w \<Rightarrow> go_error option \<times> 'w"
  api_SendWorkNotice :: "string \<Rightarrow> work_notice_request \<Rightarrow> 'w \<Rightarrow> go_error option \<times> 'w"
  api_UploadMedia :: "string \<Rightarrow> upload_media_request \<Rightarrow> 'w \<Rightarrow> string res \<times> 'w"

section \<open>The access token\<close>

definition ding_life :: "int \<Rightarrow> int" where
  "ding_life expiresIn =
     (if 0 < expiresIn
      then wrap64 ((let safeSeconds = expiresIn - 60 in if safeSeconds \<le> 0 then expiresIn else safeSeconds) * 1000000000)
      else 5 * 60 * 1000000000)"

definition ding_getAccessToken :: "'w ding_env \<Rightarrow> 'w ding_api \<Rightarrow> token_cache \<times> 'w \<Rightarrow> string res \<times> token_cache \<times> 'w" where
  "ding_getAccessToken env api =
     cached_token (cx_now (de_ch env)) (api_GetAccessToken api) (\<lambda>t. trim_space t = []) ''dingtalk app access token is empty'' ding_life"

lemma trim_space_Nil [simp]: "trim_space [] = []"
  by (simp add: trim_space_def trim_left_def trim_right_def)

interpretation ding_token: token_source "cx_now (de_ch env)" "ding_getAccessToken env api" for env api
  unfolding ding_getAccessToken_def by (rule cached_token_source) simp

section \<open>Messages\<close>

definition conversation_type :: "'w ding_env \<Rightarrow> json \<Rightarrow> json \<Rightarrow> int" where
  "conversation_type env cv mv =
     (let positive = (\<lambda>v. case int32Value env v of Some n \<Rightarrow> if 0 < n then Some n else None | None \<Rightarrow> None) in
      case positive cv of Some n \<Rightarrow> n | None \<Rightarrow> (case positive mv of Some n \<Rightarrow> n | None \<Rightarrow> 2))"

definition buildInteractiveCardRequest :: "'w ding_env \<Rightarrow> dingtalk_app_config \<Rightarrow> standard_message \<Rightarrow> ding_target \<Rightarrow> 'w \<Rightarrow> card_request option res" where
  "buildInteractiveCardRequest env cfg msg target w =
     (let fmtv = cx_fmtv (de_ch env); cd = any_get (sm_card msg); str = (\<lambda>k. stringValue fmtv (cd k));
          cardTemplateID = trim_space (ding_firstNonEmpty [str ''cardTemplateId'', str ''card_template_id'', da_card_template_id cfg]) in
      if cardTemplateID = [] then Inr None
      else if \<not> hasConversation target then Inl (errorf ''dingtalk interactive card requires conversation target'')
      else case toStringMap fmtv (cd ''cardParamMap'') of
        Inl err \<Rightarrow> Inl err
      | Inr params \<Rightarrow>
          (case toStringMap fmtv (cd ''cardMediaIdParamMap'') of
             Inl err \<Rightarrow> Inl err
           | Inr mediaParams \<Rightarrow>
               let conversationType = conversation_type env (cd ''conversationType'') (any_get (sm_metadata msg) ''conversationType'');
                   supportForward = (boolValue (cd ''supportForward'') \<or>
                     (case mapValue (cd ''cardOptions'') of Some options \<Rightarrow> boolValue (any_get options ''supportForward'') | None \<Rightarrow> False)) in
               Inr (Some \<lparr>kq_open_conversation_id = dt_conversation_id target, kq_conversation_type = conversationType,
                 kq_card_template_id = cardTemplateID,
                 kq_out_track_id = trim_space (ding_firstNonEmpty [str ''outTrackId'', ''dingtalk-'' @ format_int (cx_now (de_ch env) w)]),
                 kq_callback_route_key = trim_space (ding_firstNonEmpty [str ''callbackRouteKey'', da_card_callback_route_key cfg]),
                 kq_chat_bot_id = dt_conversation_sender target, kq_card_param_map = params,
                 kq_card_media_id_param_map = mediaParams, kq_support_forward = supportForward\<rparr>)))"

definition normalizeLegacyMsgType :: "string \<Rightarrow> string" where
  "normalizeLegacyMsgType v =
     (let t = trim_space (to_lower v) in
      if t \<in> {''actioncard'', ''action_card''} then ''action_card''
      else if t \<in> {''text'', ''markdown'', ''image'', ''voice'', ''video'', ''file'', ''link'', ''oa''} then t
      else [])"

definition set_msgtype :: "string \<Rightarrow> (string \<times> json) list \<Rightarrow> (string \<times> json) list" where
  "set_msgtype rawType payload =
     (let payload = AList.update ''msgtype'' (JStr rawType) payload in
      if rawType = ''action_card'' then
        (case map_of payload ''actionCard'' of
           Some v \<Rightarrow> AList.delete ''actionCard'' (AList.update ''action_card'' v payload)
         | None \<Rightarrow> payload)
      else payload)"

definition legacy_of :: "string \<Rightarrow> go_map \<Rightarrow> (string \<times> json) list" where
  "legacy_of t payload = [(''msgtype'', JStr t), (t, map_json payload)]"

definition buildLegacyCardPayload :: "(string \<Rightarrow> string) \<Rightarrow> go_map \<Rightarrow> (string \<times> json) list option" where
  "buildLegacyCardPayload fmtv cd =
     (if map_len cd = 0 then None
      else case mapValue (any_get cd ''action_card'') of
        Some p \<Rightarrow> Some (legacy_of ''action_card'' p)
      | None \<Rightarrow>
          (case mapValue (any_get cd ''actionCard'') of
             Some p \<Rightarrow> Some (legacy_of ''action_card'' p)
           | None \<Rightarrow>
               (case mapValue (any_get cd ''link'') of
                  Some p \<Rightarrow> Some (legacy_of ''link'' p)
                | None \<Rightarrow>
                    (case mapValue (any_get cd ''oa'') of
                       Some p \<Rightarrow> Some (legacy_of ''oa'' p)
                     | None \<Rightarrow>
                         let rawType = normalizeLegacyMsgType (stringValue fmtv (any_get cd ''msgtype'')) in
                         if rawType \<noteq> [] then Some (set_msgtype rawType (case cd of None \<Rightarrow> [] | Some ms \<Rightarrow> ms)) else None))))"

definition effectiveDingTalkMessageType :: "standard_message \<Rightarrow> string" where
  "effectiveDingTalkMessageType msg =
     (let t = sm_message_type msg; md = (sm_format msg = ''markdown'') in
      if t = ''markdown'' then ''markdown''
      else if t = ''image'' then ''image''
      else if t = ''audio'' then ''voice''
      else if t = ''video'' then ''video''
      else if t = ''file'' then ''file''
      else if t = ''text'' then (if md then ''markdown'' else ''text'')
      else if md then ''markdown''
      else case (case first_media msg of None \<Rightarrow> None | Some m \<Rightarrow> media_kind_type (mi_kind m)) of
        Some x \<Rightarrow> x
      | None \<Rightarrow> ''text'')"

definition ding_mediaBytes :: "'w ding_env \<Rightarrow> media_item \<Rightarrow> 'w \<Rightarrow> (string \<times> string) res" where
  "ding_mediaBytes env = media_bytes (de_ch env) trim_space trim_space ''dingtalk media requires media_id, path or data_base64''"

definition ding_resolveMediaID :: "'w ding_env \<Rightarrow> 'w ding_api \<Rightarrow> string \<Rightarrow> string \<Rightarrow> media_item \<Rightarrow> 'w \<Rightarrow> string res \<times> 'w" where
  "ding_resolveMediaID env api accessToken msgType media w =
     (if trim_space (mi_media_id media) \<noteq> [] then (Inr (mi_media_id media), w)
      else case ding_mediaBytes env media w of
        Inl err \<Rightarrow> (Inl err, w)
      | Inr (content, fileName) \<Rightarrow>
          api_UploadMedia api accessToken \<lparr>uq_media_type = msgType, uq_file_name = fileName, uq_content = content\<rparr> w)"

definition opt_str :: "string \<Rightarrow> string \<Rightarrow> (string \<times> json) list" where
  "opt_str k v = (if v \<noteq> [] then [(k, JStr v)] else [])"

definition ding_media_body :: "string \<Rightarrow> media_item \<Rightarrow> string \<Rightarrow> json" where
  "ding_media_body msgType media mediaID =
     JObj (if msgType = ''video''
           then [(''media_id'', JStr mediaID)] @ opt_str ''message'' (mi_description media) @
                opt_str ''thumb_media_id'' (mi_thumbnail_media_id media) @ opt_str ''title'' (mi_title media)
           else [(''media_id'', JStr mediaID)])"

definition buildLegacyMessage :: "'w ding_env \<Rightarrow> 'w ding_api \<Rightarrow> string \<Rightarrow> standard_message \<Rightarrow> 'w \<Rightarrow> (string \<times> json) list res \<times> 'w" where
  "buildLegacyMessage env api accessToken msg w =
     (case buildLegacyCardPayload (cx_fmtv (de_ch env)) (sm_card msg) of
        Some payload \<Rightarrow> (Inr payload, w)
      | None \<Rightarrow>
          let msgType = effectiveDingTalkMessageType msg in
          if msgType = ''markdown'' then
            (Inr [(''msgtype'', JStr ''markdown''),
               (''markdown'', JObj [(''text'', JStr (sm_text msg)),
                  (''title'', JStr (trim_space (stringValue (cx_fmtv (de_ch env)) (any_get (sm_metadata msg) ''title''))))])], w)
          else if msgType = ''text'' then
            (Inr [(''msgtype'', JStr ''text''), (''text'', JObj [(''content'', JStr (sm_text msg))])], w)
          else if msgType \<in> {''image'', ''voice'', ''video'', ''file''} then
            (case first_media msg of
               None \<Rightarrow> (Inl (errorf (''dingtalk '' @ msgType @ '' message requires media'')), w)
             | Some media \<Rightarrow>
                 (case ding_resolveMediaID env api accessToken msgType media w of
                    (Inl err, w) \<Rightarrow> (Inl err, w)
                  | (Inr mediaID, w) \<Rightarrow> (Inr [(''msgtype'', JStr msgType), (msgType, ding_media_body msgType media mediaID)], w)))
          else (Inl (errorf (''unsupported dingtalk app message type: '' @ msgType)), w))"

section \<open>Sending\<close>

definition ding_client_Send :: "'w ding_env \<Rightarrow> 'w ding_api \<Rightarrow> dingtalk_app_config \<Rightarrow> standard_message \<Rightarrow> token_cache \<times> 'w \<Rightarrow>
    go_error option \<times> token_cache \<times> 'w" where
  "ding_client_Send env api cfg msg st =
     (let target = resolveDingTalkTarget env msg in
      case buildInteractiveCardRequest env cfg msg target (snd st) of
        Inl err \<Rightarrow> (Some err, st)
      | Inr cd \<Rightarrow>
          if cd = None \<and> \<not> hasConversation target \<and> \<not> hasWorkNotice target
          then (Some (errorf ''dingtalk app receive target is required''), st)
          else (case ding_getAccessToken env api st of
                  (Inl err, st) \<Rightarrow> (Some err, st)
                | (Inr token, (cache, w)) \<Rightarrow>
                    (case cd of
                       Some cardReq \<Rightarrow> let (err, w) = api_SendInteractiveCard api token cardReq w in (err, cache, w)
                     | None \<Rightarrow>
                         (case buildLegacyMessage env api token msg w of
                            (Inl err, w) \<Rightarrow> (Some err, cache, w)
                          | (Inr payload, w) \<Rightarrow>
                              if hasConversation target then
                                let (err, w) = api_SendConversation api token \<lparr>cq_sender = dt_conversation_sender target,
                                      cq_cid = dt_conversation_id target, cq_msg = Some payload\<rparr> w in (err, cache, w)
                              else if da_agent_id cfg \<le> 0 then (Some (errorf ''dingtalk app agent id must be positive''), cache, w)
                              else let (err, w) = api_SendWorkNotice api token \<lparr>nq_agent_id = da_agent_id cfg,
                                     nq_user_id_list = dt_user_ids target, nq_dept_id_list = dt_dept_ids target,
                                     nq_to_all_user = dt_to_all_user target, nq_msg = Some payload\<rparr> w in (err, cache, w)))))"

definition default_channel :: "string \<Rightarrow> standard_message \<Rightarrow> standard_message" where
  "default_channel name msg = (if sm_channel_name msg = [] then msg\<lparr>sm_channel_name := name\<rparr> else msg)"

definition ding_Send where
  "ding_Send env api cfg msg = ding_client_Send env api cfg (default_channel ''dingtalk_app'' msg)"

definition ding_SendMessage where
  "ding_SendMessage env api cfg sessionID text = ding_Send env api cfg (text_message ''dingtalk_app'' sessionID text)"

section \<open>The API over HTTP and the vendor SDK\<close>

record sdk_card_request =
  sk_card_template_id :: string
  sk_conversation_type :: int
  sk_open_conversation_id :: string
  sk_out_track_id :: string
  sk_callback_route_key :: "string option"
  sk_chat_bot_id :: "string option"
  sk_card_param_map :: "(string \<times> string) list option"
  sk_card_media_id_param_map :: "(string \<times> string) list option"
  sk_support_forward :: "bool option"

text \<open>
  \<open>sdk_token\<close> and \<open>sdk_card\<close> are the calls of the SDK; \<open>None\<close> is a response without a body. \<open>sdk_target\<close> resolves
  a path against the base URL.
\<close>

record 'w ding_sdk =
  sdk_token :: "string \<Rightarrow> string \<Rightarrow> 'w \<Rightarrow> (string \<times> int) option res \<times> 'w"
  sdk_card :: "string \<Rightarrow> sdk_card_request \<Rightarrow> 'w \<Rightarrow> bool option res \<times> 'w"
  sdk_target :: "string \<Rightarrow> string \<Rightarrow> string res"

record ding_api_response =
  dx_errcode :: int
  dx_errmsg :: string
  dx_media_id :: string

definition ding_api_fields :: "(string \<times> ding_api_response decoder) list" where
  "ding_api_fields =
     [(''errcode'', dec_int64 (\<lambda>x. dx_errcode_update (\<lambda>_. x))), (''errmsg'', dec_str (\<lambda>x. dx_errmsg_update (\<lambda>_. x))),
      (''media_id'', dec_str (\<lambda>x. dx_media_id_update (\<lambda>_. x)))]"

definition zero_ding_response :: ding_api_response where
  "zero_ding_response = \<lparr>dx_errcode = 0, dx_errmsg = [], dx_media_id = []\<rparr>"

definition sdk_GetAccessToken :: "'w ding_sdk \<Rightarrow> dingtalk_app_config \<Rightarrow> 'w \<Rightarrow> (string \<times> int) res \<times> 'w" where
  "sdk_GetAccessToken sdk cfg w =
     (case sdk_token sdk (da_client_id cfg) (da_client_secret cfg) w of
        (Inl err, w) \<Rightarrow> (Inl err, w)
      | (Inr (Some (t # ts, e)), w) \<Rightarrow> (Inr (t # ts, e), w)
      | (Inr _, w) \<Rightarrow> (Inl (errorf ''dingtalk app get access token returned empty token''), w))"

definition opt_text :: "string \<Rightarrow> string option" where
  "opt_text s = (if s \<noteq> [] then Some s else None)"

definition stringPtrMap :: "(string \<times> string) list option \<Rightarrow> (string \<times> string) list option" where
  "stringPtrMap m = (case m of None \<Rightarrow> None | Some ms \<Rightarrow> if ms = [] then None else Some ms)"

definition sdk_SendInteractiveCard :: "'w ding_sdk \<Rightarrow> string \<Rightarrow> card_request \<Rightarrow> 'w \<Rightarrow> go_error option \<times> 'w" where
  "sdk_SendInteractiveCard sdk accessToken req w =
     (case sdk_card sdk accessToken
        \<lparr>sk_card_template_id = kq_card_template_id req, sk_conversation_type = kq_conversation_type req,
         sk_open_conversation_id = kq_open_conversation_id req, sk_out_track_id = kq_out_track_id req,
         sk_callback_route_key = opt_text (kq_callback_route_key req), sk_chat_bot_id = opt_text (kq_chat_bot_id req),
         sk_card_param_map = stringPtrMap (kq_card_param_map req),
         sk_card_media_id_param_map = stringPtrMap (kq_card_media_id_param_map req),
         sk_support_forward = (if kq_support_forward req then Some True else None)\<rparr> w of
        (Inl err, w) \<Rightarrow> (Some err, w)
      | (Inr (Some True), w) \<Rightarrow> (None, w)
      | (Inr _, w) \<Rightarrow> (Some (errorf ''dingtalk interactive card send failed''), w))"

definition ding_request :: "'w ding_sdk \<Rightarrow> dingtalk_app_config \<Rightarrow> string \<Rightarrow> string \<Rightarrow> (string \<times> string) list \<Rightarrow> string res" where
  "ding_request sdk cfg path accessToken query =
     (case sdk_target sdk (trim_slashes (ding_firstNonEmpty [trim_space (da_oapi_base_url cfg), ''https://oapi.dingtalk.com''])) path of
        Inl err \<Rightarrow> Inl err
      | Inr target \<Rightarrow> Inr (target @ ''?'' @ values_encode (values_set ''access_token'' accessToken [] @ query)))"

definition call_api :: "'w channel_env \<Rightarrow> (string \<times> ding_api_response decoder) list \<Rightarrow> http_request \<Rightarrow> string \<Rightarrow> 'w \<Rightarrow> go_error option \<times> 'w" where
  "call_api ch fs req action w =
     (case http_call ch req w of
        (Inl err, w) \<Rightarrow> (Some err, w)
      | (Inr rep, w) \<Rightarrow>
          (case decode_reply ch fs zero_ding_response rep of
             Inl err \<Rightarrow> (Some err, w)
           | Inr resp \<Rightarrow>
               (if dx_errcode resp \<noteq> 0 then Some (errorf (action @ '' failed: '' @ code_text (dx_errmsg resp) (dx_errcode resp))) else None, w)))"

definition doAPIRequest :: "'w ding_env \<Rightarrow> http_request \<Rightarrow> string \<Rightarrow> 'w \<Rightarrow> go_error option \<times> 'w" where
  "doAPIRequest env = call_api (de_ch env) ding_api_fields"

text \<open>The robots decode only \<^verbatim>\<open>errcode\<close> and \<^verbatim>\<open>errmsg\<close>.\<close>

definition robot_reply_fields :: "(string \<times> ding_api_response decoder) list" where
  "robot_reply_fields =
     [(''errcode'', dec_int64 (\<lambda>x. dx_errcode_update (\<lambda>_. x))), (''errmsg'', dec_str (\<lambda>x. dx_errmsg_update (\<lambda>_. x)))]"

definition post_json :: "string \<Rightarrow> string \<Rightarrow> http_request" where
  "post_json url body = \<lparr>hr_method = ''POST'', hr_url = url, hr_headers = [(''Content-Type'', ''application/json'')], hr_body = body\<rparr>"

definition sdk_SendConversation :: "'w ding_env \<Rightarrow> 'w ding_sdk \<Rightarrow> dingtalk_app_config \<Rightarrow> string \<Rightarrow> conversation_request \<Rightarrow> 'w \<Rightarrow> go_error option \<times> 'w" where
  "sdk_SendConversation env sdk cfg accessToken req w =
     (case ding_request sdk cfg ''/message/send_to_conversation'' accessToken [] of
        Inl err \<Rightarrow> (Some err, w)
      | Inr url \<Rightarrow> doAPIRequest env (post_json url (obj_text [(''cid'', quote (cq_cid req)), (''msg'', map_text (cq_msg req)),
          (''sender'', quote (cq_sender req))])) ''dingtalk conversation send'' w)"

definition joinInt64s :: "int list \<Rightarrow> string" where
  "joinInt64s vs = join '','' (map format_int vs)"

definition sdk_SendWorkNotice :: "'w ding_env \<Rightarrow> 'w ding_sdk \<Rightarrow> dingtalk_app_config \<Rightarrow> string \<Rightarrow> work_notice_request \<Rightarrow> 'w \<Rightarrow> go_error option \<times> 'w" where
  "sdk_SendWorkNotice env sdk cfg accessToken req w =
     (case ding_request sdk cfg ''/topapi/message/corpconversation/asyncsend_v2'' accessToken [] of
        Inl err \<Rightarrow> (Some err, w)
      | Inr url \<Rightarrow> doAPIRequest env (post_json url (obj_text [(''agent_id'', format_int (nq_agent_id req)),
          (''dept_id_list'', quote (joinInt64s (nq_dept_id_list req))), (''msg'', map_text (nq_msg req)),
          (''to_all_user'', bool_text (nq_to_all_user req)), (''userid_list'', quote (join '','' (nq_user_id_list req)))]))
          ''dingtalk work notice send'' w)"

definition sdk_UploadMedia :: "'w ding_env \<Rightarrow> 'w ding_sdk \<Rightarrow> dingtalk_app_config \<Rightarrow> string \<Rightarrow> upload_media_request \<Rightarrow> 'w \<Rightarrow> string res \<times> 'w" where
  "sdk_UploadMedia env sdk cfg accessToken req w =
     (case ding_request sdk cfg ''/media/upload'' accessToken [(''type'', uq_media_type req)] of
        Inl err \<Rightarrow> (Inl err, w)
      | Inr url \<Rightarrow>
          (case http_call (de_ch env) (upload_request (de_ch env) url (uq_file_name req) (uq_content req) w) w of
             (Inl err, w) \<Rightarrow> (Inl err, w)
           | (Inr rep, w) \<Rightarrow>
               (case decode_reply (de_ch env) ding_api_fields zero_ding_response rep of
                  Inl err \<Rightarrow> Inl err
                | Inr resp \<Rightarrow>
                    if dx_errcode resp \<noteq> 0
                    then Inl (errorf (''dingtalk media upload failed: '' @ code_text (dx_errmsg resp) (dx_errcode resp)))
                    else if trim_space (dx_media_id resp) = [] then Inl (errorf ''dingtalk media upload returned empty media id'')
                    else Inr (dx_media_id resp), w)))"

text \<open>The endpoint and the protocol of the vendor's configuration; \<open>parse\<close> yields scheme and host of a URL.\<close>

definition newOpenAPIConfig :: "(string \<Rightarrow> (string \<times> string) res) \<Rightarrow> string \<Rightarrow> string option \<times> string option" where
  "newOpenAPIConfig parse baseURL =
     (let raw = trim_space baseURL in
      if raw = [] then (None, None)
      else case parse raw of
        Inl err \<Rightarrow> (None, None)
      | Inr (scheme, host) \<Rightarrow>
          (if host \<noteq> [] then Some host else None, if scheme \<noteq> [] then Some (to_upper scheme) else None))"

definition newSDKAppAPI :: "'w ding_env \<Rightarrow> 'w ding_sdk \<Rightarrow> dingtalk_app_config \<Rightarrow> 'w ding_api" where
  "newSDKAppAPI env sdk cfg =
     \<lparr>api_GetAccessToken = sdk_GetAccessToken sdk cfg, api_SendConversation = sdk_SendConversation env sdk cfg,
      api_SendInteractiveCard = sdk_SendInteractiveCard sdk, api_SendWorkNotice = sdk_SendWorkNotice env sdk cfg,
      api_UploadMedia = sdk_UploadMedia env sdk cfg\<rparr>"

section \<open>The robot\<close>

definition effectiveRobotMessageType :: "standard_message \<Rightarrow> string" where
  "effectiveRobotMessageType msg =
     (let t = sm_message_type msg; md = (sm_format msg = ''markdown'') in
      if t = ''markdown'' then ''markdown''
      else if t = ''text'' then (if md then ''markdown'' else ''text'')
      else if t \<in> {''image'', ''audio'', ''video'', ''file''} then t
      else if md then ''markdown'' else ''text'')"

text \<open>\<^verbatim>\<open>if value, ok := msg.Metadata[key]; ok && fmt.Sprint(value) != ""\<close>\<close>

definition metadata_text :: "(string \<Rightarrow> string) \<Rightarrow> standard_message \<Rightarrow> string \<Rightarrow> string option" where
  "metadata_text fmtv msg key =
     (case map_get (sm_metadata msg) key of
        None \<Rightarrow> None
      | Some v \<Rightarrow> if sprint fmtv v \<noteq> [] then Some (sprint fmtv v) else None)"

definition buildRobotPayload :: "(string \<Rightarrow> string) \<Rightarrow> standard_message \<Rightarrow> (string \<times> json) list res" where
  "buildRobotPayload fmtv msg =
     (if map_len (sm_card msg) > 0 then
        (if map_get (sm_card msg) ''msgtype'' = None then Inl (errorf ''dingtalk robot card payload requires msgtype'')
         else Inr (the (sm_card msg)))
      else let msgType = effectiveRobotMessageType msg in
        if msgType = ''text'' then Inr [(''msgtype'', JStr ''text''), (''text'', JObj [(''content'', JStr (sm_text msg))])]
        else if msgType = ''markdown'' then
          Inr [(''msgtype'', JStr ''markdown''),
            (''markdown'', JObj [(''text'', JStr (sm_text msg)),
               (''title'', JStr (case metadata_text fmtv msg ''title'' of None \<Rightarrow> ''Agentic-Core'' | Some x \<Rightarrow> x))])]
        else Inl (errorf (''unsupported dingtalk robot message type: '' @ msgType)))"

text \<open>\<open>hmac\<close> is HMAC-SHA256.\<close>

definition signWebhookURL :: "(string \<Rightarrow> string \<Rightarrow> string) \<Rightarrow> url_parser \<Rightarrow> string \<Rightarrow> string \<Rightarrow> int \<Rightarrow> string res" where
  "signWebhookURL hmac parse rawURL secret now =
     (case parse rawURL of
        Inl err \<Rightarrow> Inl err
      | Inr (front, query, frag) \<Rightarrow>
          let timestamp = format_int (now div 1000000);
              sign = b64_encode (hmac secret (timestamp @ [CHR 0x0A] @ secret)) in
          Inr (url_text front (values_set ''sign'' sign (values_set ''timestamp'' timestamp query)) frag))"

definition robot_Send :: "(string \<Rightarrow> string \<Rightarrow> string) \<Rightarrow> url_parser \<Rightarrow> 'w ding_env \<Rightarrow> dingtalk_robot_config \<Rightarrow> standard_message \<Rightarrow> 'w \<Rightarrow>
    go_error option \<times> 'w" where
  "robot_Send hmac parse env cfg msg w =
     (let fmtv = cx_fmtv (de_ch env);
          setting = (\<lambda>key def. case metadata_text fmtv msg key of None \<Rightarrow> trim_space def | Some x \<Rightarrow> trim_space x);
          webhookURL = setting ''dingtalk_robot_webhook_url'' (dr_webhook_url cfg);
          secret = setting ''dingtalk_robot_secret'' (dr_secret cfg) in
      case buildRobotPayload fmtv msg of
        Inl err \<Rightarrow> (Some err, w)
      | Inr payload \<Rightarrow>
          if webhookURL = [] then (Some (errorf ''dingtalk robot webhook url is required''), w)
          else (case (if secret \<noteq> [] then signWebhookURL hmac parse webhookURL secret (cx_now (de_ch env) w) else Inr webhookURL) of
                  Inl err \<Rightarrow> (Some err, w)
                | Inr url \<Rightarrow> call_api (de_ch env) robot_reply_fields (post_json url (map_text (Some payload))) ''dingtalk robot send'' w))"

definition robot_adapter_Send where
  "robot_adapter_Send hmac parse env cfg msg = robot_Send hmac parse env cfg (default_channel ''dingtalk_robot'' msg)"

definition robot_SendMessage where
  "robot_SendMessage hmac parse env cfg sessionID text = robot_adapter_Send hmac parse env cfg (text_message ''dingtalk_robot'' sessionID text)"

section \<open>Properties\<close>

text \<open>Both clients keep a token while it is valid: after a call that returned a token, further calls before
  its expiry return the same, non-empty token and make no request (the whole state is unchanged); a failing
  call leaves the cached token alone.\<close>

theorem access_tokens_are_reused_until_expiry:
  assumes "wecom_getAccessToken wenv wcfg st = (Inr t, st')" "cx_now (we_ch wenv) (snd st') < tk_expires_at (fst st')"
    and "ding_getAccessToken denv api dst = (Inr u, dst')" "cx_now (de_ch denv) (snd dst') < tk_expires_at (fst dst')"
  shows "wecom_getAccessToken wenv wcfg st' = (Inr t, st') \<and> t \<noteq> [] \<and>
    ding_getAccessToken denv api dst' = (Inr u, dst') \<and> u \<noteq> []"
  using wecom_token.get_twice [OF assms(1,2)] wecom_token.get_stores [OF assms(1)]
    ding_token.get_twice [OF assms(3,4)] ding_token.get_stores [OF assms(3)] by blast

definition sample_ding_env :: "'w ding_env" where
  "sample_ding_env = \<lparr>de_ch = sample_channel, de_int32 = (\<lambda>_. 0), de_int64 = (\<lambda>_. 0)\<rparr>"

theorem access_tokens_are_reused_until_expiry_witness:
  "wecom_getAccessToken sample_wecom sample_wecom_config (\<lparr>tk_token = ''a'', tk_expires_at = 9\<rparr>, ()) =
     (Inr ''a'', \<lparr>tk_token = ''a'', tk_expires_at = 9\<rparr>, ())"
proof -
  let ?st = "(\<lparr>tk_token = ''a'', tk_expires_at = 9\<rparr>, ())"
  have "wecom_getAccessToken sample_wecom sample_wecom_config ?st = (Inr ''a'', ?st)"
    "ding_getAccessToken sample_ding_env api ?st = (Inr ''a'', ?st)" for api
    by (simp_all add: wecom_getAccessToken_def ding_getAccessToken_def cached_token_def token_fresh_def sample_wecom_def
        sample_ding_env_def sample_channel_def)
  from access_tokens_are_reused_until_expiry [OF this(1) _ this(2)] show ?thesis
    by (simp add: sample_wecom_def sample_ding_env_def sample_channel_def)
qed

lemma unique_loop_set: "set (unique_loop seen xs) = set xs - set seen"
  by (induction seen xs rule: unique_loop.induct) auto

lemma unique_loop_distinct: "distinct (unique_loop seen xs)"
  by (induction seen xs rule: unique_loop.induct) (auto simp: unique_loop_set)

lemma uniqueStrings_props: "distinct (uniqueStrings xs)" "set (uniqueStrings xs) = set xs"
  by (simp_all add: uniqueStrings_def unique_loop_distinct unique_loop_set)

text \<open>\<open>L\<close> reads from the world the deliveries handed to the API, with the token they carry.\<close>

datatype delivery = Card string card_request | Conversation string conversation_request | WorkNotice string work_notice_request

definition delivery_log :: "'w ding_api \<Rightarrow> ('w \<Rightarrow> delivery list) \<Rightarrow> bool" where
  "delivery_log api L =
     ((\<forall>w. L (snd (api_GetAccessToken api w)) = L w) \<and> (\<forall>t r w. L (snd (api_UploadMedia api t r w)) = L w) \<and>
      (\<forall>t r w. L (snd (api_SendInteractiveCard api t r w)) = L w @ [Card t r]) \<and>
      (\<forall>t r w. L (snd (api_SendConversation api t r w)) = L w @ [Conversation t r]) \<and>
      (\<forall>t r w. L (snd (api_SendWorkNotice api t r w)) = L w @ [WorkNotice t r]))"

text \<open>Where a delivery has to go for a message: its conversation when there is one, otherwise its users and departments.\<close>

fun delivered :: "dingtalk_app_config \<Rightarrow> ding_target \<Rightarrow> delivery \<Rightarrow> bool" where
  "delivered cfg t (Card tok r) = (tok \<noteq> [] \<and> hasConversation t \<and> kq_open_conversation_id r = dt_conversation_id t \<and>
     kq_chat_bot_id r = dt_conversation_sender t \<and> kq_card_template_id r \<noteq> [] \<and> 0 < kq_conversation_type r)"
| "delivered cfg t (Conversation tok r) = (tok \<noteq> [] \<and> hasConversation t \<and> cq_cid r = dt_conversation_id t \<and>
     cq_sender r = dt_conversation_sender t)"
| "delivered cfg t (WorkNotice tok r) = (tok \<noteq> [] \<and> \<not> hasConversation t \<and> hasWorkNotice t \<and> nq_agent_id r = da_agent_id cfg \<and>
     0 < da_agent_id cfg \<and> nq_user_id_list r = dt_user_ids t \<and> nq_dept_id_list r = dt_dept_ids t \<and>
     nq_to_all_user r = dt_to_all_user t)"

lemma token_log:
  assumes "delivery_log api L" "ding_getAccessToken env api st = (r, st')"
  shows "L (snd st') = L (snd st)"
  using assms by (auto simp: ding_getAccessToken_def cached_token_def delivery_log_def split: if_splits prod.splits sum.splits)
    (metis snd_conv)+

lemma buildLegacyMessage_log:
  assumes "delivery_log api L" "buildLegacyMessage env api t msg w = (r, w')"
  shows "L w' = L w"
  using assms by (auto simp: buildLegacyMessage_def ding_resolveMediaID_def delivery_log_def Let_def
      split: if_splits prod.splits sum.splits option.splits) (metis snd_conv)+

lemma conversation_type_pos: "0 < conversation_type env cv mv"
  by (auto simp: conversation_type_def Let_def split: option.splits if_splits)

lemma card_request_target:
  assumes "buildInteractiveCardRequest env cfg msg target w = Inr (Some r)"
  shows "hasConversation target \<and> kq_open_conversation_id r = dt_conversation_id target \<and>
    kq_chat_bot_id r = dt_conversation_sender target \<and> kq_card_template_id r \<noteq> [] \<and> 0 < kq_conversation_type r"
proof -
  have pos: "0 < conversation_type env cv mv" for cv mv by (rule conversation_type_pos)
  from assms show ?thesis
    unfolding buildInteractiveCardRequest_def Let_def
    by (simp split: if_split_asm sum.split_asm) (use pos in auto)
qed

text \<open>At most one delivery was added to the log, and one to the target when there is no error.\<close>

definition one_delivery :: "dingtalk_app_config \<Rightarrow> ding_target \<Rightarrow> delivery list \<Rightarrow> go_error option \<Rightarrow> delivery list \<Rightarrow> bool" where
  "one_delivery cfg t v err v' =
     (\<exists>ds. v' = v @ ds \<and> length ds \<le> 1 \<and> (err = None \<longrightarrow> (\<exists>d. ds = [d] \<and> delivered cfg t d)))"

lemma one_delivery_intros:
  "one_delivery cfg t v (Some e) v" "delivered cfg t d \<Longrightarrow> one_delivery cfg t v err (v @ [d])"
  by (auto simp: one_delivery_def)

text \<open>A message that is not a card.\<close>

lemma message_delivery:
  assumes log: "delivery_log api L" and s: "ding_client_Send env api cfg m st = (err, st')"
    and cd: "buildInteractiveCardRequest env cfg m t (snd st) = Inr None" and t: "resolveDingTalkTarget env m = t"
    and target: "hasConversation t \<or> hasWorkNotice t"
    and tok: "ding_getAccessToken env api st = (Inr token, cache, w)" "L w = L (snd st)" "token \<noteq> []"
  shows "one_delivery cfg t (L (snd st)) err (L (snd st'))"
proof -
  obtain p w2 where b: "buildLegacyMessage env api token m w = (p, w2)" by fastforce
  then have w2: "L w2 = L (snd st)" using buildLegacyMessage_log [OF log b] tok(2) by simp
  note s' = s [unfolded ding_client_Send_def t Let_def cd]
  let ?cq = "\<lambda>x. \<lparr>cq_sender = dt_conversation_sender t, cq_cid = dt_conversation_id t, cq_msg = Some x\<rparr>"
  let ?nq = "\<lambda>x. \<lparr>nq_agent_id = da_agent_id cfg, nq_user_id_list = dt_user_ids t, nq_dept_id_list = dt_dept_ids t,
    nq_to_all_user = dt_to_all_user t, nq_msg = Some x\<rparr>"
  consider (fail) e where "p = Inl e" | (conv) x where "p = Inr x" "hasConversation t"
    | (agent) x where "p = Inr x" "\<not> hasConversation t" "da_agent_id cfg \<le> 0"
    | (notice) x where "p = Inr x" "\<not> hasConversation t" "0 < da_agent_id cfg"
    by (metis sum.exhaust not_le)
  then show ?thesis
  proof cases
    case conv
    with s' tok b have "st' = (cache, snd (api_SendConversation api token (?cq x) w2))" by (auto split: prod.splits)
    with log w2 have "L (snd st') = L (snd st) @ [Conversation token (?cq x)]" by (simp add: delivery_log_def)
    with conv tok(3) show ?thesis by (auto intro: one_delivery_intros)
  next
    case notice
    with s' target tok b have "st' = (cache, snd (api_SendWorkNotice api token (?nq x) w2))" by (auto split: prod.splits)
    with log w2 have "L (snd st') = L (snd st) @ [WorkNotice token (?nq x)]" by (simp add: delivery_log_def)
    with notice target tok(3) show ?thesis by (auto intro: one_delivery_intros)
  qed (use s' target tok b w2 in \<open>auto simp: one_delivery_def\<close>)
qed

lemma client_delivery:
  assumes log: "delivery_log api L" and s: "ding_client_Send env api cfg m st = (err, st')" and t: "resolveDingTalkTarget env m = t"
  shows "one_delivery cfg t (L (snd st)) err (L (snd st'))"
proof (cases "buildInteractiveCardRequest env cfg m t (snd st)")
  case (Inl e)
  with s show ?thesis by (auto simp: ding_client_Send_def t Let_def one_delivery_def)
next
  case (Inr cd)
  obtain r cache w where g: "ding_getAccessToken env api st = (r, cache, w)" by (metis prod.exhaust)
  then have w: "L w = L (snd st)" using token_log [OF log g] by simp
  consider (none) "cd = None" "\<not> hasConversation t" "\<not> hasWorkNotice t"
    | (err) e where "cd \<noteq> None \<or> hasConversation t \<or> hasWorkNotice t" "r = Inl e"
    | (card) c token where "cd = Some c" "r = Inr token"
    | (msg) token where "cd = None" "hasConversation t \<or> hasWorkNotice t" "r = Inr token"
    by (cases r; cases cd) auto
  then show ?thesis
  proof cases
    case none
    with s Inr show ?thesis by (auto simp: ding_client_Send_def t Let_def one_delivery_def)
  next
    case err
    with s Inr g w show ?thesis by (auto simp: ding_client_Send_def t Let_def one_delivery_def)
  next
    case card
    with s Inr g have "st' = (cache, snd (api_SendInteractiveCard api token c w))"
      by (auto simp: ding_client_Send_def t Let_def split: prod.splits)
    with log w have "L (snd st') = L (snd st) @ [Card token c]" by (simp add: delivery_log_def)
    moreover have "token \<noteq> []" using ding_token.get_stores [of env api st token] g card by simp
    ultimately show ?thesis
      using card_request_target [of env cfg m t "snd st" c] Inr card by (auto intro: one_delivery_intros)
  next
    case msg
    then have "token \<noteq> []" using ding_token.get_stores [of env api st token] g by simp
    with message_delivery [OF log s _ t msg(2) g [unfolded msg(3)] w] Inr msg(1) show ?thesis by simp
  qed
qed


definition log_api :: "delivery list ding_api" where
  "log_api = \<lparr>api_GetAccessToken = (\<lambda>w. (Inr (''t'', 7200), w)), api_SendConversation = (\<lambda>t r w. (None, w @ [Conversation t r])),
     api_SendInteractiveCard = (\<lambda>t r w. (None, w @ [Card t r])), api_SendWorkNotice = (\<lambda>t r w. (None, w @ [WorkNotice t r])),
     api_UploadMedia = (\<lambda>_ _ w. (Inr ''m'', w))\<rparr>"


end
