(* ===== verification/Wecom_Robot.thy ===== *)
theory Wecom_Robot
  imports Dingtalk
begin

text \<open>
  Package \<^verbatim>\<open>internal/gateway/wecomrobot\<close> (\<^verbatim>\<open>adapter.go\<close>): group robots of WeCom, which are a webhook. MD5 and the URL
  parser are arguments; the state is the world.
\<close>

section \<open>The payload\<close>

definition effectiveType :: "standard_message \<Rightarrow> string" where
  "effectiveType msg =
     (let t = sm_message_type msg in
      if t \<in> {''markdown'', ''image'', ''file'', ''news'', ''text''} then t
      else if sm_format msg = ''markdown'' then ''markdown''
      else case first_media msg of
        Some m \<Rightarrow>
          if mi_kind m = ''image'' then ''image'' else if mi_kind m = ''file'' then ''file''
          else if has_articles msg then ''news'' else ''text''
      | None \<Rightarrow> if has_articles msg then ''news'' else ''text'')"

definition imageBase64 :: "'w channel_env \<Rightarrow> media_item \<Rightarrow> 'w \<Rightarrow> string res" where
  "imageBase64 env media w =
     (if trim_space (mi_data_base64 media) \<noteq> [] then Inr (mi_data_base64 media)
      else if trim_space (mi_path media) \<noteq> [] then
        (case cx_read_file env (mi_path media) w of Inl err \<Rightarrow> Inl err | Inr raw \<Rightarrow> Inr (b64_encode raw))
      else Inl (errorf ''wecom robot image requires path or data_base64''))"

definition wr_mediaBytes :: "'w channel_env \<Rightarrow> media_item \<Rightarrow> 'w \<Rightarrow> (string \<times> string) res" where
  "wr_mediaBytes env = media_bytes env trim_space (\<lambda>n. n) ''wecom robot file requires path or data_base64''"

text \<open>
  \<^verbatim>\<open>parsed.Query().Get("key")\<close> is the first value of the key; \<open>host\<close> is the scheme and host of the parsed URL, to
  which the new path is attached.
\<close>

definition webhookUploadURL :: "url_parser \<Rightarrow> (string \<Rightarrow> string) \<Rightarrow> string \<Rightarrow> string res" where
  "webhookUploadURL parse host webhookURL =
     (case parse webhookURL of
        Inl err \<Rightarrow> Inl err
      | Inr (front, query, frag) \<Rightarrow>
          (case map_of query ''key'' of
             Some (k # ks) \<Rightarrow> Inr (url_text (host front @ ''/cgi-bin/webhook/upload_media'') [(''key'', k # ks)] frag)
           | _ \<Rightarrow> Inl (errorf ''wecom robot webhook url missing key'')))"

definition wr_uploadFile :: "url_parser \<Rightarrow> (string \<Rightarrow> string) \<Rightarrow> 'w channel_env \<Rightarrow> string \<Rightarrow> media_item \<Rightarrow> 'w \<Rightarrow> string res \<times> 'w" where
  "wr_uploadFile parse host env webhookURL media w =
     (case webhookUploadURL parse host webhookURL of
        Inl err \<Rightarrow> (Inl err, w)
      | Inr uploadURL \<Rightarrow>
          (case wr_mediaBytes env media w of
             Inl err \<Rightarrow> (Inl err, w)
           | Inr (content, fileName) \<Rightarrow>
               (case http_call env (upload_request env uploadURL fileName content w) w of
                  (Inl err, w) \<Rightarrow> (Inl err, w)
                | (Inr rep, w) \<Rightarrow>
                    (case decode_reply env ding_api_fields zero_ding_response rep of
                       Inl err \<Rightarrow> Inl err
                     | Inr resp \<Rightarrow>
                         if dx_errcode resp \<noteq> 0
                         then Inl (errorf (''wecom robot upload_media failed: '' @ code_text (dx_errmsg resp) (dx_errcode resp)))
                         else if dx_media_id resp = [] then Inl (errorf ''wecom robot upload_media returned empty media_id'')
                         else Inr (dx_media_id resp), w))))"

definition mention :: "standard_message \<Rightarrow> string \<Rightarrow> (string \<times> json) list" where
  "mention msg k = (case map_get (sm_metadata msg) k of None \<Rightarrow> [] | Some v \<Rightarrow> [(k, v)])"

definition wr_buildPayload :: "(string \<Rightarrow> string) \<Rightarrow> url_parser \<Rightarrow> (string \<Rightarrow> string) \<Rightarrow> 'w channel_env \<Rightarrow> string \<Rightarrow> standard_message \<Rightarrow> 'w \<Rightarrow>
    (string \<times> json) list res \<times> 'w" where
  "wr_buildPayload md5 parse host env webhookURL msg w =
     (let t = effectiveType msg; typed = (\<lambda>body. Inr [(''msgtype'', JStr t), (t, JObj body)]) in
      if t = ''text'' then
        (typed ([(''content'', JStr (sm_text msg))] @ mention msg ''mentioned_list'' @ mention msg ''mentioned_mobile_list''), w)
      else if t = ''markdown'' then (typed [(''content'', JStr (sm_text msg))], w)
      else if t = ''image'' then
        (case first_media msg of
           None \<Rightarrow> (Inl (errorf ''wecom robot image message requires media''), w)
         | Some media \<Rightarrow>
             (case imageBase64 env media w of
                Inl err \<Rightarrow> (Inl err, w)
              | Inr base64Content \<Rightarrow>
                  (case b64_decode base64Content of
                     None \<Rightarrow> (Inl (errorf (cx_berr env base64Content)), w)
                   | Some raw \<Rightarrow> (typed [(''base64'', JStr base64Content), (''md5'', JStr (hex_encode (md5 raw)))], w))))
      else if t = ''file'' then
        (case first_media msg of
           None \<Rightarrow> (Inl (errorf ''wecom robot file message requires media''), w)
         | Some media \<Rightarrow>
             (case wr_uploadFile parse host env webhookURL media w of
                (Inl err, w) \<Rightarrow> (Inl err, w)
              | (Inr mediaID, w) \<Rightarrow> (typed [(''media_id'', JStr mediaID)], w)))
      else if t = ''news'' then (typed [(''articles'', articles_json msg)], w)
      else (Inl (errorf ''unsupported wecom robot message type''), w))"

section \<open>Sending\<close>

definition resolveWebhookURL :: "(string \<Rightarrow> string) \<Rightarrow> string \<Rightarrow> standard_message \<Rightarrow> string" where
  "resolveWebhookURL fmtv configured msg =
     (case map_get (sm_metadata msg) ''wecom_robot_webhook_url'' of
        Some v \<Rightarrow> (let raw = trim_space (sprint fmtv v) in if raw \<noteq> [] then raw else trim_space configured)
      | None \<Rightarrow> trim_space configured)"

definition wr_postJSON :: "'w channel_env \<Rightarrow> string \<Rightarrow> go_map \<Rightarrow> 'w \<Rightarrow> go_error option \<times> 'w" where
  "wr_postJSON env endpoint payload w =
     call_api env robot_reply_fields (post_json endpoint (map_text payload)) ''wecom robot send'' w"

definition wr_Send :: "(string \<Rightarrow> string) \<Rightarrow> url_parser \<Rightarrow> (string \<Rightarrow> string) \<Rightarrow> 'w channel_env \<Rightarrow> string \<Rightarrow> standard_message \<Rightarrow> 'w \<Rightarrow>
    go_error option \<times> 'w" where
  "wr_Send md5 parse host env configured msg w =
     (let webhookURL = resolveWebhookURL (cx_fmtv env) configured msg in
      if webhookURL = [] then (Some (errorf ''wecom robot webhook url is required''), w)
      else case wr_buildPayload md5 parse host env webhookURL msg w of
        (Inl err, w) \<Rightarrow> (Some err, w)
      | (Inr payload, w) \<Rightarrow> wr_postJSON env webhookURL (Some payload) w)"

definition wr_SendMessage where
  "wr_SendMessage md5 parse host env configured sessionID text =
     wr_Send md5 parse host env configured (text_message ''wecom_robot'' sessionID text)"

text \<open>Every payload the robot builds is one the decoder of an image can read back.\<close>

lemma image_payload_carries_the_file:
  assumes "effectiveType msg = ''image''" "first_media msg = Some m" "trim_space (mi_data_base64 m) = []"
    and "trim_space (mi_path m) \<noteq> []" "cx_read_file env (mi_path m) w = Inr raw"
  shows "wr_buildPayload md5 parse host env url msg w =
    (Inr [(''msgtype'', JStr ''image''), (''image'', JObj [(''base64'', JStr (b64_encode raw)), (''md5'', JStr (hex_encode (md5 raw)))])], w)"
  using assms by (simp add: wr_buildPayload_def imageBase64_def Let_def)

end
