(* ===== verification/Feishu.thy ===== *)
theory Feishu
  imports Dingtalk
begin

text \<open>
  Package \<^verbatim>\<open>internal/gateway/feishu\<close>: configuration (\<^verbatim>\<open>config.go\<close>), the app's callbacks (\<^verbatim>\<open>app_support.go\<close>,
  \<^verbatim>\<open>app_mapper.go\<close>, \<^verbatim>\<open>app_handler.go\<close>) and client (\<^verbatim>\<open>app_client.go\<close>), and the bot (\<^verbatim>\<open>bot_payload.go\<close>,
  \<^verbatim>\<open>bot_client.go\<close>, \<^verbatim>\<open>bot_adapter.go\<close>).

  The vendor SDK is a parameter: its decryption and signature functions, its decoders of events and card
  actions with the JSON it writes for them, its constant for the id type, and its calls.
\<close>

section \<open>Configuration\<close>

record feishu_bot_config =
  fb_webhook_url :: string
  fb_secret :: string
  fb_http_timeout :: int

record feishu_app_config =
  fa_app_id :: string
  fa_app_secret :: string
  fa_verification_token :: string
  fa_encrypt_key :: string
  fa_event_callback_path :: string
  fa_card_callback_path :: string
  fa_api_base_url :: string
  fa_http_timeout :: int

definition feishu_bot_normalize :: "feishu_bot_config \<Rightarrow> feishu_bot_config" where
  "feishu_bot_normalize c = c\<lparr>fb_http_timeout := default_timeout (fb_http_timeout c)\<rparr>"

definition feishu_app_normalize :: "feishu_app_config \<Rightarrow> feishu_app_config" where
  "feishu_app_normalize c = c\<lparr>fa_http_timeout := default_timeout (fa_http_timeout c)\<rparr>"

definition feishu_bot_Validate :: "feishu_bot_config \<Rightarrow> go_error option" where
  "feishu_bot_Validate c = (if blank (fb_webhook_url c) then Some (errorf ''feishu bot webhook url is required'') else None)"

definition feishu_app_Validate :: "feishu_app_config \<Rightarrow> go_error option" where
  "feishu_app_Validate c =
     (if blank (fa_app_id c) then Some (errorf ''feishu app id is required'')
      else if blank (fa_app_secret c) then Some (errorf ''feishu app secret is required'')
      else if blank (fa_verification_token c) then Some (errorf ''feishu app verification token is required'')
      else None)"

section \<open>Events of the SDK\<close>

record lark_user_id =
  lu_open_id :: "string option"
  lu_user_id :: "string option"
  lu_union_id :: "string option"

record lark_sender =
  ls_sender_id :: "lark_user_id option"
  ls_tenant_key :: "string option"

record lark_message =
  lm_message_id :: "string option"
  lm_chat_id :: "string option"
  lm_thread_id :: "string option"
  lm_chat_type :: "string option"
  lm_message_type :: "string option"
  lm_content :: "string option"

text \<open>\<open>le_message\<close> is \<open>None\<close> when the event or its message is nil.\<close>

record lark_event =
  le_message :: "lark_message option"
  le_sender :: "lark_sender option"
  le_tenant_key :: string
  le_event_id :: "string option"

record lark_action =
  la_tag :: string
  la_value :: go_map

record lark_card_action =
  lc_open_id :: string
  lc_user_id :: string
  lc_open_message_id :: string
  lc_open_chat_id :: string
  lc_tenant_key :: string
  lc_action :: "lark_action option"

record lark_sdk =
  lk_decrypt :: "string \<Rightarrow> string \<Rightarrow> string res"
  lk_event_signature :: "string \<Rightarrow> string \<Rightarrow> string \<Rightarrow> string \<Rightarrow> string"
  lk_card_signature :: "string \<Rightarrow> string \<Rightarrow> string \<Rightarrow> string \<Rightarrow> string"
  lk_event :: "string \<Rightarrow> lark_event option"
  lk_card_action :: "string \<Rightarrow> lark_card_action option"
  lk_card_action_json :: "lark_card_action \<Rightarrow> string res"
  lk_action_json :: "lark_action \<Rightarrow> json"
  lk_chat_id_type :: string
  lk_jerr :: "string \<Rightarrow> string"

section \<open>Mapping\<close>

definition strValue :: "string option \<Rightarrow> string" where
  "strValue v = (case v of None \<Rightarrow> [] | Some s \<Rightarrow> s)"

fun firstNonEmpty :: "string list \<Rightarrow> string" where
  "firstNonEmpty [] = []"
| "firstNonEmpty (v # vs) = (if trim_space v \<noteq> [] then v else firstNonEmpty vs)"

definition sender_field :: "(lark_user_id \<Rightarrow> string option) \<Rightarrow> lark_sender option \<Rightarrow> string" where
  "sender_field f sender =
     (case sender of None \<Rightarrow> [] | Some s \<Rightarrow> (case ls_sender_id s of None \<Rightarrow> [] | Some u \<Rightarrow> strValue (f u)))"

definition senderOpenID :: "lark_sender option \<Rightarrow> string" where "senderOpenID = sender_field lu_open_id"

definition senderUserID :: "lark_sender option \<Rightarrow> string" where "senderUserID = sender_field lu_user_id"

definition senderUnionID :: "lark_sender option \<Rightarrow> string" where "senderUnionID = sender_field lu_union_id"

definition senderTenantKey :: "lark_sender option \<Rightarrow> string" where
  "senderTenantKey sender = (case sender of None \<Rightarrow> [] | Some s \<Rightarrow> strValue (ls_tenant_key s))"

record file_content =
  fc_file_key :: string
  fc_file_name :: string

definition file_content_fields :: "(string \<times> file_content decoder) list" where
  "file_content_fields =
     [(''file_key'', dec_str (\<lambda>x. fc_file_key_update (\<lambda>_. x))), (''file_name'', dec_str (\<lambda>x. fc_file_name_update (\<lambda>_. x)))]"

definition message_request :: "lark_sdk \<Rightarrow> lark_event \<Rightarrow> lark_message \<Rightarrow> standard_message" where
  "message_request sdk event message =
     (let s = le_sender event;
          sender = firstNonEmpty [senderOpenID s, senderUserID s, senderUnionID s];
          session = firstNonEmpty [strValue (lm_chat_id message), senderOpenID s, senderUserID s] in
      zero_standard_message\<lparr>sm_session_id := (if session = [] then sender else session), sm_channel_name := ''feishu_app'',
        sm_message_id := strValue (lm_message_id message), sm_sender_id := sender, sm_sender_name := sender,
        sm_metadata := Some [(''event_id'', JStr (strValue (le_event_id event))),
          (''tenant_key'', JStr (firstNonEmpty [le_tenant_key event, senderTenantKey s])),
          (''chat_id'', JStr (strValue (lm_chat_id message))), (''thread_id'', JStr (strValue (lm_thread_id message))),
          (''chat_type'', JStr (strValue (lm_chat_type message))), (''open_id'', JStr (senderOpenID s)),
          (''user_id'', JStr (senderUserID s)), (''union_id'', JStr (senderUnionID s)),
          (''receive_id_type'', JStr (lk_chat_id_type sdk))],
        sm_raw_content := strValue (lm_content message)\<rparr>)"

definition mapMessageEvent :: "lark_sdk \<Rightarrow> lark_event \<Rightarrow> standard_message res" where
  "mapMessageEvent sdk event =
     (case le_message event of
        None \<Rightarrow> Inl (errorf ''feishu message event is empty'')
      | Some message \<Rightarrow>
          let req = message_request sdk event message;
              content = strValue (lm_content message);
              t = trim_space (strValue (lm_message_type message));
              bad = Inl (errorf (lk_jerr sdk content)) in
          if t = ''text'' then
            (case string_field ''text'' content of
               None \<Rightarrow> bad
             | Some x \<Rightarrow> Inr (req\<lparr>sm_message_type := ''text'', sm_format := ''plain_text'', sm_text := x\<rparr>))
          else if t = ''image'' then
            (case string_field ''image_key'' content of
               None \<Rightarrow> bad
             | Some x \<Rightarrow> Inr (with_media ''image'' (media_of ''image'' x) req))
          else if t = ''file'' then
            (case unmarshal (dec_struct False file_content_fields) \<lparr>fc_file_key = [], fc_file_name = []\<rparr> content of
               None \<Rightarrow> bad
             | Some x \<Rightarrow> Inr (with_media ''file'' ((media_of ''file'' (fc_file_key x))\<lparr>mi_file_name := fc_file_name x\<rparr>) req))
          else Inr (req\<lparr>sm_message_type := ''unknown'', sm_text := content\<rparr>))"

definition card_ids :: "lark_card_action \<Rightarrow> (string \<times> json) list" where
  "card_ids c = [(''open_message_id'', JStr (lc_open_message_id c)), (''open_chat_id'', JStr (lc_open_chat_id c)),
     (''open_id'', JStr (lc_open_id c)), (''user_id'', JStr (lc_user_id c)), (''tenant_key'', JStr (lc_tenant_key c))]"

definition mapCardAction :: "lark_sdk \<Rightarrow> lark_card_action \<Rightarrow> standard_message res" where
  "mapCardAction sdk c =
     (case lk_card_action_json sdk c of
        Inl err \<Rightarrow> Inl err
      | Inr cardBody \<Rightarrow>
          let sender = firstNonEmpty [lc_open_id c, lc_user_id c] in
          Inr (zero_standard_message\<lparr>sm_session_id := firstNonEmpty [lc_open_chat_id c, lc_open_id c, lc_user_id c],
            sm_channel_name := ''feishu_app'', sm_message_id := lc_open_message_id c, sm_sender_id := sender, sm_sender_name := sender,
            sm_text := ''card_action'', sm_message_type := ''event'',
            sm_card := Some (card_ids c @ [(''action'', case lc_action c of None \<Rightarrow> JNull | Some a \<Rightarrow> lk_action_json sdk a)]),
            sm_raw_content := cardBody,
            sm_metadata := Some (card_ids c @ [(''receive_id_type'', JStr (lk_chat_id_type sdk))] @
              (case lc_action c of
                 None \<Rightarrow> [(''action_tag'', JStr [])]
               | Some a \<Rightarrow> [(''action_tag'', JStr (la_tag a)), (''action_value'', map_json (la_value a))]))\<rparr>))"

section \<open>Callbacks\<close>

text \<open>The values of the three headers the SDK names for timestamp, nonce and signature.\<close>

record lark_headers =
  lh_timestamp :: string
  lh_nonce :: string
  lh_signature :: string

definition errUnauthorized :: go_error where "errUnauthorized = errorf ''unauthorized''"

definition decryptEventBody :: "lark_sdk \<Rightarrow> string \<Rightarrow> string \<Rightarrow> string res" where
  "decryptEventBody sdk encryptKey body =
     (case string_field ''encrypt'' body of
        None \<Rightarrow> Inl (errorf (lk_jerr sdk body))
      | Some encrypt \<Rightarrow>
          if encrypt = [] then Inr body
          else if encryptKey = [] then Inl (errorf ''encrypt_key not found'')
          else lk_decrypt sdk encrypt encryptKey)"

record challenge_body =
  ch_type :: string
  ch_token :: string
  ch_challenge :: string

definition challenge_fields :: "(string \<times> challenge_body decoder) list" where
  "challenge_fields =
     [(''type'', dec_str (\<lambda>x. ch_type_update (\<lambda>_. x))), (''token'', dec_str (\<lambda>x. ch_token_update (\<lambda>_. x))),
      (''challenge'', dec_str (\<lambda>x. ch_challenge_update (\<lambda>_. x)))]"

definition decode_challenge :: "string \<Rightarrow> challenge_body option" where
  "decode_challenge plain = unmarshal (dec_struct False challenge_fields) \<lparr>ch_type = [], ch_token = [], ch_challenge = []\<rparr> plain"

text \<open>The token of the header of an event: \<open>Some []\<close> also when there is no header.\<close>

definition header_token :: "string \<Rightarrow> string option" where
  "header_token plain =
     map_option (\<lambda>h. case h of None \<Rightarrow> [] | Some t \<Rightarrow> t)
       (unmarshal (dec_struct False [(''header'', dec_ptr (dec_struct False [(''token'', dec_str (\<lambda>x _. x))]) [] (\<lambda>h. h) (\<lambda>x _. x))]) None plain)"

text \<open>Decryption and the challenge, common to events and cards; \<open>check\<close> is what differs after them.\<close>

definition parse_lark_body :: "lark_sdk \<Rightarrow> feishu_app_config \<Rightarrow> (string \<Rightarrow> parsed_callback) \<Rightarrow> string \<Rightarrow> parsed_callback" where
  "parse_lark_body sdk cfg check body =
     (case decryptEventBody sdk (fa_encrypt_key cfg) body of
        Inl err \<Rightarrow> parse_failed False False err
      | Inr plain \<Rightarrow>
          (case decode_challenge plain of
             None \<Rightarrow> parse_failed False False (errorf (lk_jerr sdk plain))
           | Some c \<Rightarrow>
               if ch_challenge c \<noteq> [] then
                 (if ch_token c \<noteq> fa_verification_token cfg then parse_failed True False errUnauthorized
                  else parsed plain (ch_challenge c) False)
               else check plain))"

definition parseEventBody :: "lark_sdk \<Rightarrow> feishu_app_config \<Rightarrow> lark_headers \<Rightarrow> string \<Rightarrow> parsed_callback" where
  "parseEventBody sdk cfg h body =
     parse_lark_body sdk cfg (\<lambda>plain.
       if fa_encrypt_key cfg \<noteq> [] \<and>
          lk_event_signature sdk (lh_timestamp h) (lh_nonce h) (fa_encrypt_key cfg) body \<noteq> lh_signature h
       then parse_failed True False errUnauthorized
       else case header_token plain of
         None \<Rightarrow> parse_failed False False (errorf (lk_jerr sdk plain))
       | Some t \<Rightarrow>
           if t \<noteq> [] \<and> t \<noteq> fa_verification_token cfg then parse_failed True False errUnauthorized
           else parsed plain [] False) body"

definition parseCardBody :: "lark_sdk \<Rightarrow> feishu_app_config \<Rightarrow> lark_headers \<Rightarrow> string \<Rightarrow> parsed_callback" where
  "parseCardBody sdk cfg h body =
     parse_lark_body sdk cfg (\<lambda>plain.
       if fa_verification_token cfg \<noteq> [] \<and>
          lk_card_signature sdk (lh_timestamp h) (lh_nonce h) (fa_verification_token cfg) body \<noteq> lh_signature h
       then parse_failed True False errUnauthorized
       else parsed plain [] False) body"

definition serve_lark :: "'w router_env \<Rightarrow> (string \<Rightarrow> parsed_callback) \<Rightarrow> (string \<Rightarrow> standard_message option) \<Rightarrow> string res \<Rightarrow>
    'w router \<Rightarrow> http_reply \<times> 'w router" where
  "serve_lark renv parse mapped req_body r =
     (case req_body of
        Inl _ \<Rightarrow> (http_Error ''invalid body'' 400, r)
      | Inr body \<Rightarrow>
          let p = parse body in
          if pc_err p \<noteq> None
          then (if pc_unauthorized p then http_Error ''invalid signature'' 401 else http_Error ''invalid callback'' 400, r)
          else if pc_challenge p \<noteq> [] then (challenge_reply (pc_challenge p), r)
          else case mapped (pc_plain p) of
            None \<Rightarrow> (http_Error ''invalid callback'' 400, r)
          | Some req \<Rightarrow>
              (case DispatchIncoming renv req r of
                 (Inl _, r) \<Rightarrow> (http_Error ''enqueue failed'' 502, r)
               | (Inr _, r) \<Rightarrow> (\<lparr>reply_status = 200, reply_body = []\<rparr>, r)))"

definition ok_value :: "'a res \<Rightarrow> 'a option" where
  "ok_value x = (case x of Inl _ \<Rightarrow> None | Inr v \<Rightarrow> Some v)"

definition feishu_EventHandler :: "lark_sdk \<Rightarrow> 'w router_env \<Rightarrow> feishu_app_config \<Rightarrow> lark_headers \<Rightarrow> string res \<Rightarrow> 'w router \<Rightarrow> http_reply \<times> 'w router" where
  "feishu_EventHandler sdk renv cfg h =
     serve_lark renv (parseEventBody sdk cfg h)
       (\<lambda>plain. case lk_event sdk plain of None \<Rightarrow> None | Some event \<Rightarrow> ok_value (mapMessageEvent sdk event))"

definition feishu_CardHandler :: "lark_sdk \<Rightarrow> 'w router_env \<Rightarrow> feishu_app_config \<Rightarrow> lark_headers \<Rightarrow> string res \<Rightarrow> 'w router \<Rightarrow> http_reply \<times> 'w router" where
  "feishu_CardHandler sdk renv cfg h =
     serve_lark renv (parseCardBody sdk cfg h)
       (\<lambda>plain. case lk_card_action sdk plain of None \<Rightarrow> None | Some c \<Rightarrow> ok_value (mapCardAction sdk c))"

section \<open>The app client\<close>

text \<open>The interface \<^verbatim>\<open>appAPI\<close>, and its implementation over the SDK.\<close>

record 'w feishu_api =
  fapi_CreateMessage :: "string \<Rightarrow> string \<Rightarrow> string \<Rightarrow> string \<Rightarrow> string \<Rightarrow> 'w \<Rightarrow> go_error option \<times> 'w"
  fapi_UploadImage :: "string \<Rightarrow> string \<Rightarrow> 'w \<Rightarrow> string res \<times> 'w"
  fapi_UploadFile :: "string \<Rightarrow> string \<Rightarrow> 'w \<Rightarrow> string res \<times> 'w"

record lark_reply =
  lr_success :: bool
  lr_msg :: string
  lr_code :: int
  lr_key :: "string option"

record 'w lark_calls =
  lx_create_message :: "string \<Rightarrow> string \<Rightarrow> string \<Rightarrow> string \<Rightarrow> string \<Rightarrow> 'w \<Rightarrow> lark_reply res \<times> 'w"
  lx_create_image :: "string \<Rightarrow> 'w \<Rightarrow> lark_reply res \<times> 'w"
  lx_create_file :: "string \<Rightarrow> string \<Rightarrow> 'w \<Rightarrow> lark_reply res \<times> 'w"

definition lark_CreateMessage :: "'w lark_calls \<Rightarrow> string \<Rightarrow> string \<Rightarrow> string \<Rightarrow> string \<Rightarrow> string \<Rightarrow> 'w \<Rightarrow> go_error option \<times> 'w" where
  "lark_CreateMessage calls idType receiveID msgType content uuid w =
     (case lx_create_message calls idType receiveID msgType content uuid w of
        (Inl err, w) \<Rightarrow> (Some err, w)
      | (Inr rep, w) \<Rightarrow>
          (if \<not> lr_success rep then Some (errorf (''feishu app create message failed: '' @ code_text (lr_msg rep) (lr_code rep))) else None, w))"

definition lark_key :: "string \<Rightarrow> lark_reply res \<times> 'w \<Rightarrow> string res \<times> 'w" where
  "lark_key action x =
     (case x of
        (Inl err, w) \<Rightarrow> (Inl err, w)
      | (Inr rep, w) \<Rightarrow>
          (if \<not> lr_success rep \<or> strValue (lr_key rep) = []
           then Inl (errorf (action @ '' failed: '' @ code_text (lr_msg rep) (lr_code rep)))
           else Inr (strValue (lr_key rep)), w))"

definition lark_UploadImage :: "'w lark_calls \<Rightarrow> string \<Rightarrow> string \<Rightarrow> 'w \<Rightarrow> string res \<times> 'w" where
  "lark_UploadImage calls fileName content w = lark_key ''feishu app upload image'' (lx_create_image calls content w)"

definition lark_UploadFile :: "'w lark_calls \<Rightarrow> string \<Rightarrow> string \<Rightarrow> 'w \<Rightarrow> string res \<times> 'w" where
  "lark_UploadFile calls fileName content w = lark_key ''feishu app upload file'' (lx_create_file calls fileName content w)"

definition sdk_feishu_api :: "'w lark_calls \<Rightarrow> 'w feishu_api" where
  "sdk_feishu_api calls = \<lparr>fapi_CreateMessage = lark_CreateMessage calls, fapi_UploadImage = lark_UploadImage calls,
     fapi_UploadFile = lark_UploadFile calls\<rparr>"

definition feishu_mediaBytes :: "'w channel_env \<Rightarrow> media_item \<Rightarrow> 'w \<Rightarrow> (string \<times> string) res" where
  "feishu_mediaBytes env = media_bytes env (\<lambda>s. s) (\<lambda>n. n) ''media requires path or data_base64''"

definition resolve_key :: "'w channel_env \<Rightarrow> (string \<Rightarrow> string \<Rightarrow> 'w \<Rightarrow> string res \<times> 'w) \<Rightarrow> media_item \<Rightarrow> 'w \<Rightarrow> string res \<times> 'w" where
  "resolve_key env upload media w =
     (if mi_media_id media \<noteq> [] then (Inr (mi_media_id media), w)
      else case feishu_mediaBytes env media w of
        Inl err \<Rightarrow> (Inl err, w)
      | Inr (content, fileName) \<Rightarrow> upload fileName content w)"

definition resolveImageKey :: "'w channel_env \<Rightarrow> 'w feishu_api \<Rightarrow> media_item \<Rightarrow> 'w \<Rightarrow> string res \<times> 'w" where
  "resolveImageKey env api = resolve_key env (fapi_UploadImage api)"

definition resolveFileKey :: "'w channel_env \<Rightarrow> 'w feishu_api \<Rightarrow> media_item \<Rightarrow> 'w \<Rightarrow> string res \<times> 'w" where
  "resolveFileKey env api = resolve_key env (fapi_UploadFile api)"

definition post_content :: "string \<Rightarrow> json" where
  "post_content x = JObj [(''zh_cn'', JObj [(''content'', JArr [JArr [JObj [(''tag'', JStr ''text''), (''text'', JStr x)]]]), (''title'', JStr [])])]"

definition first_kind :: "standard_message \<Rightarrow> string \<Rightarrow> bool" where
  "first_kind msg k = (case first_media msg of None \<Rightarrow> False | Some m \<Rightarrow> mi_kind m = k)"

definition key_message :: "string \<Rightarrow> string \<Rightarrow> (media_item \<Rightarrow> 'w \<Rightarrow> string res \<times> 'w) \<Rightarrow> standard_message \<Rightarrow> 'w \<Rightarrow> (string \<times> string) res \<times> 'w" where
  "key_message t field resolve msg w =
     (case first_media msg of
        None \<Rightarrow> (Inl (errorf (''feishu '' @ t @ '' message requires media'')), w)
      | Some media \<Rightarrow>
          (case resolve media w of
             (Inl err, w) \<Rightarrow> (Inl err, w)
           | (Inr key, w) \<Rightarrow> (Inr (t, json_print (JObj [(field, JStr key)])), w)))"

definition feishu_buildMessage :: "'w channel_env \<Rightarrow> 'w feishu_api \<Rightarrow> standard_message \<Rightarrow> 'w \<Rightarrow> (string \<times> string) res \<times> 'w" where
  "feishu_buildMessage env api msg w =
     (if sm_card msg \<noteq> None then (Inr (''interactive'', map_text (sm_card msg)), w)
      else if sm_message_type msg = ''markdown'' \<or> sm_format msg = ''markdown'' then
        (Inr (''post'', json_print (post_content (sm_text msg))), w)
      else if sm_message_type msg = ''image'' \<or> first_kind msg ''image'' then
        key_message ''image'' ''image_key'' (resolveImageKey env api) msg w
      else if sm_message_type msg = ''file'' \<or> first_kind msg ''file'' then
        key_message ''file'' ''file_key'' (resolveFileKey env api) msg w
      else (Inr (''text'', json_print (JObj [(''text'', JStr (sm_text msg))])), w))"

definition feishu_client_Send :: "'w channel_env \<Rightarrow> 'w feishu_api \<Rightarrow> standard_message \<Rightarrow> 'w \<Rightarrow> go_error option \<times> 'w" where
  "feishu_client_Send env api msg w =
     (let receiveIDType = (case metadata_text (cx_fmtv env) msg ''receive_id_type'' of None \<Rightarrow> ''chat_id'' | Some t \<Rightarrow> t);
          receiveID = (if sm_session_id msg = [] then sm_receiver_id msg else sm_session_id msg) in
      if receiveID = [] then (Some (errorf ''feishu app receive id is required''), w)
      else case feishu_buildMessage env api msg w of
        (Inl err, w) \<Rightarrow> (Some err, w)
      | (Inr (msgType, content), w) \<Rightarrow>
          fapi_CreateMessage api receiveIDType receiveID msgType content (''feishu-'' @ format_int (cx_now env w)) w)"

definition feishu_Send where
  "feishu_Send env api msg = feishu_client_Send env api (default_channel ''feishu_app'' msg)"

definition feishu_SendMessage where
  "feishu_SendMessage env api sessionID text = feishu_Send env api (text_message ''feishu_app'' sessionID text)"

section \<open>The bot\<close>

definition botSign :: "(string \<Rightarrow> string \<Rightarrow> string) \<Rightarrow> string \<Rightarrow> string \<Rightarrow> string" where
  "botSign hmac timestamp secret = b64_encode (hmac (timestamp @ [CHR 0x0A] @ secret) [])"

definition buildBotPayload :: "(string \<Rightarrow> string \<Rightarrow> string) \<Rightarrow> standard_message \<Rightarrow> int \<Rightarrow> string \<Rightarrow> (string \<times> json) list" where
  "buildBotPayload hmac msg now secret =
     (let timestamp = format_int (now div 1000000000) in
      (if secret \<noteq> [] then [(''timestamp'', JStr timestamp), (''sign'', JStr (botSign hmac timestamp secret))] else []) @
      (case sm_card msg of
         Some c \<Rightarrow> [(''msg_type'', JStr ''interactive''), (''card'', JObj (last_wins c))]
       | None \<Rightarrow>
           if sm_message_type msg = ''markdown'' \<or> sm_format msg = ''markdown''
           then [(''msg_type'', JStr ''post''), (''content'', JObj [(''post'', post_content (sm_text msg))])]
           else [(''msg_type'', JStr ''text''), (''content'', JObj [(''text'', JStr (sm_text msg))])]))"

record bot_reply =
  br_code :: int
  br_msg :: string

definition bot_reply_fields :: "(string \<times> bot_reply decoder) list" where
  "bot_reply_fields = [(''code'', dec_int64 (\<lambda>x. br_code_update (\<lambda>_. x))), (''msg'', dec_str (\<lambda>x. br_msg_update (\<lambda>_. x)))]"

definition bot_Send :: "(string \<Rightarrow> string \<Rightarrow> string) \<Rightarrow> 'w channel_env \<Rightarrow> feishu_bot_config \<Rightarrow> standard_message \<Rightarrow> 'w \<Rightarrow> go_error option \<times> 'w" where
  "bot_Send hmac env cfg msg w =
     (case feishu_bot_Validate cfg of
        Some err \<Rightarrow> (Some err, w)
      | None \<Rightarrow>
          (case http_call env \<lparr>hr_method = ''POST'', hr_url = fb_webhook_url cfg,
                  hr_headers = [(''Content-Type'', ''application/json; charset=utf-8'')],
                  hr_body = map_text (Some (buildBotPayload hmac msg (cx_now env w) (fb_secret cfg)))\<rparr> w of
             (Inl err, w) \<Rightarrow> (Some err, w)
           | (Inr rep, w) \<Rightarrow>
               (case decode_reply env bot_reply_fields \<lparr>br_code = 0, br_msg = []\<rparr> rep of
                  Inl err \<Rightarrow> (Some err, w)
                | Inr x \<Rightarrow>
                    (if br_code x \<noteq> 0 then Some (errorf (''feishu bot send failed: '' @ code_text (br_msg x) (br_code x))) else None, w))))"

definition bot_adapter_Send where
  "bot_adapter_Send hmac env cfg msg = bot_Send hmac env cfg (default_channel ''feishu_bot'' msg)"

definition bot_SendMessage where
  "bot_SendMessage hmac env cfg sessionID text = bot_adapter_Send hmac env cfg (text_message ''feishu_bot'' sessionID text)"

section \<open>Properties\<close>

lemma serve_lark_acts:
  assumes "serve_lark renv parse mapped (Inr body) r = (rep, r')" "r' \<noteq> r"
  shows "pc_err (parse body) = None \<and> pc_challenge (parse body) = [] \<and>
    (\<exists>req. mapped (pc_plain (parse body)) = Some req \<and> snd (DispatchIncoming renv req r) = r')"
  using assms by (auto simp: serve_lark_def Let_def split: if_splits option.splits prod.splits sum.splits)

text \<open>
  A Feishu callback reaches the router only when it is authentic: the event handler of an app with an encrypt
  key, and the card handler of an app with a verification token, dispatch nothing unless the signature header
  is the SDK's signature of the raw body.
\<close>

lemma feishu_event_signed:
  assumes "fa_encrypt_key cfg \<noteq> []" "snd (feishu_EventHandler sdk renv cfg h (Inr body) r) \<noteq> r"
  shows "lh_signature h = lk_event_signature sdk (lh_timestamp h) (lh_nonce h) (fa_encrypt_key cfg) body"
    "\<exists>plain. decryptEventBody sdk (fa_encrypt_key cfg) body = Inr plain \<and> header_token plain \<in> {Some [], Some (fa_verification_token cfg)}"
  using serve_lark_acts [OF prod.collapse [symmetric] assms(2) [unfolded feishu_EventHandler_def]] assms(1)
  by (auto simp: parseEventBody_def parse_lark_body_def parse_failed_def parsed_def split: if_splits option.splits sum.splits)

lemma feishu_card_signed:
  assumes "fa_verification_token cfg \<noteq> []" "snd (feishu_CardHandler sdk renv cfg h (Inr body) r) \<noteq> r"
  shows "lh_signature h = lk_card_signature sdk (lh_timestamp h) (lh_nonce h) (fa_verification_token cfg) body"
  using serve_lark_acts [OF prod.collapse [symmetric] assms(2) [unfolded feishu_CardHandler_def]] assms(1)
  by (auto simp: parseCardBody_def parse_lark_body_def parse_failed_def parsed_def split: if_splits option.splits sum.splits)

definition sample_lark :: lark_sdk where
  "sample_lark = \<lparr>lk_decrypt = (\<lambda>e _. Inr e), lk_event_signature = (\<lambda>_ _ _ _. ''s''), lk_card_signature = (\<lambda>_ _ _ _. ''s''),
     lk_event = (\<lambda>_. Some \<lparr>le_message = Some \<lparr>lm_message_id = Some ''m'', lm_chat_id = Some ''c'', lm_thread_id = None, lm_chat_type = None,
       lm_message_type = None, lm_content = Some ''x''\<rparr>, le_sender = None, le_tenant_key = [], le_event_id = None\<rparr>),
     lk_card_action = (\<lambda>_. Some \<lparr>lc_open_id = ''o'', lc_user_id = [], lc_open_message_id = [], lc_open_chat_id = [], lc_tenant_key = [], lc_action = None\<rparr>),
     lk_card_action_json = (\<lambda>_. Inr ''{}''), lk_action_json = (\<lambda>_. JNull), lk_chat_id_type = ''chat_id'', lk_jerr = (\<lambda>_. [])\<rparr>"

definition sample_feishu :: feishu_app_config where
  "sample_feishu = \<lparr>fa_app_id = ''a'', fa_app_secret = ''b'', fa_verification_token = ''v'', fa_encrypt_key = ''k'', fa_event_callback_path = [],
     fa_card_callback_path = [], fa_api_base_url = [], fa_http_timeout = 0\<rparr>"

definition sample_lark_headers :: lark_headers where
  "sample_lark_headers = \<lparr>lh_timestamp = ''1'', lh_nonce = ''n'', lh_signature = ''s''\<rparr>"

text \<open>The event handler depends on the two tokens of the configuration only.\<close>

lemma feishu_event_tokens:
  assumes "fa_encrypt_key c = fa_encrypt_key c'" "fa_verification_token c = fa_verification_token c'"
  shows "feishu_EventHandler sdk renv c h = feishu_EventHandler sdk renv c' h"
proof -
  have "parseEventBody sdk c h = parseEventBody sdk c' h"
    unfolding fun_eq_iff parseEventBody_def parse_lark_body_def assms by simp
  then show ?thesis by (simp add: feishu_EventHandler_def)
qed

lemma sample_feishu_dispatches:
  assumes "fa_encrypt_key c = ''k''" "fa_verification_token c = ''v''"
  shows "snd (feishu_EventHandler sample_lark sample_renv c sample_lark_headers (Inr ''{}'') (NewSessionRouter ())) \<noteq> NewSessionRouter ()"
proof -
  have "ro_routes (snd (feishu_EventHandler sample_lark sample_renv sample_feishu sample_lark_headers (Inr ''{}'') (NewSessionRouter ()))) \<noteq> []"
    by code_simp
  moreover have "feishu_EventHandler sample_lark sample_renv c h = feishu_EventHandler sample_lark sample_renv sample_feishu h" for h
    using assms by (intro feishu_event_tokens) (simp_all add: sample_feishu_def)
  moreover have "ro_routes (NewSessionRouter () :: unit router) = []" by (simp add: NewSessionRouter_def)
  ultimately show ?thesis by metis
qed

end
