(* ===== verification/Go_Flag.thy ===== *)
theory Go_Flag
  imports Go_Prelude
begin

text \<open>
  What the commands use of the packages \<^verbatim>\<open>flag\<close> and \<^verbatim>\<open>strconv\<close>: \<^verbatim>\<open>FlagSet.Parse\<close> over string, integer and
  boolean flags with \<^verbatim>\<open>ContinueOnError\<close>, and \<^verbatim>\<open>ParseInt\<close> with base 0. A flag set is a list of names with
  the variable each of them sets; \<open>gq\<close> is \<^verbatim>\<open>strconv.Quote\<close>, which only occurs in error texts.
\<close>

section \<open>Integers with a base prefix\<close>

definition rune_digit :: "char \<Rightarrow> nat option" where
  "rune_digit c =
     (let l = lower_char c in
      if is_digit c then Some (digit_val c)
      else if of_char CHR ''a'' \<le> (of_char l :: nat) \<and> (of_char l :: nat) \<le> of_char CHR ''z''
      then Some (of_char l - of_char CHR ''a'' + 10) else None)"

definition parse_error :: string where "parse_error = ''parse error''"

definition range_error :: string where "range_error = ''value out of range''"

fun uint_digits :: "nat \<Rightarrow> string \<Rightarrow> nat \<Rightarrow> string + nat" where
  "uint_digits base [] acc = Inr acc"
| "uint_digits base (c # s) acc =
     (if c = CHR ''_'' then uint_digits base s acc
      else case rune_digit c of
        None \<Rightarrow> Inl parse_error
      | Some d \<Rightarrow>
          if base \<le> d then Inl parse_error
          else if 2 ^ 64 \<le> acc * base + d then Inl range_error
          else uint_digits base s (acc * base + d))"

definition base_prefix :: "string \<Rightarrow> nat \<times> string" where
  "base_prefix s =
     (case s of
        c # t \<Rightarrow>
          if c = CHR ''0'' then
            (case t of
               p # u \<Rightarrow>
                 if u \<noteq> [] \<and> lower_char p = CHR ''b'' then (2, u)
                 else if u \<noteq> [] \<and> lower_char p = CHR ''o'' then (8, u)
                 else if u \<noteq> [] \<and> lower_char p = CHR ''x'' then (16, u)
                 else (8, t)
             | [] \<Rightarrow> (8, t))
          else (10, s)
      | [] \<Rightarrow> (10, s))"

text \<open>\<^verbatim>\<open>underscoreOK\<close>: underscores only between digits or after a base prefix; \<open>i\<close> is the kind of the last rune.\<close>

fun underscore_loop :: "bool \<Rightarrow> char \<Rightarrow> string \<Rightarrow> bool" where
  "underscore_loop hex i [] = (i \<noteq> CHR ''_'')"
| "underscore_loop hex i (c # s) =
     (if is_digit c \<or> hex \<and> (case rune_digit c of Some d \<Rightarrow> 10 \<le> d \<and> d < 16 | None \<Rightarrow> False)
      then underscore_loop hex CHR ''0'' s
      else if c = CHR ''_'' then i = CHR ''0'' \<and> underscore_loop hex CHR ''_'' s
      else i \<noteq> CHR ''_'' \<and> underscore_loop hex CHR ''!'' s)"

definition underscore_ok :: "string \<Rightarrow> bool" where
  "underscore_ok s =
     (case s of
        z # p # u \<Rightarrow>
          if z = CHR ''0'' \<and> lower_char p \<in> {CHR ''b'', CHR ''o'', CHR ''x''}
          then underscore_loop (lower_char p = CHR ''x'') CHR ''0'' u
          else underscore_loop False CHR ''^'' s
      | _ \<Rightarrow> underscore_loop False CHR ''^'' s)"

text \<open>\<^verbatim>\<open>strconv.ParseInt(s, 0, 64)\<close>\<close>

definition parse_int0 :: "string \<Rightarrow> string + int" where
  "parse_int0 s =
     (let neg = has_prefix s ''-'';
          t = (if has_prefix s ''+'' \<or> neg then tl s else s);
          (base, ds) = base_prefix t in
      if t = [] then Inl parse_error
      else case uint_digits base ds 0 of
        Inl e \<Rightarrow> Inl e
      | Inr n \<Rightarrow>
          if CHR ''_'' \<in> set ds \<and> \<not> underscore_ok t then Inl parse_error
          else let v = (if neg then - int n else int n) in
               if v < int64_min \<or> int64_max < v then Inl range_error else Inr v)"

section \<open>Flag sets\<close>

datatype 'c flag_var = StringVar "string \<Rightarrow> 'c \<Rightarrow> 'c" | IntVar "int \<Rightarrow> 'c \<Rightarrow> 'c" | BoolVar "bool \<Rightarrow> 'c \<Rightarrow> 'c"

type_synonym 'c flag_set = "(string \<times> 'c flag_var) list"

definition flag_Set :: "'c flag_var \<Rightarrow> string \<Rightarrow> 'c \<Rightarrow> string + 'c" where
  "flag_Set v x c =
     (case v of
        StringVar f \<Rightarrow> Inr (f x c)
      | IntVar f \<Rightarrow> (case parse_int0 x of Inl e \<Rightarrow> Inl e | Inr i \<Rightarrow> Inr (f i c))
      | BoolVar f \<Rightarrow> (case parse_bool x of None \<Rightarrow> Inl parse_error | Some b \<Rightarrow> Inr (f b c)))"

definition err_help :: go_error where
  "err_help = errorf ''flag: help requested''"

text \<open>One argument: not a flag, the terminator, bad syntax, or a name with an optional value.\<close>

datatype flag_arg = NotFlag | Terminator | BadFlag | Flag string "string option"

definition split_arg :: "string \<Rightarrow> flag_arg" where
  "split_arg s =
     (if length s < 2 \<or> hd s \<noteq> CHR ''-'' then NotFlag
      else if s = ''--'' then Terminator
      else let name = (if s ! 1 = CHR ''-'' then drop 2 s else drop 1 s) in
           if name = [] \<or> hd name = CHR ''-'' \<or> hd name = CHR ''='' then BadFlag
           else let k = takeWhile (\<lambda>c. c \<noteq> CHR ''='') (tl name) in
                if length k < length (tl name)
                then Flag (hd name # k) (Some (drop (Suc (length k)) (tl name)))
                else Flag name None)"

fun flag_Parse :: "(string \<Rightarrow> string) \<Rightarrow> 'c flag_set \<Rightarrow> string list \<Rightarrow> 'c \<Rightarrow> 'c res" where
  "flag_Parse gq fs [] c = Inr c"
| "flag_Parse gq fs (s # args) c =
     (case split_arg s of
        NotFlag \<Rightarrow> Inr c
      | Terminator \<Rightarrow> Inr c
      | BadFlag \<Rightarrow> Inl (errorf (''bad flag syntax: '' @ s))
      | Flag name value \<Rightarrow>
          (case map_of fs name of
             None \<Rightarrow> if name = ''help'' \<or> name = ''h'' then Inl err_help
                     else Inl (errorf (''flag provided but not defined: -'' @ name))
           | Some (BoolVar f) \<Rightarrow>
               (case flag_Set (BoolVar f) (case value of Some v \<Rightarrow> v | None \<Rightarrow> ''true'') c of
                  Inl e \<Rightarrow> Inl (errorf (''invalid boolean value '' @ gq (case value of Some v \<Rightarrow> v | None \<Rightarrow> ''true'') @
                             '' for -'' @ name @ '': '' @ e))
                | Inr c' \<Rightarrow> flag_Parse gq fs args c')
           | Some var \<Rightarrow>
               (case (value, args) of
                  (Some v, _) \<Rightarrow>
                    (case flag_Set var v c of
                       Inl e \<Rightarrow> Inl (errorf (''invalid value '' @ gq v @ '' for flag -'' @ name @ '': '' @ e))
                     | Inr c' \<Rightarrow> flag_Parse gq fs args c')
                | (None, v # rest) \<Rightarrow>
                    (case flag_Set var v c of
                       Inl e \<Rightarrow> Inl (errorf (''invalid value '' @ gq v @ '' for flag -'' @ name @ '': '' @ e))
                     | Inr c' \<Rightarrow> flag_Parse gq fs rest c')
                | (None, []) \<Rightarrow> Inl (errorf (''flag needs an argument: -'' @ name)))))"

text \<open>Every variable a successful parse changed is one of the set: what all setters keep is kept.\<close>

definition flag_keeps :: "('c \<Rightarrow> 'v) \<Rightarrow> 'c flag_set \<Rightarrow> bool" where
  "flag_keeps P fs = list_all (\<lambda>(_, v). \<forall>x c c'. flag_Set v x c = Inr c' \<longrightarrow> P c' = P c) fs"

lemma flag_keeps_Set: "flag_keeps P fs \<Longrightarrow> map_of fs name = Some v \<Longrightarrow> flag_Set v x c = Inr c' \<Longrightarrow> P c' = P c"
  by (drule map_of_SomeD) (fastforce simp: flag_keeps_def list_all_iff)

lemma flag_keeps_Parse: "flag_keeps P fs \<Longrightarrow> flag_Parse gq fs args c = Inr c' \<Longrightarrow> P c' = P c"
proof (induction gq fs args c rule: flag_Parse.induct)
  case (2 gq fs s args c)
  from "2.prems" "2.IH" show ?case
    by (auto split: flag_arg.splits option.splits flag_var.splits sum.splits list.splits if_splits dest!: flag_keeps_Set)
qed simp

end
