(* ===== verification/Subagent.thy ===== *)
theory Subagent
  imports Orchestrator Llm_Provider Skill Gateway_Sender Go_Flag
begin

text \<open>
  \<^verbatim>\<open>cmd/subagent/main.go\<close>: the worker that consumes the queue of its task, runs the reasoning loop on
  each message and reports the result to the orchestrator.

  The queue, the event bus, the heartbeat bus, the approval gate, the clocks, the row order and the
  faults of the database are arguments. The session history is part of the state and is \<open>None\<close> when
  the agent has no store. A run-time panic is the value \<open>None\<close>.
\<close>

section \<open>Configuration and state\<close>

record subagent_config =
  sg_agent_type :: string
  sg_task_id :: string
  sg_redis_addr :: string
  sg_mqtt_broker :: string
  sg_sqlite_dsn :: string
  sg_llm_provider :: string
  sg_llm_model :: string
  sg_llm_api_key :: string
  sg_llm_base_url :: string

definition agent_flags :: "subagent_config flag_set" where
  "agent_flags =
     [(''agent-type'', StringVar (\<lambda>x. sg_agent_type_update (\<lambda>_. x))),
      (''task-id'', StringVar (\<lambda>x. sg_task_id_update (\<lambda>_. x))),
      (''redis-addr'', StringVar (\<lambda>x. sg_redis_addr_update (\<lambda>_. x))),
      (''mqtt-broker'', StringVar (\<lambda>x. sg_mqtt_broker_update (\<lambda>_. x))),
      (''sqlite-dsn'', StringVar (\<lambda>x. sg_sqlite_dsn_update (\<lambda>_. x))),
      (''llm-provider'', StringVar (\<lambda>x. sg_llm_provider_update (\<lambda>_. x))),
      (''llm-model'', StringVar (\<lambda>x. sg_llm_model_update (\<lambda>_. x))),
      (''llm-api-key'', StringVar (\<lambda>x. sg_llm_api_key_update (\<lambda>_. x))),
      (''llm-base-url'', StringVar (\<lambda>x. sg_llm_base_url_update (\<lambda>_. x)))]"

definition agent_defaults :: "(string \<Rightarrow> string) \<Rightarrow> subagent_config" where
  "agent_defaults getenv =
     \<lparr>sg_agent_type = [], sg_task_id = [], sg_redis_addr = ''localhost:16379'', sg_mqtt_broker = ''tcp://localhost:11883'',
      sg_sqlite_dsn = ''agentic_core.db'', sg_llm_provider = ''openai'', sg_llm_model = ''gpt-4'',
      sg_llm_api_key = getenv ''LLM_API_KEY'', sg_llm_base_url = getenv ''LLM_BASE_URL''\<rparr>"

definition agent_ParseConfig :: "(string \<Rightarrow> string) \<Rightarrow> (string \<Rightarrow> string) \<Rightarrow> string list \<Rightarrow> subagent_config res" where
  "agent_ParseConfig gq getenv args =
     (case flag_Parse gq agent_flags args (agent_defaults getenv) of
        Inl err \<Rightarrow> Inl err
      | Inr cfg \<Rightarrow> if sg_task_id cfg = [] then Inl (errorf ''task-id is required'') else Inr cfg)"

record 'w agent_env =
  ag_enqueue :: "string \<Rightarrow> message \<Rightarrow> 'w \<Rightarrow> go_error option \<times> 'w"
  ag_publish :: "string \<Rightarrow> message \<Rightarrow> 'w \<Rightarrow> go_error option \<times> 'w"
  ag_heartbeat :: "string \<Rightarrow> string \<Rightarrow> 'w \<Rightarrow> go_error option \<times> 'w"
  ag_gate :: "approval_request \<Rightarrow> 'w \<Rightarrow> approval_decision res \<times> 'w"
  ag_db_fault :: "'w \<Rightarrow> go_error option"
  ag_order_desc :: "history_db \<Rightarrow> history_db"
  ag_now_ns :: "'w \<Rightarrow> int"
  ag_rfc3339 :: "'w \<Rightarrow> string"
  ag_fmt64 :: "string \<Rightarrow> string option"
  ag_jerr :: "string \<Rightarrow> string"

record 'w subagent =
  su_cfg :: subagent_config
  su_resolver :: "'w model_resolver"
  su_provider :: "'w provider option"

record 'w agent_state =
  as_history :: "history_db option"
  as_world :: 'w

definition agent_now_ms :: "'w agent_env \<Rightarrow> 'w \<Rightarrow> int" where
  "agent_now_ms env w = ag_now_ns env w div 1000000"

section \<open>Construction\<close>

text \<open>
  \<^verbatim>\<open>NewSubagent\<close>: \<open>connect\<close> opens a connection and \<open>provider\<close> is the provider built from a model
  configuration. The tables of a database that opens are created if they are missing.
\<close>

record agent_connect =
  cn_sqlite :: "string \<Rightarrow> history_db res"
  cn_redis :: "string \<Rightarrow> go_error option"
  cn_mqtt :: "string \<Rightarrow> go_error option"

definition agent_model :: "subagent_config \<Rightarrow> model_config" where
  "agent_model cfg = NewOpenAIProvider
     \<lparr>mc_provider_name = sg_llm_provider cfg, mc_model_id = sg_llm_model cfg,
      mc_api_key = sg_llm_api_key cfg, mc_base_url = sg_llm_base_url cfg, mc_temperature = ''0.1''\<rparr>"

definition NewSubagent :: "agent_connect \<Rightarrow> (model_config \<Rightarrow> 'w provider) \<Rightarrow> subagent_config \<Rightarrow>
    ('w subagent \<times> history_db option) res" where
  "NewSubagent connect provider cfg =
     (let history = (if sg_sqlite_dsn cfg \<noteq> ''skip''
                     then (case cn_sqlite connect (sg_sqlite_dsn cfg) of Inr db \<Rightarrow> Some db | Inl _ \<Rightarrow> None) else None);
          resolver = (if sg_llm_api_key cfg \<noteq> []
                      then Resolver_Register NewModelResolver (sg_llm_provider cfg) (provider (agent_model cfg))
                      else NewModelResolver) in
      if sg_llm_api_key cfg = [] \<and> sg_redis_addr cfg \<noteq> ''skip'' then Inl (errorf ''LLM_API_KEY is required'')
      else case (if sg_redis_addr cfg \<noteq> ''skip'' then cn_redis connect (sg_redis_addr cfg) else None) of
        Some e \<Rightarrow> Inl (wrap_error ''redis connection failed: '' e)
      | None \<Rightarrow>
          (case (if sg_mqtt_broker cfg \<noteq> ''skip'' then cn_mqtt connect (sg_mqtt_broker cfg) else None) of
             Some e \<Rightarrow> Inl (wrap_error ''mqtt connection failed: '' e)
           | None \<Rightarrow>
               Inr (\<lparr>su_cfg = cfg, su_resolver = resolver,
                     su_provider = (case Resolve resolver (sg_llm_provider cfg) of Inr p \<Rightarrow> Some p | Inl _ \<Rightarrow> None)\<rparr>, history)))"

definition agent_registry_skills :: "'w agent_env \<Rightarrow> 'w skill_registry" where
  "agent_registry_skills env =
     Registry_Register (Registry_Register NewRegistry (CurrentTimeSkill (ag_rfc3339 env))) (HttpGetSkill (ag_jerr env))"

section \<open>Heartbeats\<close>

text \<open>The loop of \<^verbatim>\<open>startHeartbeat\<close>: \<open>True\<close> is a tick, \<open>False\<close> the end of the context.\<close>

fun heartbeat_loop :: "'w agent_env \<Rightarrow> subagent_config \<Rightarrow> bool list \<Rightarrow> 'w \<Rightarrow> 'w" where
  "heartbeat_loop env cfg [] w = w"
| "heartbeat_loop env cfg (tick # sel) w =
     (if tick then heartbeat_loop env cfg sel (snd (ag_heartbeat env (sg_task_id cfg) ''running'' w)) else w)"

definition startHeartbeat :: "'w agent_env \<Rightarrow> subagent_config \<Rightarrow> bool list \<Rightarrow> 'w \<Rightarrow> 'w" where
  "startHeartbeat env cfg sel w =
     heartbeat_loop env cfg sel (snd (ag_heartbeat env (sg_task_id cfg) ''running'' w))"

section \<open>Chunks\<close>

definition agent_chunk_message :: "subagent_config \<Rightarrow> stream_chunk \<Rightarrow> string \<Rightarrow> int \<Rightarrow> message" where
  "agent_chunk_message cfg chunk payload now =
     zero_message\<lparr>msg_message_id := ''chunk.'' @ sc_task_id chunk @ ''.'' @ format_int (sc_sequence chunk),
       msg_sender_id := sg_task_id cfg, msg_receiver_id := ''sender'', msg_payload := payload, msg_timestamp := now\<rparr>"

definition chunk_audit :: "subagent_config \<Rightarrow> stream_chunk \<Rightarrow> audit_event" where
  "chunk_audit cfg chunk =
     zero_audit_event\<lparr>au_trace_id := sc_trace_id chunk, au_session_id := sc_session_id chunk, au_task_id := sc_task_id chunk,
       au_event := sc_event chunk, au_actor := sg_task_id cfg, au_error := sc_error chunk, au_data := sc_data chunk,
       au_timestamp_ms := sc_timestamp_ms chunk\<rparr>"

definition agent_publishChunk :: "'w agent_env \<Rightarrow> subagent_config \<Rightarrow> stream_chunk \<Rightarrow> 'w \<Rightarrow> go_error option \<times> 'w" where
  "agent_publishChunk env cfg chunk w =
     (let chunk = (if sc_task_id chunk = [] then chunk\<lparr>sc_task_id := sg_task_id cfg\<rparr> else chunk) in
      case marshal_chunk chunk of
        None \<Rightarrow> (Some (errorf (ag_jerr env (sc_data chunk))), w)
      | Some payload \<Rightarrow>
          (case ag_publish env (''chunks.'' @ sc_task_id chunk) (agent_chunk_message cfg chunk payload (agent_now_ms env w)) w of
             (Some err, w) \<Rightarrow> (Some err, w)
           | (None, w) \<Rightarrow>
               Record (ag_jerr env) (Some (ag_publish env)) (sg_task_id cfg) (agent_now_ms env w) (chunk_audit cfg chunk) w))"

section \<open>Results\<close>

text \<open>\<^verbatim>\<open>resPayload, _ := json.Marshal(result)\<close>: an error leaves no bytes.\<close>

definition marshal_task_result :: "task_result \<Rightarrow> string option" where
  "marshal_task_result r =
     map_option (\<lambda>out. obj_text
       ([(''task_id'', quote (tr_task_id r))] @ omit_empty ''parent_task_id'' (tr_parent_task_id r) @
        [(''agent_name'', quote (tr_agent_name r)), (''status'', quote (tr_status r)), (''output'', out)] @
        omit_empty ''error'' (tr_error r) @ [(''timestamp'', format_int (tr_timestamp r))]))
       (marshal_raw (tr_output r))"

definition result_output :: "string \<Rightarrow> string" where
  "result_output output = ''{'' @ dq ''result'' @ '':'' @ [CHR 0x22] @ output @ [CHR 0x22] @ ''}''"

definition result_for :: "subagent_config \<Rightarrow> message \<Rightarrow> string \<Rightarrow> string \<Rightarrow> string \<Rightarrow> int \<Rightarrow> task_result" where
  "result_for cfg msg status output err now =
     \<lparr>tr_task_id = msg_message_id msg, tr_parent_task_id = msg_parent_task_id msg, tr_agent_name = sg_agent_type cfg,
      tr_status = status, tr_output = result_output output, tr_error = err, tr_timestamp = now\<rparr>"

definition result_message :: "subagent_config \<Rightarrow> message \<Rightarrow> string \<Rightarrow> int \<Rightarrow> message" where
  "result_message cfg msg payload now =
     zero_message\<lparr>msg_message_id := msg_message_id msg @ ''.result'', msg_sender_id := sg_task_id cfg,
       msg_receiver_id := ''orchestrator'', msg_payload := payload, msg_timestamp := now\<rparr>"

definition sendResult :: "'w agent_env \<Rightarrow> subagent_config \<Rightarrow> message \<Rightarrow> string \<Rightarrow> string \<Rightarrow> string \<Rightarrow> 'w \<Rightarrow> 'w" where
  "sendResult env cfg msg status output err w =
     (let result = result_for cfg msg status output err (ag_now_ns env w div 1000000000);
          resPayload = (case marshal_task_result result of None \<Rightarrow> [] | Some p \<Rightarrow> p) in
      snd (ag_enqueue env ''task_results'' (result_message cfg msg resPayload (agent_now_ms env w)) w))"

definition runtimeTaskResultStatus :: "string \<Rightarrow> go_error option \<Rightarrow> string" where
  "runtimeTaskResultStatus runtimeStatus err =
     (let normalized = NormalizeTaskStatus runtimeStatus in
      if runtimeStatus \<noteq> [] then normalized
      else if err \<noteq> None then TaskStatusFailed
      else TaskStatusSuccess)"

section \<open>One task\<close>

text \<open>The session and the task text of a payload; a payload of another shape is the task itself.\<close>

definition parse_task :: "(string \<Rightarrow> string option) \<Rightarrow> string \<Rightarrow> string \<times> string" where
  "parse_task fmt64 payload =
     (case decodeJSONValue fmt64 payload of
        Some (JObj ms) \<Rightarrow>
          ((case map_of ms ''session_id'' of Some (JStr sid) \<Rightarrow> sid | _ \<Rightarrow> []),
           (case map_of ms ''task'' of Some (JStr t) \<Rightarrow> t | _ \<Rightarrow> payload))
      | _ \<Rightarrow> ([], payload))"

definition load_history :: "'w agent_env \<Rightarrow> string \<Rightarrow> 'w agent_state \<Rightarrow> session_message list" where
  "load_history env sessionID st =
     (case as_history st of
        Some db \<Rightarrow>
          if sessionID \<noteq> [] then
            (case GetHistory (ag_order_desc env) (ag_db_fault env (as_world st)) db sessionID 10 of
               Inr h \<Rightarrow> h | Inl _ \<Rightarrow> [])
          else []
      | None \<Rightarrow> [])"

definition agent_prompt :: "subagent_config \<Rightarrow> string" where
  "agent_prompt cfg =
     Build (AddInstruction (AddInstruction (NewSystemPromptBuilder (sg_agent_type cfg))
       ''Analyze the user request and use tools if needed.'')
       ''Your response MUST be a valid JSON object matching the requested schema.'')"

definition agent_runtime :: "'w agent_env \<Rightarrow> subagent_config \<Rightarrow> 'w provider \<Rightarrow> 'w runtime" where
  "agent_runtime env cfg p =
     NewRuntime (pv_predict p)
       (\<lambda>call w. executor_result (Execute (ag_now_ns env) (agent_registry_skills env) call w))
       (Some (ag_gate env)) (agent_publishChunk env cfg) (agent_now_ms env) (ag_jerr env)"

definition agent_request :: "subagent_config \<Rightarrow> string \<Rightarrow> string \<Rightarrow> chat_message list \<Rightarrow> inference_request" where
  "agent_request cfg traceID sessionID messages =
     zero_inference_request\<lparr>ir_trace_id := traceID, ir_session_id := sessionID, ir_task_id := sg_task_id cfg,
       ir_messages := messages, ir_model_alias := sg_llm_provider cfg\<rparr>"

definition history_message :: "string \<Rightarrow> string \<Rightarrow> string \<Rightarrow> string \<Rightarrow> session_message" where
  "history_message mid sessionID role content =
     \<lparr>sm_id = mid, sm_session_id = sessionID, sm_role = role, sm_content = content, sm_tokens = 0, sm_created_at = 0\<rparr>"

definition add_history :: "'w agent_env \<Rightarrow> session_message \<Rightarrow> 'w agent_state \<Rightarrow> 'w agent_state" where
  "add_history env m st =
     (case as_history st of
        None \<Rightarrow> st
      | Some db \<Rightarrow>
          st\<lparr>as_history := Some (fst (AddMessage (ag_db_fault env (as_world st)) (agent_now_ms env (as_world st)) db m))\<rparr>)"

definition save_exchange :: "'w agent_env \<Rightarrow> string \<Rightarrow> string \<Rightarrow> string \<Rightarrow> 'w agent_state \<Rightarrow> 'w agent_state" where
  "save_exchange env sessionID task content st =
     (if as_history st \<noteq> None \<and> sessionID \<noteq> [] then
        let stamp = format_int (ag_now_ns env (as_world st));
            st = add_history env (history_message (''msg_'' @ stamp @ ''_user'') sessionID ''user'' task) st in
        add_history env (history_message (''msg_'' @ stamp @ ''_assistant'') sessionID ''assistant'' content) st
      else st)"

text \<open>The run of the runtime on a task: its outcome, its log and the state after it.\<close>

definition run_agent :: "'w agent_env \<Rightarrow> 'w subagent \<Rightarrow> string \<Rightarrow> string \<Rightarrow> 'w agent_state \<Rightarrow> 'w run_outcome option" where
  "run_agent env s sessionID task st =
     (let cfg = su_cfg s;
          history = load_history env sessionID st in
      case BuildMessages (NewContextGuard 4096) (map_option pv_predict (Resolver_Get (su_resolver s) (sg_llm_provider cfg)))
             (agent_prompt cfg) history task (as_world st) of
        None \<Rightarrow> None
      | Some (messages, w) \<Rightarrow>
          (case su_provider s of
             None \<Rightarrow> None
           | Some p \<Rightarrow>
               let traceID = ''tr_'' @ format_int (ag_now_ns env w);
                   fo = SetPublisher True (NewFanout traceID sessionID (sg_task_id cfg)) in
               Some (Run (agent_runtime env cfg p) (agent_request cfg traceID sessionID messages) (Some fo) w)))"

definition handle_task :: "'w agent_env \<Rightarrow> 'w subagent \<Rightarrow> message \<Rightarrow> 'w agent_state \<Rightarrow> 'w agent_state option" where
  "handle_task env s msg st =
     (let (sessionID, task) = parse_task (ag_fmt64 env) (msg_payload msg) in
      case run_agent env s sessionID task st of
        None \<Rightarrow> None
      | Some ((result, Some err), rs) \<Rightarrow>
          Some (st\<lparr>as_world := sendResult env (su_cfg s) msg (runtimeTaskResultStatus (fr_status result) (Some err)) []
                                (err_msg err) (rs_world rs)\<rparr>)
      | Some ((result, None), rs) \<Rightarrow>
          let st = save_exchange env sessionID task (fr_content result) (st\<lparr>as_world := rs_world rs\<rparr>) in
          Some (st\<lparr>as_world := sendResult env (su_cfg s) msg TaskStatusSuccess (fr_content result) [] (as_world st)\<rparr>))"

text \<open>
  \<^verbatim>\<open>Run\<close>: \<open>recv\<close> is the error of \<^verbatim>\<open>Dequeue\<close> or the messages received until the channel closes, \<open>ctx\<close> the
  error of the context afterwards.
\<close>

fun agent_loop :: "'w agent_env \<Rightarrow> 'w subagent \<Rightarrow> message list \<Rightarrow> 'w agent_state \<Rightarrow> 'w agent_state option" where
  "agent_loop env s [] st = Some st"
| "agent_loop env s (m # ms) st =
     (case handle_task env s m st of None \<Rightarrow> None | Some st' \<Rightarrow> agent_loop env s ms st')"

definition agent_Run :: "'w agent_env \<Rightarrow> 'w subagent \<Rightarrow> message list res \<Rightarrow> go_ctx \<Rightarrow> 'w agent_state \<Rightarrow>
    (go_error option \<times> 'w agent_state) option" where
  "agent_Run env s recv ctx st =
     (case recv of
        Inl e \<Rightarrow> Some (Some (wrap_error ''failed to consume task: '' e), st)
      | Inr ms \<Rightarrow> map_option (\<lambda>st'. (ctx, st')) (agent_loop env s ms st))"

section \<open>What a run leaves alone\<close>

text \<open>A view of the world that no operation of a runtime changes is not changed by a run.\<close>

definition keeps :: "('w \<Rightarrow> 'v) \<Rightarrow> 'w runtime \<Rightarrow> bool" where
  "keeps L r =
     ((\<forall>q w. L (snd (rn_predict r q w)) = L w) \<and> (\<forall>c w. L (snd (rn_execute r c w)) = L w) \<and>
      (\<forall>g a w. rn_gate r = Some g \<longrightarrow> L (snd (g a w)) = L w) \<and> (\<forall>c w. L (snd (rn_publish r c w)) = L w))"

abbreviation view :: "('w \<Rightarrow> 'v) \<Rightarrow> 'w run_state \<Rightarrow> 'v" where
  "view L s \<equiv> L (rs_world s)"

lemma keeps_Emit: "keeps L r \<Longrightarrow> view L (snd (Emit r f c s)) = view L s"
  by (simp add: Emit_def keeps_def log_event_def split_beta Let_def)

lemma keeps_emitTerminal: "keeps L r \<Longrightarrow> view L (snd (emitTerminal r f c s)) = view L s"
  by (simp add: emitTerminal_def keeps_Emit Let_def)

lemma keeps_emitters:
  assumes "keeps L r"
  shows "view L (snd (EmitToolCall r call f s)) = view L s" "view L (snd (EmitToolResult r res f s)) = view L s"
    "view L (snd (EmitWaitingApproval r areq f s)) = view L s" "view L (snd (EmitFinal r x f s)) = view L s"
    "view L (snd (EmitError r x f s)) = view L s" "view L (snd (EmitTimeout r x f s)) = view L s"
    "view L (snd (EmitCancelled r x f s)) = view L s"
  using assms
  by (simp_all add: EmitToolCall_def EmitToolResult_def EmitWaitingApproval_def EmitFinal_def EmitError_def EmitTimeout_def
      EmitCancelled_def emit_failure_def keeps_Emit keeps_emitTerminal split_beta Let_def split: option.splits)

lemma keeps_notify: "(\<And>f s. view L (snd (op f s)) = view L s) \<Longrightarrow> view L (notify op s) = view L s"
  by (simp add: notify_def split: option.splits)

lemma keeps_calls:
  assumes "keeps L r"
  shows "view L (snd (call_predict r req s)) = view L s" "view L (snd (call_execute r call s)) = view L s"
    "rn_gate r = Some g \<Longrightarrow> view L (snd (call_gate g areq s)) = view L s"
  using assms by (simp_all add: call_predict_def call_execute_def call_gate_def keeps_def log_event_def split_beta)

definition turn_view :: "('w \<Rightarrow> 'v) \<Rightarrow> 'w turn \<Rightarrow> 'v" where
  "turn_view L t = (case t of Return out \<Rightarrow> view L (snd out) | Next ms s \<Rightarrow> view L s)"

lemma turn_view_simps [simp]: "turn_view L (Return out) = view L (snd out)" "turn_view L (Next ms s) = view L s"
  by (simp_all add: turn_view_def)

lemmas keeps_ops = keeps_notify keeps_emitters keeps_calls

lemma keeps_fail: "keeps L r \<Longrightarrow> view L (snd (failWithTerminalEvent r req err s)) = view L s"
  by (simp add: failWithTerminalEvent_def split_beta Let_def keeps_ops)

lemma keeps_execute_tool: "keeps L r \<Longrightarrow> turn_view L (execute_tool r resp call ms s) = view L s"
  by (simp add: execute_tool_def split_beta Let_def keeps_ops)

lemma keeps_ask_approval:
  "keeps L r \<Longrightarrow> rn_gate r = Some g \<Longrightarrow> turn_view L (ask_approval r req g resp call ms s) = view L s"
  by (simp add: ask_approval_def split_beta Let_def keeps_ops keeps_fail keeps_execute_tool split: sum.splits)

lemma keeps_run_tool: "keeps L r \<Longrightarrow> turn_view L (run_tool r req resp call ms s) = view L s"
  by (simp add: run_tool_def Let_def keeps_ops keeps_fail keeps_execute_tool keeps_ask_approval split: option.splits)

lemma keeps_run_turn: "keeps L r \<Longrightarrow> turn_view L (run_turn r req ms s) = view L s"
  by (simp add: run_turn_def split_beta Let_def keeps_ops keeps_fail keeps_run_tool split: sum.splits option.splits)

lemma keeps_run_turns: "keeps L r \<Longrightarrow> view L (snd (run_turns n r req ms s)) = view L s"
proof (induction n arbitrary: ms s)
  case (Suc n)
  then show ?case using keeps_run_turn [OF Suc.prems, of req ms s] by (auto split: turn.splits)
qed (simp add: keeps_fail)

lemma keeps_Run: "keeps L r \<Longrightarrow> L (rs_world (snd (Run r req fo w))) = L w"
  by (simp add: Run_def keeps_run_turns)

section \<open>Results on the wire\<close>

definition result_json :: "task_result \<Rightarrow> json \<Rightarrow> (string \<times> json) list" where
  "result_json r out =
     [(''task_id'', JStr (tr_task_id r))] @ opt_member ''parent_task_id'' (tr_parent_task_id r) @
     [(''agent_name'', JStr (tr_agent_name r)), (''status'', JStr (tr_status r)), (''output'', out)] @
     opt_member ''error'' (tr_error r) @ [(''timestamp'', JNum (format_int (tr_timestamp r)))]"

definition result_utf8 :: "task_result \<Rightarrow> bool" where
  "result_utf8 r = list_all utf8_valid
     [tr_task_id r, tr_parent_task_id r, tr_agent_name r, tr_status r, tr_error r]"

lemma result_output_quoted: "result_output (quote_body x) = json_print (JObj [(''result'', JStr x)])"
  by (simp add: result_output_def dq_def obj_text_def quote_def escape_ascii_def)

lemma marshal_task_result_json:
  assumes "tr_output r = json_print v" "json_ok (max_nesting - 1) v"
  shows "marshal_task_result r = Some (json_print (JObj (result_json r v)))"
proof -
  have "json_ok max_nesting v" using assms(2) json_ok_mono [of "max_nesting - 1" v max_nesting] by simp
  then show ?thesis
    using assms(1) by (simp add: marshal_task_result_def result_json_def opt_member_print marshal_raw_print)
qed

lemma dec_lenient_append:
  "dec_members_lenient fs (xs @ ys) a = dec_members_lenient fs ys (dec_members_lenient fs xs a)"
  by (induction fs xs a rule: dec_members_lenient.induct) simp_all

lemma dec_lenient_opt:
  assumes "find_field fs k = Some (dec_str (\<lambda>x. upd (\<lambda>_. x)))" "utf8_valid v" "v = [] \<Longrightarrow> upd (\<lambda>_. []) a = a"
  shows "dec_members_lenient fs (map (\<lambda>(k, v). (k, json_print v)) (opt_member k v)) a = upd (\<lambda>_. v) a"
  using assms by (auto simp: opt_member_def dec_str_quote)

lemma find_result_field_rest:
  "find_field task_result_fields ''parent_task_id'' = Some (dec_str (\<lambda>x. tr_parent_task_id_update (\<lambda>_. x)))"
  "find_field task_result_fields ''timestamp'' = Some (dec_int64 (\<lambda>x. tr_timestamp_update (\<lambda>_. x)))"
  by (simp_all add: find_field_def task_result_fields_def has_prefix_def upper_char_def Let_def)

lemma dec_int64_sets: "dec_int64 f x a = None \<or> (\<exists>i. dec_int64 f x a = Some (f i a)) \<or> dec_int64 f x a = Some a"
  by (auto simp: dec_int64_def Let_def split: option.splits json.splits)

lemma decode_result_json:
  assumes "result_utf8 r" "json_ok (max_nesting - 1) v"
  shows "\<exists>out ts. decode_result (json_print (JObj (result_json r v))) = r\<lparr>tr_output := out, tr_timestamp := ts\<rparr>"
proof -
  have ok: "json_ok max_nesting (JObj (result_json r v))"
    using assms by (auto simp: result_json_def result_utf8_def opt_member_def num_ok_format_int max_nesting_def)
  have opts: "dec_members_lenient task_result_fields (map (\<lambda>(k, v). (k, json_print v)) (opt_member ''parent_task_id'' x)) a =
        a\<lparr>tr_parent_task_id := x\<rparr>" if "tr_parent_task_id a = []" "utf8_valid x" for x a
    using that by (intro dec_lenient_opt find_result_field_rest) auto
  have opte: "dec_members_lenient task_result_fields (map (\<lambda>(k, v). (k, json_print v)) (opt_member ''error'' x)) a =
        a\<lparr>tr_error := x\<rparr>" if "tr_error a = []" "utf8_valid x" for x a
    using that by (intro dec_lenient_opt find_task_result_field) auto
  have r: "r\<lparr>tr_output := out, tr_timestamp := t\<rparr> = \<lparr>tr_task_id = tr_task_id r, tr_parent_task_id = tr_parent_task_id r,
      tr_agent_name = tr_agent_name r, tr_status = tr_status r, tr_output = out, tr_error = tr_error r, tr_timestamp = t\<rparr>"
    for out t by (cases r) simp
  have "decode_result (json_print (JObj (result_json r v))) =
    dec_members_lenient task_result_fields [(''timestamp'', format_int (tr_timestamp r))] (r\<lparr>tr_output := json_print v, tr_timestamp := 0\<rparr>)"
    unfolding decode_result_print [OF ok] r using assms(1)
    by (simp add: result_json_def dec_lenient_append opts opte result_utf8_def dec_str_quote dec_raw_def zero_task_result_def
        del: json_print.simps(6))
  then show ?thesis
    using dec_int64_sets [of "\<lambda>x. tr_timestamp_update (\<lambda>_. x)" "format_int (tr_timestamp r)"
        "r\<lparr>tr_output := json_print v, tr_timestamp := 0\<rparr>"]
    by (auto simp: find_result_field_rest intro!: exI [of _ "json_print v"])
qed

section \<open>What the agent reports\<close>

text \<open>\<open>L\<close> lists what was put on the queues; nothing but \<^verbatim>\<open>Enqueue\<close> changes it.\<close>

definition results_log :: "'w agent_env \<Rightarrow> 'w subagent \<Rightarrow> ('w \<Rightarrow> (string \<times> message) list) \<Rightarrow> bool" where
  "results_log env s L =
     ((\<forall>q m w. L (snd (ag_enqueue env q m w)) = L w @ [(q, m)]) \<and>
      (\<forall>t m w. L (snd (ag_publish env t m w)) = L w) \<and> (\<forall>a w. L (snd (ag_gate env a w)) = L w) \<and>
      (\<forall>p q w. su_provider s = Some p \<or> Resolver_Get (su_resolver s) (sg_llm_provider (su_cfg s)) = Some p \<longrightarrow>
         L (snd (pv_predict p q w)) = L w))"

lemma agent_skills_pure: "snd (Execute clock (agent_registry_skills env) call w) = w"
  by (auto simp: Execute_def Let_def agent_registry_skills_def Registry_Get_def Registry_Register_def NewRegistry_def update_conv'
      CurrentTimeSkill_def HttpGetSkill_def split_beta split: option.splits sum.splits if_splits)

lemma Record_log:
  "(\<And>t m w. L (snd (pub t m w)) = L w) \<Longrightarrow> L (snd (Record jerr (Some pub) sender now e w)) = L w"
  by (auto simp: Record_def Let_def split: option.splits prod.splits) (metis snd_conv)+

lemma publishChunk_log:
  assumes "\<And>t m w. L (snd (ag_publish env t m w)) = L w"
  shows "L (snd (agent_publishChunk env cfg c w)) = L w"
proof -
  define c' where "c' = (if sc_task_id c = [] then c\<lparr>sc_task_id := sg_task_id cfg\<rparr> else c)"
  show ?thesis
  proof (cases "marshal_chunk c'")
    case (Some p)
    obtain x w1 where p: "ag_publish env (''chunks.'' @ sc_task_id c') (agent_chunk_message cfg c' p (agent_now_ms env w)) w = (x, w1)"
      by force
    then have "L w1 = L w" using assms by (metis snd_conv)
    with p Some assms show ?thesis
      unfolding agent_publishChunk_def Let_def c'_def [symmetric] by (cases x) (simp_all add: Record_log)
  qed (simp add: agent_publishChunk_def Let_def c'_def)
qed

lemma agent_runtime_keeps: "results_log env s L \<Longrightarrow> su_provider s = Some p \<Longrightarrow> keeps L (agent_runtime env (su_cfg s) p)"
  by (auto simp: keeps_def agent_runtime_def NewRuntime_def results_log_def publishChunk_log executor_result_def split_beta
      agent_skills_pure)

lemma BuildMessages_log:
  assumes "\<And>f q w. p = Some f \<Longrightarrow> L (snd (f q w)) = L w"
  shows "\<exists>messages w'. BuildMessages (NewContextGuard n) p sys history query w = Some (messages, w') \<and> L w' = L w"
proof (cases p)
  case (Some f)
  obtain x w1 where x: "summarize f (take (length history - 6) history) w = (x, w1)" by fastforce
  then have "L w1 = L w" using assms [OF Some] unfolding summarize_def by (metis snd_conv)
  with Some x show ?thesis
    by (cases x) (auto simp: BuildMessages_def SemanticCompact_def guard_split Let_def)
qed (simp add: BuildMessages_def SemanticCompact_def guard_split)

lemma run_agent_runs:
  assumes "results_log env s L" "su_provider s \<noteq> None"
  shows "\<exists>result e rs event. run_agent env s sid task st = Some ((result, e), rs) \<and> L (rs_world rs) = L (as_world st) \<and>
    outcome_event (result, e) event"
proof -
  obtain p where p: "su_provider s = Some p" using assms(2) by blast
  define pr where "pr = map_option pv_predict (Resolver_Get (su_resolver s) (sg_llm_provider (su_cfg s)))"
  have "\<exists>ms w. BuildMessages (NewContextGuard 4096) pr (agent_prompt (su_cfg s)) (load_history env sid st) task (as_world st) =
      Some (ms, w) \<and> L w = L (as_world st)"
    by (rule BuildMessages_log) (use assms(1) in \<open>auto simp: results_log_def pr_def\<close>)
  then obtain ms w where w: "BuildMessages (NewContextGuard 4096) pr (agent_prompt (su_cfg s))
      (load_history env sid st) task (as_world st) = Some (ms, w)" "L w = L (as_world st)" by blast
  define run where "run = Run (agent_runtime env (su_cfg s) p)
    (agent_request (su_cfg s) (''tr_'' @ format_int (ag_now_ns env w)) sid ms)
    (Some (SetPublisher True (NewFanout (''tr_'' @ format_int (ag_now_ns env w)) sid (sg_task_id (su_cfg s))))) w"
  have "\<exists>event. outcome_event (fst run) event" unfolding run_def by (rule Run_segments) blast
  moreover have "L (rs_world (snd run)) = L w" unfolding run_def using agent_runtime_keeps [OF assms(1) p] by (rule keeps_Run)
  moreover have "run_agent env s sid task st = Some run" using w(1) p by (simp add: run_agent_def run_def pr_def Let_def)
  ultimately show ?thesis using w(2) by (metis prod.collapse)
qed

lemma sendResult_log:
  assumes "results_log env s L"
  shows "L (sendResult env cfg msg status output err w) = L w @ [(''task_results'',
    result_message cfg msg (case marshal_task_result (result_for cfg msg status output err (ag_now_ns env w div 1000000000)) of
      None \<Rightarrow> [] | Some p \<Rightarrow> p) (agent_now_ms env w))]"
  using assms by (simp add: results_log_def sendResult_def Let_def)

text \<open>The result the agent reports for the outcome of a run.\<close>

definition reported :: "subagent_config \<Rightarrow> message \<Rightarrow> final_result \<times> go_error option \<Rightarrow> int \<Rightarrow> task_result" where
  "reported cfg msg out t =
     (case out of
        (result, None) \<Rightarrow> result_for cfg msg ''success'' (fr_content result) [] t
      | (result, Some err) \<Rightarrow> result_for cfg msg (NormalizeTaskStatus (fr_status result)) [] (err_msg err) t)"

definition report_bytes :: "task_result \<Rightarrow> string" where
  "report_bytes r = (case marshal_task_result r of None \<Rightarrow> [] | Some p \<Rightarrow> p)"

lemma save_exchange_world: "as_world (save_exchange env sid task x st) = as_world st"
  by (simp add: save_exchange_def add_history_def Let_def split: option.splits)

lemma handle_task_log:
  assumes "results_log env s L" "su_provider s \<noteq> None" "parse_task (ag_fmt64 env) (msg_payload msg) = (sid, task)"
  shows "\<exists>out rs event st' t t'. run_agent env s sid task st = Some (out, rs) \<and> outcome_event out event \<and>
    handle_task env s msg st = Some st' \<and>
    L (as_world st') = L (as_world st) @
      [(''task_results'', result_message (su_cfg s) msg (report_bytes (reported (su_cfg s) msg out t)) t')]"
proof -
  from run_agent_runs [OF assms(1,2), of sid task st] obtain result e rs event where
    r: "run_agent env s sid task st = Some ((result, e), rs)" "L (rs_world rs) = L (as_world st)" "outcome_event (result, e) event"
    by blast
  from r(3) have ne: "fr_status result \<noteq> []" by (auto simp: outcome_event_def)
  show ?thesis
  proof (cases e)
    case None
    with r assms(1,3) show ?thesis
      by (intro exI [of _ "(result, e)"] exI [of _ rs] exI [of _ event])
        (auto simp: handle_task_def Let_def sendResult_log [OF assms(1)] save_exchange_world reported_def report_bytes_def TaskStatusSuccess_def)
  next
    case (Some err)
    with r assms(1,3) ne show ?thesis
      by (intro exI [of _ "(result, e)"] exI [of _ rs] exI [of _ event])
        (auto simp: handle_task_def Let_def sendResult_log [OF assms(1)] reported_def report_bytes_def runtimeTaskResultStatus_def)
  qed
qed

lemma normalized_statuses:
  "NormalizeTaskStatus ''success'' = ''success''" "NormalizeTaskStatus ''timeout'' = ''timeout''"
  "NormalizeTaskStatus ''cancelled'' = ''cancelled''" "NormalizeTaskStatus ''failed'' = ''failed''"
  "NormalizeTaskStatus ''rejected'' = ''rejected''" "NormalizeTaskStatus ''error'' = ''failed''"
  by code_simp+

lemma outcome_statuses:
  assumes "outcome_event (result, e) event"
  shows "IsTerminalTaskStatus (tr_status (reported cfg msg (result, e) t))"
    "IsSuccessfulTaskStatus (tr_status (reported cfg msg (result, e) t)) = (e = None)"
    "utf8_valid (tr_status (reported cfg msg (result, e) t))"
proof -
  have "e = None \<or> (\<exists>x. e = Some x \<and> fr_status result \<in> {''timeout'', ''cancelled'', ''error'', ''failed'', ''rejected''})"
    using assms by (cases e) (auto simp: outcome_event_def)
  then have "tr_status (reported cfg msg (result, e) t) = ''success'' \<and> e = None \<or>
      tr_status (reported cfg msg (result, e) t) \<in> {''timeout'', ''cancelled'', ''failed'', ''rejected''} \<and> e \<noteq> None"
    by (auto simp: reported_def result_for_def normalized_statuses)
  then show "IsTerminalTaskStatus (tr_status (reported cfg msg (result, e) t))"
    "IsSuccessfulTaskStatus (tr_status (reported cfg msg (result, e) t)) = (e = None)"
    "utf8_valid (tr_status (reported cfg msg (result, e) t))"
    by (auto simp: IsTerminalTaskStatus_def IsSuccessfulTaskStatus_def normalized_statuses TaskStatusPending_def
        TaskStatusRunning_def TaskStatusSuccess_def)
qed

text \<open>A report the orchestrator can read: UTF-8 texts, and an answer that is the inside of a JSON string literal.\<close>

definition report_ok :: "subagent_config \<Rightarrow> message \<Rightarrow> final_result \<times> go_error option \<Rightarrow> bool" where
  "report_ok cfg msg out =
     (utf8_valid (msg_message_id msg) \<and> utf8_valid (msg_parent_task_id msg) \<and> utf8_valid (sg_agent_type cfg) \<and>
      (case snd out of
         None \<Rightarrow> \<exists>x. utf8_valid x \<and> fr_content (fst out) = quote_body x
       | Some e \<Rightarrow> utf8_valid (err_msg e)))"

definition reported_error :: "go_error option \<Rightarrow> string" where
  "reported_error e = (case e of None \<Rightarrow> [] | Some x \<Rightarrow> err_msg x)"

lemma reported_fields:
  "tr_task_id (reported cfg msg out t) = msg_message_id msg" "tr_parent_task_id (reported cfg msg out t) = msg_parent_task_id msg"
  "tr_agent_name (reported cfg msg out t) = sg_agent_type cfg" "tr_error (reported cfg msg out t) = reported_error (snd out)"
  by (cases "snd out"; cases out; simp add: reported_def result_for_def reported_error_def)+

lemma reported_output:
  assumes "report_ok cfg msg out"
  shows "\<exists>x. utf8_valid x \<and> tr_output (reported cfg msg out t) = json_print (JObj [(''result'', JStr x)])"
proof (cases "snd out")
  case None
  with assms obtain x where "utf8_valid x" "fr_content (fst out) = quote_body x" by (auto simp: report_ok_def)
  with None show ?thesis
    by (intro exI [of _ x]) (simp add: reported_def result_for_def split_beta result_output_quoted del: json_print.simps)
next
  case (Some e)
  then show ?thesis
    using result_output_quoted [of "[]"] by (intro exI [of _ "[]"]) (simp add: reported_def result_for_def split_beta del: json_print.simps)
qed

lemma report_decoded:
  assumes "report_ok cfg msg out" "outcome_event out event"
  shows "\<exists>res. decode_result (report_bytes (reported cfg msg out t)) = res \<and> tr_task_id res = msg_message_id msg \<and>
    tr_parent_task_id res = msg_parent_task_id msg \<and> tr_agent_name res = sg_agent_type cfg \<and>
    tr_error res = reported_error (snd out) \<and> IsTerminalTaskStatus (tr_status res) \<and>
    IsSuccessfulTaskStatus (tr_status res) = (snd out = None)"
proof -
  obtain x where x: "utf8_valid x" "tr_output (reported cfg msg out t) = json_print (JObj [(''result'', JStr x)])"
    using reported_output [OF assms(1)] by blast
  have ok: "json_ok (max_nesting - 1) (JObj [(''result'', JStr x)])" using x(1) by (simp add: max_nesting_def)
  note st = outcome_statuses [of "fst out" "snd out" event cfg msg t, unfolded prod.collapse, OF assms(2)]
  have "result_utf8 (reported cfg msg out t)"
    using assms(1) st(3) unfolding result_utf8_def reported_fields
    by (auto simp: report_ok_def reported_error_def split: option.splits)
  from decode_result_json [OF this ok] marshal_task_result_json [OF x(2) ok] st(1,2) show ?thesis
    by (auto simp: report_bytes_def reported_fields)
qed


section \<open>Answers that are lost\<close>

definition plain_char :: "char \<Rightarrow> bool" where
  "plain_char c = (32 \<le> (of_char c :: nat) \<and> of_char c < (128::nat) \<and> c \<noteq> CHR 0x22 \<and> c \<noteq> CHR 0x5C)"

lemma lex_str_newline: "list_all plain_char a \<Longrightarrow> lex_str (a @ CHR 0x0A # b) = None"
proof (induction a)
  case Nil
  show ?case by (subst lex_str.simps) (simp add: str_step_def)
next
  case (Cons c a)
  then have "str_step (c # a @ CHR 0x0A # b) = Some (Some [c], a @ CHR 0x0A # b)"
    by (simp add: str_step_def plain_char_def rune_len_ascii)
  with Cons show ?case by (subst lex_str.simps) simp
qed

lemma multi_line_output_invalid:
  assumes "list_all plain_char a"
  shows "\<not> json_valid (result_output (a @ CHR 0x0A # b))"
proof -
  let ?t = "CHR 0x22 # a @ CHR 0x0A # b @ [CHR 0x22] @ ''}''"
  have "result_output (a @ CHR 0x0A # b) = CHR ''{'' # quote ''result'' @ CHR '':'' # ?t"
    by (simp add: result_output_def dq_def quote_def escape_ascii_def)
  moreover have "next_tok ?t = None"
    using lex_str_newline [OF assms, of "b @ [CHR 0x22] @ ''}''"] by (simp add: next_tok_def skip_ws_def is_ws_def punct_def)
  ultimately show ?thesis
    by (simp add: json_valid_def json_parse_def json_prefix_def run.simps [of MValue "[]"] run.simps [of MFirstKey]
        run.simps [of MColon] run.simps [of MValue "[_]"] next_tok_quote push_def max_nesting_def)
qed


section \<open>A sample agent\<close>

definition answer_text :: "string \<Rightarrow> string" where
  "answer_text x = json_print (JObj [(''final'', JStr x)])"

lemma parse_answer:
  assumes "utf8_valid x" "x \<noteq> []"
  shows "ParseModelOutput jerr (answer_text x) = Inr (zero_action\<lparr>ae_final := x\<rparr>)"
  using assms unfolding answer_text_def
  by (subst ParseModelOutput_print) (simp_all add: max_nesting_def dec_str_quote zero_action_def)

lemma run_answer:
  assumes "\<And>q w. fst (rn_predict r q w) = Inr (answer_text x)" "utf8_valid x" "x \<noteq> []" "0 < rn_max_turns r"
  shows "\<exists>result rs. Run r req fo w = ((result, None), rs) \<and> fr_content result = x"
proof -
  obtain n where n: "nat (rn_max_turns r) = Suc n" using assms(4) by (cases "nat (rn_max_turns r)") auto
  have "fst (call_predict r q s) = Inr (answer_text x)" for q s using assms(1) by (simp add: call_predict_def split_beta)
  then show ?thesis
    using n assms(3) by (simp add: Run_def run_turn_def split_beta Let_def parse_answer [OF assms(2,3)] zero_action_def)
qed

definition demo_agent_cfg :: subagent_config where
  "demo_agent_cfg = \<lparr>sg_agent_type = ''coder'', sg_task_id = ''t1'', sg_redis_addr = ''skip'', sg_mqtt_broker = ''skip'',
     sg_sqlite_dsn = ''skip'', sg_llm_provider = ''openai'', sg_llm_model = ''m'', sg_llm_api_key = ''k'', sg_llm_base_url = []\<rparr>"

definition demo_agent_env :: "((string \<times> message) list) agent_env" where
  "demo_agent_env = \<lparr>ag_enqueue = (\<lambda>q m w. (Validate m, w @ [(q, m)])), ag_publish = (\<lambda>t m w. (None, w)),
     ag_heartbeat = (\<lambda>i s w. (None, w)), ag_gate = (\<lambda>a w. (Inl (errorf ''timeout''), w)), ag_db_fault = (\<lambda>w. None),
     ag_order_desc = rev, ag_now_ns = (\<lambda>w. 5000000000), ag_rfc3339 = (\<lambda>w. []), ag_fmt64 = Some, ag_jerr = (\<lambda>s. s)\<rparr>"

definition answering :: "string \<Rightarrow> 'w provider" where
  "answering x = \<lparr>pv_predict = (\<lambda>q w. (Inr (answer_text x), w)), pv_predict_stream = (\<lambda>q w. (Inr [], w))\<rparr>"

definition demo_agent :: "string \<Rightarrow> ((string \<times> message) list) subagent" where
  "demo_agent x = \<lparr>su_cfg = demo_agent_cfg, su_resolver = Resolver_Register NewModelResolver ''openai'' (answering x),
     su_provider = Some (answering x)\<rparr>"

definition demo_state :: "((string \<times> message) list) agent_state" where
  "demo_state = \<lparr>as_history = Some [], as_world = []\<rparr>"

definition demo_task :: message where
  "demo_task = \<lparr>msg_message_id = ''t1'', msg_parent_task_id = [], msg_sender_id = ''gateway'', msg_receiver_id = ''orchestrator'',
     msg_target_agent = ''coder'', msg_payload = json_print (JObj [(''task'', JStr ''hi'')]), msg_timestamp = 3\<rparr>"

lemma demo_agent_built:
  "NewSubagent c (\<lambda>_. answering x) demo_agent_cfg = Inr (demo_agent x, None)"
  by (simp add: NewSubagent_def demo_agent_cfg_def demo_agent_def Resolve_def Resolver_Get_def Resolver_Register_def NewModelResolver_def)

lemma demo_results_log: "results_log demo_agent_env (demo_agent x) (\<lambda>w. w)"
  by (auto simp: results_log_def demo_agent_env_def demo_agent_def demo_agent_cfg_def answering_def Resolver_Get_def
      Resolver_Register_def NewModelResolver_def)

lemma demo_parse_task: "parse_task (ag_fmt64 demo_agent_env) (msg_payload demo_task) = ([], ''hi'')"
proof -
  have "json_parse (json_print (JObj [(''task'', JStr ''hi'')])) = Some (JObj [(''task'', JStr ''hi'')])"
    by (rule json_parse_print) (simp add: max_nesting_def)
  then have "decodeJSONValue Some (json_print (JObj [(''task'', JStr ''hi'')])) = Some (JObj [(''task'', JStr ''hi'')])"
    by (simp add: decodeJSONValue_def last_wins_def obj_text_def)
  then show ?thesis
    unfolding parse_task_def demo_task_def demo_agent_env_def by simp
qed

lemma answering_run:
  assumes "results_log env (demo_agent x) L" "utf8_valid x" "x \<noteq> []"
  shows "\<exists>result rs. run_agent env (demo_agent x) sid task st = Some ((result, None), rs) \<and> fr_content result = x"
proof -
  let ?r = "agent_runtime env demo_agent_cfg (answering x)"
  have r: "fst (rn_predict ?r q w) = Inr (answer_text x)" "0 < rn_max_turns ?r" for q w
    by (simp_all add: agent_runtime_def NewRuntime_def answering_def)
  have "run_agent env (demo_agent x) sid task st \<noteq> None"
    using run_agent_runs [OF assms(1), of sid task st] by (auto simp: demo_agent_def)
  then obtain req fo w where "run_agent env (demo_agent x) sid task st = Some (Run ?r req fo w)"
    by (auto simp: run_agent_def Let_def demo_agent_def split: option.splits)
  with run_answer [of ?r x, OF r(1) assms(2,3) r(2), of req fo w] show ?thesis by auto
qed

lemmas demo_run = answering_run [OF demo_results_log, of _ "[]" _ demo_state]

lemma demo_report_ok:
  assumes "fr_content result = ''ok''"
  shows "report_ok (su_cfg (demo_agent ''ok'')) demo_task (result, None)"
  using assms by (auto simp: report_ok_def demo_task_def demo_agent_def demo_agent_cfg_def escape_ascii_def
      intro!: exI [of _ "''ok''"])



end
