(* ===== verification/Gateway_Config.thy ===== *)
theory Gateway_Config
  imports Go_Flag Wecom_Codec
begin

text \<open>
  \<^verbatim>\<open>internal/gateway/config.go\<close>: the configuration of the gateway, read from the environment, overridden by
  command-line flags and validated. \<open>getenv\<close> is \<^verbatim>\<open>os.Getenv\<close>, \<open>media\<close> the value of
  \<^verbatim>\<open>filepath.Join(os.TempDir(), "agentic-core", "wecom-media")\<close>.
\<close>

section \<open>Configurations\<close>

record gw_wecom_config =
  gw_corp_id :: string
  gw_agent_id :: int
  gw_corp_secret :: string
  gw_token :: string
  gw_encoding_aes_key :: string
  gw_callback_path :: string
  gw_api_base_url :: string
  gw_media_dir :: string
  gw_media_retention_days :: int

record gw_wecom_robot_config =
  gwr_webhook_url :: string

record gw_feishu_app_config =
  gfa_enabled :: bool
  gfa_app_id :: string
  gfa_app_secret :: string
  gfa_verification_token :: string
  gfa_encrypt_key :: string
  gfa_event_callback_path :: string
  gfa_card_callback_path :: string
  gfa_api_base_url :: string

record gw_feishu_bot_config =
  gfb_enabled :: bool
  gfb_webhook_url :: string
  gfb_secret :: string

record gw_dingtalk_app_config =
  gda_enabled :: bool
  gda_client_id :: string
  gda_client_secret :: string
  gda_agent_id :: int
  gda_event_callback_path :: string
  gda_card_callback_path :: string
  gda_api_base_url :: string
  gda_oapi_base_url :: string
  gda_token :: string
  gda_aes_key :: string
  gda_media_dir :: string
  gda_card_template_id :: string
  gda_card_callback_route_key :: string

record gw_dingtalk_robot_config =
  gdr_enabled :: bool
  gdr_webhook_url :: string
  gdr_secret :: string

record gateway_config =
  gc_http_port :: string
  gc_redis_addr :: string
  gc_ingress_secret :: string
  gc_wecom :: gw_wecom_config
  gc_wecom_robot :: gw_wecom_robot_config
  gc_feishu_app :: gw_feishu_app_config
  gc_feishu_bot :: gw_feishu_bot_config
  gc_dingtalk_app :: gw_dingtalk_app_config
  gc_dingtalk_robot :: gw_dingtalk_robot_config

section \<open>The environment\<close>

type_synonym environ = "string \<Rightarrow> string"

definition getenvOrDefault :: "environ \<Rightarrow> string \<Rightarrow> string \<Rightarrow> string" where
  "getenvOrDefault getenv key fallback =
     (let v = trim_space (getenv key) in if v = [] then fallback else v)"

definition getenvInt64 :: "environ \<Rightarrow> string \<Rightarrow> int" where
  "getenvInt64 getenv key =
     (let raw = trim_space (getenv key) in
      if raw = [] then 0 else case parse_int64 raw of None \<Rightarrow> 0 | Some v \<Rightarrow> v)"

text \<open>\<^verbatim>\<open>int\<close> has 64 bits, so \<^verbatim>\<open>strconv.Atoi\<close> reads the same numbers as \<^verbatim>\<open>strconv.ParseInt(s, 10, 64)\<close>.\<close>

definition getenvInt :: "environ \<Rightarrow> string \<Rightarrow> int" where
  "getenvInt getenv key =
     (let raw = trim_space (getenv key) in
      if raw = [] then 0 else case parse_int64 raw of None \<Rightarrow> 0 | Some v \<Rightarrow> v)"

definition getenvBool :: "environ \<Rightarrow> string \<Rightarrow> bool" where
  "getenvBool getenv key =
     (let raw = trim_space (getenv key) in
      if raw = [] then False else case parse_bool raw of None \<Rightarrow> False | Some v \<Rightarrow> v)"

definition getenv_trim :: "environ \<Rightarrow> string \<Rightarrow> string" where
  "getenv_trim getenv key = trim_space (getenv key)"

definition env_wecom :: "environ \<Rightarrow> string \<Rightarrow> gw_wecom_config" where
  "env_wecom getenv media =
     \<lparr>gw_corp_id = getenv_trim getenv ''WECOM_CORP_ID'', gw_agent_id = getenvInt64 getenv ''WECOM_AGENT_ID'',
      gw_corp_secret = getenv_trim getenv ''WECOM_CORP_SECRET'', gw_token = getenv_trim getenv ''WECOM_TOKEN'',
      gw_encoding_aes_key = getenv_trim getenv ''WECOM_ENCODING_AES_KEY'',
      gw_callback_path = getenvOrDefault getenv ''WECOM_CALLBACK_PATH'' ''/callbacks/wecom'',
      gw_api_base_url = getenv_trim getenv ''WECOM_API_BASE_URL'',
      gw_media_dir = getenvOrDefault getenv ''WECOM_MEDIA_DIR'' media,
      gw_media_retention_days = getenvInt getenv ''WECOM_MEDIA_RETENTION_DAYS''\<rparr>"

definition env_feishu_app :: "environ \<Rightarrow> gw_feishu_app_config" where
  "env_feishu_app getenv =
     \<lparr>gfa_enabled = getenvBool getenv ''FEISHU_APP_ENABLED'', gfa_app_id = getenv_trim getenv ''FEISHU_APP_ID'',
      gfa_app_secret = getenv_trim getenv ''FEISHU_APP_SECRET'',
      gfa_verification_token = getenv_trim getenv ''FEISHU_APP_VERIFICATION_TOKEN'',
      gfa_encrypt_key = getenv_trim getenv ''FEISHU_APP_ENCRYPT_KEY'',
      gfa_event_callback_path = getenvOrDefault getenv ''FEISHU_APP_EVENT_CALLBACK_PATH'' ''/callbacks/feishu/events'',
      gfa_card_callback_path = getenvOrDefault getenv ''FEISHU_APP_CARD_CALLBACK_PATH'' ''/callbacks/feishu/cards'',
      gfa_api_base_url = getenv_trim getenv ''FEISHU_APP_API_BASE_URL''\<rparr>"

definition env_feishu_bot :: "environ \<Rightarrow> gw_feishu_bot_config" where
  "env_feishu_bot getenv =
     \<lparr>gfb_enabled = getenvBool getenv ''FEISHU_BOT_ENABLED'', gfb_webhook_url = getenv_trim getenv ''FEISHU_BOT_WEBHOOK_URL'',
      gfb_secret = getenv_trim getenv ''FEISHU_BOT_SECRET''\<rparr>"

definition env_dingtalk_app :: "environ \<Rightarrow> gw_dingtalk_app_config" where
  "env_dingtalk_app getenv =
     \<lparr>gda_enabled = getenvBool getenv ''DINGTALK_APP_ENABLED'', gda_client_id = getenv_trim getenv ''DINGTALK_APP_CLIENT_ID'',
      gda_client_secret = getenv_trim getenv ''DINGTALK_APP_CLIENT_SECRET'',
      gda_agent_id = getenvInt64 getenv ''DINGTALK_APP_AGENT_ID'',
      gda_event_callback_path = getenvOrDefault getenv ''DINGTALK_APP_EVENT_CALLBACK_PATH'' ''/callbacks/dingtalk/events'',
      gda_card_callback_path = getenvOrDefault getenv ''DINGTALK_APP_CARD_CALLBACK_PATH'' ''/callbacks/dingtalk/cards'',
      gda_api_base_url = getenv_trim getenv ''DINGTALK_APP_API_BASE_URL'',
      gda_oapi_base_url = getenv_trim getenv ''DINGTALK_APP_OAPI_BASE_URL'',
      gda_token = getenv_trim getenv ''DINGTALK_APP_TOKEN'', gda_aes_key = getenv_trim getenv ''DINGTALK_APP_AES_KEY'',
      gda_media_dir = getenv_trim getenv ''DINGTALK_APP_MEDIA_DIR'',
      gda_card_template_id = getenv_trim getenv ''DINGTALK_APP_CARD_TEMPLATE_ID'',
      gda_card_callback_route_key = getenv_trim getenv ''DINGTALK_APP_CARD_CALLBACK_ROUTE_KEY''\<rparr>"

definition env_dingtalk_robot :: "environ \<Rightarrow> gw_dingtalk_robot_config" where
  "env_dingtalk_robot getenv =
     \<lparr>gdr_enabled = getenvBool getenv ''DINGTALK_ROBOT_ENABLED'',
      gdr_webhook_url = getenv_trim getenv ''DINGTALK_ROBOT_WEBHOOK_URL'', gdr_secret = getenv_trim getenv ''DINGTALK_ROBOT_SECRET''\<rparr>"

definition env_config :: "environ \<Rightarrow> string \<Rightarrow> gateway_config" where
  "env_config getenv media =
     \<lparr>gc_http_port = getenvOrDefault getenv ''GATEWAY_HTTP_PORT'' '':8081'',
      gc_redis_addr = getenvOrDefault getenv ''GATEWAY_REDIS_ADDR'' ''localhost:16379'',
      gc_ingress_secret = getenv_trim getenv ''GATEWAY_INGRESS_SECRET'', gc_wecom = env_wecom getenv media,
      gc_wecom_robot = \<lparr>gwr_webhook_url = getenv_trim getenv ''WECOM_ROBOT_WEBHOOK_URL''\<rparr>,
      gc_feishu_app = env_feishu_app getenv, gc_feishu_bot = env_feishu_bot getenv,
      gc_dingtalk_app = env_dingtalk_app getenv, gc_dingtalk_robot = env_dingtalk_robot getenv\<rparr>"

section \<open>The flags\<close>

definition gateway_flags :: "gateway_config flag_set" where
  "gateway_flags =
     [(''http-port'', StringVar (\<lambda>x. gc_http_port_update (\<lambda>_. x))),
      (''redis-addr'', StringVar (\<lambda>x. gc_redis_addr_update (\<lambda>_. x))),
      (''ingress-secret'', StringVar (\<lambda>x. gc_ingress_secret_update (\<lambda>_. x)))]"

definition wecom_flags :: "gateway_config flag_set" where
  "wecom_flags =
     [(''wecom-corp-id'', StringVar (\<lambda>x. gc_wecom_update (gw_corp_id_update (\<lambda>_. x)))),
      (''wecom-agent-id'', IntVar (\<lambda>x. gc_wecom_update (gw_agent_id_update (\<lambda>_. x)))),
      (''wecom-corp-secret'', StringVar (\<lambda>x. gc_wecom_update (gw_corp_secret_update (\<lambda>_. x)))),
      (''wecom-token'', StringVar (\<lambda>x. gc_wecom_update (gw_token_update (\<lambda>_. x)))),
      (''wecom-encoding-aes-key'', StringVar (\<lambda>x. gc_wecom_update (gw_encoding_aes_key_update (\<lambda>_. x)))),
      (''wecom-callback-path'', StringVar (\<lambda>x. gc_wecom_update (gw_callback_path_update (\<lambda>_. x)))),
      (''wecom-api-base-url'', StringVar (\<lambda>x. gc_wecom_update (gw_api_base_url_update (\<lambda>_. x)))),
      (''wecom-media-dir'', StringVar (\<lambda>x. gc_wecom_update (gw_media_dir_update (\<lambda>_. x)))),
      (''wecom-media-retention-days'', IntVar (\<lambda>x. gc_wecom_update (gw_media_retention_days_update (\<lambda>_. x))))]"

definition wecom_robot_flags :: "gateway_config flag_set" where
  "wecom_robot_flags =
     [(''wecom-robot-webhook-url'', StringVar (\<lambda>x. gc_wecom_robot_update (gwr_webhook_url_update (\<lambda>_. x))))]"

definition feishu_app_flags :: "gateway_config flag_set" where
  "feishu_app_flags =
     [(''feishu-app-enabled'', BoolVar (\<lambda>x. gc_feishu_app_update (gfa_enabled_update (\<lambda>_. x)))),
      (''feishu-app-id'', StringVar (\<lambda>x. gc_feishu_app_update (gfa_app_id_update (\<lambda>_. x)))),
      (''feishu-app-secret'', StringVar (\<lambda>x. gc_feishu_app_update (gfa_app_secret_update (\<lambda>_. x)))),
      (''feishu-app-verification-token'', StringVar (\<lambda>x. gc_feishu_app_update (gfa_verification_token_update (\<lambda>_. x)))),
      (''feishu-app-encrypt-key'', StringVar (\<lambda>x. gc_feishu_app_update (gfa_encrypt_key_update (\<lambda>_. x)))),
      (''feishu-app-event-callback-path'', StringVar (\<lambda>x. gc_feishu_app_update (gfa_event_callback_path_update (\<lambda>_. x)))),
      (''feishu-app-card-callback-path'', StringVar (\<lambda>x. gc_feishu_app_update (gfa_card_callback_path_update (\<lambda>_. x)))),
      (''feishu-app-api-base-url'', StringVar (\<lambda>x. gc_feishu_app_update (gfa_api_base_url_update (\<lambda>_. x))))]"

definition feishu_bot_flags :: "gateway_config flag_set" where
  "feishu_bot_flags =
     [(''feishu-bot-enabled'', BoolVar (\<lambda>x. gc_feishu_bot_update (gfb_enabled_update (\<lambda>_. x)))),
      (''feishu-bot-webhook-url'', StringVar (\<lambda>x. gc_feishu_bot_update (gfb_webhook_url_update (\<lambda>_. x)))),
      (''feishu-bot-secret'', StringVar (\<lambda>x. gc_feishu_bot_update (gfb_secret_update (\<lambda>_. x))))]"

definition dingtalk_app_flags :: "gateway_config flag_set" where
  "dingtalk_app_flags =
     [(''dingtalk-app-enabled'', BoolVar (\<lambda>x. gc_dingtalk_app_update (gda_enabled_update (\<lambda>_. x)))),
      (''dingtalk-app-client-id'', StringVar (\<lambda>x. gc_dingtalk_app_update (gda_client_id_update (\<lambda>_. x)))),
      (''dingtalk-app-client-secret'', StringVar (\<lambda>x. gc_dingtalk_app_update (gda_client_secret_update (\<lambda>_. x)))),
      (''dingtalk-app-agent-id'', IntVar (\<lambda>x. gc_dingtalk_app_update (gda_agent_id_update (\<lambda>_. x)))),
      (''dingtalk-app-event-callback-path'', StringVar (\<lambda>x. gc_dingtalk_app_update (gda_event_callback_path_update (\<lambda>_. x)))),
      (''dingtalk-app-card-callback-path'', StringVar (\<lambda>x. gc_dingtalk_app_update (gda_card_callback_path_update (\<lambda>_. x)))),
      (''dingtalk-app-api-base-url'', StringVar (\<lambda>x. gc_dingtalk_app_update (gda_api_base_url_update (\<lambda>_. x)))),
      (''dingtalk-app-oapi-base-url'', StringVar (\<lambda>x. gc_dingtalk_app_update (gda_oapi_base_url_update (\<lambda>_. x)))),
      (''dingtalk-app-token'', StringVar (\<lambda>x. gc_dingtalk_app_update (gda_token_update (\<lambda>_. x)))),
      (''dingtalk-app-aes-key'', StringVar (\<lambda>x. gc_dingtalk_app_update (gda_aes_key_update (\<lambda>_. x)))),
      (''dingtalk-app-media-dir'', StringVar (\<lambda>x. gc_dingtalk_app_update (gda_media_dir_update (\<lambda>_. x)))),
      (''dingtalk-app-card-template-id'', StringVar (\<lambda>x. gc_dingtalk_app_update (gda_card_template_id_update (\<lambda>_. x)))),
      (''dingtalk-app-card-callback-route-key'', StringVar (\<lambda>x. gc_dingtalk_app_update (gda_card_callback_route_key_update (\<lambda>_. x))))]"

definition dingtalk_robot_flags :: "gateway_config flag_set" where
  "dingtalk_robot_flags =
     [(''dingtalk-robot-enabled'', BoolVar (\<lambda>x. gc_dingtalk_robot_update (gdr_enabled_update (\<lambda>_. x)))),
      (''dingtalk-robot-webhook-url'', StringVar (\<lambda>x. gc_dingtalk_robot_update (gdr_webhook_url_update (\<lambda>_. x)))),
      (''dingtalk-robot-secret'', StringVar (\<lambda>x. gc_dingtalk_robot_update (gdr_secret_update (\<lambda>_. x))))]"

definition config_flags :: "gateway_config flag_set" where
  "config_flags =
     gateway_flags @ wecom_flags @ wecom_robot_flags @ feishu_app_flags @ feishu_bot_flags @ dingtalk_app_flags @ dingtalk_robot_flags"

section \<open>Validation\<close>

text \<open>A sequence of checks returns the error of the first one that fails.\<close>

definition first_failure :: "(bool \<times> string) list \<Rightarrow> go_error option" where
  "first_failure checks = (case find fst checks of None \<Rightarrow> None | Some (_, msg) \<Rightarrow> Some (errorf msg))"

named_theorems check_iff \<open>when a sequence of checks passes\<close>

lemma first_failure_None [check_iff]: "first_failure checks = None \<longleftrightarrow> list_all (\<lambda>(bad, _). \<not> bad) checks"
  by (induction checks) (auto simp: first_failure_def)

definition WeCom_Enabled :: "gw_wecom_config \<Rightarrow> bool" where
  "WeCom_Enabled c =
     (\<not> blank (gw_corp_id c) \<or> gw_agent_id c > 0 \<or> \<not> blank (gw_corp_secret c) \<or> \<not> blank (gw_token c) \<or>
      \<not> blank (gw_encoding_aes_key c))"

definition WeCom_Validate :: "gw_wecom_config \<Rightarrow> go_error option" where
  "WeCom_Validate c = first_failure
     [(blank (gw_corp_id c), ''wecom corp id is required''),
      (gw_agent_id c \<le> 0, ''wecom agent id must be positive''),
      (blank (gw_corp_secret c), ''wecom corp secret is required''),
      (blank (gw_token c), ''wecom token is required''),
      (blank (gw_encoding_aes_key c), ''wecom encoding aes key is required''),
      (blank (gw_callback_path c), ''wecom callback path is required''),
      (gw_media_retention_days c < 0, ''wecom media retention days must be non-negative'')]"

definition WeComRobot_Enabled :: "gw_wecom_robot_config \<Rightarrow> bool" where
  "WeComRobot_Enabled c = (\<not> blank (gwr_webhook_url c))"

definition FeishuApp_IsEnabled :: "gw_feishu_app_config \<Rightarrow> bool" where
  "FeishuApp_IsEnabled c =
     (gfa_enabled c \<or> \<not> blank (gfa_app_id c) \<or> \<not> blank (gfa_app_secret c) \<or> \<not> blank (gfa_verification_token c) \<or>
      \<not> blank (gfa_encrypt_key c))"

definition FeishuApp_Validate :: "gw_feishu_app_config \<Rightarrow> go_error option" where
  "FeishuApp_Validate c = first_failure
     [(blank (gfa_app_id c), ''feishu app id is required''),
      (blank (gfa_app_secret c), ''feishu app secret is required''),
      (blank (gfa_verification_token c), ''feishu app verification token is required''),
      (blank (gfa_encrypt_key c), ''feishu app encrypt key is required''),
      (blank (gfa_event_callback_path c), ''feishu app event callback path is required''),
      (blank (gfa_card_callback_path c), ''feishu app card callback path is required'')]"

definition FeishuBot_IsEnabled :: "gw_feishu_bot_config \<Rightarrow> bool" where
  "FeishuBot_IsEnabled c = (gfb_enabled c \<or> \<not> blank (gfb_webhook_url c))"

definition FeishuBot_Validate :: "gw_feishu_bot_config \<Rightarrow> go_error option" where
  "FeishuBot_Validate c = first_failure [(blank (gfb_webhook_url c), ''feishu bot webhook url is required'')]"

definition DingTalkApp_IsEnabled :: "gw_dingtalk_app_config \<Rightarrow> bool" where
  "DingTalkApp_IsEnabled c =
     (gda_enabled c \<or> \<not> blank (gda_client_id c) \<or> \<not> blank (gda_client_secret c) \<or> gda_agent_id c > 0 \<or>
      \<not> blank (gda_token c) \<or> \<not> blank (gda_aes_key c))"

definition DingTalkApp_Validate :: "gw_dingtalk_app_config \<Rightarrow> go_error option" where
  "DingTalkApp_Validate c = first_failure
     [(blank (gda_client_id c), ''dingtalk app client id is required''),
      (blank (gda_client_secret c), ''dingtalk app client secret is required''),
      (gda_agent_id c \<le> 0, ''dingtalk app agent id must be positive''),
      (blank (gda_token c), ''dingtalk app token is required''),
      (blank (gda_aes_key c), ''dingtalk app aes key is required''),
      (blank (gda_event_callback_path c), ''dingtalk app event callback path is required''),
      (blank (gda_card_callback_path c), ''dingtalk app card callback path is required'')]"

definition DingTalkRobot_IsEnabled :: "gw_dingtalk_robot_config \<Rightarrow> bool" where
  "DingTalkRobot_IsEnabled c = (gdr_enabled c \<or> \<not> blank (gdr_webhook_url c))"

definition DingTalkRobot_Validate :: "gw_dingtalk_robot_config \<Rightarrow> go_error option" where
  "DingTalkRobot_Validate c = first_failure [(blank (gdr_webhook_url c), ''dingtalk robot webhook url is required'')]"

text \<open>The first error of a list of results.\<close>

fun first_error :: "go_error option list \<Rightarrow> go_error option" where
  "first_error [] = None"
| "first_error (e # es) = (case e of Some x \<Rightarrow> Some x | None \<Rightarrow> first_error es)"

lemma first_error_None [check_iff]: "first_error es = None \<longleftrightarrow> (\<forall>e \<in> set es. e = None)"
  by (induction es) (auto split: option.splits)

definition Config_Validate :: "gateway_config \<Rightarrow> go_error option" where
  "Config_Validate c =
     (let hasApp = WeCom_Enabled (gc_wecom c);
          hasRobot = WeComRobot_Enabled (gc_wecom_robot c);
          hasFeishuApp = FeishuApp_IsEnabled (gc_feishu_app c);
          hasFeishuBot = FeishuBot_IsEnabled (gc_feishu_bot c);
          hasDingTalkApp = DingTalkApp_IsEnabled (gc_dingtalk_app c);
          hasDingTalkRobot = DingTalkRobot_IsEnabled (gc_dingtalk_robot c);
          when = (\<lambda>b e. if b then e else None) in
      first_error
        [first_failure
           [(blank (gc_http_port c), ''gateway http port is required''),
            (blank (gc_redis_addr c), ''gateway redis addr is required''),
            (\<not> hasApp \<and> \<not> hasRobot \<and> \<not> hasFeishuApp \<and> \<not> hasFeishuBot \<and> \<not> hasDingTalkApp \<and> \<not> hasDingTalkRobot,
             ''at least one gateway channel must be configured'')],
         when hasApp (WeCom_Validate (gc_wecom c)),
         when hasFeishuApp (FeishuApp_Validate (gc_feishu_app c)),
         when hasFeishuBot (FeishuBot_Validate (gc_feishu_bot c)),
         when hasDingTalkApp (DingTalkApp_Validate (gc_dingtalk_app c)),
         when hasDingTalkRobot (DingTalkRobot_Validate (gc_dingtalk_robot c))])"

definition ParseConfig :: "(string \<Rightarrow> string) \<Rightarrow> environ \<Rightarrow> string \<Rightarrow> string list \<Rightarrow> gateway_config res" where
  "ParseConfig gq getenv media args =
     (case flag_Parse gq config_flags args (env_config getenv media) of
        Inl err \<Rightarrow> Inl err
      | Inr cfg \<Rightarrow> (case Config_Validate cfg of Some err \<Rightarrow> Inl err | None \<Rightarrow> Inr cfg))"

section \<open>What a parsed configuration guarantees\<close>

text \<open>The credentials an enabled channel needs.\<close>

definition wecom_complete :: "gw_wecom_config \<Rightarrow> bool" where
  "wecom_complete c = (\<not> blank (gw_corp_id c) \<and> 0 < gw_agent_id c \<and> \<not> blank (gw_corp_secret c) \<and> \<not> blank (gw_token c) \<and>
     \<not> blank (gw_encoding_aes_key c) \<and> \<not> blank (gw_callback_path c) \<and> 0 \<le> gw_media_retention_days c)"

definition feishu_complete :: "gw_feishu_app_config \<Rightarrow> bool" where
  "feishu_complete c = (\<not> blank (gfa_app_id c) \<and> \<not> blank (gfa_app_secret c) \<and> \<not> blank (gfa_verification_token c) \<and>
     \<not> blank (gfa_encrypt_key c) \<and> \<not> blank (gfa_event_callback_path c) \<and> \<not> blank (gfa_card_callback_path c))"

definition dingtalk_complete :: "gw_dingtalk_app_config \<Rightarrow> bool" where
  "dingtalk_complete c = (\<not> blank (gda_client_id c) \<and> \<not> blank (gda_client_secret c) \<and> 0 < gda_agent_id c \<and>
     \<not> blank (gda_token c) \<and> \<not> blank (gda_aes_key c) \<and> \<not> blank (gda_event_callback_path c) \<and> \<not> blank (gda_card_callback_path c))"

lemma channel_Validate [check_iff]:
  "WeCom_Validate w = None \<longleftrightarrow> wecom_complete w" "FeishuApp_Validate f = None \<longleftrightarrow> feishu_complete f"
  "DingTalkApp_Validate d = None \<longleftrightarrow> dingtalk_complete d"
  "FeishuBot_Validate b = None \<longleftrightarrow> \<not> blank (gfb_webhook_url b)" "DingTalkRobot_Validate r = None \<longleftrightarrow> \<not> blank (gdr_webhook_url r)"
  by (auto simp: WeCom_Validate_def FeishuApp_Validate_def DingTalkApp_Validate_def FeishuBot_Validate_def DingTalkRobot_Validate_def
      wecom_complete_def feishu_complete_def dingtalk_complete_def check_iff)

lemma ParseConfig_valid: "ParseConfig gq getenv media args = Inr cfg \<Longrightarrow> Config_Validate cfg = None"
  by (auto simp: ParseConfig_def split: sum.splits option.splits)

lemma Config_Validate_iff [check_iff]:
  "Config_Validate c = None \<longleftrightarrow>
     \<not> blank (gc_http_port c) \<and> \<not> blank (gc_redis_addr c) \<and>
     (WeCom_Enabled (gc_wecom c) \<or> WeComRobot_Enabled (gc_wecom_robot c) \<or> FeishuApp_IsEnabled (gc_feishu_app c) \<or>
      FeishuBot_IsEnabled (gc_feishu_bot c) \<or> DingTalkApp_IsEnabled (gc_dingtalk_app c) \<or> DingTalkRobot_IsEnabled (gc_dingtalk_robot c)) \<and>
     (WeCom_Enabled (gc_wecom c) \<longrightarrow> wecom_complete (gc_wecom c)) \<and>
     (FeishuApp_IsEnabled (gc_feishu_app c) \<longrightarrow> feishu_complete (gc_feishu_app c)) \<and>
     (FeishuBot_IsEnabled (gc_feishu_bot c) \<longrightarrow> \<not> blank (gfb_webhook_url (gc_feishu_bot c))) \<and>
     (DingTalkApp_IsEnabled (gc_dingtalk_app c) \<longrightarrow> dingtalk_complete (gc_dingtalk_app c)) \<and>
     (DingTalkRobot_IsEnabled (gc_dingtalk_robot c) \<longrightarrow> \<not> blank (gdr_webhook_url (gc_dingtalk_robot c)))"
proof -
  have w: "(if b then e else None) = None \<longleftrightarrow> (b \<longrightarrow> e = None)" for b and e :: "go_error option" by simp
  show ?thesis unfolding Config_Validate_def Let_def by (simp only: check_iff list.set ball_simps w list.pred_inject prod.case) blast
qed

end
