(* ===== verification/Gateway_Main.thy ===== *)
theory Gateway_Main
  imports Gateway_Config Feishu Wecom_Robot
begin

text \<open>
  \<^verbatim>\<open>cmd/gateway/main.go\<close>: the channels a configuration enables, their adapters in the router and their
  callbacks in the HTTP multiplexer.

  \<^verbatim>\<open>http.ServeMux\<close> panics on an empty pattern and on a pattern that is already registered. Patterns that are
  plain paths (no method, host, wildcard or escape) do not conflict otherwise; for other patterns
  \<open>exotic\<close> says whether the multiplexer accepts them next to the patterns it has. \<open>sdk_err\<close> is the error of the vendor's
  client constructors.
\<close>

section \<open>The multiplexer\<close>

datatype endpoint =
    Healthz
  | Ingress string
  | WecomCallback wecom_adapter
  | FeishuEvents feishu_app_config
  | FeishuCards feishu_app_config
  | DingtalkEvents dingtalk_app_config
  | DingtalkCards dingtalk_app_config

type_synonym serve_mux = "(string \<times> endpoint) list"

definition plain_pattern :: "string \<Rightarrow> bool" where
  "plain_pattern p = (has_prefix p ''/'' \<and> list_all (\<lambda>c. c \<notin> set ''{}% '' \<and> c \<noteq> CHR 0x09) p)"

definition mux_Handle :: "(string list \<Rightarrow> string \<Rightarrow> bool) \<Rightarrow> string \<Rightarrow> endpoint \<Rightarrow> serve_mux \<Rightarrow> serve_mux may_panic" where
  "mux_Handle exotic path h mux =
     (let ps = map fst mux in
      if path = [] \<or> path \<in> set ps then Panicked
      else if list_all plain_pattern (path # ps) \<or> exotic ps path then Returned (mux @ [(path, h)])
      else Panicked)"

fun mount :: "(string list \<Rightarrow> string \<Rightarrow> bool) \<Rightarrow> (string \<times> endpoint) list \<Rightarrow> serve_mux \<Rightarrow> serve_mux may_panic" where
  "mount exotic [] mux = Returned mux"
| "mount exotic ((p, h) # es) mux =
     (case mux_Handle exotic p h mux of Panicked \<Rightarrow> Panicked | Returned mux' \<Rightarrow> mount exotic es mux')"

section \<open>Adapters\<close>

definition feishu_NewAppAdapter :: "feishu_app_config \<Rightarrow> feishu_app_config res" where
  "feishu_NewAppAdapter cfg =
     (let cfg = feishu_app_normalize cfg in
      case feishu_app_Validate cfg of Some err \<Rightarrow> Inl err | None \<Rightarrow> Inr cfg)"

definition dingtalk_NewAppAdapter :: "(dingtalk_app_config \<Rightarrow> go_error option) \<Rightarrow> dingtalk_app_config \<Rightarrow> dingtalk_app_config res" where
  "dingtalk_NewAppAdapter sdk_err cfg =
     (let cfg = dingtalk_app_normalize cfg in
      case dingtalk_app_Validate cfg of
        Some err \<Rightarrow> Inl err
      | None \<Rightarrow> (case sdk_err cfg of Some err \<Rightarrow> Inl err | None \<Rightarrow> Inr cfg))"

text \<open>The configurations handed to the channel packages; fields not set are zero.\<close>

definition wecom_config_of :: "gw_wecom_config \<Rightarrow> wecom_config" where
  "wecom_config_of c =
     \<lparr>wx_corp_id = gw_corp_id c, wx_agent_id = gw_agent_id c, wx_corp_secret = gw_corp_secret c, wx_token = gw_token c,
      wx_encoding_aes_key = gw_encoding_aes_key c, wx_callback_path = gw_callback_path c, wx_api_base_url = gw_api_base_url c,
      wx_http_timeout = 0, wx_media_dir = gw_media_dir c\<rparr>"

definition feishu_config_of :: "gw_feishu_app_config \<Rightarrow> feishu_app_config" where
  "feishu_config_of c =
     \<lparr>fa_app_id = gfa_app_id c, fa_app_secret = gfa_app_secret c, fa_verification_token = gfa_verification_token c,
      fa_encrypt_key = gfa_encrypt_key c, fa_event_callback_path = gfa_event_callback_path c,
      fa_card_callback_path = gfa_card_callback_path c, fa_api_base_url = gfa_api_base_url c, fa_http_timeout = 0\<rparr>"

definition dingtalk_config_of :: "gw_dingtalk_app_config \<Rightarrow> dingtalk_app_config" where
  "dingtalk_config_of c =
     \<lparr>da_client_id = gda_client_id c, da_client_secret = gda_client_secret c, da_agent_id = gda_agent_id c,
      da_event_callback_path = gda_event_callback_path c, da_card_callback_path = gda_card_callback_path c,
      da_api_base_url = gda_api_base_url c, da_oapi_base_url = gda_oapi_base_url c, da_token = gda_token c,
      da_aes_key = gda_aes_key c, da_media_dir = gda_media_dir c, da_card_template_id = gda_card_template_id c,
      da_card_callback_route_key = gda_card_callback_route_key c, da_http_timeout = 0\<rparr>"

section \<open>Building the gateway\<close>

record gateway_env =
  gm_crypto :: crypto
  gm_media :: string
  gm_exotic :: "string list \<Rightarrow> string \<Rightarrow> bool"
  gm_sdk_err :: "dingtalk_app_config \<Rightarrow> go_error option"

type_synonym 'w gateway_state = "serve_mux \<times> 'w router"

text \<open>Sequencing of steps that may panic or fail.\<close>

definition and_then :: "'a res may_panic \<Rightarrow> ('a \<Rightarrow> 'b res may_panic) \<Rightarrow> 'b res may_panic" where
  "and_then x f =
     (case x of Panicked \<Rightarrow> Panicked | Returned (Inl e) \<Rightarrow> Returned (Inl e) | Returned (Inr a) \<Rightarrow> f a)"

definition install :: "gateway_env \<Rightarrow> string \<Rightarrow> (string \<times> endpoint) list \<Rightarrow> 'w gateway_state \<Rightarrow> 'w gateway_state res may_panic" where
  "install g name eps st =
     (case mount (gm_exotic g) eps (fst st) of
        Panicked \<Rightarrow> Panicked
      | Returned mux \<Rightarrow> Returned (Inr (mux, RegisterAdapter name True (snd st))))"

definition add_wecom :: "gateway_env \<Rightarrow> gw_wecom_config \<Rightarrow> 'w gateway_state \<Rightarrow> 'w gateway_state res may_panic" where
  "add_wecom g c st =
     (if WeCom_Enabled c then
        (case wecom_NewAdapter (gm_crypto g) (gm_media g) (wecom_config_of c) of
           Inl err \<Rightarrow> Returned (Inl err)
         | Inr a \<Rightarrow> install g ''wecom'' [(gw_callback_path c, WecomCallback a)] st)
      else Returned (Inr st))"

definition add_feishu_app :: "gateway_env \<Rightarrow> gw_feishu_app_config \<Rightarrow> 'w gateway_state \<Rightarrow> 'w gateway_state res may_panic" where
  "add_feishu_app g c st =
     (if FeishuApp_IsEnabled c then
        (case feishu_NewAppAdapter (feishu_config_of c) of
           Inl err \<Rightarrow> Returned (Inl err)
         | Inr a \<Rightarrow> install g ''feishu_app''
             [(gfa_event_callback_path c, FeishuEvents a), (gfa_card_callback_path c, FeishuCards a)] st)
      else Returned (Inr st))"

definition add_dingtalk_app :: "gateway_env \<Rightarrow> gw_dingtalk_app_config \<Rightarrow> 'w gateway_state \<Rightarrow> 'w gateway_state res may_panic" where
  "add_dingtalk_app g c st =
     (if DingTalkApp_IsEnabled c then
        (case dingtalk_NewAppAdapter (gm_sdk_err g) (dingtalk_config_of c) of
           Inl err \<Rightarrow> Returned (Inl err)
         | Inr a \<Rightarrow> install g ''dingtalk_app''
             [(gda_event_callback_path c, DingtalkEvents a), (gda_card_callback_path c, DingtalkCards a)] st)
      else Returned (Inr st))"

definition add_robot :: "gateway_env \<Rightarrow> bool \<Rightarrow> string \<Rightarrow> 'w gateway_state \<Rightarrow> 'w gateway_state res may_panic" where
  "add_robot g enabled name st = (if enabled then install g name [] st else Returned (Inr st))"

definition buildGatewayMux :: "gateway_env \<Rightarrow> gateway_config \<Rightarrow> 'w router \<Rightarrow> 'w gateway_state res may_panic" where
  "buildGatewayMux g cfg r =
     (case mount (gm_exotic g) [(''/healthz'', Healthz), (''/v1/channels/incoming'', Ingress (gc_ingress_secret cfg))] [] of
        Panicked \<Rightarrow> Panicked
      | Returned mux \<Rightarrow>
          and_then (and_then (and_then (and_then (and_then (add_wecom g (gc_wecom cfg) (mux, r))
            (add_robot g (WeComRobot_Enabled (gc_wecom_robot cfg)) ''wecom_robot''))
            (add_feishu_app g (gc_feishu_app cfg)))
            (add_robot g (FeishuBot_IsEnabled (gc_feishu_bot cfg)) ''feishu_bot''))
            (add_dingtalk_app g (gc_dingtalk_app cfg)))
            (add_robot g (DingTalkRobot_IsEnabled (gc_dingtalk_robot cfg)) ''dingtalk_robot''))"

text \<open>
  \<^verbatim>\<open>run\<close>: the errors of the Redis ping, of the listener and of the server (other than \<^verbatim>\<open>ErrServerClosed\<close>) are arguments; the result says for how
  many nanoseconds media files are kept, if the clean-up was started.
\<close>

definition gateway_run :: "gateway_env \<Rightarrow> gateway_config res \<Rightarrow> go_error option \<Rightarrow> go_error option \<Rightarrow> go_error option \<Rightarrow> 'w \<Rightarrow>
    (int option \<times> go_error option) may_panic" where
  "gateway_run g pcfg ping listen serve w =
     (case pcfg of
        Inl err \<Rightarrow> Returned (None, Some err)
      | Inr cfg \<Rightarrow>
          if gc_redis_addr cfg = ''skip'' then Returned (None, Some (errorf ''gateway requires redis transport in runtime''))
          else case ping of
            Some e \<Rightarrow> Returned (None, Some (GoError (''redis connection failed: '' @ err_msg e) (err_chain e)))
          | None \<Rightarrow>
              (case buildGatewayMux g cfg (NewSessionRouter w) of
                 Panicked \<Rightarrow> Panicked
               | Returned (Inl err) \<Rightarrow> Returned (None, Some err)
               | Returned (Inr _) \<Rightarrow>
                   let days = gw_media_retention_days (gc_wecom cfg);
                       kept = (if WeCom_Enabled (gc_wecom cfg) \<and> 0 < days then Some (wrap64 (days * 86400000000000)) else None) in
                   (case listen of Some err \<Rightarrow> Returned (kept, Some err) | None \<Rightarrow> Returned (kept, serve))))"

section \<open>What a gateway mounts\<close>

lemma mux_Handle_distinct:
  "mux_Handle exotic p h mux = Returned mux' \<Longrightarrow> distinct (map fst mux) \<Longrightarrow> distinct (map fst mux')"
  by (auto simp: mux_Handle_def Let_def split: if_splits)

lemma mount_Returned:
  "mount exotic es mux = Returned mux' \<Longrightarrow> mux' = mux @ es \<and> (distinct (map fst mux) \<longrightarrow> distinct (map fst mux'))"
proof (induction exotic es mux rule: mount.induct)
  case (2 exotic p h es mux)
  then show ?case
    by (auto simp: mux_Handle_def Let_def split: may_panic.splits if_splits)
qed simp

lemma install_Returned:
  assumes "install g name es st = Returned (Inr st')"
  shows "fst st' = fst st @ es" "distinct (map fst (fst st)) \<longrightarrow> distinct (map fst (fst st'))"
    "snd st' = RegisterAdapter name True (snd st)"
  using assms by (auto simp: install_def split: may_panic.splits dest: mount_Returned)

lemma and_then_Returned: "and_then x f = Returned (Inr b) \<longleftrightarrow> (\<exists>a. x = Returned (Inr a) \<and> f a = Returned (Inr b))"
  by (auto simp: and_then_def split: may_panic.splits sum.splits)

text \<open>The endpoints and adapters of a configuration.\<close>

definition wecom_endpoints :: "gateway_env \<Rightarrow> gw_wecom_config \<Rightarrow> (string \<times> endpoint) list" where
  "wecom_endpoints g c =
     (if WeCom_Enabled c
      then (case wecom_NewAdapter (gm_crypto g) (gm_media g) (wecom_config_of c) of
              Inr a \<Rightarrow> [(gw_callback_path c, WecomCallback a)] | Inl _ \<Rightarrow> []) else [])"

definition feishu_endpoints :: "gw_feishu_app_config \<Rightarrow> (string \<times> endpoint) list" where
  "feishu_endpoints c =
     (if FeishuApp_IsEnabled c
      then (let a = feishu_app_normalize (feishu_config_of c) in
            [(gfa_event_callback_path c, FeishuEvents a), (gfa_card_callback_path c, FeishuCards a)]) else [])"

definition dingtalk_endpoints :: "gw_dingtalk_app_config \<Rightarrow> (string \<times> endpoint) list" where
  "dingtalk_endpoints c =
     (if DingTalkApp_IsEnabled c
      then (let a = dingtalk_app_normalize (dingtalk_config_of c) in
            [(gda_event_callback_path c, DingtalkEvents a), (gda_card_callback_path c, DingtalkCards a)]) else [])"

definition config_endpoints :: "gateway_env \<Rightarrow> gateway_config \<Rightarrow> (string \<times> endpoint) list" where
  "config_endpoints g c =
     [(''/healthz'', Healthz), (''/v1/channels/incoming'', Ingress (gc_ingress_secret c))] @ wecom_endpoints g (gc_wecom c) @
     feishu_endpoints (gc_feishu_app c) @ dingtalk_endpoints (gc_dingtalk_app c)"

definition config_adapters :: "gateway_config \<Rightarrow> string list" where
  "config_adapters c = concat (map (\<lambda>(on, name). if on then [name] else [])
     [(WeCom_Enabled (gc_wecom c), ''wecom''), (WeComRobot_Enabled (gc_wecom_robot c), ''wecom_robot''),
      (FeishuApp_IsEnabled (gc_feishu_app c), ''feishu_app''), (FeishuBot_IsEnabled (gc_feishu_bot c), ''feishu_bot''),
      (DingTalkApp_IsEnabled (gc_dingtalk_app c), ''dingtalk_app''), (DingTalkRobot_IsEnabled (gc_dingtalk_robot c), ''dingtalk_robot'')])"

text \<open>A step that appends endpoints, registers adapters, and keeps the patterns distinct.\<close>

definition grows :: "(string \<times> endpoint) list \<Rightarrow> string list \<Rightarrow> 'w gateway_state \<Rightarrow> 'w gateway_state \<Rightarrow> bool" where
  "grows es names st st' =
     (fst st' = fst st @ es \<and> (distinct (map fst (fst st)) \<longrightarrow> distinct (map fst (fst st'))) \<and>
      snd st' = fold (\<lambda>n. RegisterAdapter n True) names (snd st))"

lemma grows_trans: "grows es ns st st1 \<Longrightarrow> grows es' ns' st1 st2 \<Longrightarrow> grows (es @ es') (ns @ ns') st st2"
  unfolding grows_def by (metis append.assoc fold_append comp_apply)

lemma grows_install:
  assumes "install g name es st = Returned (Inr st')"
  shows "grows es [name] st st'"
  using install_Returned [OF assms] by (simp add: grows_def)

lemma grows_refl: "grows [] [] st st"
  by (simp add: grows_def)

lemma grows_steps:
  "add_wecom g w st = Returned (Inr st') \<Longrightarrow> grows (wecom_endpoints g w) (if WeCom_Enabled w then [''wecom''] else []) st st'"
  "add_feishu_app g f st = Returned (Inr st') \<Longrightarrow> grows (feishu_endpoints f) (if FeishuApp_IsEnabled f then [''feishu_app''] else []) st st'"
  "add_dingtalk_app g d st = Returned (Inr st') \<Longrightarrow> grows (dingtalk_endpoints d) (if DingTalkApp_IsEnabled d then [''dingtalk_app''] else []) st st'"
  "add_robot g b n st = Returned (Inr st') \<Longrightarrow> grows [] (if b then [n] else []) st st'"
  by (auto simp: add_wecom_def wecom_endpoints_def add_feishu_app_def feishu_endpoints_def feishu_NewAppAdapter_def add_dingtalk_app_def
      dingtalk_endpoints_def dingtalk_NewAppAdapter_def add_robot_def Let_def
      split: if_splits sum.splits option.splits intro: grows_install grows_refl)

lemma buildGatewayMux_grows:
  assumes "buildGatewayMux g cfg r = Returned (Inr st)"
  shows "fst st = config_endpoints g cfg \<and> distinct (map fst (fst st)) \<and>
    snd st = fold (\<lambda>n. RegisterAdapter n True) (config_adapters cfg) r"
proof -
  obtain mux where m: "mount (gm_exotic g) [(''/healthz'', Healthz), (''/v1/channels/incoming'', Ingress (gc_ingress_secret cfg))] [] = Returned mux"
    using assms by (auto simp: buildGatewayMux_def split: may_panic.splits)
  have base: "mux = [(''/healthz'', Healthz), (''/v1/channels/incoming'', Ingress (gc_ingress_secret cfg))]"
    using mount_Returned [OF m] by simp
  from assms m obtain s1 s2 s3 s4 s5 where s:
    "add_wecom g (gc_wecom cfg) (mux, r) = Returned (Inr s1)"
    "add_robot g (WeComRobot_Enabled (gc_wecom_robot cfg)) ''wecom_robot'' s1 = Returned (Inr s2)"
    "add_feishu_app g (gc_feishu_app cfg) s2 = Returned (Inr s3)"
    "add_robot g (FeishuBot_IsEnabled (gc_feishu_bot cfg)) ''feishu_bot'' s3 = Returned (Inr s4)"
    "add_dingtalk_app g (gc_dingtalk_app cfg) s4 = Returned (Inr s5)"
    "add_robot g (DingTalkRobot_IsEnabled (gc_dingtalk_robot cfg)) ''dingtalk_robot'' s5 = Returned (Inr st)"
    by (auto simp: buildGatewayMux_def and_then_Returned)
  note g = grows_trans [OF grows_trans [OF grows_trans [OF grows_trans [OF grows_trans [OF grows_steps(1) [OF s(1)] grows_steps(4) [OF s(2)]]
    grows_steps(2) [OF s(3)]] grows_steps(4) [OF s(4)]] grows_steps(3) [OF s(5)]] grows_steps(4) [OF s(6)]]
  have d: "distinct (map fst (fst (mux, r)))" by (simp add: base)
  from g have "fst st = config_endpoints g cfg" "snd st = fold (\<lambda>n. RegisterAdapter n True) (config_adapters cfg) r"
    unfolding grows_def by (simp_all add: base config_endpoints_def config_adapters_def)
  moreover from g d have "distinct (map fst (fst st))" unfolding grows_def by blast
  ultimately show ?thesis by blast
qed

lemma feishu_endpoint_config:
  assumes "(p, FeishuEvents c) \<in> set (config_endpoints g cfg) \<or> (p, FeishuCards c) \<in> set (config_endpoints g cfg)"
  shows "FeishuApp_IsEnabled (gc_feishu_app cfg) \<and> c = feishu_app_normalize (feishu_config_of (gc_feishu_app cfg))"
proof -
  have "(p, FeishuEvents c) \<notin> set (wecom_endpoints g w)" "(p, FeishuCards c) \<notin> set (wecom_endpoints g w)" for w
    unfolding wecom_endpoints_def by (cases "WeCom_Enabled w"; simp)+
  with assms show ?thesis
    by (auto simp: config_endpoints_def feishu_endpoints_def dingtalk_endpoints_def Let_def split: if_splits)
qed

section \<open>Properties\<close>


text \<open>
  Validation does not compare callback paths: a valid configuration whose two Feishu callbacks share a path
  makes the gateway panic at start-up, whatever the multiplexer does with exotic patterns.
\<close>

theorem equal_callback_paths_panic:
  assumes "FeishuApp_IsEnabled (gc_feishu_app cfg)" "Config_Validate cfg = None" "\<not> WeCom_Enabled (gc_wecom cfg)"
    and "gfa_event_callback_path (gc_feishu_app cfg) = gfa_card_callback_path (gc_feishu_app cfg)"
  shows "buildGatewayMux g cfg r = Panicked"
proof -
  let ?c = "gc_feishu_app cfg"
  have "feishu_complete ?c" using assms(1,2) by (simp add: Config_Validate_iff)
  then have a: "feishu_NewAppAdapter (feishu_config_of ?c) = Inr (feishu_app_normalize (feishu_config_of ?c))"
    by (simp add: feishu_NewAppAdapter_def feishu_app_Validate_def feishu_app_normalize_def feishu_config_of_def feishu_complete_def)
  have "mount exotic [(p, x), (p, y)] mux = Panicked" for exotic p x y mux
    by (simp add: mux_Handle_def Let_def)
  then have "add_feishu_app g ?c st = Panicked" for st :: "'a gateway_state"
    using assms(1,4) a by (simp add: add_feishu_app_def install_def)
  moreover have "and_then (Returned (Inr st)) f = f st" "and_then Panicked f = Panicked" for st :: "'a gateway_state" and f :: "'a gateway_state \<Rightarrow> 'a gateway_state res may_panic"
    by (simp_all add: and_then_def)
  moreover have "\<exists>st'. add_robot g b n st = Returned (Inr st')" for b n and st :: "'a gateway_state"
    by (simp add: add_robot_def install_def)
  ultimately show ?thesis
    using assms(3) by (auto simp: buildGatewayMux_def add_wecom_def split: may_panic.splits) metis+
qed

section \<open>A sample configuration\<close>

definition demo_getenv :: environ where
  "demo_getenv key =
     (case map_of [(''FEISHU_APP_ID'', ''cli_a''), (''FEISHU_APP_SECRET'', '' b ''), (''FEISHU_APP_VERIFICATION_TOKEN'', ''v''),
        (''FEISHU_APP_ENCRYPT_KEY'', ''k''), (''WECOM_AGENT_ID'', ''x7'')] key of None \<Rightarrow> [] | Some v \<Rightarrow> v)"

definition demo_feishu :: gw_feishu_app_config where
  "demo_feishu = \<lparr>gfa_enabled = False, gfa_app_id = ''cli_a'', gfa_app_secret = ''b'', gfa_verification_token = ''v'', gfa_encrypt_key = ''k'',
     gfa_event_callback_path = ''/callbacks/feishu/events'', gfa_card_callback_path = ''/cards'', gfa_api_base_url = []\<rparr>"

definition demo_config :: gateway_config where
  "demo_config =
     \<lparr>gc_http_port = '':8081'', gc_redis_addr = ''localhost:16379'', gc_ingress_secret = [],
      gc_wecom = \<lparr>gw_corp_id = [], gw_agent_id = 0, gw_corp_secret = [], gw_token = [], gw_encoding_aes_key = [],
        gw_callback_path = ''/callbacks/wecom'', gw_api_base_url = [], gw_media_dir = ''/tmp'', gw_media_retention_days = 0\<rparr>,
      gc_wecom_robot = \<lparr>gwr_webhook_url = []\<rparr>, gc_feishu_app = demo_feishu,
      gc_feishu_bot = \<lparr>gfb_enabled = False, gfb_webhook_url = [], gfb_secret = []\<rparr>,
      gc_dingtalk_app = \<lparr>gda_enabled = False, gda_client_id = [], gda_client_secret = [], gda_agent_id = 0,
        gda_event_callback_path = ''/callbacks/dingtalk/events'', gda_card_callback_path = ''/callbacks/dingtalk/cards'',
        gda_api_base_url = [], gda_oapi_base_url = [], gda_token = [], gda_aes_key = [], gda_media_dir = [],
        gda_card_template_id = [], gda_card_callback_route_key = []\<rparr>,
      gc_dingtalk_robot = \<lparr>gdr_enabled = False, gdr_webhook_url = [], gdr_secret = []\<rparr>\<rparr>"

lemma demo_ParseConfig: "ParseConfig (\<lambda>x. x) demo_getenv ''/tmp'' [''-feishu-app-card-callback-path=/cards''] = Inr demo_config"
  by code_simp

definition demo_gateway :: gateway_env where
  "demo_gateway = \<lparr>gm_crypto = rev_crypto, gm_media = ''/tmp'', gm_exotic = (\<lambda>_ _. False), gm_sdk_err = (\<lambda>_. None)\<rparr>"

lemma demo_enabled:
  "\<not> WeCom_Enabled (gc_wecom demo_config)" "\<not> WeComRobot_Enabled (gc_wecom_robot demo_config)" "FeishuApp_IsEnabled demo_feishu"
  "\<not> FeishuBot_IsEnabled (gc_feishu_bot demo_config)" "\<not> DingTalkApp_IsEnabled (gc_dingtalk_app demo_config)"
  "\<not> DingTalkRobot_IsEnabled (gc_dingtalk_robot demo_config)" "gc_feishu_app demo_config = demo_feishu"
  "feishu_app_Validate (feishu_app_normalize (feishu_config_of demo_feishu)) = None"
  by code_simp+

lemma demo_mux: "buildGatewayMux demo_gateway demo_config (NewSessionRouter ()) =
    Returned (Inr (config_endpoints demo_gateway demo_config, RegisterAdapter ''feishu_app'' True (NewSessionRouter ())))"
  by (simp add: buildGatewayMux_def add_wecom_def add_robot_def add_feishu_app_def add_dingtalk_app_def demo_enabled feishu_NewAppAdapter_def
      install_def mux_Handle_def plain_pattern_def has_prefix_def and_then_def config_endpoints_def wecom_endpoints_def feishu_endpoints_def
      dingtalk_endpoints_def Let_def) (simp add: demo_feishu_def)


theorem equal_callback_paths_panic_witness:
  "Config_Validate (demo_config\<lparr>gc_feishu_app := demo_feishu\<lparr>gfa_card_callback_path := ''/callbacks/feishu/events''\<rparr>\<rparr>) = None \<and>
   buildGatewayMux demo_gateway (demo_config\<lparr>gc_feishu_app := demo_feishu\<lparr>gfa_card_callback_path := ''/callbacks/feishu/events''\<rparr>\<rparr>)
     (NewSessionRouter ()) = Panicked"
proof -
  let ?c = "demo_config\<lparr>gc_feishu_app := demo_feishu\<lparr>gfa_card_callback_path := ''/callbacks/feishu/events''\<rparr>\<rparr>"
  have "FeishuApp_IsEnabled (gc_feishu_app ?c)" "Config_Validate ?c = None" "\<not> WeCom_Enabled (gc_wecom ?c)"
    "gfa_event_callback_path (gc_feishu_app ?c) = gfa_card_callback_path (gc_feishu_app ?c)"
    by code_simp+
  from this(2) equal_callback_paths_panic [OF this] show ?thesis by blast
qed

end
