(* ===== verification/Wecom_Sim.thy ===== *)
theory Wecom_Sim
  imports Wecom Go_Flag
begin

text \<open>
  \<^verbatim>\<open>cmd/wecom-callback-sim/main.go\<close>: the tool that posts an encrypted, signed callback to a gateway; with it, what
  \<^verbatim>\<open>net/url\<close> does with a query string, so that the request can be followed to the callback handler.
\<close>

section \<open>Query strings on the receiving side\<close>

fun query_unescape :: "string \<Rightarrow> string option" where
  "query_unescape [] = Some []"
| "query_unescape (c # s) =
     (if c = CHR ''%'' then
        (case s of
           a # b # t \<Rightarrow>
             (case (hex_val a, hex_val b, query_unescape t) of
                (Some x, Some y, Some r) \<Rightarrow> Some (char_of (16 * x + y) # r)
              | _ \<Rightarrow> None)
         | _ \<Rightarrow> None)
      else map_option ((#) (if c = CHR ''+'' then CHR '' '' else c)) (query_unescape s))"

text \<open>\<^verbatim>\<open>URL.Query\<close>: pairs that are malformed are dropped.\<close>

definition query_pair :: "string \<Rightarrow> (string \<times> string) option" where
  "query_pair part =
     (let k = takeWhile (\<lambda>c. c \<noteq> CHR ''='') part; v = drop (Suc (length k)) part in
      if part = [] \<or> CHR '';'' \<in> set part then None
      else case (query_unescape k, query_unescape v) of (Some x, Some y) \<Rightarrow> Some (x, y) | _ \<Rightarrow> None)"

definition parse_query :: "string \<Rightarrow> (string \<times> string) list" where
  "parse_query q = List.map_filter query_pair (split_on (CHR ''&'') q)"

definition values_get :: "string \<Rightarrow> (string \<times> string) list \<Rightarrow> string" where
  "values_get k vs = (case map_of vs k of None \<Rightarrow> [] | Some v \<Rightarrow> v)"

section \<open>The tool\<close>

record sim_config =
  si_endpoint :: string
  si_corp_id :: string
  si_agent_id :: int
  si_token :: string
  si_encoding_aes_key :: string
  si_timestamp :: string
  si_nonce :: string
  si_inner_xml :: string

text \<open>The flags fill the configuration and the path of the XML file.\<close>

definition sim_flags :: "(sim_config \<times> string) flag_set" where
  "sim_flags =
     [(''endpoint'', StringVar (\<lambda>x. apfst (si_endpoint_update (\<lambda>_. x)))),
      (''corp-id'', StringVar (\<lambda>x. apfst (si_corp_id_update (\<lambda>_. x)))),
      (''agent-id'', IntVar (\<lambda>x. apfst (si_agent_id_update (\<lambda>_. x)))),
      (''token'', StringVar (\<lambda>x. apfst (si_token_update (\<lambda>_. x)))),
      (''encoding-aes-key'', StringVar (\<lambda>x. apfst (si_encoding_aes_key_update (\<lambda>_. x)))),
      (''timestamp'', StringVar (\<lambda>x. apfst (si_timestamp_update (\<lambda>_. x)))),
      (''nonce'', StringVar (\<lambda>x. apfst (si_nonce_update (\<lambda>_. x)))),
      (''inner-xml'', StringVar (\<lambda>x. apsnd (\<lambda>_. x)))]"

definition sim_defaults :: sim_config where
  "sim_defaults = \<lparr>si_endpoint = ''http://127.0.0.1:8081/callbacks/wecom'', si_corp_id = [], si_agent_id = 0, si_token = [],
     si_encoding_aes_key = [], si_timestamp = [], si_nonce = [], si_inner_xml = []\<rparr>"

definition parseArgs :: "(string \<Rightarrow> string) \<Rightarrow> (string \<Rightarrow> string res) \<Rightarrow> int \<Rightarrow> string list \<Rightarrow> sim_config res" where
  "parseArgs gq read_file now args =
     (case flag_Parse gq sim_flags args (sim_defaults, []) of
        Inl err \<Rightarrow> Inl err
      | Inr (cfg, innerXMLPath) \<Rightarrow>
          if innerXMLPath = [] then Inl (errorf ''inner-xml is required'')
          else case read_file innerXMLPath of
            Inl err \<Rightarrow> Inl err
          | Inr raw \<Rightarrow>
              let cfg = cfg\<lparr>si_inner_xml := raw\<rparr>;
                  cfg = (if si_timestamp cfg = [] then cfg\<lparr>si_timestamp := format_int now\<rparr> else cfg) in
              Inr (if si_nonce cfg = [] then cfg\<lparr>si_nonce := ''nonce-'' @ si_timestamp cfg\<rparr> else cfg))"

definition sim_codec_config :: "sim_config \<Rightarrow> wecom_config" where
  "sim_codec_config cfg =
     \<lparr>wx_corp_id = si_corp_id cfg, wx_agent_id = 0, wx_corp_secret = [], wx_token = si_token cfg,
      wx_encoding_aes_key = si_encoding_aes_key cfg, wx_callback_path = [], wx_api_base_url = [], wx_http_timeout = 0,
      wx_media_dir = []\<rparr>"

definition cdata :: "string \<Rightarrow> string \<Rightarrow> string" where
  "cdata tag x = ''<'' @ tag @ ''><![CDATA['' @ x @ '']]></'' @ tag @ ''>''"

definition sim_body :: "sim_config \<Rightarrow> string \<Rightarrow> string" where
  "sim_body cfg encrypted =
     ''<xml>'' @ cdata ''ToUserName'' (si_corp_id cfg) @ cdata ''AgentID'' (format_int (si_agent_id cfg)) @
     cdata ''Encrypt'' encrypted @ ''</xml>''"

definition sim_query :: "crypto \<Rightarrow> codec \<Rightarrow> sim_config \<Rightarrow> string \<Rightarrow> (string \<times> string) list \<Rightarrow> (string \<times> string) list" where
  "sim_query cy c cfg encrypted query =
     values_set ''nonce'' (si_nonce cfg) (values_set ''timestamp'' (si_timestamp cfg)
       (values_set ''msg_signature'' (Signature cy c (si_timestamp cfg) (si_nonce cfg) encrypted) query))"

definition sim_check :: "sim_config \<Rightarrow> go_error option" where
  "sim_check cfg =
     (if blank (si_endpoint cfg) then Some (errorf ''endpoint is required'')
      else if blank (si_corp_id cfg) then Some (errorf ''corp id is required'')
      else if si_agent_id cfg \<le> 0 then Some (errorf ''agent id must be positive'')
      else if blank (si_token cfg) then Some (errorf ''token is required'')
      else if blank (si_encoding_aes_key cfg) then Some (errorf ''encoding aes key is required'')
      else if blank (si_inner_xml cfg) then Some (errorf ''inner xml is required'')
      else None)"

text \<open>The result is the front of the URL, the encoded query and the fragment, and the body.\<close>

definition buildCallbackRequest :: "crypto \<Rightarrow> string res \<Rightarrow> url_parser \<Rightarrow> sim_config \<Rightarrow> ((string \<times> string \<times> string) \<times> string) res" where
  "buildCallbackRequest cy rand url_Parse cfg =
     (case sim_check cfg of
        Some err \<Rightarrow> Inl err
      | None \<Rightarrow>
          (case NewCodec cy (sim_codec_config cfg) of
             Inl err \<Rightarrow> Inl err
           | Inr codec \<Rightarrow>
               (case Encrypt cy rand codec (si_inner_xml cfg) of
                  Inl err \<Rightarrow> Inl err
                | Inr encrypted \<Rightarrow>
                    (case url_Parse (si_endpoint cfg) of
                       Inl err \<Rightarrow> Inl err
                     | Inr (front, query, frag) \<Rightarrow>
                         Inr ((front, values_encode (sim_query cy codec cfg encrypted query), frag), sim_body cfg encrypted)))))"

text \<open>\<^verbatim>\<open>run\<close>: \<open>post\<close> sends the request and yields the status and the body of the answer, \<open>out\<close> is the error of writing to the output.\<close>

definition sim_run :: "sim_config res \<Rightarrow> crypto \<Rightarrow> string res \<Rightarrow> url_parser \<Rightarrow>
    (string \<Rightarrow> string \<Rightarrow> 'w \<Rightarrow> (int \<times> string res) res \<times> 'w) \<Rightarrow> (string \<Rightarrow> 'w \<Rightarrow> go_error option \<times> 'w) \<Rightarrow> 'w \<Rightarrow> go_error option \<times> 'w" where
  "sim_run args cy rand url_Parse post out w =
     (case args of
        Inl err \<Rightarrow> (Some err, w)
      | Inr cfg \<Rightarrow>
          (case buildCallbackRequest cy rand url_Parse cfg of
             Inl err \<Rightarrow> (Some err, w)
           | Inr ((front, query, frag), body) \<Rightarrow>
               (case post (front @ ''?'' @ query @ frag) body w of
                  (Inl err, w) \<Rightarrow> (Some err, w)
                | (Inr (status, Inl err), w) \<Rightarrow> (Some err, w)
                | (Inr (status, Inr respBody), w) \<Rightarrow>
                    if 300 \<le> status
                    then (Some (errorf (''callback request failed: status='' @ format_int status @ '' body='' @ trim_space respBody)), w)
                    else if respBody \<noteq> [] then out respBody w
                    else (None, w))))"

section \<open>Query strings are read back\<close>

lemma hex_val_upper: "n < 16 \<Longrightarrow> hex_val (hex_upper n) = Some n"
  by (auto simp: hex_val_def hex_upper_def Let_def)

lemma hex_digits_byte: "char_of (16 * (of_char c div 16) + of_char c mod 16 :: nat) = c"
  by (simp only: mult_div_mod_eq) simp

lemma query_unescape_escape: "query_unescape (query_escape s) = Some s"
proof (induction s)
  case (Cons c s)
  have e: "query_escape (c # s) = (if c = CHR '' '' then ''+'' else if is_unreserved c then [c]
      else [CHR ''%'', hex_upper (of_char c div 16), hex_upper (of_char c mod 16)]) @ query_escape s"
    by (simp add: query_escape_def)
  have n: "of_char c div 16 < (16::nat)" "of_char c mod 16 < (16::nat)" using byte_bounds [of c] by simp_all
  have "is_unreserved c \<Longrightarrow> c \<noteq> CHR ''%'' \<and> c \<noteq> CHR ''+''" by (auto simp: is_unreserved_def)
  then show ?case unfolding e using Cons
    by (cases "c = CHR '' ''"; cases "is_unreserved c") (simp_all add: hex_val_upper n hex_digits_byte)
qed (simp add: query_escape_def)

lemma query_escape_chars: "set (query_escape s) \<inter> {CHR ''&'', CHR ''='', CHR '';''} = {}"
proof (induction s)
  case (Cons c s)
  have h: "hex_upper n \<noteq> CHR ''&'' \<and> hex_upper n \<noteq> CHR ''='' \<and> hex_upper n \<noteq> CHR '';''" if "n < 16" for n
  proof -
    have "(of_char (hex_upper n) :: nat) = (if n < 10 then 48 + n else 55 + n)" using that by (simp add: hex_upper_def)
    then show ?thesis using that by (auto split: if_splits)
  qed
  have n: "of_char c div 16 < (16::nat)" "of_char c mod 16 < (16::nat)" using byte_bounds [of c] by simp_all
  have u: "is_unreserved c \<Longrightarrow> c \<noteq> CHR ''&'' \<and> c \<noteq> CHR ''='' \<and> c \<noteq> CHR '';''" by (auto simp: is_unreserved_def)
  have e: "query_escape (c # s) = (if c = CHR '' '' then ''+'' else if is_unreserved c then [c]
      else [CHR ''%'', hex_upper (of_char c div 16), hex_upper (of_char c mod 16)]) @ query_escape s"
    by (simp add: query_escape_def)
  show ?case unfolding e using Cons u h [OF n(1)] h [OF n(2)]
    by (cases "c = CHR '' ''"; cases "is_unreserved c") auto
qed (simp add: query_escape_def)

definition pair_text :: "string \<times> string \<Rightarrow> string" where
  "pair_text kv = query_escape (fst kv) @ ''='' @ query_escape (snd kv)"

lemma query_pair_text: "query_pair (pair_text kv) = Some kv"
proof -
  let ?k = "query_escape (fst kv)" and ?v = "query_escape (snd kv)"
  have k: "\<forall>c \<in> set ?k. c \<noteq> CHR ''=''" and s: "CHR '';'' \<notin> set (pair_text kv)"
    using query_escape_chars [of "fst kv"] query_escape_chars [of "snd kv"] by (auto simp: pair_text_def)
  have "takeWhile (\<lambda>c. c \<noteq> CHR ''='') (pair_text kv) = ?k" "drop (Suc (length ?k)) (pair_text kv) = ?v"
    using k by (simp_all add: pair_text_def takeWhile_append2)
  then show ?thesis
    using s by (simp add: query_pair_def Let_def query_unescape_escape) (simp add: pair_text_def)
qed

lemma split_on_part: "c \<notin> set x \<Longrightarrow> split_on c (x @ c # y) = x # split_on c y"
  by (induction x) auto

lemma split_on_whole: "c \<notin> set x \<Longrightarrow> split_on c x = [x]"
  by (induction x) auto

lemma split_on_join: "\<forall>x \<in> set xs. c \<notin> set x \<Longrightarrow> xs \<noteq> [] \<Longrightarrow> split_on c (join [c] xs) = xs"
proof (induction xs rule: induct_list012)
  case (3 x y zs)
  then show ?case by (simp add: split_on_part)
qed (simp_all add: split_on_whole)

lemma parse_query_encode: "parse_query (values_encode vs) = sort_key fst vs"
proof (cases "vs = []")
  case False
  then have ne: "sort_key fst vs \<noteq> []" by (metis set_empty set_sort)
  have "values_encode vs = join [CHR ''&''] (map pair_text (sort_key fst vs))"
    by (simp add: values_encode_def pair_text_def [abs_def] split_beta')
  moreover have "CHR ''&'' \<notin> set (pair_text kv)" for kv
    using query_escape_chars [of "fst kv"] query_escape_chars [of "snd kv"] by (auto simp: pair_text_def)
  ultimately have "split_on (CHR ''&'') (values_encode vs) = map pair_text (sort_key fst vs)"
    using ne by (simp add: split_on_join)
  then show ?thesis by (simp add: parse_query_def map_filter_map_filter query_pair_text map_filter_def comp_def)
qed (simp add: values_encode_def parse_query_def query_pair_def map_filter_def)

lemma values_get_sorted:
  assumes "(k, v) \<in> set vs" "\<And>v'. (k, v') \<in> set vs \<Longrightarrow> v' = v"
  shows "values_get k (sort_key fst vs) = v"
proof -
  obtain v' where v': "map_of (sort_key fst vs) k = Some v'" "(k, v') \<in> set vs"
    using assms(1) by (metis map_of_SomeD set_sort weak_map_of_SomeI)
  with assms(2) show ?thesis by (simp add: values_get_def)
qed

lemma sim_query_get:
  "values_get ''nonce'' (sort_key fst (sim_query cy c cfg e q)) = si_nonce cfg"
  "values_get ''timestamp'' (sort_key fst (sim_query cy c cfg e q)) = si_timestamp cfg"
  "values_get ''msg_signature'' (sort_key fst (sim_query cy c cfg e q)) = Signature cy c (si_timestamp cfg) (si_nonce cfg) e"
  by (rule values_get_sorted; auto simp: sim_query_def values_set_def)+

section \<open>From the tool to the session router\<close>

lemma b64_encode_alphabet: "list_all (\<lambda>c. c = pad_char \<or> b64_val c \<noteq> None) (b64_encode s)"
  by (induction s rule: b64_encode.induct) (simp_all add: b64_val_char byte_bounds byte_bounds2)

lemma Encrypt_chars:
  assumes "Encrypt cy rand c plain = Inr e"
  shows "set e \<inter> {CHR ''<'', CHR ''>'', CHR ''&'', CHR '']''} = {}"
proof -
  obtain s where s: "e = b64_encode s" using assms by (auto simp: Encrypt_def seal_def Let_def split: option.splits sum.splits if_splits)
  have "b64_val x = None" if "x \<in> {CHR ''<'', CHR ''>'', CHR ''&'', CHR '']''}" for x using that by (auto simp: b64_val_def Let_def)
  moreover have "x = pad_char \<or> (\<exists>n. b64_val x = Some n)" if "x \<in> set e" for x
    using b64_encode_alphabet [of s] that by (auto simp: s list_all_iff)
  ultimately show ?thesis by fastforce
qed

lemma NewCodec_cong:
  assumes "trim_space (wx_corp_id c) = trim_space (wx_corp_id d)" "trim_space (wx_token c) = trim_space (wx_token d)"
    "trim_space (wx_encoding_aes_key c) = trim_space (wx_encoding_aes_key d)"
  shows "NewCodec cy c = NewCodec cy d"
  unfolding NewCodec_def assms by (rule refl)

lemma sim_NewCodec:
  assumes "wecom_NewAdapter cy media wcfg = Inr a"
    and "trim_space (wx_corp_id wcfg) = trim_space (si_corp_id cfg)" "trim_space (wx_token wcfg) = trim_space (si_token cfg)"
    and "trim_space (wx_encoding_aes_key wcfg) = trim_space (si_encoding_aes_key cfg)"
  shows "NewCodec cy (sim_codec_config cfg) = Inr (wad_codec a)"
proof -
  have "NewCodec cy (wecom_normalize media wcfg) = Inr (wad_codec a)"
    using assms(1) by (auto simp: wecom_NewAdapter_def Let_def split: option.splits sum.splits)
  moreover have "wx_corp_id (wecom_normalize media wcfg) = wx_corp_id wcfg" "wx_token (wecom_normalize media wcfg) = wx_token wcfg"
      "wx_encoding_aes_key (wecom_normalize media wcfg) = wx_encoding_aes_key wcfg"
    by (simp_all add: wecom_normalize_def Let_def)
  moreover have "wx_corp_id (sim_codec_config cfg) = si_corp_id cfg" "wx_token (sim_codec_config cfg) = si_token cfg"
      "wx_encoding_aes_key (sim_codec_config cfg) = si_encoding_aes_key cfg"
    by (simp_all add: sim_codec_config_def)
  ultimately show ?thesis using assms(2-4) NewCodec_cong [of "sim_codec_config cfg" "wecom_normalize media wcfg"] by simp
qed

lemma buildCallbackRequest_parts:
  assumes "buildCallbackRequest cy (Inr r) url_Parse cfg = Inr ((front, qs, frag), body)" "NewCodec cy (sim_codec_config cfg) = Inr c"
  obtains e q where "Encrypt cy (Inr r) c (si_inner_xml cfg) = Inr e" "body = sim_body cfg e" "qs = values_encode (sim_query cy c cfg e q)"
  using assms by (auto simp: buildCallbackRequest_def split: option.splits sum.splits)

text \<open>
  C39. The simulator and the gateway agree: the request that the tool builds for a text message, whatever query
  the endpoint's address already carries, passes the signature check of an adapter with the same corporation,
  token and key, is decrypted to the message of the file and dispatched; the answer is 200, and the route that is
  remembered for the new task leads back to the sender on the channel \<^verbatim>\<open>wecom\<close>.
\<close>

theorem simulated_callback_is_dispatched:
  assumes "buildCallbackRequest (we_cy env) (Inr r) url_Parse cfg = Inr ((front, qs, frag), body)"
    and "wecom_NewAdapter (we_cy env) media wcfg = Inr a"
    and "trim_space (wx_corp_id wcfg) = trim_space (si_corp_id cfg)" "trim_space (wx_token wcfg) = trim_space (si_token cfg)"
    and "trim_space (wx_encoding_aes_key wcfg) = trim_space (si_encoding_aes_key cfg)"
    and "length r = 16" "20 + length (si_inner_xml cfg) < 2 ^ 32"
    and "\<And>key. block_inverse (cy_aes_encrypt (we_cy env) key) (cy_aes_decrypt (we_cy env) key)"
    and "\<And>e. set e \<inter> {CHR ''<'', CHR ''>'', CHR ''&'', CHR '']''} = {} \<Longrightarrow> xml_envelope (sim_body cfg e) = Some e"
    and "xml_message (si_inner_xml cfg) = Some msg" "to_lower (trim_space (cb_msg_type msg)) = ''text''"
    and "\<And>q m w. fst (re_enqueue renv q m w) = None"
  shows "\<exists>r'. wecom_CallbackHandler env renv xml_envelope xml_message a
        \<lparr>wq_method = ''POST'', wq_query = (\<lambda>k. values_get k (parse_query qs)), wq_body = Inr body\<rparr> (cache, ro) =
      Returned (\<lparr>reply_status = 200, reply_body = []\<rparr>, cache, r') \<and>
    DispatchIncoming renv (toStandardMessage msg) ro = (Inr (''session_'' @ format_int (re_now_ns renv (ro_world ro))), r') \<and>
    sm_text (toStandardMessage msg) = cb_content msg \<and>
    map_option (\<lambda>b. (rb_channel_name b, rb_session_id b))
      (routeForTask (''session_'' @ format_int (re_now_ns renv (ro_world ro))) r') = Some (''wecom'', cb_from_user msg)"
proof -
  have c: "NewCodec (we_cy env) (sim_codec_config cfg) = Inr (wad_codec a)" by (rule sim_NewCodec [OF assms(2-5)])
  from buildCallbackRequest_parts [OF assms(1) c] obtain e q where e: "Encrypt (we_cy env) (Inr r) (wad_codec a) (si_inner_xml cfg) = Inr e"
      "body = sim_body cfg e" "qs = values_encode (sim_query (we_cy env) (wad_codec a) cfg e q)" by blast
  have "xml_envelope body = Some e" unfolding e(2) by (rule assms(9), rule Encrypt_chars [OF e(1)])
  moreover have "values_get ''msg_signature'' (parse_query qs) =
      Signature (we_cy env) (wad_codec a) (values_get ''timestamp'' (parse_query qs)) (values_get ''nonce'' (parse_query qs)) e"
    by (simp add: e(3) parse_query_encode sim_query_get)
  ultimately show ?thesis
    using sealed_message_dispatched [OF NewCodec_key [OF c] assms(6,7) assms(8) e(1), where req = "\<lparr>wq_method = ''POST'',
      wq_query = (\<lambda>k. values_get k (parse_query qs)), wq_body = Inr body\<rparr>" and renv = renv and msg = msg] assms(10-12) by simp
qed

definition sample_cb :: callback_message where
  "sample_cb = \<lparr>cb_to_user = ''corp'', cb_from_user = ''ann'', cb_create_time = 1, cb_msg_type = ''text'', cb_content = ''hi'', cb_msg_id = ''m1'',
     cb_agent_id = 7, cb_event = [], cb_change_type = [], cb_pic_url = [], cb_media_id = [], cb_thumb_media_id = [], cb_format = [],
     cb_title = [], cb_description = [], cb_url = [], cb_location_x = [], cb_location_y = [], cb_scale = [], cb_label = [],
     cb_recognition = [], cb_thumb_url = [], cb_selected_items = [], cb_selected_ticket = []\<rparr>"

definition sample_sim :: sim_config where
  "sample_sim = \<lparr>si_endpoint = ''http://localhost/cb'', si_corp_id = ''corp'', si_agent_id = 7, si_token = ''tok'',
     si_encoding_aes_key = replicate 43 (CHR ''A''), si_timestamp = ''1'', si_nonce = ''n 1'', si_inner_xml = ''hello''\<rparr>"

definition sample_envelope :: "string \<Rightarrow> string option" where
  "sample_envelope body = Some (drop (length (sim_body sample_sim []) - 19) (take (length body - 19) body))"

lemma sample_envelope_body: "sample_envelope (sim_body sample_sim e) = Some e"
proof -
  let ?s = "'']]></Encrypt></xml>''"
  define p where "p = ''<xml>'' @ cdata ''ToUserName'' (si_corp_id sample_sim) @ cdata ''AgentID'' (format_int (si_agent_id sample_sim)) @
    ''<Encrypt><![CDATA[''"
  have "sim_body sample_sim x = p @ x @ ?s" for x unfolding p_def sim_body_def cdata_def [of "''Encrypt''"] by simp
  moreover have "length ?s = 19" by simp
  ultimately show ?thesis by (simp add: sample_envelope_def del: list.size)
qed

theorem simulated_callback_is_dispatched_witness:
  "\<exists>front qs frag body a r'. buildCallbackRequest rev_crypto (Inr (replicate 16 (CHR ''r''))) (\<lambda>x. Inr (x, [(''a'', ''b'')], [])) sample_sim =
      Inr ((front, qs, frag), body) \<and>
    wecom_NewAdapter rev_crypto ''/tmp'' sample_wecom_config = Inr a \<and>
    wecom_CallbackHandler sample_wecom sample_renv sample_envelope (\<lambda>_. Some sample_cb) a
      \<lparr>wq_method = ''POST'', wq_query = (\<lambda>k. values_get k (parse_query qs)), wq_body = Inr body\<rparr> (no_token, NewSessionRouter ()) =
    Returned (\<lparr>reply_status = 200, reply_body = []\<rparr>, no_token, r')"
proof -
  have cy: "we_cy sample_wecom = rev_crypto" by (simp add: sample_wecom_def)
  have a: "wecom_NewAdapter rev_crypto ''/tmp'' sample_wecom_config = Inr \<lparr>wad_cfg = wecom_normalize ''/tmp'' sample_wecom_config, wad_codec = sample_codec\<rparr>"
    by code_simp
  have same: "trim_space (wx_corp_id sample_wecom_config) = trim_space (si_corp_id sample_sim)"
      "trim_space (wx_token sample_wecom_config) = trim_space (si_token sample_sim)"
      "trim_space (wx_encoding_aes_key sample_wecom_config) = trim_space (si_encoding_aes_key sample_sim)"
    by (simp_all add: sample_wecom_config_def sample_sim_def)
  have "sim_check sample_sim = None" by code_simp
  then obtain front qs frag body where b: "buildCallbackRequest rev_crypto (Inr (replicate 16 (CHR ''r''))) (\<lambda>x. Inr (x, [(''a'', ''b'')], []))
      sample_sim = Inr ((front, qs, frag), body)"
    using sim_NewCodec [OF a same] by (simp add: buildCallbackRequest_def Encrypt_def aes_NewCipher_def sample_codec_def)
  have ty: "to_lower (trim_space (cb_msg_type sample_cb)) = ''text''" by code_simp
  have inner: "20 + length (si_inner_xml sample_sim) < 2 ^ 32" by (simp add: sample_sim_def)
  have ok: "fst (re_enqueue sample_renv q m w) = None" for q m w by (simp add: sample_renv_def)
  from simulated_callback_is_dispatched [of sample_wecom, unfolded cy, OF b a same _ inner rev_crypto_inverse sample_envelope_body refl ty ok]
  show ?thesis using a b by auto
qed

end
