(* ===== verification/Orchestrator_Main.thy ===== *)
theory Orchestrator_Main
  imports Gateway_Chat Go_Flag
begin

text \<open>
  \<^verbatim>\<open>cmd/orchestrator/main.go\<close>, the program around the application of theory \<open>Orchestrator\<close>: flags, construction,
  the HTTP routes and the main function with the goroutines it starts.

  Opening, creating and closing the database, the connections and the provider constructor are the
  arguments of \<open>NewApp\<close>. The goroutines are interleaved as a list of events, each of which runs to its
  end before the next; what the two transports do with a message is the environment of theory
  \<open>Orchestrator\<close>.
\<close>

section \<open>Flags\<close>

record app_config =
  ac_sqlite_dsn :: string
  ac_redis_addr :: string
  ac_mqtt_broker :: string
  ac_subagent_binary :: string
  ac_http_port :: string
  ac_loop :: bool
  ac_llm_api_key :: string
  ac_llm_base_url :: string
  ac_approval_secret :: string

definition app_flags :: "app_config flag_set" where
  "app_flags =
     [(''sqlite-dsn'', StringVar (\<lambda>x. ac_sqlite_dsn_update (\<lambda>_. x))),
      (''redis-addr'', StringVar (\<lambda>x. ac_redis_addr_update (\<lambda>_. x))),
      (''mqtt-broker'', StringVar (\<lambda>x. ac_mqtt_broker_update (\<lambda>_. x))),
      (''subagent-binary'', StringVar (\<lambda>x. ac_subagent_binary_update (\<lambda>_. x))),
      (''http-port'', StringVar (\<lambda>x. ac_http_port_update (\<lambda>_. x))),
      (''loop'', BoolVar (\<lambda>x. ac_loop_update (\<lambda>_. x))),
      (''llm-api-key'', StringVar (\<lambda>x. ac_llm_api_key_update (\<lambda>_. x))),
      (''llm-base-url'', StringVar (\<lambda>x. ac_llm_base_url_update (\<lambda>_. x))),
      (''approval-secret'', StringVar (\<lambda>x. ac_approval_secret_update (\<lambda>_. x)))]"

definition app_defaults :: "(string \<Rightarrow> string) \<Rightarrow> app_config" where
  "app_defaults getenv =
     \<lparr>ac_sqlite_dsn = ''agentic_core.db'', ac_redis_addr = ''localhost:16379'', ac_mqtt_broker = ''tcp://localhost:11883'',
      ac_subagent_binary = ''./subagent'', ac_http_port = '':8080'', ac_loop = False,
      ac_llm_api_key = getenv ''LLM_API_KEY'', ac_llm_base_url = getenv ''LLM_BASE_URL'',
      ac_approval_secret = getenv ''APPROVAL_WEBHOOK_SECRET''\<rparr>"

definition ParseAppConfig :: "(string \<Rightarrow> string) \<Rightarrow> (string \<Rightarrow> string) \<Rightarrow> string list \<Rightarrow> app_config res" where
  "ParseAppConfig gq getenv args = flag_Parse gq app_flags args (app_defaults getenv)"

section \<open>Construction\<close>

text \<open>Queue and event bus are the same transport.\<close>

datatype transport = OnRedis string | InProcess

datatype heartbeat_kind = OnMqtt string | FakeHeartbeat

record 'w orchestrator_app =
  oa_cfg :: app_config
  oa_core :: "'w app"
  oa_transport :: transport
  oa_heartbeat :: heartbeat_kind
  oa_agents :: agent_registry
  oa_resolver :: "'w model_resolver"
  oa_registry :: "'w skill_registry option"
  oa_chat :: "'w chat_handler option"
  oa_sinks :: sinks
  oa_binary :: string

record 'w boot_env =
  bo_open :: "string \<Rightarrow> 'w \<Rightarrow> go_error option \<times> 'w"
  bo_init_schema :: "'w \<Rightarrow> sqlite_store res \<times> 'w"
  bo_close :: "'w \<Rightarrow> 'w"
  bo_redis :: "string \<Rightarrow> 'w \<Rightarrow> go_error option \<times> 'w"
  bo_sender_start :: "transport \<Rightarrow> 'w \<Rightarrow> 'w"
  bo_mqtt :: "string \<Rightarrow> 'w \<Rightarrow> go_error option \<times> 'w"
  bo_provider :: "model_config \<Rightarrow> 'w provider"

definition default_resolver :: "(model_config \<Rightarrow> 'w provider) \<Rightarrow> app_config \<Rightarrow> 'w model_resolver" where
  "default_resolver provider cfg =
     (if ac_llm_api_key cfg \<noteq> [] then
        RegisterRoute
          (Resolver_Register NewModelResolver ''openai''
             (provider (NewOpenAIProvider \<lparr>mc_provider_name = ''openai'', mc_model_id = ''gpt-4'', mc_api_key = ac_llm_api_key cfg,
                mc_base_url = ac_llm_base_url cfg, mc_temperature = ''0''\<rparr>)))
          (zero_route\<lparr>rt_alias := ''gpt-4'', rt_provider := ''openai'', rt_upstream_model := ''gpt-4''\<rparr>)
      else NewModelResolver)"

text \<open>The result is the error with the state of the world, or the application, whose core holds it.\<close>

definition NewApp :: "'w boot_env \<Rightarrow> app_config \<Rightarrow> 'w \<Rightarrow> (go_error \<times> 'w) + 'w orchestrator_app" where
  "NewApp boot cfg w =
     (case bo_open boot (ac_sqlite_dsn cfg) w of
        (Some err, w) \<Rightarrow> Inl (err, w)
      | (None, w) \<Rightarrow>
          (case bo_init_schema boot w of
             (Inl err, w) \<Rightarrow> Inl (err, bo_close boot w)
           | (Inr db, w) \<Rightarrow>
               (case (if ac_redis_addr cfg \<noteq> ''skip'' then bo_redis boot (ac_redis_addr cfg) w else (None, w)) of
                  (Some err, w) \<Rightarrow> Inl (wrap_error ''redis connection failed: '' err, bo_close boot w)
                | (None, w) \<Rightarrow>
                    let events = (if ac_redis_addr cfg \<noteq> ''skip'' then OnRedis (ac_redis_addr cfg) else InProcess);
                        w = bo_sender_start boot events w in
                    (case (if ac_mqtt_broker cfg \<noteq> ''skip'' then bo_mqtt boot (ac_mqtt_broker cfg) w else (None, w)) of
                       (Some err, w) \<Rightarrow> Inl (wrap_error ''mqtt connection failed: '' err, bo_close boot w)
                     | (None, w) \<Rightarrow>
                         Inr \<lparr>oa_cfg = cfg,
                              oa_core = \<lparr>app_store = db, app_workflows = [], app_nonces = NewInMemNonceStore, app_world = w\<rparr>,
                              oa_transport = events,
                              oa_heartbeat = (if ac_mqtt_broker cfg \<noteq> ''skip'' then OnMqtt (ac_mqtt_broker cfg) else FakeHeartbeat),
                              oa_agents = NewAgentRegistry, oa_resolver = default_resolver (bo_provider boot) cfg,
                              oa_registry = None, oa_chat = None, oa_sinks = [], oa_binary = ac_subagent_binary cfg\<rparr>))))"

section \<open>The HTTP routes\<close>

text \<open>
  \<^verbatim>\<open>http.ServeMux\<close> cleans the path of every method but CONNECT and redirects when that changes it; the two
  patterns match one path each.
\<close>

fun clean_segments :: "string list \<Rightarrow> string list \<Rightarrow> string list" where
  "clean_segments acc [] = rev acc"
| "clean_segments acc (s # ss) =
     (if s = [] \<or> s = ''.'' then clean_segments acc ss
      else if s = ''..'' then clean_segments (drop 1 acc) ss
      else clean_segments (s # acc) ss)"

definition clean_path :: "string \<Rightarrow> string" where
  "clean_path p =
     (let r = (if has_prefix p ''/'' then p else ''/'' @ p);
          np = ''/'' @ join ''/'' (clean_segments [] (split_on (CHR ''/'') r)) in
      if p = [] then ''/''
      else if last p = CHR ''/'' \<and> np \<noteq> ''/'' then np @ ''/'' else np)"

record app_request =
  aq_method :: string
  aq_path :: string
  aq_headers :: webhook_headers
  aq_body :: "string res"

datatype app_answer = Answer http_reply | Streamed | Redirect string

record 'w serve_env =
  sv_hmac :: "string \<Rightarrow> string \<Rightarrow> string"
  sv_app :: "'w app_env"
  sv_chat :: "'w chat_env"
  sv_sender :: "'w gw_env"
  sv_gate :: "'w gate_fn"

definition chatCompletionsHandler :: "'w serve_env \<Rightarrow> 'w orchestrator_app \<Rightarrow> 'w chat_handler \<times> 'w orchestrator_app" where
  "chatCompletionsHandler env a =
     (case oa_chat a of
        Some h \<Rightarrow> (h, a)
      | None \<Rightarrow>
          let h = NewChatCompletionsHandler (ce_new_gate (sv_chat env)) (oa_resolver a) (Some (sv_sender env)) (oa_registry a)
                    (Some (sv_gate env)) in
          (h, a\<lparr>oa_chat := Some h\<rparr>))"

definition serve_completion :: "'w serve_env \<Rightarrow> 'w chat_handler \<Rightarrow> nat \<Rightarrow> app_request \<Rightarrow> 'w orchestrator_app \<Rightarrow>
    app_answer \<times> 'w orchestrator_app" where
  "serve_completion env h c r a =
     (let core = oa_core a;
          (out, st) = chat_ServeHTTP (sv_chat env) h c (aq_method r) (aq_body r)
            \<lparr>ct_store = Some (app_store core), ct_sinks = oa_sinks a, ct_world = app_world core\<rparr> in
      (case out of Some reply \<Rightarrow> Answer reply | None \<Rightarrow> Streamed,
       a\<lparr>oa_core := core\<lparr>app_store := (case ct_store st of Some db \<Rightarrow> db | None \<Rightarrow> app_store core), app_world := ct_world st\<rparr>,
         oa_sinks := ct_sinks st\<rparr>))"

definition app_ServeHTTP :: "'w serve_env \<Rightarrow> nat \<Rightarrow> app_request \<Rightarrow> 'w orchestrator_app \<Rightarrow> app_answer \<times> 'w orchestrator_app" where
  "app_ServeHTTP env c r a =
     (let (h, a) = chatCompletionsHandler env a;
          path = (if aq_method r = ''CONNECT'' then aq_path r else clean_path (aq_path r)) in
      if path \<noteq> aq_path r then (Redirect path, a)
      else if path = ''/approval'' then
        (let (reply, core) = handleApproval (sv_hmac env) (sv_app env) (ac_approval_secret (oa_cfg a))
               \<lparr>wr_method = aq_method r, wr_headers = aq_headers r, wr_body = aq_body r\<rparr> (oa_core a) in
         (Answer reply, a\<lparr>oa_core := core\<rparr>))
      else if path = ''/v1/chat/completions'' then serve_completion env h c r a
      else (Answer (http_Error ''404 page not found'' 404), a))"

section \<open>The main function\<close>

text \<open>What happens while the orchestrator runs: a request, a result message, one round of the task loop.\<close>

datatype app_event =
    Serve nat app_request
  | Result message
  | Round go_ctx "message option res"

definition on_core :: "('w app \<Rightarrow> 'x \<times> 'w app) \<Rightarrow> 'w orchestrator_app \<Rightarrow> 'x \<times> 'w orchestrator_app" where
  "on_core f a = (let (x, core) = f (oa_core a) in (x, a\<lparr>oa_core := core\<rparr>))"

fun app_step :: "'w serve_env \<Rightarrow> app_event \<Rightarrow> 'w orchestrator_app \<Rightarrow> go_error option \<times> 'w orchestrator_app" where
  "app_step env (Serve c r) a = (None, snd (app_ServeHTTP env c r a))"
| "app_step env (Result m) a = on_core (\<lambda>core. (None, handle_result (sv_app env) m core)) a"
| "app_step env (Round ctx recv) a = on_core (ProcessLoop (sv_app env) [(ctx, recv)]) a"

text \<open>The events until the main goroutine ends with an error; \<open>None\<close> is a program that still runs.\<close>

fun app_events :: "'w serve_env \<Rightarrow> app_event list \<Rightarrow> 'w orchestrator_app \<Rightarrow> go_error option \<times> 'w orchestrator_app" where
  "app_events env [] a = (None, a)"
| "app_events env (e # es) a =
     (case app_step env e a of
        (Some err, a) \<Rightarrow> (Some err, a)
      | (None, a) \<Rightarrow> app_events env es a)"

definition is_round :: "app_event \<Rightarrow> bool" where
  "is_round e = (case e of Round _ _ \<Rightarrow> True | _ \<Rightarrow> False)"

text \<open>
  \<^verbatim>\<open>runMain\<close>: \<open>early\<close> are the events before the recovery, \<open>late\<close> those after it or, without the loop, all that
  happen until the context ends with \<open>ctx_err\<close>. The database is closed when the function returns.
\<close>

definition main_phase :: "'w serve_env \<Rightarrow> (string \<Rightarrow> string \<Rightarrow> 'w \<Rightarrow> go_error option \<times> 'w) \<Rightarrow> go_error \<Rightarrow> app_event list \<Rightarrow> app_event list \<Rightarrow>
    'w orchestrator_app \<Rightarrow> go_error option \<times> 'w orchestrator_app" where
  "main_phase env heartbeat ctx_err early late a =
     (let (_, a) = app_events env (filter (\<lambda>e. \<not> is_round e) early) a in
      if ac_loop (oa_cfg a) then
        (case on_core (RecoverTasksOnStartup (sv_app env)) a of
           (Some err, a) \<Rightarrow> (Some err, a)
         | (None, a) \<Rightarrow> app_events env late a)
      else
        let (err, a) = on_core (app_Run (sv_app env) heartbeat ctx_err) a;
            (_, a) = app_events env (filter (\<lambda>e. \<not> is_round e) late) a in
        (err, a))"

definition runMain :: "app_config res \<Rightarrow> go_error option \<Rightarrow> 'w boot_env \<Rightarrow> 'w serve_env \<Rightarrow>
    (string \<Rightarrow> string \<Rightarrow> 'w \<Rightarrow> go_error option \<times> 'w) \<Rightarrow> go_error \<Rightarrow> app_event list \<Rightarrow> app_event list \<Rightarrow> 'w \<Rightarrow> go_error option \<times> 'w" where
  "runMain args log_err boot env heartbeat ctx_err early late w =
     (case args of
        Inl err \<Rightarrow> (Some err, w)
      | Inr cfg \<Rightarrow>
          (case log_err of
             Some err \<Rightarrow> (Some err, w)
           | None \<Rightarrow>
               (case NewApp boot cfg w of
                  Inl (err, w) \<Rightarrow> (Some err, w)
                | Inr a \<Rightarrow>
                    (case main_phase env heartbeat ctx_err early late a of
                       (None, a) \<Rightarrow> (None, app_world (oa_core a))
                     | (Some err, a) \<Rightarrow> (Some err, bo_close boot (app_world (oa_core a)))))))"

section \<open>Start-up\<close>

text \<open>
  A failed start holds no handle of the database, a successful one holds one: \<open>H\<close> counts the handles.
\<close>

lemma NewApp_database_handles:
  fixes H :: "'w \<Rightarrow> int"
  assumes "\<And>d w. H (snd (bo_open boot d w)) = H w + (if fst (bo_open boot d w) = None then 1 else 0)"
    and "\<And>w. H (bo_close boot w) = H w - 1" "\<And>w. H (snd (bo_init_schema boot w)) = H w"
    and "\<And>x w. H (snd (bo_redis boot x w)) = H w" "\<And>x w. H (snd (bo_mqtt boot x w)) = H w"
    and "\<And>x w. H (bo_sender_start boot x w) = H w"
  shows "case NewApp boot cfg w of Inl (err, w') \<Rightarrow> H w' = H w | Inr a \<Rightarrow> H (app_world (oa_core a)) = H w + 1"
proof -
  obtain e1 w1 where 1: "bo_open boot (ac_sqlite_dsn cfg) w = (e1, w1)" by force
  obtain r2 w2 where 2: "bo_init_schema boot w1 = (r2, w2)" by force
  let ?r = "if ac_redis_addr cfg \<noteq> ''skip'' then bo_redis boot (ac_redis_addr cfg) w2 else (None, w2)"
  obtain e3 w3 where 3: "?r = (e3, w3)" by force
  let ?w = "bo_sender_start boot (if ac_redis_addr cfg \<noteq> ''skip'' then OnRedis (ac_redis_addr cfg) else InProcess) w3"
  let ?m = "if ac_mqtt_broker cfg \<noteq> ''skip'' then bo_mqtt boot (ac_mqtt_broker cfg) ?w else (None, ?w)"
  obtain e4 w4 where 4: "?m = (e4, w4)" by force
  have h1: "H w1 = H w + (if e1 = None then 1 else 0)" using assms(1) [of "ac_sqlite_dsn cfg" w] 1 by simp
  have h2: "H w2 = H w1" using assms(3) [of w1] 2 by simp
  have h3: "H w3 = H w2" using 3 assms(4) [of "ac_redis_addr cfg" w2] by (auto split: if_splits)
  have h4: "H w4 = H w3" using 4 assms(5) [of "ac_mqtt_broker cfg" ?w] assms(6) by (auto split: if_splits)
  show ?thesis
    unfolding NewApp_def 1 using 2 h1 h2
    by (cases e1; cases r2; cases e3; cases e4) (simp_all add: 3 4 h3 h4 assms(2) Let_def)
qed

lemma app_without_key_knows_no_model:
  "NewApp boot cfg w = Inr a \<Longrightarrow> ac_llm_api_key cfg = [] \<Longrightarrow>
    ResolveByAlias (oa_resolver a) alias = (None, zero_route, Some (errorf (''invalid_request_error: model alias '' @ alias @ '' not found'')))"
  by (auto simp: NewApp_def default_resolver_def NewModelResolver_def ResolveByAlias_def Let_def
      split: prod.splits option.splits sum.splits if_splits)

section \<open>A chat request touches no other row\<close>

definition same_rows :: "string \<Rightarrow> 'w chat_state \<Rightarrow> 'w chat_state \<Rightarrow> bool" where
  "same_rows t st st' =
     (case (ct_store st, ct_store st') of
        (Some db, Some db') \<Rightarrow> sqlite_schema db' \<and> (\<forall>k. k \<noteq> t \<longrightarrow> sqlite_Get None db' k = sqlite_Get None db k)
      | _ \<Rightarrow> False)"

lemma same_rows_frame [simp]:
  "same_rows t st (st'\<lparr>ct_world := w\<rparr>) = same_rows t st st'" "same_rows t st (st'\<lparr>ct_sinks := s\<rparr>) = same_rows t st st'"
  by (simp_all add: same_rows_def)

lemma same_rows_persist: "same_rows t st st' \<Longrightarrow> same_rows t st (persistTaskState env t a s e st')"
  by (auto simp: same_rows_def persistTaskState_def sqlite_Save_def upsert_schema upsert_Get_other split: option.splits)

lemma same_rows_run: "run_chat env h p req st1 = (out, st') \<Longrightarrow> same_rows t st st1 \<Longrightarrow> same_rows t st st'"
  by (auto simp: run_chat_def split: prod.splits)

lemma same_rows_bridge: "bridge_chat env h p req st1 = (err, st') \<Longrightarrow> same_rows t st st1 \<Longrightarrow> same_rows t st st'"
  by (auto simp: bridge_chat_def split: prod.splits)

lemmas same_rows_intros = same_rows_persist same_rows_run same_rows_bridge

lemma handleNonStream_rows:
  assumes "ir_task_id req \<noteq> []" "same_rows (ir_task_id req) st st1"
  shows "same_rows (ir_task_id req) st (snd (handleNonStream env h p req st1))"
  using assms by (auto simp: handleNonStream_def with_task_id_def Let_def intro: same_rows_intros
      split: sum.splits option.splits prod.splits)

lemma handleStream_rows:
  assumes "ir_task_id req \<noteq> []" "same_rows (ir_task_id req) st st1"
  shows "same_rows (ir_task_id req) st (snd (handleStream env h p c req st1))"
proof -
  have s: "same_rows (ir_task_id req) st (st1\<lparr>ct_sinks := k\<rparr>)" for k using assms(2) by simp
  show ?thesis using assms
    by (auto simp: handleStream_def handleStreamPassthrough_def with_task_id_def Let_def
        intro: same_rows_persist same_rows_run [OF _ s] same_rows_bridge [OF _ s]
        split: sum.splits option.splits prod.splits)
qed

lemma chat_rows:
  assumes "ct_store st = Some db" "sqlite_schema db"
  shows "same_rows (trace_id env st) st (snd (chat_ServeHTTP env h c mthd body st))"
proof -
  have r: "same_rows t st st" for t using assms by (simp add: same_rows_def)
  have "same_rows (trace_id env st) st (snd (serve_chat env h c req st))" for req
  proof -
    let ?q = "inference_request_for (trace_id env st) req"
    let ?st = "persistTaskState env (trace_id env st) ''gateway.chat'' ''running'' [] (recordRouteAudit env h ?q st)"
    have t: "ir_task_id ?q = trace_id env st" "trace_id env st \<noteq> []"
      by (simp_all add: inference_request_for_def trace_id_def Let_def)
    have "same_rows (trace_id env st) st (recordRouteAudit env h ?q st)"
      using r by (simp add: recordRouteAudit_def Let_def split_beta split: option.splits)
    then have "same_rows (ir_task_id ?q) st ?st" unfolding t(1) by (rule same_rows_persist)
    with t handleNonStream_rows [of ?q st ?st] handleStream_rows [of ?q st ?st] r show ?thesis
      by (auto simp: serve_chat_def Let_def split: option.splits prod.splits)
  qed
  with r show ?thesis by (auto simp: chat_ServeHTTP_def split: sum.splits)
qed

section \<open>Events and other tasks\<close>

text \<open>What the store and the workflows say of a task.\<close>

definition task_view :: "string \<Rightarrow> 'w app \<Rightarrow> task_state res \<times> workflow option" where
  "task_view k a = (sqlite_Get None (app_store a) k, map_of (app_workflows a) k)"

definition concerns :: "string \<Rightarrow> app_event \<Rightarrow> bool" where
  "concerns k e =
     (case e of
        Serve c r \<Rightarrow> False
      | Result m \<Rightarrow> tr_task_id (decode_result (msg_payload m)) = k
      | Round ctx recv \<Rightarrow> (case recv of Inr (Some m) \<Rightarrow> msg_message_id m = k | _ \<Rightarrow> False))"

lemma handleApproval_tasks:
  "handleApproval hmac env secret r a = (reply, a') \<Longrightarrow> app_store a' = app_store a \<and> app_workflows a' = app_workflows a"
  by (auto simp: handleApproval_def accept_decision_def Let_def split: if_splits option.splits prod.splits sum.splits)

lemma enqueue_other:
  assumes "no_db_faults env" "sqlite_schema (app_store a)" "enqueueAndStartTask env msg a = (err, a')" "msg_message_id msg \<noteq> k"
  shows "task_view k a' = task_view k a \<and> sqlite_schema (app_store a')"
proof -
  have "map_of (app_workflows a') k = map_of (app_workflows a) k" using assms(3,4)
    by (auto simp: enqueueAndStartTask_def set_workflow_def app_save_ok [OF assms(1)] Let_def update_conv' split: option.splits prod.splits)
  moreover have "sqlite_Get None (app_store a') k = sqlite_Get None (app_store a) k \<and> sqlite_schema (app_store a')"
    using enqueue_store [OF assms(1,3)] assms(2,4)
    by (auto simp: upsert_Get_other upsert_schema state_of_msg_def split: if_splits)
  ultimately show ?thesis by (simp add: task_view_def)
qed

lemma result_other:
  assumes "no_db_faults env" "sqlite_schema (app_store a)" "tr_task_id (decode_result (msg_payload m)) \<noteq> k"
  shows "task_view k (handle_result env m a) = task_view k a \<and> sqlite_schema (app_store (handle_result env m a))"
proof -
  have "map_of (app_workflows (handle_result env m a)) k = map_of (app_workflows a) k" using assms(3)
    by (auto simp: handle_result_def mark_result_def set_workflow_def app_save_ok [OF assms(1)] Let_def update_conv'
        split: option.splits prod.splits)
  with handle_result_store [OF assms(1), of m a] assms(2,3) show ?thesis
    by (auto simp: task_view_def upsert_Get_other upsert_schema)
qed

lemma serve_other:
  assumes "sqlite_schema (app_store (oa_core a))" "\<not> has_prefix k ''tr_''"
  shows "task_view k (oa_core (snd (app_ServeHTTP env c r a))) = task_view k (oa_core a) \<and>
    sqlite_schema (app_store (oa_core (snd (app_ServeHTTP env c r a))))"
proof -
  obtain h a1 where h: "chatCompletionsHandler env a = (h, a1)" by force
  then have a1: "oa_core a1 = oa_core a" "oa_cfg a1 = oa_cfg a" "oa_sinks a1 = oa_sinks a"
    by (auto simp: chatCompletionsHandler_def Let_def split: option.splits)
  have chat: "task_view k (oa_core (snd (serve_completion env h c r a1))) = task_view k (oa_core a) \<and>
    sqlite_schema (app_store (oa_core (snd (serve_completion env h c r a1))))"
  proof -
    let ?st = "\<lparr>ct_store = Some (app_store (oa_core a1)), ct_sinks = oa_sinks a1, ct_world = app_world (oa_core a1)\<rparr>"
    have "k \<noteq> trace_id (sv_chat env) ?st" using assms(2) by (auto simp: trace_id_def has_prefix_def)
    with chat_rows [of ?st "app_store (oa_core a1)" "sv_chat env" h c "aq_method r" "aq_body r"] assms(1) a1(1) show ?thesis
      by (auto simp: serve_completion_def same_rows_def task_view_def Let_def split: option.splits prod.splits)
  qed
  show ?thesis using chat assms(1) a1 h
    by (auto simp: app_ServeHTTP_def task_view_def Let_def dest!: handleApproval_tasks split: prod.splits)
qed

lemma step_other:
  assumes "no_db_faults (sv_app env)" "sqlite_schema (app_store (oa_core a))" "\<not> has_prefix k ''tr_''" "\<not> concerns k e"
    and "app_step env e a = (err, a')"
  shows "task_view k (oa_core a') = task_view k (oa_core a) \<and> sqlite_schema (app_store (oa_core a'))"
proof (cases e)
  case (Serve c r)
  with assms serve_other [OF assms(2,3)] show ?thesis by auto
next
  case (Result m)
  with assms result_other [OF assms(1,2)] show ?thesis by (auto simp: concerns_def on_core_def)
next
  case (Round ctx recv)
  with assms enqueue_other [OF assms(1,2)] show ?thesis
    by (fastforce simp: concerns_def on_core_def ProcessOneTask_def Let_def split: option.splits sum.splits prod.splits if_splits)
qed

text \<open>
  C9. Tasks do not disturb each other. While the orchestrator runs, and however HTTP requests, result messages
  and rounds of the task loop interleave, the stored row and the workflow of a task are what they were
  as long as no message starts the task again and no result names it: neither approvals nor chat requests (whose rows
  have ids of their own) nor other tasks, whether they fail or succeed, change them. So a task that was recoverable
  stays recoverable, and a later start of the orchestrator finds it.
\<close>

theorem traffic_leaves_other_tasks_alone:
  assumes "no_db_faults (sv_app env)" "sqlite_schema (app_store (oa_core a))" "\<not> has_prefix k ''tr_''"
    and "\<forall>e \<in> set es. \<not> concerns k e" "app_events env es a = (err, a')"
  shows "task_view k (oa_core a') = task_view k (oa_core a) \<and>
    (recoverable_in (app_store (oa_core a)) k \<longrightarrow>
      (\<exists>sts. sqlite_ListRecoverable None (app_store (oa_core a')) = Inr sts \<and> k \<in> ts_task_id ` set sts))"
proof -
  have "task_view k (oa_core a') = task_view k (oa_core a) \<and> sqlite_schema (app_store (oa_core a'))"
    using assms(2,4,5)
  proof (induction es arbitrary: a)
    case (Cons e es)
    obtain err1 a1 where s: "app_step env e a = (err1, a1)" by force
    from step_other [OF assms(1) Cons.prems(1) assms(3) _ s] Cons.prems(2)
    have a1: "task_view k (oa_core a1) = task_view k (oa_core a)" "sqlite_schema (app_store (oa_core a1))" by simp_all
    with Cons s show ?case by (cases err1) auto
  qed simp
  moreover from this have "recoverable_in (app_store (oa_core a')) k" if "recoverable_in (app_store (oa_core a)) k"
    using that by (simp add: task_view_def recoverable_in_def)
  moreover obtain sts where "sqlite_ListRecoverable None (app_store (oa_core a')) = Inr sts"
    by (auto simp: sqlite_ListRecoverable_def)
  ultimately show ?thesis using ListRecoverable_in by blast
qed

definition sample_boot :: "((string \<times> message) list) boot_env" where
  "sample_boot = \<lparr>bo_open = (\<lambda>d w. (None, w)), bo_init_schema = (\<lambda>w. (Inr (app_store sample_app), w)), bo_close = (\<lambda>w. w),
     bo_redis = (\<lambda>x w. (None, w)), bo_sender_start = (\<lambda>t w. w), bo_mqtt = (\<lambda>x w. (None, w)),
     bo_provider = (\<lambda>m. \<lparr>pv_predict = (\<lambda>q w. (Inr ''hi'', w)), pv_predict_stream = (\<lambda>q w. (Inr [], w))\<rparr>)\<rparr>"

definition sample_conn :: "((string \<times> message) list) gw_env" where
  "sample_conn = \<lparr>ge_write = (\<lambda>c t w. (None, w)), ge_events = None, ge_now_ns = (\<lambda>w. 5), ge_jerr = (\<lambda>s. s)\<rparr>"

definition sample_serve :: "((string \<times> message) list) serve_env" where
  "sample_serve = \<lparr>sv_hmac = (\<lambda>k m. k @ m), sv_app = sample_env,
     sv_chat = \<lparr>ce_conn = sample_conn, ce_now_ns = (\<lambda>w. 5), ce_jerr = (\<lambda>s. s), ce_rfc3339 = (\<lambda>w. []),
       ce_new_gate = (\<lambda>a w. (Inl (errorf []), w)), ce_read_err = (\<lambda>w. None), ce_ctx = (\<lambda>w. None), ce_db_fault = (\<lambda>w. None)\<rparr>,
     sv_sender = sample_conn, sv_gate = (\<lambda>a w. (Inl (errorf []), w))\<rparr>"

definition sample_events :: "app_event list" where
  "sample_events =
     [Serve 0 \<lparr>aq_method = ''POST'', aq_path = ''/v1/chat/completions'', aq_headers = \<lparr>wh_signature = [], wh_timestamp = [], wh_nonce = []\<rparr>, aq_body = Inr ''{}''\<rparr>,
      Round None (Inr (Some (zero_message\<lparr>msg_message_id := ''t2''\<rparr>)))]"

theorem traffic_leaves_other_tasks_alone_witness:
  "\<exists>a err a' sts. NewApp sample_boot (app_defaults (\<lambda>_. [])) [] = Inr a \<and> app_events sample_serve sample_events a = (err, a') \<and>
    sqlite_ListRecoverable None (app_store (oa_core a')) = Inr sts \<and> ''t1'' \<in> ts_task_id ` set sts"
proof -
  obtain a where a: "NewApp sample_boot (app_defaults (\<lambda>_. [])) [] = Inr a" "app_store (oa_core a) = app_store sample_app"
    by (simp add: NewApp_def sample_boot_def app_defaults_def Let_def)
  obtain err a' where e: "app_events sample_serve sample_events a = (err, a')" by force
  have h: "no_db_faults (sv_app sample_serve)" "sqlite_schema (app_store (oa_core a))" "\<not> has_prefix ''t1'' ''tr_''"
    by (simp_all add: sample_serve_def sample_env_def no_db_faults_def a(2) sqlite_schema_def sample_app_def row_of_def sample_task_def has_prefix_def)
  have c: "\<forall>e \<in> set sample_events. \<not> concerns ''t1'' e" by (simp add: sample_events_def concerns_def)
  have "recoverable_in (app_store (oa_core a)) ''t1''"
    unfolding a(2) recoverable_in_def by (rule exI [of _ "sample_task ''t1'' ''running''"]) code_simp
  with traffic_leaves_other_tasks_alone [OF h c e] a(1) e show ?thesis by blast
qed

end
