(* ===== verification/Go_Date.thy ===== *)
theory Go_Date
  imports Go_Prelude
begin

text \<open>
  What the log writer uses of package \<^verbatim>\<open>time\<close>: the date of a day and the layout \<^verbatim>\<open>2006-01-02\<close> in both directions.
  Days are counted from the first of January of the year 0 of the proleptic Gregorian calendar; the
  Unix epoch is day 719528.
\<close>

section \<open>The calendar\<close>

definition leap :: "nat \<Rightarrow> bool" where
  "leap y = (4 dvd y \<and> (\<not> 100 dvd y \<or> 400 dvd y))"

definition year_days :: "nat \<Rightarrow> nat" where
  "year_days y = (if leap y then 366 else 365)"

definition month_lengths :: "nat \<Rightarrow> nat list" where
  "month_lengths y = [31, if leap y then 29 else 28, 31, 30, 31, 30, 31, 31, 30, 31, 30, 31]"

text \<open>The days before a year: one leap day for each multiple of 4 below it, less those of 100, plus those of 400.\<close>

definition days_before_year :: "nat \<Rightarrow> nat" where
  "days_before_year y = 365 * y + (y + 3) div 4 + (y + 399) div 400 - (y + 99) div 100"

definition days_in :: "nat \<Rightarrow> nat \<Rightarrow> nat" where
  "days_in y m = month_lengths y ! (m - 1)"

definition day_of_date :: "nat \<Rightarrow> nat \<Rightarrow> nat \<Rightarrow> nat" where
  "day_of_date y m d = days_before_year y + sum_list (take (m - 1) (month_lengths y)) + (d - 1)"

definition valid_date :: "nat \<Rightarrow> nat \<Rightarrow> nat \<Rightarrow> bool" where
  "valid_date y m d = (1 \<le> m \<and> m \<le> 12 \<and> 1 \<le> d \<and> d \<le> days_in y m)"

text \<open>The year of a day and the day within it, then the month.\<close>

function year_split :: "nat \<Rightarrow> nat \<Rightarrow> nat \<times> nat" where
  "year_split y n = (if n < year_days y then (y, n) else year_split (Suc y) (n - year_days y))"
  by pat_completeness auto
termination by (relation "measure snd") (auto simp: year_days_def)

declare year_split.simps [simp del]

fun month_split :: "nat list \<Rightarrow> nat \<Rightarrow> nat \<Rightarrow> nat \<times> nat" where
  "month_split [] m n = (m, n)"
| "month_split (l # ls) m n = (if n < l then (m, n) else month_split ls (Suc m) (n - l))"

definition date_of_day :: "nat \<Rightarrow> nat \<times> nat \<times> nat" where
  "date_of_day n =
     (let (y, k) = year_split 0 n; (m, d) = month_split (month_lengths y) 1 k in (y, m, Suc d))"

lemma div_round_up:
  assumes "0 < (k :: nat)"
  shows "(Suc y + (k - 1)) div k = (y + (k - 1)) div k + (if k dvd y then 1 else 0)"
proof (cases "k dvd y")
  case True
  then obtain q where q: "y = k * q" by blast
  have "Suc y + (k - 1) = k * Suc q" using assms q by simp
  moreover have "(y + (k - 1)) div k = q" using assms unfolding q by (subst div_mult_self4) simp_all
  ultimately show ?thesis using assms True by simp
next
  case False
  with assms have r: "0 < y mod k" "y mod k < k" by (simp_all add: mod_greater_zero_iff_not_dvd)
  have "y + (k - 1) = k * Suc (y div k) + (y mod k - 1)" using r mult_div_mod_eq [of k y] by simp
  moreover have "(k * Suc (y div k) + (y mod k - 1)) div k = Suc (y div k)" using r by (subst div_mult_self4) auto
  moreover have "(Suc y + (k - 1)) div k = Suc (y div k)" using assms by (simp add: div_add_self2)
  ultimately show ?thesis using False by simp
qed

lemma days_before_Suc: "days_before_year (Suc y) = days_before_year y + year_days y"
proof -
  define a b c where abc: "a = (y + 3) div 4" "b = (y + 99) div 100" "c = (y + 399) div 400"
  have up: "(Suc y + 3) div 4 = a + (if 4 dvd y then 1 else 0)" "(Suc y + 99) div 100 = b + (if 100 dvd y then 1 else 0)"
    "(Suc y + 399) div 400 = c + (if 400 dvd y then 1 else 0)"
    using div_round_up [of 4 y] div_round_up [of 100 y] div_round_up [of 400 y] by (simp_all add: abc)
  have dvds: "100 dvd y \<Longrightarrow> 4 dvd y" "400 dvd y \<Longrightarrow> 100 dvd y"
    by (rule dvd_trans [of 4 100 y], simp_all) (rule dvd_trans [of 100 400 y], simp_all)
  have count: "365 + z + (a + (if p then 1 else 0)) + (c + (if r then 1 else 0)) - (b + (if q then 1 else 0)) =
      z + a + c - b + (if p \<and> (\<not> q \<or> r) then 366 else 365)" if b: "b \<le> z" and pq: "q \<Longrightarrow> p" and qr: "r \<Longrightarrow> q" for p q r z
  proof -
    consider "p = True" "q = True" "r = True" | "p = True" "q = True" "r = False" | "p = True" "q = False" "r = False"
      | "p = False" "q = False" "r = False" using pq qr by blast
    then show ?thesis using b by cases simp_all
  qed
  have "b \<le> 365 * y" unfolding abc by linarith
  from count [OF this dvds] show ?thesis
    unfolding days_before_year_def up abc [symmetric] year_days_def leap_def mult_Suc_right .
qed

lemma year_split_sound: "year_split y n = (y', k) \<Longrightarrow> days_before_year y' + k = days_before_year y + n \<and> k < year_days y'"
proof (induction y n arbitrary: y' k rule: year_split.induct)
  case (1 y n)
  then show ?case
    using days_before_Suc [of y] by (cases "n < year_days y") (auto simp: year_split.simps [of y n])
qed

lemma month_split_sound:
  assumes "month_split ls m n = (m', d)" "n < sum_list ls"
  shows "\<exists>i. m' = m + i \<and> i < length ls \<and> d < ls ! i \<and> sum_list (take i ls) + d = n"
  using assms
proof (induction ls arbitrary: m n)
  case (Cons l ls)
  show ?case
  proof (cases "n < l")
    case True
    with Cons.prems show ?thesis by (intro exI [of _ 0]) auto
  next
    case False
    then have "month_split ls (Suc m) (n - l) = (m', d)" "n - l < sum_list ls" using Cons.prems by auto
    from Cons.IH [OF this] obtain i where
      "m' = Suc m + i" "i < length ls" "d < ls ! i" "sum_list (take i ls) + d = n - l" by blast
    with False show ?thesis by (intro exI [of _ "Suc i"]) auto
  qed
qed simp

lemma sum_month_lengths: "sum_list (month_lengths y) = year_days y"
  by (simp add: month_lengths_def year_days_def)

lemma date_of_day_sound:
  assumes "date_of_day n = (y, m, d)"
  shows "valid_date y m d \<and> day_of_date y m d = n"
proof -
  obtain k d0 where y: "year_split 0 n = (y, k)" "month_split (month_lengths y) 1 k = (m, d0)" "d = Suc d0"
    using assms by (auto simp: date_of_day_def Let_def split: prod.splits)
  from year_split_sound [OF y(1)] have k: "days_before_year y + k = n" "k < year_days y"
    by (simp_all add: days_before_year_def)
  from month_split_sound [OF y(2)] k(2) obtain i where "m = Suc i" "i < length (month_lengths y)" "d0 < month_lengths y ! i"
    "sum_list (take i (month_lengths y)) + d0 = k" by (auto simp: sum_month_lengths)
  moreover have "length (month_lengths y) = 12" by (simp add: month_lengths_def)
  ultimately show ?thesis using k(1) y(3) by (simp add: valid_date_def days_in_def day_of_date_def)
qed

section \<open>The layout 2006-01-02\<close>

definition pad_digits :: "nat \<Rightarrow> nat \<Rightarrow> string" where
  "pad_digits w n = replicate (w - length (format_nat n)) (CHR ''0'') @ format_nat n"

definition format_date :: "nat \<Rightarrow> string" where
  "format_date n = (let (y, m, d) = date_of_day n in pad_digits 4 y @ ''-'' @ pad_digits 2 m @ ''-'' @ pad_digits 2 d)"

definition parse_date :: "string \<Rightarrow> nat option" where
  "parse_date s =
     (if length s = 10 \<and> s ! 4 = CHR ''-'' \<and> s ! 7 = CHR ''-'' then
        (case (parse_nat (take 4 s), parse_nat (take 2 (drop 5 s)), parse_nat (drop 8 s)) of
           (Some y, Some m, Some d) \<Rightarrow> if valid_date y m d then Some (day_of_date y m d) else None
         | _ \<Rightarrow> None)
      else None)"

text \<open>Lengths and digits of padded numbers.\<close>

lemma format_nat_length: "n < 10 ^ Suc k \<Longrightarrow> length (format_nat n) \<le> Suc k"
proof (induction k arbitrary: n)
  case 0
  then show ?case by (simp add: format_nat.simps)
next
  case (Suc k)
  from Suc.prems have "n div 10 < 10 ^ Suc k" by (simp add: less_mult_imp_div_less)
  from Suc.IH [OF this] show ?case by (simp add: format_nat.simps [of n])
qed

lemma pad_digits_length: "n < 10 ^ Suc k \<Longrightarrow> length (pad_digits (Suc k) n) = Suc k"
  using format_nat_length [of n k] by (simp add: pad_digits_def)

lemma foldl_zeros: "foldl (\<lambda>a c. 10 * a + digit_val c) 0 (replicate k (CHR ''0'')) = 0"
  by (induction k) (simp_all add: digit_val_def)

lemma parse_pad_digits: "parse_nat (pad_digits k n) = Some n"
proof -
  have "list_all is_digit (replicate i (CHR ''0''))" for i by (simp add: list_all_iff is_digit_def)
  then show ?thesis
    using format_nat_digits [of n] by (simp add: parse_nat_def pad_digits_def foldl_zeros foldl_format_nat)
qed

lemma parse_format_date:
  assumes "fst (date_of_day n) < 10000"
  shows "parse_date (format_date n) = Some n"
proof -
  obtain y m d where ymd: "date_of_day n = (y, m, d)" by (metis prod.collapse)
  from date_of_day_sound [OF this] have v: "valid_date y m d" "day_of_date y m d = n" by simp_all
  have "m - 1 < 12" using v(1) by (simp add: valid_date_def) linarith
  then have "days_in y m \<in> set (month_lengths y)" unfolding days_in_def by (intro nth_mem) (simp add: month_lengths_def)
  then have "days_in y m \<le> 31" by (auto simp: month_lengths_def split: if_splits)
  then have "y < 10 ^ Suc 3" "m < 10 ^ Suc 1" "d < 10 ^ Suc 1" using assms v(1) ymd by (auto simp: valid_date_def)
  from this [THEN pad_digits_length]
  have l: "length (pad_digits 4 y) = 4" "length (pad_digits 2 m) = 2" "length (pad_digits 2 d) = 2" by (simp_all add: numeral_2_eq_2)
  let ?s = "pad_digits 4 y @ ''-'' @ pad_digits 2 m @ ''-'' @ pad_digits 2 d"
  have "length ?s = 10" "?s ! 4 = CHR ''-''" "?s ! 7 = CHR ''-''" "take 4 ?s = pad_digits 4 y" "take 2 (drop 5 ?s) = pad_digits 2 m"
      "drop 8 ?s = pad_digits 2 d"
    using l by (simp_all add: nth_append)
  then show ?thesis using v by (simp add: format_date_def ymd parse_date_def parse_pad_digits)
qed

end
