(* ===== verification/Logging.thy ===== *)
theory Logging
  imports Go_Date Go_Json "HOL-Library.List_Lexorder" "HOL-Library.Char_ord"
begin

text \<open>
  Package \<^verbatim>\<open>internal/logging\<close>: the configuration, the writer that keeps one directory per day and removes the
  expired ones, and the manager with the handler that passes a record to several handlers.

  The directory of the logs is a list of entries, \<open>None\<close> when it does not exist; entries that are not directories
  have no content in the model. Faults of the file system and the clock are arguments; a removal that fails leaves the
  directory as it is. The retention is subtracted exactly, which the 64-bit arithmetic of \<^verbatim>\<open>AddDate\<close> does for
  retentions below \<open>10 ^ 14\<close> days. The text that \<^verbatim>\<open>slog\<close> makes of a record is an argument.
\<close>

section \<open>Configuration\<close>

definition defaultLogDir :: string where "defaultLogDir = ''logs''"

definition defaultRetentionDays :: int where "defaultRetentionDays = 30"

definition defaultServiceFileName :: string where "defaultServiceFileName = ''agentic-core''"

definition LevelDebug :: int where "LevelDebug = - 4"

definition LevelInfo :: int where "LevelInfo = 0"

definition LevelWarn :: int where "LevelWarn = 4"

definition LevelError :: int where "LevelError = 8"

text \<open>\<open>None\<close> is a nil clock and a nil writer; a writer is named.\<close>

record 'w log_config =
  lc_service :: string
  lc_dir :: string
  lc_level :: int
  lc_retention :: int
  lc_console_writer :: "string option"
  lc_console :: bool
  lc_file :: bool
  lc_now :: "('w \<Rightarrow> int) option"

definition ParseLevel :: "string \<Rightarrow> int" where
  "ParseLevel raw =
     (let l = to_lower (trim_space raw) in
      if l = ''debug'' then LevelDebug
      else if l = ''warn'' \<or> l = ''warning'' then LevelWarn
      else if l = ''error'' then LevelError
      else LevelInfo)"

definition DefaultConfig :: "(string \<Rightarrow> string) \<Rightarrow> ('w \<Rightarrow> int) \<Rightarrow> string \<Rightarrow> 'w log_config" where
  "DefaultConfig getenv now service =
     (let raw = trim_space (getenv ''LOG_RETENTION_DAYS'');
          retention = (if raw \<noteq> [] then (case parse_int64 raw of Some n \<Rightarrow> if 0 < n then n else defaultRetentionDays
                                          | None \<Rightarrow> defaultRetentionDays)
                       else defaultRetentionDays);
          dir = trim_space (getenv ''LOG_DIR'') in
      \<lparr>lc_service = service, lc_dir = (if dir = [] then defaultLogDir else dir), lc_level = ParseLevel (getenv ''LOG_LEVEL''),
       lc_retention = retention, lc_console_writer = Some ''stderr'', lc_console = True, lc_file = True, lc_now = Some now\<rparr>)"

definition serviceName :: "string \<Rightarrow> string" where
  "serviceName service = (let s = trim_space service in if s = [] then defaultServiceFileName else s)"

section \<open>The daily writer\<close>

record daily_writer =
  dw_dir :: string
  dw_service :: string
  dw_retention :: int
  dw_current_date :: string
  dw_open :: bool

definition NewDailyWriter :: "string \<Rightarrow> string \<Rightarrow> int \<Rightarrow> daily_writer" where
  "NewDailyWriter dir service retention =
     \<lparr>dw_dir = dir, dw_service = serviceName service,
      dw_retention = (if retention \<le> 0 then defaultRetentionDays else retention), dw_current_date = [], dw_open = False\<rparr>"

datatype log_entry = LogDir "(string \<times> string) list" | PlainFile

type_synonym log_fs = "(string \<times> log_entry) list option"

record log_faults =
  lf_readdir :: "go_error option"
  lf_remove :: "string \<Rightarrow> go_error option"
  lf_close :: "go_error option"
  lf_mkdir :: "go_error option"
  lf_open :: "go_error option"
  lf_write :: "(nat \<times> go_error) option"
  lf_not_dir :: go_error

definition entries :: "log_fs \<Rightarrow> (string \<times> log_entry) list" where
  "entries fs = (case fs of None \<Rightarrow> [] | Some es \<Rightarrow> es)"

text \<open>The day of a time in nanoseconds since the epoch.\<close>

definition day_of_time :: "int \<Rightarrow> nat" where
  "day_of_time t = nat (719528 + t div 86400000000000)"

definition expired :: "int \<Rightarrow> string \<times> log_entry \<Rightarrow> bool" where
  "expired cutoff e =
     (case e of
        (name, LogDir _) \<Rightarrow> (case parse_date name of None \<Rightarrow> False | Some d \<Rightarrow> int d < cutoff)
      | (name, PlainFile) \<Rightarrow> False)"

fun cleanup_entries :: "log_faults \<Rightarrow> int \<Rightarrow> (string \<times> log_entry) list \<Rightarrow> (string \<times> log_entry) list \<Rightarrow>
    go_error option \<times> (string \<times> log_entry) list" where
  "cleanup_entries ff cutoff [] es = (None, es)"
| "cleanup_entries ff cutoff (e # todo) es =
     (if expired cutoff e then
        (case lf_remove ff (fst e) of
           Some err \<Rightarrow> (Some err, es)
         | None \<Rightarrow> cleanup_entries ff cutoff todo (AList.delete (fst e) es))
      else cleanup_entries ff cutoff todo es)"

definition cleanupExpiredLocked :: "log_faults \<Rightarrow> nat \<Rightarrow> daily_writer \<Rightarrow> log_fs \<Rightarrow> go_error option \<times> log_fs" where
  "cleanupExpiredLocked ff today dw fs =
     (case fs of
        None \<Rightarrow> (lf_readdir ff, None)
      | Some es \<Rightarrow>
          (case lf_readdir ff of
             Some err \<Rightarrow> (Some err, fs)
           | None \<Rightarrow> apsnd Some (cleanup_entries ff (int today - (dw_retention dw - 1)) (sort_key fst es) es)))"

definition log_file :: "daily_writer \<Rightarrow> string" where
  "log_file dw = dw_service dw @ ''.jsonl''"

text \<open>\<^verbatim>\<open>MkdirAll\<close> of the day's directory.\<close>

definition make_dir :: "log_faults \<Rightarrow> string \<Rightarrow> log_fs \<Rightarrow> go_error option \<times> log_fs" where
  "make_dir ff date fs =
     (case lf_mkdir ff of
        Some err \<Rightarrow> (Some err, fs)
      | None \<Rightarrow>
          (case map_of (entries fs) date of
             Some (LogDir files) \<Rightarrow> (None, fs)
           | Some PlainFile \<Rightarrow> (Some (lf_not_dir ff), fs)
           | None \<Rightarrow> (None, Some (AList.update date (LogDir []) (entries fs)))))"

text \<open>The files of a directory, empty when there is none.\<close>

definition dir_files :: "string \<Rightarrow> log_fs \<Rightarrow> (string \<times> string) list" where
  "dir_files date fs = (case map_of (entries fs) date of Some (LogDir files) \<Rightarrow> files | _ \<Rightarrow> [])"

definition set_files :: "string \<Rightarrow> (string \<times> string) list \<Rightarrow> log_fs \<Rightarrow> log_fs" where
  "set_files date files fs = Some (AList.update date (LogDir files) (entries fs))"

definition open_file :: "string \<Rightarrow> string \<Rightarrow> log_fs \<Rightarrow> log_fs" where
  "open_file date file fs =
     (case map_of (dir_files date fs) file of
        Some _ \<Rightarrow> fs
      | None \<Rightarrow> set_files date (AList.update file [] (dir_files date fs)) fs)"

definition rotateLocked :: "log_faults \<Rightarrow> nat \<Rightarrow> daily_writer \<Rightarrow> log_fs \<Rightarrow> go_error option \<times> daily_writer \<times> log_fs" where
  "rotateLocked ff today dw fs =
     (let date = format_date today in
      case cleanupExpiredLocked ff today dw fs of
        (Some err, fs) \<Rightarrow> (Some err, dw, fs)
      | (None, fs) \<Rightarrow>
          if dw_open dw \<and> dw_current_date dw = date then (None, dw, fs)
          else case (if dw_open dw then lf_close ff else None) of
            Some err \<Rightarrow> (Some err, dw, fs)
          | None \<Rightarrow>
              let dw = dw\<lparr>dw_open := False\<rparr> in
              (case make_dir ff date fs of
                 (Some err, fs) \<Rightarrow> (Some err, dw, fs)
               | (None, fs) \<Rightarrow>
                   (case lf_open ff of
                      Some err \<Rightarrow> (Some err, dw, fs)
                    | None \<Rightarrow> (None, dw\<lparr>dw_current_date := date, dw_open := True\<rparr>, open_file date (log_file dw) fs))))"

text \<open>Appending through the open handle; the text is lost when the file was unlinked meanwhile.\<close>

definition append_file :: "string \<Rightarrow> string \<Rightarrow> string \<Rightarrow> log_fs \<Rightarrow> log_fs" where
  "append_file date file p fs =
     (case map_of (dir_files date fs) file of
        None \<Rightarrow> fs
      | Some text \<Rightarrow> set_files date (AList.update file (text @ p) (dir_files date fs)) fs)"

definition daily_Write :: "log_faults \<Rightarrow> nat \<Rightarrow> string \<Rightarrow> daily_writer \<Rightarrow> log_fs \<Rightarrow> (nat \<times> go_error option) \<times> daily_writer \<times> log_fs" where
  "daily_Write ff today p dw fs =
     (case rotateLocked ff today dw fs of
        (Some err, dw, fs) \<Rightarrow> ((0, Some err), dw, fs)
      | (None, dw, fs) \<Rightarrow>
          (case lf_write ff of
             Some (n, err) \<Rightarrow> ((n, Some err), dw, append_file (dw_current_date dw) (log_file dw) (take n p) fs)
           | None \<Rightarrow> ((length p, None), dw, append_file (dw_current_date dw) (log_file dw) p fs)))"

definition daily_Close :: "log_faults \<Rightarrow> daily_writer \<Rightarrow> go_error option \<times> daily_writer" where
  "daily_Close ff dw = (if dw_open dw then (lf_close ff, dw\<lparr>dw_open := False\<rparr>) else (None, dw))"

section \<open>What a write does\<close>

definition no_log_faults :: "log_faults \<Rightarrow> bool" where
  "no_log_faults ff =
     (lf_readdir ff = None \<and> lf_remove ff = (\<lambda>_. None) \<and> lf_close ff = None \<and> lf_mkdir ff = None \<and> lf_open ff = None \<and> lf_write ff = None)"

text \<open>The invariant: names are unique and an open writer has its file.\<close>

definition log_ok :: "daily_writer \<Rightarrow> log_fs \<Rightarrow> bool" where
  "log_ok dw fs =
     (distinct (map fst (entries fs)) \<and> 1 \<le> dw_retention dw \<and>
      (dw_open dw \<longrightarrow> map_of (dir_files (dw_current_date dw) fs) (log_file dw) \<noteq> None))"

lemma cleanup_entries_map:
  assumes "lf_remove ff = (\<lambda>_. None)"
  shows "\<exists>es'. cleanup_entries ff cutoff todo es = (None, es') \<and> (distinct (map fst es) \<longrightarrow> distinct (map fst es')) \<and>
    (\<forall>k. map_of es' k = (if \<exists>e \<in> set todo. fst e = k \<and> expired cutoff e then None else map_of es k))"
proof (induction todo arbitrary: es)
  case (Cons e todo)
  show ?case
  proof (cases "expired cutoff e")
    case True
    from Cons.IH [of "AList.delete (fst e) es"] obtain es' where
      "cleanup_entries ff cutoff todo (AList.delete (fst e) es) = (None, es')"
      "distinct (map fst (AList.delete (fst e) es)) \<longrightarrow> distinct (map fst es')"
      "\<forall>k. map_of es' k = (if \<exists>e \<in> set todo. fst e = k \<and> expired cutoff e then None else map_of (AList.delete (fst e) es) k)" by blast
    with True assms show ?thesis by (auto simp: delete_conv' distinct_delete intro!: exI [of _ es'])
  next
    case False
    with Cons.IH [of es] show ?thesis by auto
  qed
qed simp

lemma cleanup_map:
  assumes "no_log_faults ff" "distinct (map fst (entries fs))"
  shows "\<exists>fs'. cleanupExpiredLocked ff today dw fs = (None, fs') \<and> distinct (map fst (entries fs')) \<and>
    (\<forall>k. map_of (entries fs') k =
      (case map_of (entries fs) k of
         Some e \<Rightarrow> if expired (int today - (dw_retention dw - 1)) (k, e) then None else Some e
       | None \<Rightarrow> None))"
proof (cases fs)
  case (Some es)
  let ?c = "int today - (dw_retention dw - 1)"
  from cleanup_entries_map [of ff ?c "sort_key fst es" es] assms Some obtain es' where
    es': "cleanup_entries ff ?c (sort_key fst es) es = (None, es')" "distinct (map fst es')"
      "\<forall>k. map_of es' k = (if \<exists>e \<in> set es. fst e = k \<and> expired ?c e then None else map_of es k)"
    by (auto simp: no_log_faults_def entries_def)
  have "(\<exists>e \<in> set es. fst e = k \<and> expired ?c e) \<longleftrightarrow> (\<exists>e. map_of es k = Some e \<and> expired ?c (k, e))" for k
    using assms(2) Some by (force simp: entries_def)
  with es' Some assms(1) show ?thesis
    by (auto simp: cleanupExpiredLocked_def no_log_faults_def entries_def split: option.splits)
qed (use assms in \<open>simp add: cleanupExpiredLocked_def no_log_faults_def entries_def\<close>)

lemma today_not_expired:
  assumes "fst (date_of_day today) < 10000" "1 \<le> r"
  shows "\<not> expired (int today - (r - 1)) (format_date today, e)"
  using assms by (cases e) (simp_all add: expired_def parse_format_date)

lemma set_files_conv [simp]:
  "map_of (entries (set_files date files fs)) k = (if k = date then Some (LogDir files) else map_of (entries fs) k)"
  "dir_files d (set_files date files fs) = (if d = date then files else dir_files d fs)"
  "distinct (map fst (entries fs)) \<Longrightarrow> distinct (map fst (entries (set_files date files fs)))"
  by (auto simp: set_files_def entries_def dir_files_def update_conv' distinct_update)

text \<open>Text added to the file of a day, everything else kept.\<close>

definition adds_text :: "string \<Rightarrow> string \<Rightarrow> string \<Rightarrow> log_fs \<Rightarrow> log_fs \<Rightarrow> bool" where
  "adds_text date file p fs fs' =
     (distinct (map fst (entries fs')) \<and>
      map_of (dir_files date fs') file = Some ((case map_of (dir_files date fs) file of Some t \<Rightarrow> t | None \<Rightarrow> []) @ p) \<and>
      (\<forall>f. f \<noteq> file \<longrightarrow> map_of (dir_files date fs') f = map_of (dir_files date fs) f) \<and>
      (\<forall>k. k \<noteq> date \<longrightarrow> map_of (entries fs') k = map_of (entries fs) k))"

lemma open_file_adds:
  assumes "distinct (map fst (entries fs))"
  shows "adds_text date file [] fs (open_file date file fs)"
  using assms by (auto simp: adds_text_def open_file_def update_conv' split: option.splits)

lemma append_file_adds:
  assumes "distinct (map fst (entries fs))" "map_of (dir_files date fs) file \<noteq> None"
  shows "adds_text date file p fs (append_file date file p fs)"
  using assms by (auto simp: adds_text_def append_file_def update_conv')

lemma adds_text_trans:
  "adds_text date file p fs fs1 \<Longrightarrow> adds_text date file q fs1 fs2 \<Longrightarrow> adds_text date file (p @ q) fs fs2"
  by (auto simp: adds_text_def)

lemma make_dir_ok:
  assumes "lf_mkdir ff = None" "map_of (entries fs) date \<noteq> Some PlainFile" "distinct (map fst (entries fs))"
  shows "\<exists>fs'. make_dir ff date fs = (None, fs') \<and> distinct (map fst (entries fs')) \<and> dir_files date fs' = dir_files date fs \<and>
    (\<forall>k. k \<noteq> date \<longrightarrow> map_of (entries fs') k = map_of (entries fs) k)"
proof (cases "map_of (entries fs) date")
  case None
  then have "make_dir ff date fs = (None, set_files date [] fs)" "dir_files date fs = []"
    using assms(1) by (simp_all add: make_dir_def set_files_def dir_files_def)
  with assms(3) show ?thesis by auto
next
  case (Some e)
  with assms show ?thesis by (cases e) (simp_all add: make_dir_def)
qed

text \<open>Without faults rotation removes the expired days and leaves the writer on the file of the day.\<close>

lemma rotate_ok:
  assumes ff: "no_log_faults ff" and y: "fst (date_of_day today) < 10000" and ok: "log_ok dw fs"
    and plain: "map_of (entries fs) (format_date today) \<noteq> Some PlainFile"
    and c: "cleanupExpiredLocked ff today dw fs = (None, fs1)"
  shows "\<exists>fs2. rotateLocked ff today dw fs = (None, dw\<lparr>dw_current_date := format_date today, dw_open := True\<rparr>, fs2) \<and>
    adds_text (format_date today) (log_file dw) [] fs1 fs2"
proof -
  let ?d = "format_date today"
  from cleanup_map [OF ff, of fs today dw] ok c have fs1: "distinct (map fst (entries fs1))"
    and m: "\<And>k. map_of (entries fs1) k = (case map_of (entries fs) k of
         Some e \<Rightarrow> if expired (int today - (dw_retention dw - 1)) (k, e) then None else Some e | None \<Rightarrow> None)"
    by (auto simp: log_ok_def)
  have d: "map_of (entries fs1) ?d = map_of (entries fs) ?d"
    using m [of ?d] today_not_expired [OF y] ok by (auto simp: log_ok_def split: option.splits)
  show ?thesis
  proof (cases "dw_open dw \<and> dw_current_date dw = ?d")
    case True
    with ok d have "map_of (dir_files ?d fs1) (log_file dw) \<noteq> None" by (simp add: log_ok_def dir_files_def)
    with True c fs1 show ?thesis by (auto simp: rotateLocked_def adds_text_def Let_def intro!: exI [of _ fs1])
  next
    case False
    from make_dir_ok [of ff fs1 ?d] ff plain d fs1 obtain fs2 where 2: "make_dir ff ?d fs1 = (None, fs2)"
      "distinct (map fst (entries fs2))" "dir_files ?d fs2 = dir_files ?d fs1"
      "\<forall>k. k \<noteq> ?d \<longrightarrow> map_of (entries fs2) k = map_of (entries fs1) k" by (auto simp: no_log_faults_def)
    have "adds_text ?d (log_file dw) [] fs1 (open_file ?d (log_file dw) fs2)"
      using open_file_adds [OF 2(2), of ?d "log_file dw"] 2(3,4) by (auto simp: adds_text_def)
    moreover have "rotateLocked ff today dw fs = (None, dw\<lparr>dw_current_date := ?d, dw_open := True\<rparr>, open_file ?d (log_file dw) fs2)"
      using False c 2(1) ff by (auto simp: rotateLocked_def no_log_faults_def Let_def log_file_def)
    ultimately show ?thesis by blast
  qed
qed

text \<open>
  C40. Every log line ends up in the file of its day, and retention takes exactly what it should. Without faults of the
  file system a write returns the full length, appends the line to the service's file in the directory of the
  current UTC date (creating both if needed) and keeps all other files of that directory, such as those of the other
  services; every other directory whose name is a date older than the retention window is gone, and everything else, other
  directories and plain files included, is untouched. The invariant of writer and directory is kept, so this holds
  for every following write, also across midnight.
\<close>

theorem daily_write_appends_and_expires:
  assumes "no_log_faults ff" "log_ok dw fs" "fst (date_of_day today) < 10000"
    and "map_of (entries fs) (format_date today) \<noteq> Some PlainFile"
  shows "\<exists>dw' fs'. daily_Write ff today p dw fs = ((length p, None), dw', fs') \<and> log_ok dw' fs' \<and>
    map_of (dir_files (format_date today) fs') (log_file dw) =
      Some ((case map_of (dir_files (format_date today) fs) (log_file dw) of Some t \<Rightarrow> t | None \<Rightarrow> []) @ p) \<and>
    (\<forall>f. f \<noteq> log_file dw \<longrightarrow> map_of (dir_files (format_date today) fs') f = map_of (dir_files (format_date today) fs) f) \<and>
    (\<forall>k. k \<noteq> format_date today \<longrightarrow> map_of (entries fs') k =
      (case map_of (entries fs) k of
         Some (LogDir files) \<Rightarrow> if \<exists>d. parse_date k = Some d \<and> int d \<le> int today - dw_retention dw then None else Some (LogDir files)
       | e \<Rightarrow> e))"
proof -
  let ?d = "format_date today" and ?dw = "dw\<lparr>dw_current_date := format_date today, dw_open := True\<rparr>"
  from cleanup_map [OF assms(1), of fs today dw] assms(2) obtain fs1 where
    c: "cleanupExpiredLocked ff today dw fs = (None, fs1)"
    and m: "\<And>k. map_of (entries fs1) k = (case map_of (entries fs) k of
         Some e \<Rightarrow> if expired (int today - (dw_retention dw - 1)) (k, e) then None else Some e | None \<Rightarrow> None)"
    by (auto simp: log_ok_def)
  from rotate_ok [OF assms(1,3,2,4) c] obtain fs2 where r: "rotateLocked ff today dw fs = (None, ?dw, fs2)"
    and 2: "adds_text ?d (log_file dw) [] fs1 fs2" by blast
  then have 3: "adds_text ?d (log_file dw) p fs1 (append_file ?d (log_file dw) p fs2)"
    using adds_text_trans [OF 2 append_file_adds] by (simp add: adds_text_def)
  have w: "daily_Write ff today p dw fs = ((length p, None), ?dw, append_file ?d (log_file dw) p fs2)"
    using r assms(1) by (simp add: daily_Write_def no_log_faults_def log_file_def)
  have d: "dir_files ?d fs1 = dir_files ?d fs"
    using m [of ?d] today_not_expired [OF assms(3)] assms(2) by (auto simp: log_ok_def dir_files_def split: option.splits)
  have e: "map_of (entries fs1) k = (case map_of (entries fs) k of
      Some (LogDir files) \<Rightarrow> if \<exists>d. parse_date k = Some d \<and> int d \<le> int today - dw_retention dw then None else Some (LogDir files)
    | e \<Rightarrow> e)" for k
    unfolding m by (auto simp: expired_def split: option.splits log_entry.splits)
  have "log_ok ?dw (append_file ?d (log_file dw) p fs2)" using 3 assms(2) by (simp add: log_ok_def adds_text_def log_file_def)
  moreover note 3 [unfolded adds_text_def d e]
  ultimately show ?thesis
    by (intro exI [of _ ?dw] exI [of _ "append_file ?d (log_file dw) p fs2"] conjI w) (elim conjE; assumption)+
qed

definition quiet :: log_faults where
  "quiet = \<lparr>lf_readdir = None, lf_remove = (\<lambda>_. None), lf_close = None, lf_mkdir = None, lf_open = None, lf_write = None,
     lf_not_dir = errorf ''not a directory''\<rparr>"

definition sample_logs :: log_fs where
  "sample_logs = Some [(''0001-02-01'', LogDir [(''gateway.jsonl'', ''x'')]), (''0001-02-02'', LogDir []), (''notes'', LogDir []),
     (''0001-02-04'', LogDir [(''gateway.jsonl'', ''y'')])]"

theorem daily_write_appends_and_expires_witness:
  "\<exists>dw' fs'. daily_Write quiet 400 ''line'' (NewDailyWriter ''logs'' ''orchestrator'' 3) sample_logs = ((4, None), dw', fs') \<and>
    map_of (dir_files ''0001-02-04'' fs') ''orchestrator.jsonl'' = Some ''line'' \<and>
    map_of (dir_files ''0001-02-04'' fs') ''gateway.jsonl'' = Some ''y'' \<and>
    map_of (entries fs') ''0001-02-01'' = None \<and> map_of (entries fs') ''0001-02-02'' = Some (LogDir [])"
proof -
  let ?dw = "NewDailyWriter ''logs'' ''orchestrator'' 3"
  have "dw_retention ?dw = 3" "log_file ?dw = ''orchestrator.jsonl''" "dw_open ?dw = False" by code_simp+
  moreover have "format_date 400 = ''0001-02-04''" "fst (date_of_day 400) < 10000" by code_simp+
  moreover have "parse_date ''0001-02-01'' = Some 397" "parse_date ''0001-02-02'' = Some 398" by code_simp+
  moreover have "no_log_faults quiet" "distinct (map fst (entries sample_logs))"
    by (simp_all add: no_log_faults_def quiet_def sample_logs_def entries_def)
  moreover have "map_of (entries sample_logs) ''0001-02-04'' \<noteq> Some PlainFile" by (simp add: sample_logs_def entries_def)
  ultimately show ?thesis
    using daily_write_appends_and_expires [of quiet ?dw sample_logs 400 "''line''"]
    by (fastforce simp: log_ok_def sample_logs_def entries_def dir_files_def)
qed

section \<open>Handlers\<close>

text \<open>
  A record's level, message and attributes; a handler's destination, level, attributes and groups. The value of
  an attribute is the JSON value a handler makes of it, a string for \<^verbatim>\<open>slog.String\<close>.
\<close>

record log_record =
  lr_level :: int
  lr_message :: string
  lr_attrs :: "(string \<times> json) list"

datatype log_sink = ConsoleTo string | DiscardAll | DailyFile

record log_handler =
  lh_sink :: log_sink
  lh_level :: int
  lh_attrs :: "(string \<times> json) list"
  lh_groups :: "string list"

definition newConsoleHandler :: "log_sink \<Rightarrow> int \<Rightarrow> log_handler" where
  "newConsoleHandler writer level = \<lparr>lh_sink = writer, lh_level = level, lh_attrs = [], lh_groups = []\<rparr>"

text \<open>
  The attributes \<^verbatim>\<open>slog\<close> adds itself are renamed and reformatted on the console; \<open>rfc3339\<close> is \<^verbatim>\<open>Time.Format\<close>, \<open>text\<close>
  \<^verbatim>\<open>Value.String\<close> of a time.
\<close>

datatype attr_value = AttrTime int | AttrText string

definition console_replace :: "(int \<Rightarrow> string) \<Rightarrow> (int \<Rightarrow> string) \<Rightarrow> string \<times> attr_value \<Rightarrow> string \<times> attr_value" where
  "console_replace rfc3339 text attr =
     (let (key, v) = attr in
      if key = ''time'' then (''ts'', case v of AttrTime t \<Rightarrow> AttrText (rfc3339 t) | AttrText x \<Rightarrow> v)
      else if key = ''level'' then (key, AttrText (to_upper (case v of AttrTime t \<Rightarrow> text t | AttrText x \<Rightarrow> x)))
      else attr)"

definition handler_Enabled :: "int \<Rightarrow> log_handler \<Rightarrow> bool" where
  "handler_Enabled level h = (lh_level h \<le> level)"

definition newTeeHandler :: "log_handler option list \<Rightarrow> log_handler list" where
  "newTeeHandler handlers = List.map_filter (\<lambda>h. h) handlers"

fun tee_Enabled :: "int \<Rightarrow> log_handler list \<Rightarrow> bool" where
  "tee_Enabled level [] = False"
| "tee_Enabled level (h # hs) = (if handler_Enabled level h then True else tee_Enabled level hs)"

text \<open>\<open>emit\<close> writes a record through one handler; \<open>firstErr\<close> is the error so far.\<close>

fun tee_loop :: "(log_handler \<Rightarrow> log_record \<Rightarrow> 's \<Rightarrow> go_error option \<times> 's) \<Rightarrow> log_record \<Rightarrow> log_handler list \<Rightarrow>
    go_error option \<Rightarrow> 's \<Rightarrow> go_error option \<times> 's" where
  "tee_loop emit r [] firstErr s = (firstErr, s)"
| "tee_loop emit r (h # hs) firstErr s =
     (if \<not> handler_Enabled (lr_level r) h then tee_loop emit r hs firstErr s
      else let (err, s) = emit h r s in
           tee_loop emit r hs (if err \<noteq> None \<and> firstErr = None then err else firstErr) s)"

definition tee_Handle :: "(log_handler \<Rightarrow> log_record \<Rightarrow> 's \<Rightarrow> go_error option \<times> 's) \<Rightarrow> log_handler list \<Rightarrow> log_record \<Rightarrow>
    's \<Rightarrow> go_error option \<times> 's" where
  "tee_Handle emit hs r s = tee_loop emit r hs None s"

definition tee_WithAttrs :: "(string \<times> json) list \<Rightarrow> log_handler list \<Rightarrow> log_handler list" where
  "tee_WithAttrs attrs hs = map (\<lambda>h. h\<lparr>lh_attrs := lh_attrs h @ attrs\<rparr>) hs"

definition tee_WithGroup :: "string \<Rightarrow> log_handler list \<Rightarrow> log_handler list" where
  "tee_WithGroup name hs = map (\<lambda>h. h\<lparr>lh_groups := lh_groups h @ [name]\<rparr>) hs"

section \<open>The manager\<close>

text \<open>The only closer a manager has is its daily writer.\<close>

record 'w log_manager =
  lm_service :: string
  lm_root :: "log_handler list"
  lm_writer :: "daily_writer option"
  lm_now :: "'w \<Rightarrow> int"

definition NewManager :: "(string \<Rightarrow> string) \<Rightarrow> ('w \<Rightarrow> int) \<Rightarrow> 'w log_config \<Rightarrow> 'w log_manager" where
  "NewManager getenv now cfg =
     (let service = serviceName (lc_service cfg);
          level = lc_level cfg;
          clock = (case lc_now cfg of Some f \<Rightarrow> f | None \<Rightarrow> now);
          dir = (if lc_dir cfg = [] then lc_dir (DefaultConfig getenv now service :: 'w log_config) else lc_dir cfg);
          retention = (if lc_retention cfg \<le> 0 then defaultRetentionDays else lc_retention cfg);
          console = (case lc_console_writer cfg of Some c \<Rightarrow> c | None \<Rightarrow> ''stderr'');
          handlers = (if lc_console cfg then [Some (newConsoleHandler (ConsoleTo console) level)] else []) @
                     (if lc_file cfg then [Some \<lparr>lh_sink = DailyFile, lh_level = level, lh_attrs = [], lh_groups = []\<rparr>] else []);
          handlers = (if handlers = [] then [Some (newConsoleHandler DiscardAll level)] else handlers) in
      \<lparr>lm_service = service, lm_root = tee_WithAttrs [(''service'', JStr service)] (newTeeHandler handlers),
       lm_writer = (if lc_file cfg then Some (NewDailyWriter dir service retention) else None), lm_now = clock\<rparr>)"

definition manager_Close :: "log_faults \<Rightarrow> 'w log_manager \<Rightarrow> go_error option \<times> 'w log_manager" where
  "manager_Close ff m =
     (case lm_writer m of
        None \<Rightarrow> (None, m)
      | Some dw \<Rightarrow> (let (err, dw) = daily_Close ff dw in (err, m\<lparr>lm_writer := Some dw\<rparr>)))"

text \<open>The package variable \<^verbatim>\<open>currentManager\<close> is passed along; \<open>Init\<close> also yields the manager it closed.\<close>

definition log_Init :: "(string \<Rightarrow> string) \<Rightarrow> ('w \<Rightarrow> int) \<Rightarrow> log_faults \<Rightarrow> 'w log_config \<Rightarrow> 'w log_manager option \<Rightarrow>
    'w log_manager option \<times> 'w log_manager" where
  "log_Init getenv now ff cfg current =
     (map_option (\<lambda>m. snd (manager_Close ff m)) current, NewManager getenv now cfg)"

definition log_Default :: "(string \<Rightarrow> string) \<Rightarrow> ('w \<Rightarrow> int) \<Rightarrow> 'w log_manager option \<Rightarrow> 'w log_manager" where
  "log_Default getenv now current =
     (case current of
        Some m \<Rightarrow> m
      | None \<Rightarrow> NewManager getenv now
          \<lparr>lc_service = defaultServiceFileName, lc_dir = [], lc_level = LevelInfo, lc_retention = 0,
           lc_console_writer = Some ''stderr'', lc_console = True, lc_file = False, lc_now = None\<rparr>)"

definition manager_Component :: "string \<Rightarrow> 'w log_manager \<Rightarrow> log_handler list" where
  "manager_Component name m = (if name = [] then lm_root m else tee_WithAttrs [(''component'', JStr name)] (lm_root m))"

definition log_Component :: "(string \<Rightarrow> string) \<Rightarrow> ('w \<Rightarrow> int) \<Rightarrow> string \<Rightarrow> 'w log_manager option \<Rightarrow> log_handler list" where
  "log_Component getenv now name current = manager_Component name (log_Default getenv now current)"

lemma tee_loop_reaches_all:
  "snd (tee_loop emit r hs e s) = fold (\<lambda>h s. snd (emit h r s)) (filter (handler_Enabled (lr_level r)) hs) s"
  by (induction hs arbitrary: e s) (auto simp: Let_def split_beta)

text \<open>A failing handler does not keep a record from the handlers after it.\<close>

lemma tee_reaches_all:
  "snd (tee_Handle emit hs r s) = fold (\<lambda>h s. snd (emit h r s)) (filter (handler_Enabled (lr_level r)) hs) s"
  by (simp add: tee_Handle_def tee_loop_reaches_all)

lemma tee_Enabled_iff: "tee_Enabled level hs \<longleftrightarrow> (\<exists>h \<in> set hs. handler_Enabled level h)"
  by (induction hs) auto

lemma tee_disabled: "\<not> tee_Enabled (lr_level r) hs \<Longrightarrow> tee_Handle emit hs r s = (None, s)"
  by (induction hs) (auto simp: tee_Handle_def split: if_splits)

lemma component_attrs:
  "h \<in> set (manager_Component name (NewManager getenv now cfg)) \<Longrightarrow>
    lh_level h = lc_level cfg \<and> hd (lh_attrs h) = (''service'', JStr (serviceName (lc_service cfg)))"
  by (auto simp: manager_Component_def NewManager_def tee_WithAttrs_def newTeeHandler_def newConsoleHandler_def
      map_filter_def Let_def split: if_splits)

lemma Default_after_Init: "log_Default getenv now (Some (snd (log_Init getenv now ff cfg current))) = NewManager getenv now cfg"
  by (simp add: log_Default_def log_Init_def)

end
