(* ===== verification/Audit_Log.thy ===== *)
theory Audit_Log
  imports Process Json_Roundtrip Logging
begin

text \<open>
  Package \<^verbatim>\<open>internal/process\<close>, the log lines of the audit trail (\<^verbatim>\<open>audit.go\<close>): the auditor with its logger, and
  \<^verbatim>\<open>LogAction\<close>. Publishing an event is the function \<open>Record\<close> of theory \<open>Process\<close>; here the line that follows it
  is added. \<open>emit\<close> writes a record through one handler of the logger (theory \<open>Logging\<close>), \<open>'s\<close> is the state of the
  logs.
\<close>

section \<open>The auditor\<close>

record 'w auditor =
  ad_events :: "(string \<Rightarrow> message \<Rightarrow> 'w \<Rightarrow> go_error option \<times> 'w) option"
  ad_sender_id :: string
  ad_logger :: "log_handler list"

text \<open>\<open>component\<close> is the logger \<^verbatim>\<open>logging.Component("audit")\<close> yields.\<close>

definition NewAuditor :: "log_handler list \<Rightarrow> (string \<Rightarrow> message \<Rightarrow> 'w \<Rightarrow> go_error option \<times> 'w) option \<Rightarrow> string \<Rightarrow> 'w auditor" where
  "NewAuditor component events senderID =
     \<lparr>ad_events = events, ad_sender_id = senderID, ad_logger = tee_WithAttrs [(''actor'', JStr senderID)] component\<rparr>"

definition slog_value :: "slog_level \<Rightarrow> int" where
  "slog_value l = (case l of
     slog_level.LevelDebug \<Rightarrow> Logging.LevelDebug
   | slog_level.LevelInfo \<Rightarrow> Logging.LevelInfo
   | slog_level.LevelWarn \<Rightarrow> Logging.LevelWarn
   | slog_level.LevelError \<Rightarrow> Logging.LevelError)"

text \<open>\<^verbatim>\<open>Logger.LogAttrs\<close>: a record below the level is not built, the error of the handler is dropped.\<close>

definition LogAttrs :: "(log_handler \<Rightarrow> log_record \<Rightarrow> 's \<Rightarrow> go_error option \<times> 's) \<Rightarrow> log_handler list \<Rightarrow> int \<Rightarrow> string \<Rightarrow>
    (string \<times> json) list \<Rightarrow> 's \<Rightarrow> 's" where
  "LogAttrs emit logger level msg attrs s =
     (if tee_Enabled level logger
      then snd (tee_Handle emit logger \<lparr>lr_level = level, lr_message = msg, lr_attrs = attrs\<rparr> s) else s)"

definition data_attr :: "(string \<Rightarrow> string option) \<Rightarrow> string \<Rightarrow> (string \<times> json) list" where
  "data_attr fmt64 raw = (case decodeJSONValue fmt64 raw of Some v \<Rightarrow> [(''data'', v)] | None \<Rightarrow> [])"

definition audit_attrs :: "(string \<Rightarrow> string option) \<Rightarrow> audit_event \<Rightarrow> (string \<times> json) list" where
  "audit_attrs fmt64 e =
     [(''event'', JStr (au_event e)), (''task_id'', JStr (au_task_id e)), (''parent_task_id'', JStr (au_parent_task_id e)),
      (''tool_call_id'', JStr (au_tool_call_id e)), (''status'', JStr (au_status e)), (''error'', JStr (au_error e))] @
     (if au_trace_id e \<noteq> [] then [(''trace_id'', JStr (au_trace_id e))] else []) @
     (if au_session_id e \<noteq> [] then [(''session_id'', JStr (au_session_id e))] else []) @
     data_attr fmt64 (au_data e)"

text \<open>A nil auditor does nothing; an event that cannot be encoded or published is not logged.\<close>

definition Auditor_Record :: "(string \<Rightarrow> string) \<Rightarrow> (string \<Rightarrow> string option) \<Rightarrow>
    (log_handler \<Rightarrow> log_record \<Rightarrow> 's \<Rightarrow> go_error option \<times> 's) \<Rightarrow> int \<Rightarrow> 'w auditor option \<Rightarrow> audit_event \<Rightarrow>
    'w \<times> 's \<Rightarrow> go_error option \<times> 'w \<times> 's" where
  "Auditor_Record jerr fmt64 emit now auditor event st =
     (case auditor of
        None \<Rightarrow> (None, st)
      | Some a \<Rightarrow>
          (case Record jerr (ad_events a) (ad_sender_id a) now event (fst st) of
             (Some err, w) \<Rightarrow> (Some err, w, snd st)
           | (None, w) \<Rightarrow>
               let e = fill_defaults (ad_sender_id a) now event in
               (None, w, LogAttrs emit (ad_logger a) (slog_value (levelFromString (au_level e))) ''audit event''
                  (audit_attrs fmt64 e) (snd st))))"

section \<open>Legacy actions\<close>

text \<open>The payload is the JSON value the encoder makes of it, \<open>None\<close> when it fails.\<close>

definition mustJSON :: "json option \<Rightarrow> string" where
  "mustJSON payload = (case payload of Some v \<Rightarrow> json_print v | None \<Rightarrow> [])"

definition action_attrs :: "(string \<Rightarrow> string option) \<Rightarrow> string \<Rightarrow> string \<Rightarrow> string \<Rightarrow> json option \<Rightarrow> (string \<times> json) list" where
  "action_attrs fmt64 agentID action level payload =
     [(''event'', JStr action), (''stage'', JStr action), (''task_id'', JStr agentID),
      (''status'', JStr (legacyStatus level))] @ data_attr fmt64 (redactJSON fmt64 (mustJSON payload))"

definition LogAction :: "(string \<Rightarrow> string option) \<Rightarrow> (log_handler \<Rightarrow> log_record \<Rightarrow> 's \<Rightarrow> go_error option \<times> 's) \<Rightarrow>
    log_handler list \<Rightarrow> string \<Rightarrow> string \<Rightarrow> string \<Rightarrow> json option \<Rightarrow> 's \<Rightarrow> 's" where
  "LogAction fmt64 emit component agentID action level payload s =
     LogAttrs emit (tee_WithAttrs [(''actor'', JStr agentID)] component) (slog_value (levelFromString level))
       ''legacy audit action'' (action_attrs fmt64 agentID action level payload) s"

section \<open>What the lines hold\<close>

lemma all_opt_SomeD: "all_opt xs = Some ys \<Longrightarrow> map fst ys = map fst xs \<and> map (Some \<circ> snd) ys = map snd xs"
  by (induction xs arbitrary: ys rule: all_opt.induct) (auto split: option.splits)

lemma all_opt_members:
  assumes "all_opt xs = Some ys" "(k, y) \<in> set ys"
  shows "(k, Some y) \<in> set xs"
proof -
  from all_opt_SomeD [OF assms(1)] have "map (\<lambda>(k, y). (k, Some y)) ys = xs"
    by (intro nth_equalityI) (auto simp: list_eq_iff_nth_eq split_beta prod_eq_iff)
  with assms(2) show ?thesis by force
qed

lemma last_wins_members: "set (last_wins ms) \<subseteq> set ms"
proof
  fix p assume "p \<in> set (last_wins ms)"
  then obtain k where k: "k \<in> fst ` set ms" "p = (k, the (map_of (rev ms) k))" by (auto simp: last_wins_def)
  then obtain v where "map_of (rev ms) k = Some v" by (cases "map_of (rev ms) k") (auto simp: map_of_eq_None_iff)
  with k show "p \<in> set ms" by (auto dest: map_of_SomeD)
qed

text \<open>Decoding keeps a property of values that holds of numbers, scalars, and what its members satisfy.\<close>

lemma no_secrets_to_interface: "no_secrets v \<Longrightarrow> to_interface fmt64 v = Some y \<Longrightarrow> no_secrets y"
proof (induction fmt64 v arbitrary: y rule: to_interface.induct)
  case (2 fmt64 vs)
  then obtain xs where xs: "all_opt (map (\<lambda>v. ((), to_interface fmt64 v)) vs) = Some xs" "y = JArr (map snd xs)" by auto
  have "no_secrets x" if "((), x) \<in> set xs" for x
    using all_opt_members [OF xs(1) that] 2 by (auto simp: list_all_iff)
  with xs(2) show ?case by (auto simp: list_all_iff)
next
  case (3 fmt64 ms)
  then obtain xs where xs: "all_opt (map (\<lambda>(k, v). (k, to_interface fmt64 v)) ms) = Some xs" "y = JObj (last_wins xs)"
    by auto
  have "if isSensitiveKey k then x = JStr redactedValue else no_secrets x" if "(k, x) \<in> set xs" for k x
  proof -
    from all_opt_members [OF xs(1) that] obtain v where v: "(k, v) \<in> set ms" "to_interface fmt64 v = Some x" by auto
    with 3 show ?thesis by (fastforce simp: list_all_iff)
  qed
  with xs(2) last_wins_members [of xs] show ?case by (auto simp: list_all_iff)
qed auto

text \<open>\<open>renders\<close>: the rendering of a number is a number.\<close>

definition renders :: "(string \<Rightarrow> string option) \<Rightarrow> bool" where
  "renders fmt64 = (\<forall>n m. fmt64 n = Some m \<longrightarrow> num_ok m)"

lemma json_ok_to_interface:
  "json_ok d v \<Longrightarrow> renders fmt64 \<Longrightarrow> to_interface fmt64 v = Some y \<Longrightarrow> json_ok d y"
proof (induction fmt64 v arbitrary: d y rule: to_interface.induct)
  case (2 fmt64 vs)
  then obtain xs where xs: "all_opt (map (\<lambda>v. ((), to_interface fmt64 v)) vs) = Some xs" "y = JArr (map snd xs)" by auto
  have "json_ok (d - 1) x" if "((), x) \<in> set xs" for x
    using all_opt_members [OF xs(1) that] 2 by (auto simp: list_all_iff)
  with xs(2) 2(2) show ?case by (auto simp: list_all_iff)
next
  case (3 fmt64 ms)
  then obtain xs where xs: "all_opt (map (\<lambda>(k, v). (k, to_interface fmt64 v)) ms) = Some xs" "y = JObj (last_wins xs)"
    by auto
  have "utf8_valid k \<and> json_ok (d - 1) x" if "(k, x) \<in> set xs" for k x
  proof -
    from all_opt_members [OF xs(1) that] obtain v where v: "(k, v) \<in> set ms" "to_interface fmt64 v = Some x" by auto
    with 3 show ?thesis by (fastforce simp: list_all_iff)
  qed
  with xs(2) 3(2) last_wins_members [of xs] show ?case by (auto simp: list_all_iff)
qed (auto simp: renders_def)

lemma json_ok_redactValue: "json_ok d v \<Longrightarrow> json_ok d (redactValue v)"
proof (induction v arbitrary: d rule: redactValue.induct)
  case (1 ms)
  have "utf8_valid redactedValue" by (simp add: redactedValue_def utf8_valid_ascii)
  with 1 show ?case by (auto simp: list_all_iff)
qed (auto simp: list_all_iff)

text \<open>
  Whatever \<^verbatim>\<open>LogAction\<close> is given, the data of its line holds no secret: the line is made of the redacted text, and
  a payload that cannot be redacted is not logged.
\<close>

lemma action_lines_hold_no_secret:
  assumes "json_ok max_nesting v" "renders fmt64"
    and "(''data'', d) \<in> set (action_attrs fmt64 agentID action level (Some v))"
  shows "no_secrets d"
proof -
  have ne: "json_print v \<noteq> []" using print_head [OF assms(1)] by force
  from assms(3) have d: "decodeJSONValue fmt64 (redactJSON fmt64 (json_print v)) = Some d"
    by (auto simp: action_attrs_def mustJSON_def data_attr_def split: option.splits)
  show ?thesis
  proof (cases "to_interface fmt64 v")
    case None
    with d ne show ?thesis by (simp add: redactJSON_def decodeJSONValue_def json_parse_print [OF assms(1)])
  next
    case (Some x)
    from json_ok_redactValue [OF json_ok_to_interface [OF assms(1,2) Some]]
    have "json_parse (json_print (redactValue x)) = Some (redactValue x)" by (rule json_parse_print)
    with d ne Some have "to_interface fmt64 (redactValue x) = Some d"
      by (auto simp: redactJSON_def decodeJSONValue_def json_parse_print [OF assms(1)] split: if_splits)
    with redactValue_clean show ?thesis by (rule no_secrets_to_interface)
  qed
qed

text \<open>An event goes to the bus and to the log with the data it came with: only \<^verbatim>\<open>LogAction\<close> redacts.\<close>

lemma recorded_data_is_logged:
  assumes "json_ok max_nesting v" "to_interface fmt64 v = Some x" "au_data e = json_print v"
  shows "(''data'', x) \<in> set (audit_attrs fmt64 (fill_defaults sender now e))"
proof -
  have "json_print v \<noteq> []" using print_head [OF assms(1)] by force
  moreover have "au_data (fill_defaults sender now e) = au_data e" by (simp add: fill_defaults_def Let_def)
  ultimately show ?thesis
    using assms(2,3) by (simp add: audit_attrs_def data_attr_def decodeJSONValue_def json_parse_print [OF assms(1)])
qed

text \<open>The auditor answers and acts as \<open>Record\<close> says, and writes one line exactly when it answers without an error.\<close>

lemma Auditor_Record_refines:
  assumes "Auditor_Record jerr fmt64 emit now (Some a) e (w, s) = (err, w', s')"
  shows "Record jerr (ad_events a) (ad_sender_id a) now e w = (err, w') \<and>
    s' = (if err = None
          then LogAttrs emit (ad_logger a) (slog_value (levelFromString (au_level (fill_defaults (ad_sender_id a) now e))))
            ''audit event'' (audit_attrs fmt64 (fill_defaults (ad_sender_id a) now e)) s
          else s)"
  using assms by (auto simp: Auditor_Record_def Let_def split: prod.splits option.splits)

lemma LogAttrs_reaches_all:
  "LogAttrs emit logger level msg attrs s =
    fold (\<lambda>h s. snd (emit h \<lparr>lr_level = level, lr_message = msg, lr_attrs = attrs\<rparr> s)) (filter (handler_Enabled level) logger) s"
proof -
  have "filter (handler_Enabled level) logger = []" if "\<not> tee_Enabled level logger"
    using that by (auto simp: tee_Enabled_iff filter_empty_conv)
  then show ?thesis by (auto simp: LogAttrs_def tee_reaches_all)
qed

end
