(* ===== verification/External_Clients.thy ===== *)
theory External_Clients
  imports Go_Crypto
begin

text \<open>
  The thin clients of external systems: the vector store (\<^verbatim>\<open>internal/memory/milvus_store.go\<close>), the MQTT heartbeat
  (\<^verbatim>\<open>internal/bus/mqtt_heartbeat.go\<close>), the WASM sandbox (\<^verbatim>\<open>internal/sandbox/wazero_executor.go\<close>), tracing
  (\<^verbatim>\<open>pkg/telemetry/otel.go\<close>) and the adapter for demonstrations (\<^verbatim>\<open>internal/gateway/mock_adapter.go\<close>). The vendor libraries are arguments, one
  function for each call the code makes.
\<close>

section \<open>The vector store\<close>

record 'v memory_entry =
  me_id :: string
  me_task_id :: string
  me_content :: string
  me_vector :: "'v list"
  me_metadata :: "(string \<times> string) list"
  me_timestamp :: int

datatype field_type = FieldInt64 | FieldVarChar nat | FieldFloatVector nat

text \<open>A field: name, type, primary key, automatic id.\<close>

type_synonym milvus_field = "string \<times> field_type \<times> bool \<times> bool"

datatype 'v milvus_column =
    ColumnVarChar string "string list"
  | ColumnFloatVector string nat "'v list list"
  | ColumnInt64 string "int list"

text \<open>
  A result of a search: the number of rows, the id of a row, whether a column is present, and the value
  of a column in a row; \<open>None\<close> is an error of the accessor.
\<close>

record search_result =
  sr_count :: nat
  sr_int_id :: "nat \<Rightarrow> int option"
  sr_has_column :: "string \<Rightarrow> bool"
  sr_string :: "string \<Rightarrow> nat \<Rightarrow> string option"
  sr_int64 :: "string \<Rightarrow> nat \<Rightarrow> int option"

record ('v, 'w) milvus_client =
  mv_HasCollection :: "string \<Rightarrow> 'w \<Rightarrow> bool res \<times> 'w"
  mv_CreateCollection :: "string \<Rightarrow> milvus_field list \<Rightarrow> 'w \<Rightarrow> go_error option \<times> 'w"
  mv_index_err :: "go_error option"
  mv_CreateIndex :: "string \<Rightarrow> string \<Rightarrow> 'w \<Rightarrow> go_error option \<times> 'w"
  mv_LoadCollection :: "string \<Rightarrow> 'w \<Rightarrow> go_error option \<times> 'w"
  mv_Insert :: "string \<Rightarrow> 'v milvus_column list \<Rightarrow> 'w \<Rightarrow> go_error option \<times> 'w"
  mv_Search :: "string \<Rightarrow> string list \<Rightarrow> 'v list \<Rightarrow> string \<Rightarrow> int \<Rightarrow> 'w \<Rightarrow> search_result list res \<times> 'w"
  mv_Close :: "'w \<Rightarrow> go_error option \<times> 'w"

record ('v, 'w) milvus_store =
  ms_client :: "('v, 'w) milvus_client"
  ms_collection :: string

definition DefaultCollectionName :: string where "DefaultCollectionName = ''agent_memories''"

definition DefaultVectorDim :: nat where "DefaultVectorDim = 1536"

definition memory_schema :: "milvus_field list" where
  "memory_schema =
     [(''id'', FieldInt64, True, True), (''task_id'', FieldVarChar 128, False, False), (''content'', FieldVarChar 65535, False, False),
      (''vector'', FieldFloatVector DefaultVectorDim, False, False), (''timestamp'', FieldInt64, False, False)]"

definition ensureCollection :: "('v, 'w) milvus_store \<Rightarrow> 'w \<Rightarrow> go_error option \<times> 'w" where
  "ensureCollection s w =
     (let c = ms_client s; name = ms_collection s in
      case mv_HasCollection c name w of
        (Inl err, w) \<Rightarrow> (Some err, w)
      | (Inr exists, w) \<Rightarrow>
          if exists then (None, w)
          else case mv_CreateCollection c name memory_schema w of
            (Some err, w) \<Rightarrow> (Some err, w)
          | (None, w) \<Rightarrow>
              (case mv_index_err c of
                 Some err \<Rightarrow> (Some err, w)
               | None \<Rightarrow>
                   (case mv_CreateIndex c name ''vector'' w of
                      (Some err, w) \<Rightarrow> (Some err, w)
                    | (None, w) \<Rightarrow> mv_LoadCollection c name w)))"

text \<open>\<open>dial\<close> is the vendor's constructor of a client.\<close>

definition NewMilvusStore :: "(string \<Rightarrow> 'w \<Rightarrow> ('v, 'w) milvus_client res \<times> 'w) \<Rightarrow> string \<Rightarrow> string \<Rightarrow> 'w \<Rightarrow>
    ('v, 'w) milvus_store res \<times> 'w" where
  "NewMilvusStore dial addr collection w =
     (case dial addr w of
        (Inl err, w) \<Rightarrow> (Inl err, w)
      | (Inr c, w) \<Rightarrow>
          let s = \<lparr>ms_client = c, ms_collection = (if collection = [] then DefaultCollectionName else collection)\<rparr> in
          (case ensureCollection s w of
             (Some err, w) \<Rightarrow> (Inl err, snd (mv_Close c w))
           | (None, w) \<Rightarrow> (Inr s, w)))"

definition milvus_Store :: "('w \<Rightarrow> int) \<Rightarrow> ('v, 'w) milvus_store \<Rightarrow> 'v memory_entry \<Rightarrow> 'w \<Rightarrow> go_error option \<times> 'w" where
  "milvus_Store now_unix s e w =
     (let timestamp = (if me_timestamp e = 0 then now_unix w else me_timestamp e) in
      mv_Insert (ms_client s) (ms_collection s)
        [ColumnVarChar ''task_id'' [me_task_id e], ColumnVarChar ''content'' [me_content e],
         ColumnFloatVector ''vector'' DefaultVectorDim [me_vector e], ColumnInt64 ''timestamp'' [timestamp]] w)"

text \<open>One row; a column that is missing is nil, and reading it panics.\<close>

definition or_default :: "'a \<Rightarrow> 'a option \<Rightarrow> 'a" where
  "or_default d x = (case x of Some y \<Rightarrow> y | None \<Rightarrow> d)"

definition search_row :: "search_result \<Rightarrow> nat \<Rightarrow> 'v memory_entry may_panic" where
  "search_row r i =
     (if list_all (sr_has_column r) [''task_id'', ''content'', ''timestamp''] then
        Returned \<lparr>me_id = (case sr_int_id r i of Some n \<Rightarrow> format_int n | None \<Rightarrow> []),
          me_task_id = or_default [] (sr_string r ''task_id'' i), me_content = or_default [] (sr_string r ''content'' i),
          me_vector = [], me_metadata = [], me_timestamp = or_default 0 (sr_int64 r ''timestamp'' i)\<rparr>
      else Panicked)"

fun search_rows :: "(search_result \<times> nat) list \<Rightarrow> 'v memory_entry list \<Rightarrow> 'v memory_entry list may_panic" where
  "search_rows [] acc = Returned acc"
| "search_rows ((r, i) # rest) acc =
     (case search_row r i of Panicked \<Rightarrow> Panicked | Returned e \<Rightarrow> search_rows rest (acc @ [e]))"

definition result_rows :: "search_result list \<Rightarrow> (search_result \<times> nat) list" where
  "result_rows rs = concat (map (\<lambda>r. map (Pair r) [0..<sr_count r]) rs)"

definition milvus_Search :: "('v, 'w) milvus_store \<Rightarrow> 'v list \<Rightarrow> int \<Rightarrow> 'w \<Rightarrow> 'v memory_entry list res may_panic \<times> 'w" where
  "milvus_Search s vector limit w =
     (case mv_Search (ms_client s) (ms_collection s) [''task_id'', ''content'', ''timestamp''] vector ''vector'' limit w of
        (Inl err, w) \<Rightarrow> (Returned (Inl err), w)
      | (Inr results, w) \<Rightarrow>
          (case search_rows (result_rows results) [] of
             Panicked \<Rightarrow> (Panicked, w)
           | Returned entries \<Rightarrow> (Returned (Inr entries), w)))"

definition milvus_Close :: "('v, 'w) milvus_store \<Rightarrow> 'w \<Rightarrow> go_error option \<times> 'w" where
  "milvus_Close s w = mv_Close (ms_client s) w"

lemma search_rows_spec:
  fixes acc :: "'v memory_entry list"
  shows "list_all (\<lambda>(r, i). search_row r i \<noteq> (Panicked :: 'v memory_entry may_panic)) rows \<Longrightarrow>
    \<exists>es. search_rows rows acc = Returned (acc @ es) \<and> list_all2 (\<lambda>(r, i) e. search_row r i = Returned e) rows es"
proof (induction rows arbitrary: acc)
  case (Cons row rows)
  obtain r i where ri: "row = (r, i)" by force
  with Cons.prems obtain e :: "'v memory_entry" where row: "row = (r, i)" "search_row r i = Returned e"
    by (cases "search_row r i :: 'v memory_entry may_panic") auto
  from Cons.IH [of "acc @ [e]"] Cons.prems obtain es where "search_rows rows (acc @ [e]) = Returned (acc @ [e] @ es)"
    "list_all2 (\<lambda>(r, i) e. search_row r i = Returned e) rows es" by auto
  with row show ?case by (intro exI [of _ "e # es"]) simp
qed simp

text \<open>With all columns present a search yields one entry for each row, in the order of the results.\<close>

lemma search_one_entry_per_row:
  fixes s :: "('v, 'w) milvus_store"
  assumes "mv_Search (ms_client s) (ms_collection s) [''task_id'', ''content'', ''timestamp''] vector ''vector'' limit w = (Inr results, w')"
    and "\<And>r. r \<in> set results \<Longrightarrow> list_all (sr_has_column r) [''task_id'', ''content'', ''timestamp'']"
  shows "\<exists>es. milvus_Search s vector limit w = (Returned (Inr es), w') \<and> length es = sum_list (map sr_count results)"
proof -
  have "list_all (\<lambda>(r, i). search_row r i \<noteq> (Panicked :: 'v memory_entry may_panic)) (result_rows results)"
    using assms(2) by (auto simp: list_all_iff result_rows_def search_row_def)
  from search_rows_spec [OF this, of "[]"] obtain es :: "'v memory_entry list" where "search_rows (result_rows results) [] = Returned es"
    "length es = length (result_rows results)" by (metis append_Nil list_all2_lengthD)
  moreover have "length (result_rows results) = sum_list (map sr_count results)"
    by (simp add: result_rows_def length_concat comp_def)
  ultimately show ?thesis using assms(1) by (simp add: milvus_Search_def)
qed

text \<open>A store that cannot be prepared is not returned, and its client is closed.\<close>

lemma failed_store_is_closed:
  "dial addr w = (Inr c, w1) \<Longrightarrow> NewMilvusStore dial addr collection w = (Inl err, w2) \<Longrightarrow> \<exists>w3. w2 = snd (mv_Close c w3)"
  by (auto simp: NewMilvusStore_def Let_def split: prod.splits option.splits)

section \<open>Heartbeats over MQTT\<close>

definition heartbeat_topic :: "string \<Rightarrow> string" where
  "heartbeat_topic agentID = ''agents/'' @ agentID @ ''/heartbeat''"

text \<open>
  \<open>publish\<close> sends with quality of service 1, not retained, and yields the error its token will have; \<open>cancelled\<close> is the error of
  the context when the wait for the token is given up for it.
\<close>

definition mqtt_PublishHeartbeat :: "(string \<Rightarrow> nat \<Rightarrow> bool \<Rightarrow> string \<Rightarrow> 'w \<Rightarrow> go_error option \<times> 'w) \<Rightarrow> go_error option \<Rightarrow>
    string \<Rightarrow> string \<Rightarrow> 'w \<Rightarrow> go_error option \<times> 'w" where
  "mqtt_PublishHeartbeat publish cancelled agentID status w =
     (let (err, w) = publish (heartbeat_topic agentID) 1 False status w in
      (case cancelled of Some e \<Rightarrow> (Some e, w) | None \<Rightarrow> (err, w)))"

section \<open>The sandbox\<close>

text \<open>\<open>instantiate\<close> runs a module with its arguments and yields the error, or what it wrote to its two outputs.\<close>

definition ExecuteWasm :: "(string \<Rightarrow> string list \<Rightarrow> 'w \<Rightarrow> (string \<times> string) res \<times> 'w) \<Rightarrow> string \<Rightarrow> string list \<Rightarrow> 'w \<Rightarrow>
    (string \<times> go_error option) \<times> 'w" where
  "ExecuteWasm instantiate wasm args w =
     (case instantiate wasm (''wasm_process'' # args) w of
        (Inl err, w) \<Rightarrow> (([], Some (wrap_error ''failed to instantiate wasm module: '' err)), w)
      | (Inr (out, serr), w) \<Rightarrow>
          ((out, if serr \<noteq> [] then Some (errorf (''wasm stderr: '' @ serr)) else None), w))"

definition NewWazeroExecutor :: "('w \<Rightarrow> go_error option \<times> 'w) \<Rightarrow> ('w \<Rightarrow> 'w) \<Rightarrow> 'w \<Rightarrow> go_error option \<times> 'w" where
  "NewWazeroExecutor wasi close w =
     (case wasi w of (Some err, w) \<Rightarrow> (Some err, close w) | (None, w) \<Rightarrow> (None, w))"

text \<open>\<open>close\<close> is \<^verbatim>\<open>Runtime.Close\<close>.\<close>

definition wazero_Close :: "('w \<Rightarrow> go_error option \<times> 'w) \<Rightarrow> 'w \<Rightarrow> go_error option \<times> 'w" where
  "wazero_Close close w = close w"

section \<open>Telemetry\<close>

text \<open>
  The exporter, the provider built from it and the name of the service, and the registration of the provider are
  arguments; \<open>'p\<close> is the provider.
\<close>

definition InitTracer :: "('w \<Rightarrow> 'e res \<times> 'w) \<Rightarrow> ('e \<Rightarrow> string \<Rightarrow> 'w \<Rightarrow> 'p \<times> 'w) \<Rightarrow> ('p \<Rightarrow> 'w \<Rightarrow> 'w) \<Rightarrow> string \<Rightarrow> 'w \<Rightarrow> 'p res \<times> 'w" where
  "InitTracer exporter provider register serviceName w =
     (case exporter w of
        (Inl err, w) \<Rightarrow> (Inl (wrap_error ''failed to create stdout exporter: '' err), w)
      | (Inr e, w) \<Rightarrow> (let (tp, w) = provider e serviceName w in (Inr tp, register tp w)))"

definition ShutdownTracer :: "('p \<Rightarrow> 'w \<Rightarrow> go_error option \<times> 'w) \<Rightarrow> 'p option \<Rightarrow> 'w \<Rightarrow> 'w" where
  "ShutdownTracer shutdown tp w = (case tp of None \<Rightarrow> w | Some p \<Rightarrow> snd (shutdown p w))"

section \<open>The demonstration adapter\<close>

text \<open>Sending only writes a log line, which is not modelled.\<close>

definition mock_Name :: "string \<Rightarrow> string" where
  "mock_Name channelName = channelName"

definition mock_SendMessage :: "string \<Rightarrow> string \<Rightarrow> string \<Rightarrow> 'w \<Rightarrow> go_error option \<times> 'w" where
  "mock_SendMessage channelName sessionID text w = (None, w)"

end
