(* ===== verification/Orchestrator_Race.thy ===== *)
theory Orchestrator_Race
  imports Orchestrator
begin

text \<open>
  \<^verbatim>\<open>cmd/orchestrator/main.go\<close>: the start of a task (\<^verbatim>\<open>enqueueAndStartTask\<close>) against the goroutine that handles results
  (\<^verbatim>\<open>ListenResults\<close>), interleaved at the calls they make.

  The starter and the listener are each a counter that says which call comes next; the state they share is the
  application of theory \<open>Orchestrator\<close>. \<^verbatim>\<open>Workflow.Start\<close> and the marks hold the mutex of the executor, so each is
  one step, on the workflow both reach through the map. One starter runs at a time, and only a starter replaces the
  workflow of a task; a listener that found the workflow of an earlier start marks one that no longer is in the map.
\<close>

section \<open>The steps\<close>

text \<open>\<open>StStarted\<close> has the error of \<^verbatim>\<open>Start\<close>, \<open>StDone\<close> the result of the function.\<close>

datatype starter = StBegin | StRegistered | StEnqueued | StStarted "go_error option" | StSaved | StDone "go_error option"

text \<open>\<open>LsFound\<close> has the workflow the listener found, and whether the starter had registered its own by then.\<close>

datatype listener = LsIdle | LsSaved message | LsFound message "(bool \<times> workflow) option" | LsMarked message

record 'w race =
  rc_app :: "'w app"
  rc_starter :: starter
  rc_listener :: listener

definition new_workflow :: "message \<Rightarrow> workflow" where
  "new_workflow msg = fst (AddTask NewWorkflow (msg_message_id msg) (agent_type_of msg) [])"

definition route_audit :: "'w app_env \<Rightarrow> message \<Rightarrow> 'w app \<Rightarrow> 'w app" where
  "route_audit env msg a =
     app_audit env (zero_audit_event\<lparr>au_task_id := msg_message_id msg,
       au_parent_task_id := msg_parent_task_id msg, au_event := ''route'', au_actor := ''orchestrator'',
       au_status := ''running'', au_data := msg_payload msg, au_timestamp_ms := now_unix_ms env a\<rparr>) a"

fun start_step :: "'w app_env \<Rightarrow> message \<Rightarrow> starter \<Rightarrow> 'w app \<Rightarrow> (starter \<times> 'w app) option" where
  "start_step env msg StBegin a = Some (StRegistered, set_workflow (msg_message_id msg) (new_workflow msg) a)"
| "start_step env msg StRegistered a =
     (let (err, w) = env_enqueue env (''task.'' @ msg_message_id msg) msg (app_world a) in
      Some (case err of Some e \<Rightarrow> StDone (Some e) | None \<Rightarrow> StEnqueued, a\<lparr>app_world := w\<rparr>))"
| "start_step env msg StEnqueued a =
     (case map_of (app_workflows a) (msg_message_id msg) of
        None \<Rightarrow> None
      | Some wfl \<Rightarrow>
          (let (w, wfl', err) = Start (env_rng env) (OnNodeReady env) (app_world a) wfl in
           Some (StStarted err, set_workflow (msg_message_id msg) wfl' (a\<lparr>app_world := w\<rparr>))))"
| "start_step env msg (StStarted (Some e)) a =
     Some (StDone (Some e), snd (app_save env (state_of_msg msg (agent_type_of msg) ''failed'' (now_unix env a) (err_msg e)) a))"
| "start_step env msg (StStarted None) a =
     (let (err, a) = app_save env (state_of_msg msg (agent_type_of msg) ''running'' (now_unix env a) []) a in
      Some (case err of Some e \<Rightarrow> StDone (Some e) | None \<Rightarrow> StSaved, a))"
| "start_step env msg StSaved a = Some (StDone None, route_audit env msg a)"
| "start_step env msg (StDone r) a = None"

definition result_of :: "message \<Rightarrow> task_result" where
  "result_of m = decode_result (msg_payload m)"

definition save_result :: "'w app_env \<Rightarrow> message \<Rightarrow> 'w app \<Rightarrow> 'w app" where
  "save_result env m a =
     (let res = result_of m in
      snd (app_save env \<lparr>ts_task_id = tr_task_id res, ts_parent_task_id = tr_parent_task_id res,
        ts_agent_name = tr_agent_name res, ts_status = NormalizeTaskStatus (tr_status res),
        ts_updated_at_unix = now_unix env a, ts_error_message = tr_error res\<rparr> a))"

definition mark_step :: "'w app_env \<Rightarrow> message \<Rightarrow> 'w app \<Rightarrow> 'w app" where
  "mark_step env m a =
     (let res = result_of m in
      case map_of (app_workflows a) (tr_task_id res) of
        None \<Rightarrow> a
      | Some wfl \<Rightarrow> mark_result env (tr_task_id res) (NormalizeTaskStatus (tr_status res)) wfl a)"

definition result_audit :: "'w app_env \<Rightarrow> message \<Rightarrow> 'w app \<Rightarrow> 'w app" where
  "result_audit env m a =
     (let res = result_of m;
          timestampMs = (if msg_timestamp m = 0 then now_unix_ms env a else msg_timestamp m);
          actor = (if msg_sender_id m = [] then tr_agent_name res else msg_sender_id m) in
      app_audit env (zero_audit_event\<lparr>au_task_id := tr_task_id res, au_parent_task_id := tr_parent_task_id res,
        au_event := ''task_result'', au_actor := actor, au_status := tr_status res, au_error := tr_error res,
        au_data := msg_payload m, au_timestamp_ms := timestampMs\<rparr>) a)"

text \<open>A received message is decoded and saved; the listener then finds the workflow, marks and audits before it receives again.\<close>

datatype race_act = ActStart | ActReceive message | ActListen

definition mark_found :: "'w app_env \<Rightarrow> message \<Rightarrow> bool \<Rightarrow> message \<Rightarrow> (bool \<times> workflow) option \<Rightarrow> 'w app \<Rightarrow> 'w app" where
  "mark_found env msg registered m found a =
     (case found of
        None \<Rightarrow> a
      | Some (current, wfl) \<Rightarrow>
          if tr_task_id (result_of m) = msg_message_id msg \<and> current \<noteq> registered
          then a\<lparr>app_world := app_world (mark_result env (tr_task_id (result_of m)) (NormalizeTaskStatus (tr_status (result_of m))) wfl a)\<rparr>
          else mark_step env m a)"

fun listen_step :: "'w app_env \<Rightarrow> message \<Rightarrow> bool \<Rightarrow> listener \<Rightarrow> 'w app \<Rightarrow> (listener \<times> 'w app) option" where
  "listen_step env msg registered LsIdle a = None"
| "listen_step env msg registered (LsSaved m) a =
     Some (LsFound m (map_option (\<lambda>wfl. (registered, wfl)) (map_of (app_workflows a) (tr_task_id (result_of m)))), a)"
| "listen_step env msg registered (LsFound m found) a =
     Some (LsMarked m, mark_found env msg registered m found a)"
| "listen_step env msg registered (LsMarked m) a = Some (LsIdle, result_audit env m a)"

fun race_step :: "'w app_env \<Rightarrow> message \<Rightarrow> race_act \<Rightarrow> 'w race \<Rightarrow> 'w race option" where
  "race_step env msg ActStart r =
     map_option (\<lambda>(pc, a). r\<lparr>rc_app := a, rc_starter := pc\<rparr>) (start_step env msg (rc_starter r) (rc_app r))"
| "race_step env msg (ActReceive m) r =
     (if rc_listener r = LsIdle then Some (r\<lparr>rc_app := save_result env m (rc_app r), rc_listener := LsSaved m\<rparr>) else None)"
| "race_step env msg ActListen r =
     map_option (\<lambda>(l, a). r\<lparr>rc_app := a, rc_listener := l\<rparr>) (listen_step env msg (rc_starter r \<noteq> StBegin) (rc_listener r) (rc_app r))"

fun race_run :: "'w app_env \<Rightarrow> message \<Rightarrow> race_act list \<Rightarrow> 'w race \<Rightarrow> 'w race option" where
  "race_run env msg [] r = Some r"
| "race_run env msg (x # xs) r = (case race_step env msg x r of None \<Rightarrow> None | Some r' \<Rightarrow> race_run env msg xs r')"

definition race_init :: "'w app \<Rightarrow> 'w race" where
  "race_init a = \<lparr>rc_app = a, rc_starter = StBegin, rc_listener = LsIdle\<rparr>"

section \<open>Without interference\<close>

text \<open>The steps of the listener, one after another, are \<open>handle_result\<close>.\<close>

lemma listen_steps_compose:
  assumes "rc_listener r = LsIdle"
  shows "race_run env msg [ActReceive m, ActListen, ActListen, ActListen] r = Some (r\<lparr>rc_app := handle_result env m (rc_app r)\<rparr>)"
proof -
  let ?a = "save_result env m (rc_app r)"
  have "result_audit env m (mark_step env m ?a) = handle_result env m (rc_app r)"
    by (simp add: handle_result_def result_audit_def mark_step_def save_result_def result_of_def Let_def)
  moreover have "map_of (app_workflows ?a) (tr_task_id (result_of m)) = None \<Longrightarrow> mark_step env m ?a = ?a"
    by (simp add: mark_step_def Let_def)
  ultimately show ?thesis
    using assms by (cases "map_of (app_workflows ?a) (tr_task_id (result_of m))") (auto simp: mark_found_def)
qed

text \<open>The steps of the starter, one after another, are \<open>enqueueAndStartTask\<close>.\<close>

lemma start_steps_compose:
  assumes "enqueueAndStartTask env msg a = (err, a')"
  shows "\<exists>n. race_run env msg (replicate n ActStart) (race_init a) =
    Some \<lparr>rc_app = a', rc_starter = StDone err, rc_listener = LsIdle\<rparr>"
proof -
  let ?a = "set_workflow (msg_message_id msg) (new_workflow msg) a"
  obtain e1 w1 where q: "env_enqueue env (''task.'' @ msg_message_id msg) msg (app_world a) = (e1, w1)" by force
  obtain w2 wfl e2 where s: "Start (env_rng env) (OnNodeReady env) w1 (new_workflow msg) = (w2, wfl, e2)"
    by (cases "Start (env_rng env) (OnNodeReady env) w1 (new_workflow msg)")
  have n: "4 = Suc (Suc (Suc (Suc 0)))" "5 = Suc (Suc (Suc (Suc (Suc 0))))" by simp_all
  note defs = enqueueAndStartTask_def Let_def race_init_def new_workflow_def [symmetric] route_audit_def
  show ?thesis
  proof (cases e1)
    case (Some e)
    with assms q show ?thesis by (intro exI [of _ 2]) (auto simp: defs numeral_2_eq_2)
  next
    case None
    note e1 = this
    show ?thesis
    proof (cases e2)
      case (Some e)
      with e1 assms q s show ?thesis by (intro exI [of _ 4]) (auto simp: defs n)
    next
      case e2: None
      let ?b = "set_workflow (msg_message_id msg) wfl (?a\<lparr>app_world := w2\<rparr>)"
      obtain e3 a3 where v: "app_save env (state_of_msg msg (agent_type_of msg) ''running'' (now_unix env ?b) []) ?b = (e3, a3)"
        by force
      show ?thesis
      proof (cases e3)
        case (Some e)
        with e1 e2 assms q s v show ?thesis by (intro exI [of _ 4]) (auto simp: defs n)
      next
        case None
        with e1 e2 assms q s v show ?thesis by (intro exI [of _ 5]) (auto simp: defs n)
      qed
    qed
  qed
qed

section \<open>With interference\<close>

definition settled :: "workflow \<Rightarrow> string \<Rightarrow> bool" where
  "settled wfl n = (NodeState wfl n \<in> {Some NodeStateCompleted, Some NodeStateFailed})"

text \<open>What follows the \<open>n\<close>-th step of the starter.\<close>

fun after_starts :: "nat \<Rightarrow> race_act list \<Rightarrow> race_act list" where
  "after_starts n [] = []"
| "after_starts n (ActStart # xs) = (if n \<le> 1 then xs else after_starts (n - 1) xs)"
| "after_starts n (x # xs) = after_starts n xs"

fun starts :: "race_act list \<Rightarrow> nat" where
  "starts [] = 0"
| "starts (ActStart # xs) = Suc (starts xs)"
| "starts (x # xs) = starts xs"

text \<open>A result of the task was received.\<close>

definition received :: "message \<Rightarrow> race_act list \<Rightarrow> bool" where
  "received msg xs = (\<exists>m. ActReceive m \<in> set xs \<and> tr_task_id (result_of m) = msg_message_id msg)"

definition results_terminal :: "message \<Rightarrow> race_act list \<Rightarrow> bool" where
  "results_terminal msg xs = (\<forall>m. ActReceive m \<in> set xs \<longrightarrow> tr_task_id (result_of m) = msg_message_id msg \<longrightarrow>
     IsTerminalTaskStatus (tr_status (result_of m)))"

lemma starts_snoc [simp]: "starts (xs @ [x]) = starts xs + (if x = ActStart then 1 else 0)"
  by (induction xs rule: starts.induct) (cases x, auto)+

lemma after_starts_snoc [simp]:
  "1 \<le> n \<Longrightarrow> after_starts n (xs @ [x]) = (if n \<le> starts xs then after_starts n xs @ [x] else [])"
proof (induction n xs rule: after_starts.induct)
  case (1 n)
  then show ?case by (cases x) auto
next
  case (2 n xs)
  then show ?case by (cases "n \<le> 1") auto
qed auto

lemma after_starts_early: "starts xs \<le> n \<Longrightarrow> 1 \<le> n \<Longrightarrow> starts xs < n \<Longrightarrow> after_starts n xs = []"
  by (induction n xs rule: after_starts.induct) auto

lemma received_simps [simp]:
  "\<not> received msg []"
  "received msg (xs @ [ActStart]) = received msg xs"
  "received msg (xs @ [ActListen]) = received msg xs"
  "received msg (xs @ [ActReceive m]) = (received msg xs \<or> tr_task_id (result_of m) = msg_message_id msg)"
  by (auto simp: received_def)

lemma results_terminal_snoc: "results_terminal msg (xs @ [x]) \<Longrightarrow> results_terminal msg xs"
  by (simp add: results_terminal_def)

lemma race_run_snoc:
  "race_run env msg (xs @ [x]) r = (case race_run env msg xs r of None \<Rightarrow> None | Some r' \<Rightarrow> race_step env msg x r')"
  by (induction xs arbitrary: r) (auto split: option.splits)

fun stage :: "starter \<Rightarrow> nat" where
  "stage StBegin = 0"
| "stage StRegistered = 1"
| "stage StEnqueued = 2"
| "stage (StStarted e) = 3"
| "stage StSaved = 4"
| "stage (StDone r) = 5"

text \<open>
  The row: from the save of the starter on, the task is recoverable exactly as long as no result of it was received.
  The node: until it is started the workflow is the new one; from then on it is running or settled, and settled once a
  result received after the start has been marked. A result whose listener found no workflow, or one of an earlier
  start, was received before the start.
\<close>

definition row_inv :: "message \<Rightarrow> race_act list \<Rightarrow> 'w race \<Rightarrow> bool" where
  "row_inv msg xs r =
     (sqlite_schema (app_store (rc_app r)) \<and>
      (4 \<le> stage (rc_starter r) \<longrightarrow>
         recoverable_in (app_store (rc_app r)) (msg_message_id msg) = (\<not> received msg (after_starts 4 xs))))"

definition pending_mark :: "message \<Rightarrow> listener \<Rightarrow> bool" where
  "pending_mark msg l = (case l of LsSaved m \<Rightarrow> tr_task_id (result_of m) = msg_message_id msg | LsFound m found \<Rightarrow> tr_task_id (result_of m) = msg_message_id msg | _ \<Rightarrow> False)"

definition node_ok :: "message \<Rightarrow> workflow \<Rightarrow> bool" where
  "node_ok msg wfl = (wf_dag wfl = wf_dag (new_workflow msg) \<and>
     (NodeState wfl (msg_message_id msg) = Some NodeStateRunning \<or> settled wfl (msg_message_id msg)))"

definition found_current :: "(bool \<times> workflow) option \<Rightarrow> bool" where
  "found_current found = (case found of None \<Rightarrow> False | Some (current, wfl) \<Rightarrow> current)"

definition found_inv :: "message \<Rightarrow> race_act list \<Rightarrow> 'w race \<Rightarrow> bool" where
  "found_inv msg xs r =
     (\<forall>m found. rc_listener r = LsFound m found \<longrightarrow> tr_task_id (result_of m) = msg_message_id msg \<longrightarrow>
        (if found_current found then rc_starter r \<noteq> StBegin else \<not> received msg (after_starts 3 xs)))"

definition node_inv :: "message \<Rightarrow> race_act list \<Rightarrow> 'w race \<Rightarrow> bool" where
  "node_inv msg xs r =
     ((stage (rc_starter r) \<in> {1, 2} \<longrightarrow> map_of (app_workflows (rc_app r)) (msg_message_id msg) = Some (new_workflow msg)) \<and>
      (3 \<le> stage (rc_starter r) \<longrightarrow>
         (\<exists>wfl. map_of (app_workflows (rc_app r)) (msg_message_id msg) = Some wfl \<and> node_ok msg wfl \<and>
            (received msg (after_starts 3 xs) \<longrightarrow> \<not> pending_mark msg (rc_listener r) \<longrightarrow> settled wfl (msg_message_id msg)))))"

definition no_error :: "'w race \<Rightarrow> bool" where
  "no_error r = (\<forall>e. rc_starter r \<noteq> StDone (Some e))"

lemma no_error_back: "race_step env msg x r = Some r' \<Longrightarrow> no_error r' \<Longrightarrow> no_error r"
  by (cases x; cases "rc_starter r") (auto simp: no_error_def split: if_splits)

lemma starts_step:
  assumes "starts xs = stage (rc_starter r)" "race_step env msg x r = Some r'" "no_error r'"
  shows "starts (xs @ [x]) = stage (rc_starter r')"
proof (cases x)
  case ActStart
  with assms show ?thesis
    by (cases "(env, msg, rc_starter r, rc_app r)" rule: start_step.cases)
      (auto simp: no_error_def Let_def split: option.splits prod.splits)
qed (use assms in \<open>auto split: if_splits\<close>)

lemma normalized_row:
  "NormalizeTaskStatus x \<in> {''pending'', ''running''} \<longleftrightarrow> \<not> IsTerminalTaskStatus x"
  by (auto simp: IsTerminalTaskStatus_def TaskStatusPending_def TaskStatusRunning_def)

lemma app_frames [simp]:
  "app_store (route_audit env msg a) = app_store a" "app_workflows (route_audit env msg a) = app_workflows a"
  "app_store (result_audit env m a) = app_store a" "app_workflows (result_audit env m a) = app_workflows a"
  "app_workflows (save_result env m a) = app_workflows a"
  "app_store (mark_step env m a) = app_store a" "app_store (mark_found env msg registered m found a) = app_store a"
  by (simp_all add: route_audit_def result_audit_def save_result_def mark_step_def mark_found_def mark_result_def Let_def
      split: option.splits prod.splits)

lemma app_save_workflows: "app_save env st a = (e, a') \<Longrightarrow> app_workflows a' = app_workflows a"
  using app_save_frame(1) [of env st a] by simp

lemma row_step:
  assumes "no_db_faults env" "row_inv msg xs r" "starts xs = stage (rc_starter r)" "race_step env msg x r = Some r'"
    and "no_error r'" "results_terminal msg (xs @ [x])"
  shows "row_inv msg (xs @ [x]) r'"
proof (cases x)
  case ActStart
  with assms show ?thesis
    by (cases "(env, msg, rc_starter r, rc_app r)" rule: start_step.cases)
      (auto simp: row_inv_def no_error_def Let_def app_save_ok [OF assms(1)] upsert_schema recoverable_in_upsert
        split: option.splits prod.splits)
next
  case (ActReceive m)
  with assms(4) have r': "rc_app r' = save_result env m (rc_app r)" "rc_starter r' = rc_starter r"
    by (auto split: if_splits)
  obtain st where st: "app_store (rc_app r') = upsert st (app_store (rc_app r))" "ts_task_id st = tr_task_id (result_of m)"
    "ts_status st = NormalizeTaskStatus (tr_status (result_of m))"
    unfolding r' by (simp add: save_result_def Let_def app_save_ok [OF assms(1)])
  have fin: "tr_task_id (result_of m) = msg_message_id msg \<Longrightarrow> IsTerminalTaskStatus (tr_status (result_of m))"
    using assms(6) ActReceive by (simp add: results_terminal_def)
  from assms(2) have sch: "sqlite_schema (app_store (rc_app r))" by (simp add: row_inv_def)
  have rec: "recoverable_in (app_store (rc_app r')) (msg_message_id msg) \<longleftrightarrow>
      tr_task_id (result_of m) \<noteq> msg_message_id msg \<and> recoverable_in (app_store (rc_app r)) (msg_message_id msg)"
    unfolding st(1) recoverable_in_upsert [OF sch] st(2,3) normalized_row using fin by auto
  show ?thesis
    using assms(2,3) rec upsert_schema [OF sch] st(1) by (auto simp: row_inv_def r'(2) ActReceive)
next
  case ActListen
  with assms show ?thesis
    by (cases "rc_listener r") (auto simp: row_inv_def)
qed

text \<open>A mark leaves a node that is not running as it is, and settles a running one.\<close>

lemma mark_refused:
  assumes "NodeState wfl n \<noteq> Some NodeStateRunning" "map_of (app_workflows a) n = Some wfl"
  shows "map_of (app_workflows (mark_result env n status wfl a)) n = Some wfl"
proof -
  obtain x w e where c: "MarkNodeCompleted (env_rng env) (OnNodeReady env) (app_world a) wfl n = (x, w, e)"
    by (cases "MarkNodeCompleted (env_rng env) (OnNodeReady env) (app_world a) wfl n")
  obtain w' e' where f: "MarkNodeFailed wfl n = (w', e')" by force
  have "w = wfl" using MarkNodeCompleted_cases [OF c] assms(1) by metis
  moreover have "w' = wfl" using MarkNodeFailed_cases [OF f] assms(1) by metis
  ultimately show ?thesis by (simp add: mark_result_def c f)
qed

lemma mark_settles:
  assumes "NodeState wfl n = Some NodeStateRunning" "wf_dag wfl = wf_dag (fst (AddTask NewWorkflow n ty []))" "is_range (env_rng env)"
  shows "\<exists>wfl'. map_of (app_workflows (mark_result env n status wfl a)) n = Some wfl' \<and> wf_dag wfl' = wf_dag wfl \<and> settled wfl' n"
  using single_marks(1) [OF assms, of "OnNodeReady env" "app_world a"] single_marks(2) [OF assms]
  by (auto simp: mark_result_def settled_def)

lemma mark_other:
  "k \<noteq> n \<Longrightarrow> map_of (app_workflows (mark_result env n status wfl a)) k = map_of (app_workflows a) k"
  by (simp add: mark_result_def split: prod.splits)

lemma new_workflow_pending: "NodeState (new_workflow msg) (msg_message_id msg) = Some NodeStatePending"
  by (simp add: new_workflow_def AddTask_def NewWorkflow_def NewDAG_def AddNode_def NewNodeStateMachine_def InitNode_def
      NodeState_def State_def Let_def)

lemma mark_step_node:
  assumes "is_range (env_rng env)" "map_of (app_workflows a) (msg_message_id msg) = Some wfl"
  shows "wfl = new_workflow msg \<Longrightarrow> map_of (app_workflows (mark_step env m a)) (msg_message_id msg) = Some wfl"
    and "node_ok msg wfl \<Longrightarrow> \<exists>wfl'. map_of (app_workflows (mark_step env m a)) (msg_message_id msg) = Some wfl' \<and> node_ok msg wfl' \<and>
      (if tr_task_id (result_of m) = msg_message_id msg then settled wfl' (msg_message_id msg) else wfl' = wfl)"
proof -
  let ?n = "msg_message_id msg"
  have other: "tr_task_id (result_of m) \<noteq> ?n \<Longrightarrow> map_of (app_workflows (mark_step env m a)) ?n = Some wfl"
    using assms(2) by (auto simp: mark_step_def Let_def mark_other split: option.splits)
  have refused: "NodeState wfl ?n \<noteq> Some NodeStateRunning \<Longrightarrow> map_of (app_workflows (mark_step env m a)) ?n = Some wfl"
    using assms(2) other by (cases "tr_task_id (result_of m) = ?n") (auto simp: mark_step_def Let_def mark_refused)
  show "wfl = new_workflow msg \<Longrightarrow> map_of (app_workflows (mark_step env m a)) ?n = Some wfl"
    using refused new_workflow_pending by simp
  assume ok: "node_ok msg wfl"
  show "\<exists>wfl'. map_of (app_workflows (mark_step env m a)) ?n = Some wfl' \<and> node_ok msg wfl' \<and>
      (if tr_task_id (result_of m) = ?n then settled wfl' ?n else wfl' = wfl)"
  proof (cases "tr_task_id (result_of m) = ?n \<and> NodeState wfl ?n = Some NodeStateRunning")
    case True
    with ok mark_settles [of wfl ?n "agent_type_of msg" env "NormalizeTaskStatus (tr_status (result_of m))" a] assms
    show ?thesis by (auto simp: mark_step_def Let_def node_ok_def new_workflow_def)
  next
    case False
    with ok other refused show ?thesis by (auto simp: node_ok_def)
  qed
qed

lemma mark_found_node:
  assumes "is_range (env_rng env)" "map_of (app_workflows a) (msg_message_id msg) = Some wfl"
  shows "wfl = new_workflow msg \<Longrightarrow> map_of (app_workflows (mark_found env msg True m found a)) (msg_message_id msg) = Some wfl"
    and "node_ok msg wfl \<Longrightarrow>
      \<exists>wfl'. map_of (app_workflows (mark_found env msg True m found a)) (msg_message_id msg) = Some wfl' \<and> node_ok msg wfl' \<and>
      (if tr_task_id (result_of m) = msg_message_id msg \<and> found_current found then settled wfl' (msg_message_id msg) else wfl' = wfl)"
proof -
  note mark = mark_step_node [OF assms, of m]
  show "wfl = new_workflow msg \<Longrightarrow> map_of (app_workflows (mark_found env msg True m found a)) (msg_message_id msg) = Some wfl"
    using mark(1) assms(2) by (auto simp: mark_found_def split: option.splits)
  show "\<exists>wfl'. map_of (app_workflows (mark_found env msg True m found a)) (msg_message_id msg) = Some wfl' \<and> node_ok msg wfl' \<and>
      (if tr_task_id (result_of m) = msg_message_id msg \<and> found_current found then settled wfl' (msg_message_id msg) else wfl' = wfl)"
    if ok: "node_ok msg wfl"
  proof (cases "found_current found \<or> tr_task_id (result_of m) \<noteq> msg_message_id msg \<and> found \<noteq> None")
    case True
    then have "mark_found env msg True m found a = mark_step env m a"
      by (auto simp: mark_found_def found_current_def split: option.splits)
    with mark(2) [OF ok] True show ?thesis by (auto split: if_splits)
  next
    case False
    then have "app_workflows (mark_found env msg True m found a) = app_workflows a"
      by (auto simp: mark_found_def found_current_def split: option.splits)
    with ok False assms(2) show ?thesis by (auto simp: found_current_def)
  qed
qed

lemma stage_0: "stage pc = 0 \<longleftrightarrow> pc = StBegin"
  by (cases pc) auto

lemma registered_workflow:
  assumes "node_inv msg xs r" "rc_starter r \<noteq> StBegin"
  obtains wfl where "map_of (app_workflows (rc_app r)) (msg_message_id msg) = Some wfl"
proof -
  from assms(2) have "stage (rc_starter r) \<in> {1, 2} \<or> 3 \<le> stage (rc_starter r)"
    by (cases "rc_starter r") auto
  with assms(1) that show thesis unfolding node_inv_def by blast
qed

lemma found_step:
  assumes "node_inv msg xs r" "found_inv msg xs r" "starts xs = stage (rc_starter r)" "race_step env msg x r = Some r'"
    and "no_error r'"
  shows "found_inv msg (xs @ [x]) r'"
proof (cases x)
  case ActStart
  with starts_step [OF assms(3-5)] have "rc_starter r' \<noteq> StBegin" by auto
  moreover from assms(4) ActStart have "rc_listener r' = rc_listener r" by auto
  ultimately show ?thesis using assms(2) ActStart by (auto simp: found_inv_def)
next
  case (ActReceive m)
  with assms(4) show ?thesis by (auto simp: found_inv_def split: if_splits)
next
  case ActListen
  show ?thesis
  proof (cases "rc_listener r")
    case (LsSaved m)
    with assms(4) ActListen have r': "rc_starter r' = rc_starter r" "rc_listener r' = LsFound m
        (map_option (\<lambda>wfl. (rc_starter r \<noteq> StBegin, wfl)) (map_of (app_workflows (rc_app r)) (tr_task_id (result_of m))))" by auto
    show ?thesis
    proof (cases "rc_starter r = StBegin")
      case True
      with assms(3) have "after_starts 3 xs = []" by (intro after_starts_early) auto
      with True r' assms(3) show ?thesis by (auto simp: found_inv_def found_current_def ActListen split: option.splits)
    next
      case False
      then obtain wfl where "map_of (app_workflows (rc_app r)) (msg_message_id msg) = Some wfl"
        by (rule registered_workflow [OF assms(1)])
      with False r' show ?thesis by (auto simp: found_inv_def found_current_def)
    qed
  qed (use assms(4) ActListen in \<open>auto simp: found_inv_def\<close>)
qed

lemma node_step:
  assumes "is_range (env_rng env)" "node_inv msg xs r" "found_inv msg xs r" "starts xs = stage (rc_starter r)"
    and "race_step env msg x r = Some r'" "no_error r'"
  shows "node_inv msg (xs @ [x]) r'"
proof (cases x)
  case ActStart
  show ?thesis
  proof (cases "rc_starter r = StEnqueued")
    case True
    with assms(2) have wfl: "map_of (app_workflows (rc_app r)) (msg_message_id msg) = Some (new_workflow msg)"
      by (simp add: node_inv_def)
    obtain w' wfl' e where s: "Start (env_rng env) (OnNodeReady env) (app_world (rc_app r)) (new_workflow msg) = (w', wfl', e)"
      by (cases "Start (env_rng env) (OnNodeReady env) (app_world (rc_app r)) (new_workflow msg)")
    with single_start [OF assms(1) s [unfolded new_workflow_def]] have "node_ok msg wfl'"
      by (simp add: node_ok_def new_workflow_def)
    with assms(4,5) True wfl s ActStart show ?thesis by (auto simp: node_inv_def)
  next
    case False
    with assms ActStart show ?thesis
      by (cases "(env, msg, rc_starter r, rc_app r)" rule: start_step.cases)
        (auto simp: node_inv_def no_error_def Let_def dest!: app_save_workflows split: option.splits prod.splits)
  qed
next
  case (ActReceive m)
  with assms(2,4,5) show ?thesis
    by (auto simp: node_inv_def pending_mark_def split: if_splits)
next
  case ActListen
  show ?thesis
  proof (cases "rc_listener r")
    case LsIdle
    with assms(5) ActListen show ?thesis by simp
  next
    case (LsSaved m)
    with assms(2,4,5) ActListen show ?thesis by (auto simp: node_inv_def pending_mark_def)
  next
    case (LsMarked m)
    with assms(2,4,5) ActListen show ?thesis by (auto simp: node_inv_def pending_mark_def)
  next
    case (LsFound m found)
    with assms(5) ActListen have r': "r' = r\<lparr>rc_app := mark_found env msg (rc_starter r \<noteq> StBegin) m found (rc_app r), rc_listener := LsMarked m\<rparr>"
      by simp
    show ?thesis
    proof (cases "rc_starter r = StBegin")
      case True
      with r' show ?thesis by (simp add: node_inv_def)
    next
      case False
      note mark = mark_found_node [OF assms(1), of "rc_app r" msg _ m found]
      show ?thesis
        unfolding node_inv_def
      proof (intro conjI impI)
        assume "stage (rc_starter r') \<in> {1, 2}"
        with assms(2) r' have "map_of (app_workflows (rc_app r)) (msg_message_id msg) = Some (new_workflow msg)"
          by (auto simp: node_inv_def)
        from mark(1) [OF this] r' False show "map_of (app_workflows (rc_app r')) (msg_message_id msg) = Some (new_workflow msg)" by simp
      next
        assume st: "3 \<le> stage (rc_starter r')"
        with assms(2) r' obtain wfl where wfl: "map_of (app_workflows (rc_app r)) (msg_message_id msg) = Some wfl" "node_ok msg wfl"
          "received msg (after_starts 3 xs) \<longrightarrow> \<not> pending_mark msg (rc_listener r) \<longrightarrow> settled wfl (msg_message_id msg)"
          by (auto simp: node_inv_def)
        from mark(2) [OF wfl(1,2)] False r' obtain wfl' where wfl': "map_of (app_workflows (rc_app r')) (msg_message_id msg) = Some wfl'"
          "node_ok msg wfl'" "if tr_task_id (result_of m) = msg_message_id msg \<and> found_current found
            then settled wfl' (msg_message_id msg) else wfl' = wfl" by auto
        have "settled wfl' (msg_message_id msg)" if "received msg (after_starts 3 xs)"
          using wfl(3) wfl'(3) that assms(3) LsFound by (auto simp: found_inv_def pending_mark_def split: if_splits)
        with wfl'(1,2) st r' ActListen assms(4)
        show "\<exists>wfl. map_of (app_workflows (rc_app r')) (msg_message_id msg) = Some wfl \<and> node_ok msg wfl \<and>
            (received msg (after_starts 3 (xs @ [x])) \<longrightarrow> \<not> pending_mark msg (rc_listener r') \<longrightarrow> settled wfl (msg_message_id msg))"
          by auto
      qed
    qed
  qed
qed

lemma race_inv:
  assumes "is_range (env_rng env)" "no_db_faults env" "sqlite_schema (app_store a)"
    and "race_run env msg xs (race_init a) = Some r" "no_error r" "results_terminal msg xs"
  shows "starts xs = stage (rc_starter r) \<and> row_inv msg xs r \<and> node_inv msg xs r \<and> found_inv msg xs r"
  using assms(4-6)
proof (induction xs arbitrary: r rule: rev_induct)
  case Nil
  with assms(3) show ?case by (auto simp: race_init_def row_inv_def node_inv_def found_inv_def)
next
  case (snoc x xs)
  then obtain r0 where r0: "race_run env msg xs (race_init a) = Some r0" "race_step env msg x r0 = Some r"
    by (auto simp: race_run_snoc split: option.splits)
  from snoc.IH [OF r0(1) no_error_back [OF r0(2) snoc.prems(2)] results_terminal_snoc [OF snoc.prems(3)]]
  have IH: "starts xs = stage (rc_starter r0)" "row_inv msg xs r0" "node_inv msg xs r0" "found_inv msg xs r0" by auto
  show ?case
    using starts_step [OF IH(1) r0(2) snoc.prems(2)] row_step [OF assms(2) IH(2,1) r0(2) snoc.prems(2,3)]
      node_step [OF assms(1) IH(3,4,1) r0(2) snoc.prems(2)] found_step [OF IH(3,4,1) r0(2) snoc.prems(2)] by simp
qed

section \<open>Property\<close>

text \<open>
  C10. A result can come too early. Take any interleaving of the start of a task with the listener, in which the start
  returns without an error and every result received for the task has a terminal status. Then the stored task is
  recoverable, so the next start-up runs it again, exactly if no result of it was received after the save of the
  starter, its fourth step, although the agent is spawned by the third. The workflow knows better: when the listener is
  idle and some result was received after the third step, the node is completed or failed.
\<close>

theorem start_overwrites_early_result:
  assumes "is_range (env_rng env)" "no_db_faults env" "sqlite_schema (app_store a)"
    and "race_run env msg acts (race_init a) = Some r" "rc_starter r = StDone None" "rc_listener r = LsIdle"
    and "results_terminal msg acts"
  shows "recoverable_in (app_store (rc_app r)) (msg_message_id msg) = (\<not> received msg (after_starts 4 acts)) \<and>
    (\<exists>wfl. map_of (app_workflows (rc_app r)) (msg_message_id msg) = Some wfl \<and>
      (received msg (after_starts 3 acts) \<longrightarrow> settled wfl (msg_message_id msg)))"
proof -
  from assms(5) have "no_error r" by (simp add: no_error_def)
  from race_inv [OF assms(1-4) this assms(7)] have "row_inv msg acts r" "node_inv msg acts r" by auto
  with assms(5,6) show ?thesis by (auto simp: row_inv_def node_inv_def pending_mark_def)
qed

definition early_json :: "(string \<times> json) list" where
  "early_json = [(''task_id'', JStr ''t9''), (''agent_name'', JStr ''coder''), (''status'', JStr ''success'')]"

definition early_result :: message where
  "early_result = zero_message\<lparr>msg_message_id := ''r1'', msg_sender_id := ''t9'', msg_payload := json_print (JObj early_json),
     msg_timestamp := 6\<rparr>"

definition early_task :: message where
  "early_task = zero_message\<lparr>msg_message_id := ''t9'', msg_sender_id := ''gateway'', msg_receiver_id := ''orchestrator'',
     msg_target_agent := ''coder''\<rparr>"

definition early_acts :: "race_act list" where
  "early_acts = [ActStart, ActStart, ActStart, ActReceive early_result, ActListen, ActListen, ActListen, ActStart, ActStart]"

lemma early_decoded:
  "result_of early_result = zero_task_result\<lparr>tr_task_id := ''t9'', tr_agent_name := ''coder'', tr_status := ''success''\<rparr>"
proof -
  have ok: "json_ok max_nesting (JObj early_json)" by (simp add: early_json_def max_nesting_def)
  show ?thesis
    unfolding result_of_def early_result_def
    by (simp add: decode_result_print [OF ok, unfolded early_json_def] early_json_def dec_str_quote zero_task_result_def
        del: json_print.simps) (simp add: dec_str_quote)
qed

lemma early_run:
  obtains r where "race_run sample_env early_task early_acts (race_init sample_app) = Some r"
    "rc_starter r = StDone None" "rc_listener r = LsIdle"
proof -
  let ?a = "set_workflow ''t9'' (new_workflow early_task) sample_app\<lparr>app_world := [(''task.t9'', early_task)]\<rparr>"
  have n [simp]: "msg_message_id early_task = ''t9''" by (simp add: early_task_def)
  have q: "env_enqueue sample_env ''task.t9'' m w = (None, w @ [(''task.t9'', m)])" "app_world sample_app = []" for m w
    by (simp_all add: sample_env_def sample_app_def)
  have db: "no_db_faults sample_env" "is_range (env_rng sample_env)" by (simp_all add: no_db_faults_def sample_env_def is_range_id)
  obtain w wfl e where s: "Start (env_rng sample_env) (OnNodeReady sample_env) (app_world ?a) (new_workflow early_task) = (w, wfl, e)"
    by (cases "Start (env_rng sample_env) (OnNodeReady sample_env) (app_world ?a) (new_workflow early_task)")
  with single_start [OF db(2) s [unfolded new_workflow_def]] have "e = None" by (simp add: OnNodeReady_def sample_env_def)
  with s show thesis
    by (intro that) (auto simp: early_acts_def race_init_def q app_save_ok [OF db(1)])
qed

text \<open>The agent answers before its start is saved: the node is settled, and the task will be run again.\<close>

theorem start_overwrites_early_result_witness:
  "\<exists>r wfl. race_run sample_env early_task early_acts (race_init sample_app) = Some r \<and> rc_starter r = StDone None \<and>
    recoverable_in (app_store (rc_app r)) ''t9'' \<and> map_of (app_workflows (rc_app r)) ''t9'' = Some wfl \<and> settled wfl ''t9''"
proof -
  have h: "is_range (env_rng sample_env)" "no_db_faults sample_env" "sqlite_schema (app_store sample_app)"
    by (simp_all add: sample_env_def is_range_id no_db_faults_def sqlite_schema_def sample_app_def row_of_def sample_task_def)
  have "IsTerminalTaskStatus ''success''" by (simp add: terminal_statuses task_statuses_def TaskStatusSuccess_def TaskStatusPending_def TaskStatusRunning_def)
  then have fin: "results_terminal early_task early_acts"
    by (auto simp: results_terminal_def early_acts_def early_decoded)
  obtain r where r: "race_run sample_env early_task early_acts (race_init sample_app) = Some r"
      "rc_starter r = StDone None" "rc_listener r = LsIdle"
    by (rule early_run)
  have "received early_task (after_starts 3 early_acts)" "\<not> received early_task (after_starts 4 early_acts)"
    by (auto simp: received_def early_acts_def early_decoded early_task_def)
  moreover have "msg_message_id early_task = ''t9''" by (simp add: early_task_def)
  ultimately show ?thesis using start_overwrites_early_result [OF h r fin] r by auto
qed

end
