(* ===== verification/Shared_Queues.thy ===== *)
theory Shared_Queues
  imports Orchestrator_Main Gateway_Router
begin

text \<open>
  The processes around one Redis server: every call of \<^verbatim>\<open>Dequeue\<close> (\<^verbatim>\<open>internal/bus/redis_pubsub.go\<close>) starts a goroutine
  that pops messages of a queue into a channel of its own. The theory follows what happens where several such
  goroutines serve one queue: \<^verbatim>\<open>task_results\<close>, which the orchestrator (\<^verbatim>\<open>ListenResults\<close>) and the gateway
  (\<^verbatim>\<open>StartStreamListener\<close>) both listen to, and \<^verbatim>\<open>tasks\<close>, for which \<^verbatim>\<open>ProcessOneTask\<close> of the orchestrator calls
  \<^verbatim>\<open>Dequeue\<close> anew for every task.

  The server is a world with the two commands of its client; contexts are not cancelled. Channels are the consumers of
  theory \<open>Bus\<close>, whose goroutine differs only in where it takes messages from.
\<close>

section \<open>The server and its consumers\<close>

text \<open>
  The documented behaviour of the list commands: a push that reports no error puts the value at the head of the list, a
  pop returns the key and the value it removed from the tail, and without a value nothing is removed.
\<close>

definition redis_server :: "(string \<Rightarrow> string \<Rightarrow> 'w \<Rightarrow> go_error option \<times> 'w) \<Rightarrow>
    (string \<Rightarrow> 'w \<Rightarrow> brpop_result \<times> 'w) \<Rightarrow> ('w \<Rightarrow> string \<Rightarrow> string list) \<Rightarrow> bool" where
  "redis_server lpush brpop contents =
     ((\<forall>k x w k'. contents (snd (lpush k x w)) k' =
         (if fst (lpush k x w) = None \<and> k' = k then x # contents w k else contents w k')) \<and>
      (\<forall>k w. case fst (brpop k w) of
         BrValues vs \<Rightarrow> (\<exists>x. vs = [k, x] \<and> contents w k = contents (snd (brpop k w)) k @ [x] \<and>
           (\<forall>k'. k' \<noteq> k \<longrightarrow> contents (snd (brpop k w)) k' = contents w k'))
       | _ \<Rightarrow> contents (snd (brpop k w)) = contents w))"

text \<open>\<open>rq_sent\<close> logs the messages whose \<^verbatim>\<open>Enqueue\<close> succeeded, \<open>rq_received\<close> what was received from which channel.\<close>

record 'w redis_system =
  rq_server :: 'w
  rq_consumers :: "consumer list"
  rq_sent :: "(string \<times> message) list"
  rq_received :: "(nat \<times> string \<times> message) list"

definition rq_init :: "'w \<Rightarrow> 'w redis_system" where
  "rq_init w = \<lparr>rq_server = w, rq_consumers = [], rq_sent = [], rq_received = []\<rparr>"

definition rq_send :: "(string \<Rightarrow> string) \<Rightarrow> (string \<Rightarrow> string \<Rightarrow> 'w \<Rightarrow> go_error option \<times> 'w) \<Rightarrow> string \<Rightarrow> message \<Rightarrow>
    'w redis_system \<Rightarrow> 'w redis_system" where
  "rq_send jerr lpush q m s =
     (let (err, w) = redis_Enqueue jerr lpush q m (rq_server s) in
      s\<lparr>rq_server := w, rq_sent := rq_sent s @ (if err = None then [(q, m)] else [])\<rparr>)"

definition redis_Dequeue :: "string \<Rightarrow> 'w redis_system \<Rightarrow> nat \<times> 'w redis_system" where
  "redis_Dequeue q s =
     (length (rq_consumers s),
      s\<lparr>rq_consumers := rq_consumers s @ [\<lparr>co_queue = q, co_held = None, co_out = [], co_done = False\<rparr>]\<rparr>)"

text \<open>One round of the goroutine of the \<open>i\<close>-th channel: pop, and then the send, which waits while the channel is full.\<close>

definition rq_pop :: "(string \<Rightarrow> string) \<Rightarrow> (string \<Rightarrow> 'w \<Rightarrow> brpop_result \<times> 'w) \<Rightarrow> nat \<Rightarrow> 'w redis_system \<Rightarrow> 'w redis_system" where
  "rq_pop jerr brpop i s =
     (let c = rq_consumers s ! i;
          (act, w) = redis_Dequeue_iter jerr brpop (co_queue c) None None (rq_server s) in
      case act of
        LSend m \<Rightarrow> s\<lparr>rq_server := w, rq_consumers := (rq_consumers s)[i := c\<lparr>co_held := Some m\<rparr>]\<rparr>
      | _ \<Rightarrow> s\<lparr>rq_server := w\<rparr>)"

definition rq_put :: "nat \<Rightarrow> message \<Rightarrow> 'w redis_system \<Rightarrow> 'w redis_system" where
  "rq_put i m s =
     (let c = rq_consumers s ! i in s\<lparr>rq_consumers := (rq_consumers s)[i := c\<lparr>co_held := None, co_out := co_out c @ [m]\<rparr>]\<rparr>)"

definition rq_receive :: "nat \<Rightarrow> message \<Rightarrow> message list \<Rightarrow> 'w redis_system \<Rightarrow> 'w redis_system" where
  "rq_receive i m ms s =
     (let c = rq_consumers s ! i in
      s\<lparr>rq_consumers := (rq_consumers s)[i := c\<lparr>co_out := ms\<rparr>], rq_received := rq_received s @ [(i, co_queue c, m)]\<rparr>)"

text \<open>Senders and goroutines; then also new channels and the clients that receive.\<close>

inductive rq_work :: "(string \<Rightarrow> string) \<Rightarrow> (string \<Rightarrow> string \<Rightarrow> 'w \<Rightarrow> go_error option \<times> 'w) \<Rightarrow>
    (string \<Rightarrow> 'w \<Rightarrow> brpop_result \<times> 'w) \<Rightarrow> 'w redis_system \<Rightarrow> 'w redis_system \<Rightarrow> bool"
  for jerr lpush brpop where
  send: "wire_ok m \<Longrightarrow> rq_work jerr lpush brpop s (rq_send jerr lpush q m s)"
| pop: "i < length (rq_consumers s) \<Longrightarrow> co_held (rq_consumers s ! i) = None \<Longrightarrow> rq_work jerr lpush brpop s (rq_pop jerr brpop i s)"
| put: "i < length (rq_consumers s) \<Longrightarrow> co_held (rq_consumers s ! i) = Some m \<Longrightarrow> length (co_out (rq_consumers s ! i)) < chan_cap \<Longrightarrow>
     rq_work jerr lpush brpop s (rq_put i m s)"

inductive rq_step :: "(string \<Rightarrow> string) \<Rightarrow> (string \<Rightarrow> string \<Rightarrow> 'w \<Rightarrow> go_error option \<times> 'w) \<Rightarrow>
    (string \<Rightarrow> 'w \<Rightarrow> brpop_result \<times> 'w) \<Rightarrow> 'w redis_system \<Rightarrow> 'w redis_system \<Rightarrow> bool"
  for jerr lpush brpop where
  work: "rq_work jerr lpush brpop s t \<Longrightarrow> rq_step jerr lpush brpop s t"
| dequeue: "rq_step jerr lpush brpop s (snd (redis_Dequeue q s))"
| receive: "i < length (rq_consumers s) \<Longrightarrow> co_out (rq_consumers s ! i) = m # ms \<Longrightarrow> rq_step jerr lpush brpop s (rq_receive i m ms s)"

definition received_on :: "string \<Rightarrow> 'w redis_system \<Rightarrow> message list" where
  "received_on q s = map (\<lambda>(i, q', m). m) (filter (\<lambda>(i, q', m). q' = q) (rq_received s))"

definition received_by :: "nat \<Rightarrow> string \<Rightarrow> 'w redis_system \<Rightarrow> message list" where
  "received_by j q s = map (\<lambda>(i, q', m). m) (filter (\<lambda>(i, q', m). i = j \<and> q' = q) (rq_received s))"

section \<open>Each message to one consumer\<close>

text \<open>
  The list of a queue holds the wire texts of messages, which with those on their way and those received make up the
  messages sent.
\<close>

definition rq_conserved :: "('w \<Rightarrow> string \<Rightarrow> string list) \<Rightarrow> string \<Rightarrow> 'w redis_system \<Rightarrow> bool" where
  "rq_conserved contents q s =
     (\<exists>ms. contents (rq_server s) q = map wire ms \<and> list_all wire_ok ms \<and>
        mset ms + in_flight q (rq_consumers s) + mset (received_on q s) = mset (on_queue q (rq_sent s)))"

lemma received_on_simps [simp]:
  "received_on q (s\<lparr>rq_server := w\<rparr>) = received_on q s"
  "received_on q (s\<lparr>rq_consumers := cs\<rparr>) = received_on q s"
  "received_on q (s\<lparr>rq_sent := ms\<rparr>) = received_on q s"
  "received_on q (s\<lparr>rq_received := rq_received s @ [(i, q', m)]\<rparr>) = received_on q s @ (if q' = q then [m] else [])"
  by (simp_all add: received_on_def)

lemma push_contents:
  assumes "redis_server lpush brpop contents" "lpush k x w = (err, w')"
  shows "contents w' k' = (if err = None \<and> k' = k then x # contents w k else contents w k')"
proof -
  from assms(1) have "contents (snd (lpush k x w)) k' =
      (if fst (lpush k x w) = None \<and> k' = k then x # contents w k else contents w k')"
    unfolding redis_server_def by blast
  with assms(2) show ?thesis by simp
qed

lemma pop_contents:
  assumes "redis_server lpush brpop contents" "brpop k w = (r, w')"
  shows "case r of
      BrValues vs \<Rightarrow> \<exists>x. vs = [k, x] \<and> contents w k = contents w' k @ [x] \<and> (\<forall>k'. k' \<noteq> k \<longrightarrow> contents w' k' = contents w k')
    | _ \<Rightarrow> contents w' = contents w"
proof -
  from assms(1) have "case fst (brpop k w) of
      BrValues vs \<Rightarrow> (\<exists>x. vs = [k, x] \<and> contents w k = contents (snd (brpop k w)) k @ [x] \<and>
        (\<forall>k'. k' \<noteq> k \<longrightarrow> contents (snd (brpop k w)) k' = contents w k'))
    | _ \<Rightarrow> contents (snd (brpop k w)) = contents w"
    unfolding redis_server_def by blast
  with assms(2) show ?thesis by (cases r) simp_all
qed

lemma send_conserved:
  assumes "redis_server lpush brpop contents" "wire_ok m" "rq_conserved contents q s"
  shows "rq_conserved contents q (rq_send jerr lpush q' m s)"
proof -
  have v: "Validate m = None" "marshal_message m = Some (wire m)"
    using assms(2) wire_ok_parse [OF assms(2)] by (auto simp: wire_ok_def)
  then have e: "redis_Enqueue jerr lpush q' m (rq_server s) = lpush q' (wire m) (rq_server s)"
    by (simp add: redis_Enqueue_def redis_send_def)
  from assms(3) obtain ms where ms: "contents (rq_server s) q = map wire ms" "list_all wire_ok ms"
    "mset ms + in_flight q (rq_consumers s) + mset (received_on q s) = mset (on_queue q (rq_sent s))"
    by (auto simp: rq_conserved_def)
  obtain err w where l: "lpush q' (wire m) (rq_server s) = (err, w)" by force
  note c = push_contents [OF assms(1) l]
  show ?thesis
  proof (cases "err = None \<and> q = q'")
    case True
    with ms c [of q] l e assms(2) show ?thesis
      unfolding rq_conserved_def by (intro exI [of _ "m # ms"]) (auto simp: rq_send_def on_queue_def)
  next
    case False
    with ms c [of q] l e show ?thesis
      unfolding rq_conserved_def by (intro exI [of _ ms]) (auto simp: rq_send_def on_queue_def)
  qed
qed

text \<open>A round of a goroutine either leaves all queues as they are or moves the last message of its queue.\<close>

lemma pop_cases:
  assumes "redis_server lpush brpop contents" "rq_conserved contents (co_queue (rq_consumers s ! i)) s"
  obtains (idle) w where "rq_pop jerr brpop i s = s\<lparr>rq_server := w\<rparr>" "contents w = contents (rq_server s)"
  | (moved) w ks m where "list_all wire_ok (ks @ [m])"
      "mset (ks @ [m]) + in_flight (co_queue (rq_consumers s ! i)) (rq_consumers s) +
        mset (received_on (co_queue (rq_consumers s ! i)) s) = mset (on_queue (co_queue (rq_consumers s ! i)) (rq_sent s))"
      "contents w (co_queue (rq_consumers s ! i)) = map wire ks"
      "\<And>q. q \<noteq> co_queue (rq_consumers s ! i) \<Longrightarrow> contents w q = contents (rq_server s) q"
      "rq_pop jerr brpop i s =
        s\<lparr>rq_server := w, rq_consumers := (rq_consumers s)[i := (rq_consumers s ! i)\<lparr>co_held := Some m\<rparr>]\<rparr>"
proof -
  let ?k = "co_queue (rq_consumers s ! i)"
  obtain r w where b: "brpop ?k (rq_server s) = (r, w)" by force
  note law = pop_contents [of lpush, OF assms(1) b]
  show thesis
  proof (cases r)
    case (BrValues vs)
    with law obtain x where x: "vs = [?k, x]" "contents (rq_server s) ?k = contents w ?k @ [x]"
      "\<And>q. q \<noteq> ?k \<Longrightarrow> contents w q = contents (rq_server s) q" by auto
    from assms(2) obtain ms where ms: "map wire ms = contents w ?k @ [x]" "list_all wire_ok ms"
      "mset ms + in_flight ?k (rq_consumers s) + mset (received_on ?k s) = mset (on_queue ?k (rq_sent s))"
      unfolding rq_conserved_def x(2) by metis
    from ms(1) obtain ks m where m: "ms = ks @ [m]" "contents w ?k = map wire ks" "x = wire m"
      by (auto simp: map_eq_append_conv)
    with ms(2) have ok: "wire_ok m" by simp
    from wire_ok_parse [OF ok, of jerr] b x(1) m(3) BrValues
    have it: "redis_Dequeue_iter jerr brpop ?k None None (rq_server s) = (LSend m, w)"
      by (simp add: redis_Dequeue_iter_def)
    from x(3) m(2) ms(2,3) show thesis unfolding m(1) by (intro moved [of ks m w]) (auto simp: rq_pop_def Let_def it)
  qed (use b law in \<open>auto intro!: idle [of w] simp: rq_pop_def redis_Dequeue_iter_def Let_def\<close>)
qed

lemma pop_conserved:
  assumes "redis_server lpush brpop contents" "i < length (rq_consumers s)" "co_held (rq_consumers s ! i) = None"
    and "\<And>q. rq_conserved contents q s"
  shows "rq_conserved contents q (rq_pop jerr brpop i s)"
  using assms(1) assms(4) [of "co_queue (rq_consumers s ! i)"]
proof (cases rule: pop_cases [where jerr = jerr and brpop = brpop])
  case (idle w)
  with assms(4) [of q] show ?thesis by (simp add: rq_conserved_def)
next
  case (moved w ks m)
  let ?c = "rq_consumers s ! i"
  note fl = in_flight_update [OF assms(2), of q "?c\<lparr>co_held := Some m\<rparr>"]
  show ?thesis
  proof (cases "q = co_queue ?c")
    case True
    with fl moved assms(3) show ?thesis
      unfolding rq_conserved_def by (intro exI [of _ ks]) (auto simp: carried_def opt_list_def)
  next
    case False
    with fl moved(4,5) assms(4) [of q] show ?thesis
      by (auto simp: rq_conserved_def carried_def)
  qed
qed

lemma put_conserved:
  assumes "i < length (rq_consumers s)" "co_held (rq_consumers s ! i) = Some m" "rq_conserved contents q s"
  shows "rq_conserved contents q (rq_put i m s)"
proof -
  let ?c = "rq_consumers s ! i"
  have "in_flight q ((rq_consumers s)[i := ?c\<lparr>co_held := None, co_out := co_out ?c @ [m]\<rparr>]) = in_flight q (rq_consumers s)"
    using in_flight_update [OF assms(1), of q "?c\<lparr>co_held := None, co_out := co_out ?c @ [m]\<rparr>"] assms(2)
    by (auto simp: carried_def opt_list_def split: if_splits)
  with assms(3) show ?thesis by (simp add: rq_conserved_def rq_put_def Let_def)
qed

lemma receive_conserved:
  assumes "i < length (rq_consumers s)" "co_out (rq_consumers s ! i) = m # ms" "rq_conserved contents q s"
  shows "rq_conserved contents q (rq_receive i m ms s)"
proof -
  let ?c = "rq_consumers s ! i"
  define d where "d = (if co_queue ?c = q then {#m#} else {#})"
  have fl: "in_flight q ((rq_consumers s)[i := ?c\<lparr>co_out := ms\<rparr>]) + d = in_flight q (rq_consumers s)"
    using in_flight_update [OF assms(1), of q "?c\<lparr>co_out := ms\<rparr>"] assms(2)
    by (auto simp: carried_def d_def split: if_splits)
  have r: "mset (received_on q (rq_receive i m ms s)) = mset (received_on q s) + d"
    by (simp add: rq_receive_def Let_def received_on_def d_def)
  from assms(3) obtain ks where ks: "contents (rq_server s) q = map wire ks" "list_all wire_ok ks"
    "mset ks + (in_flight q ((rq_consumers s)[i := ?c\<lparr>co_out := ms\<rparr>]) + d) + mset (received_on q s) = mset (on_queue q (rq_sent s))"
    unfolding fl by (auto simp: rq_conserved_def)
  show ?thesis
    unfolding rq_conserved_def r using ks by (intro exI [of _ ks]) (simp add: rq_receive_def Let_def ac_simps)
qed

lemma dequeue_conserved: "rq_conserved contents q s \<Longrightarrow> rq_conserved contents q (snd (redis_Dequeue q' s))"
  by (simp add: rq_conserved_def redis_Dequeue_def in_flight_def carried_def opt_list_def)

lemma work_conserved:
  "rq_work jerr lpush brpop s t \<Longrightarrow> redis_server lpush brpop contents \<Longrightarrow> (\<And>q. rq_conserved contents q s) \<Longrightarrow> rq_conserved contents q t"
  by (induction rule: rq_work.induct) (simp_all add: send_conserved pop_conserved put_conserved)

lemma step_conserved:
  "rq_step jerr lpush brpop s t \<Longrightarrow> redis_server lpush brpop contents \<Longrightarrow> (\<And>q. rq_conserved contents q s) \<Longrightarrow> rq_conserved contents q t"
  by (induction rule: rq_step.induct) (simp_all add: work_conserved dequeue_conserved receive_conserved)

lemma run_conserved:
  assumes "(rq_step jerr lpush brpop)\<^sup>*\<^sup>* (rq_init w) s" "redis_server lpush brpop contents" "\<And>q. contents w q = []"
  shows "rq_conserved contents q s"
  using assms(1)
proof (induction arbitrary: q)
  case base
  from assms(3) show ?case by (simp add: rq_conserved_def rq_init_def in_flight_def received_on_def)
next
  case (step s t)
  from step_conserved [OF step(2) assms(2) step.IH] show ?case .
qed

lemma received_sent: "rq_conserved contents q s \<Longrightarrow> mset (received_on q s) \<subseteq># mset (on_queue q (rq_sent s))"
  unfolding rq_conserved_def by (metis mset_subset_eq_add_right)

lemma in_flight_received_sent:
  "rq_conserved contents q s \<Longrightarrow> in_flight q (rq_consumers s) + mset (received_on q s) \<subseteq># mset (on_queue q (rq_sent s))"
  unfolding rq_conserved_def by (metis mset_subset_eq_add_right union_assoc)

lemma in_flight_member:
  assumes "i < length cs"
  shows "carried q (cs ! i) \<subseteq># in_flight q cs"
proof -
  have "carried q ((cs ! i)\<lparr>co_out := [], co_held := None\<rparr>) = {#}" by (simp add: carried_def opt_list_def)
  with in_flight_update [OF assms, of q "(cs ! i)\<lparr>co_out := [], co_held := None\<rparr>"] show ?thesis
    by (metis add.right_neutral mset_subset_eq_add_right)
qed

lemma filter_parts:
  "(\<And>x. P x \<Longrightarrow> R x \<and> \<not> Q x) \<Longrightarrow> (\<And>x. Q x \<Longrightarrow> R x) \<Longrightarrow>
     mset (map f (filter P xs)) + mset (map f (filter Q xs)) \<subseteq># mset (map f (filter R xs))"
  by (induction xs) (auto simp: subset_mset.add_mono intro: mset_subset_eq_add_right subset_mset.order_trans)

lemma received_by_parts:
  "i \<noteq> j \<Longrightarrow> mset (received_by i q s) + mset (received_by j q s) \<subseteq># mset (received_on q s)"
  unfolding received_by_def received_on_def by (rule filter_parts) auto

text \<open>Of the messages that satisfy \<open>P\<close> one was sent; then no two consumers receive such a message.\<close>

lemma received_once:
  assumes "rq_conserved contents q s" "filter P (on_queue q (rq_sent s)) = [m]" "i \<noteq> j" "m' \<in> set (received_by j q s)" "P m'"
  shows "\<forall>x \<in> set (received_by i q s). \<not> P x"
proof -
  let ?ri = "received_by i q s" and ?rj = "received_by j q s"
  have "mset (?ri @ ?rj) \<subseteq># mset (on_queue q (rq_sent s))"
    using subset_mset.order_trans [OF received_by_parts [OF assms(3)] received_sent [OF assms(1)]] by simp
  then have "mset (filter P (?ri @ ?rj)) \<subseteq># mset (filter P (on_queue q (rq_sent s)))"
    by (simp only: mset_filter multiset_filter_mono)
  from size_mset_mono [OF this] have le: "length (filter P ?ri) + length (filter P ?rj) \<le> 1"
    unfolding size_mset assms(2) by simp
  from assms(4,5) have "filter P ?rj \<noteq> []" by (auto simp: filter_empty_conv)
  with le have "filter P ?ri = []" by (cases "filter P ?rj"; cases "filter P ?ri") simp_all
  then show ?thesis by (simp add: filter_empty_conv)
qed

section \<open>Two listeners for the results\<close>

definition orchestrator_reads :: "string \<Rightarrow> message \<Rightarrow> bool" where
  "orchestrator_reads k m = (tr_task_id (decode_result (msg_payload m)) = k)"

definition gateway_reads :: "string \<Rightarrow> message \<Rightarrow> bool" where
  "gateway_reads k m =
     (case unmarshal (dec_struct False task_result_fields) zero_task_result (msg_payload m) of
        None \<Rightarrow> False | Some result \<Rightarrow> tr_task_id result = k)"

definition about_task :: "string \<Rightarrow> message \<Rightarrow> bool" where
  "about_task k m = (orchestrator_reads k m \<or> gateway_reads k m)"

lemma results_leave_other_task:
  assumes "no_db_faults env" "\<forall>m \<in> set ms. \<not> orchestrator_reads k m" "sqlite_schema (app_store a)"
  shows "task_view k (fold (handle_result env) ms a) = task_view k a"
  using assms(2,3)
proof (induction ms arbitrary: a)
  case (Cons m ms)
  then have "tr_task_id (decode_result (msg_payload m)) \<noteq> k" by (simp add: orchestrator_reads_def)
  from result_other [OF assms(1) Cons.prems(2) this] Cons show ?case by simp
qed simp

lemma replies_leave_other_route:
  assumes "\<forall>m \<in> set ms. \<not> gateway_reads k m"
  shows "routeForTask k (fold (router_on_result renv) ms r) = routeForTask k r"
  using assms
proof (induction ms arbitrary: r)
  case (Cons m ms)
  then have "routeForTask k (router_on_result renv m r) = routeForTask k r"
    by (auto simp: gateway_reads_def router_on_result_def routeForTask_def [of _ "send_response _ _ _"] Let_def routeForTask_def [of k r]
        split: option.splits)
  with Cons show ?case by simp
qed simp

text \<open>
  C11. A result reaches the orchestrator or the gateway, never both. Both read the queue \<^verbatim>\<open>task_results\<close>, each from a
  channel of its own, and however senders, goroutines and receivers interleave, a message goes to one of them. So when
  one result was sent for a task: once the gateway has received it, the row and the workflow of the task in the
  orchestrator stay as if there were no result (a running task stays recoverable), and once the orchestrator has received
  it, the route of the task in the gateway stays, so that its channel gets no reply.
\<close>

theorem result_reaches_one_listener:
  assumes "redis_server lpush brpop contents" "\<And>q. contents w q = []" "(rq_step jerr lpush brpop)\<^sup>*\<^sup>* (rq_init w) s"
    and "filter (about_task k) (on_queue ''task_results'' (rq_sent s)) = [m]" "orch \<noteq> gw"
    and "no_db_faults env" "sqlite_schema (app_store a)"
  shows "(m \<in> set (received_by gw ''task_results'' s) \<longrightarrow>
      task_view k (fold (handle_result env) (received_by orch ''task_results'' s) a) = task_view k a) \<and>
    (m \<in> set (received_by orch ''task_results'' s) \<longrightarrow>
      routeForTask k (fold (router_on_result renv) (received_by gw ''task_results'' s) r) = routeForTask k r)"
proof -
  note inv = run_conserved [OF assms(3,1,2)]
  have about: "about_task k m" using assms(4) by (metis filter_eq_ConsD)
  show ?thesis
  proof (intro conjI impI)
    assume "m \<in> set (received_by gw ''task_results'' s)"
    from received_once [OF inv assms(4,5) this about]
    show "task_view k (fold (handle_result env) (received_by orch ''task_results'' s) a) = task_view k a"
      by (intro results_leave_other_task assms(6,7)) (simp add: about_task_def)
  next
    assume "m \<in> set (received_by orch ''task_results'' s)"
    from received_once [OF inv assms(4) assms(5) [symmetric] this about]
    show "routeForTask k (fold (router_on_result renv) (received_by gw ''task_results'' s) r) = routeForTask k r"
      by (intro replies_leave_other_route) (simp add: about_task_def)
  qed
qed

section \<open>A channel for every task\<close>

text \<open>
  \<^verbatim>\<open>ProcessOneTask\<close> opens a channel on \<^verbatim>\<open>tasks\<close>, takes one message from it and returns; the goroutine behind the
  channel goes on. \<open>it_current\<close> is the channel the loop waits on, \<open>it_started\<close> what it has handed to
  \<^verbatim>\<open>enqueueAndStartTask\<close>.
\<close>

record 'w intake =
  it_sys :: "'w redis_system"
  it_current :: "nat option"
  it_started :: "message list"

definition intake_init :: "'w \<Rightarrow> 'w intake" where
  "intake_init w = \<lparr>it_sys = rq_init w, it_current = None, it_started = []\<rparr>"

inductive intake_step :: "(string \<Rightarrow> string) \<Rightarrow> (string \<Rightarrow> string \<Rightarrow> 'w \<Rightarrow> go_error option \<times> 'w) \<Rightarrow>
    (string \<Rightarrow> 'w \<Rightarrow> brpop_result \<times> 'w) \<Rightarrow> 'w intake \<Rightarrow> 'w intake \<Rightarrow> bool"
  for jerr lpush brpop where
  work: "rq_work jerr lpush brpop (it_sys s) t \<Longrightarrow> intake_step jerr lpush brpop s (s\<lparr>it_sys := t\<rparr>)"
| call: "it_current s = None \<Longrightarrow> redis_Dequeue ''tasks'' (it_sys s) = (i, t) \<Longrightarrow>
     intake_step jerr lpush brpop s (s\<lparr>it_sys := t, it_current := Some i\<rparr>)"
| take: "it_current s = Some i \<Longrightarrow> i < length (rq_consumers (it_sys s)) \<Longrightarrow> co_out (rq_consumers (it_sys s) ! i) = m # ms \<Longrightarrow>
     intake_step jerr lpush brpop s
       (s\<lparr>it_sys := rq_receive i m ms (it_sys s), it_current := None, it_started := it_started s @ [m]\<rparr>)"

definition intake_inv :: "('w \<Rightarrow> string \<Rightarrow> string list) \<Rightarrow> 'w intake \<Rightarrow> bool" where
  "intake_inv contents s =
     ((\<forall>q. rq_conserved contents q (it_sys s)) \<and> list_all (\<lambda>c. co_queue c = ''tasks'') (rq_consumers (it_sys s)) \<and>
      it_started s = received_on ''tasks'' (it_sys s) \<and>
      length (rq_consumers (it_sys s)) = length (it_started s) + (if it_current s = None then 0 else 1))"

lemma work_frame:
  assumes "rq_work jerr lpush brpop s t"
  shows "map co_queue (rq_consumers t) = map co_queue (rq_consumers s)" "rq_received t = rq_received s"
    and "i < length (rq_consumers s) \<Longrightarrow> carried q (rq_consumers s ! i) \<subseteq># carried q (rq_consumers t ! i)"
proof -
  have "map co_queue (rq_consumers t) = map co_queue (rq_consumers s) \<and> rq_received t = rq_received s \<and>
      (i < length (rq_consumers s) \<longrightarrow> carried q (rq_consumers s ! i) \<subseteq># carried q (rq_consumers t ! i))"
    using assms
  proof cases
    case (send m q')
    then show ?thesis by (auto simp: rq_send_def split: prod.splits)
  next
    case (pop j)
    then show ?thesis
      by (cases "j = i") (auto simp: rq_pop_def Let_def carried_def opt_list_def map_update list_update_id
          split: prod.splits loop_act.splits intro!: list_update_same_conv [THEN iffD2])
  next
    case (put j m)
    then show ?thesis
      by (cases "j = i") (auto simp: rq_put_def Let_def carried_def opt_list_def map_update list_update_id
          intro!: list_update_same_conv [THEN iffD2])
  qed
  then show "map co_queue (rq_consumers t) = map co_queue (rq_consumers s)" "rq_received t = rq_received s"
    "i < length (rq_consumers s) \<Longrightarrow> carried q (rq_consumers s ! i) \<subseteq># carried q (rq_consumers t ! i)" by auto
qed

lemma intake_inv_step:
  assumes "intake_step jerr lpush brpop s t" "redis_server lpush brpop contents" "intake_inv contents s"
  shows "intake_inv contents t"
  using assms(1)
proof cases
  case (work u)
  from work_frame(1,2) [OF work(2)] have f: "map co_queue (rq_consumers u) = map co_queue (rq_consumers (it_sys s))"
    "received_on ''tasks'' u = received_on ''tasks'' (it_sys s)" by (simp_all add: received_on_def)
  from f(1) have "co_queue ` set (rq_consumers u) = co_queue ` set (rq_consumers (it_sys s))" by (metis list.set_map)
  moreover from assms(3) have "co_queue ` set (rq_consumers (it_sys s)) \<subseteq> {''tasks''}"
    by (auto simp: intake_inv_def list_all_iff)
  ultimately have "co_queue ` set (rq_consumers u) \<subseteq> {''tasks''}" by simp
  then have "list_all (\<lambda>c. co_queue c = ''tasks'') (rq_consumers u)" by (auto simp: list_all_iff)
  moreover from f(1) have "length (rq_consumers u) = length (rq_consumers (it_sys s))" by (rule map_eq_imp_length_eq)
  moreover have "rq_conserved contents q u" for q
    using work_conserved [OF work(2) assms(2)] assms(3) by (simp add: intake_inv_def)
  ultimately show ?thesis using assms(3) work(1) f by (simp add: intake_inv_def)
next
  case (call i u)
  have c: "rq_conserved contents q (it_sys s)" for q using assms(3) by (simp add: intake_inv_def)
  have u: "u = snd (redis_Dequeue ''tasks'' (it_sys s))" using call(3) by simp
  have "received_on ''tasks'' u = received_on ''tasks'' (it_sys s)" by (simp add: u redis_Dequeue_def)
  with assms(3) call(1,2) dequeue_conserved [OF c] show ?thesis
    by (simp add: intake_inv_def u) (simp add: redis_Dequeue_def)
next
  case (take i m ms)
  have c: "rq_conserved contents q (it_sys s)" for q using assms(3) by (simp add: intake_inv_def)
  let ?u = "rq_receive i m ms (it_sys s)"
  have "co_queue (rq_consumers (it_sys s) ! i) = ''tasks''" using assms(3) take(3) by (auto simp: intake_inv_def list_all_length)
  then have "received_on ''tasks'' ?u = received_on ''tasks'' (it_sys s) @ [m]"
    "list_all (\<lambda>c. co_queue c = ''tasks'') (rq_consumers ?u)" "length (rq_consumers ?u) = length (rq_consumers (it_sys s))"
    using assms(3) take(3) by (auto simp: intake_inv_def rq_receive_def Let_def received_on_def list_all_length nth_list_update)
  with assms(3) take(1,2) receive_conserved [OF take(3,4) c] show ?thesis by (simp add: intake_inv_def)
qed

lemma intake_inv_run:
  assumes "(intake_step jerr lpush brpop)\<^sup>*\<^sup>* s t" "redis_server lpush brpop contents" "intake_inv contents s"
  shows "intake_inv contents t"
  using assms(1,3) by (induction) (auto intro: intake_inv_step [OF _ assms(2)])

lemma intake_inv_init:
  assumes "\<And>q. contents w q = []"
  shows "intake_inv contents (intake_init w)"
  using assms by (simp add: intake_inv_def intake_init_def rq_init_def rq_conserved_def in_flight_def received_on_def)

text \<open>A message with an abandoned channel.\<close>

definition stranded :: "'w intake \<Rightarrow> nat \<Rightarrow> message \<Rightarrow> bool" where
  "stranded s i m = (i < length (rq_consumers (it_sys s)) \<and> it_current s \<noteq> Some i \<and>
     m \<in># carried ''tasks'' (rq_consumers (it_sys s) ! i))"

lemma stranded_step:
  assumes "intake_step jerr lpush brpop s t" "stranded s i m"
  shows "stranded t i m"
  using assms(1)
proof cases
  case (work u)
  from work_frame [OF work(2)] have "length (rq_consumers u) = length (rq_consumers (it_sys s))"
    "i < length (rq_consumers (it_sys s)) \<Longrightarrow> carried ''tasks'' (rq_consumers (it_sys s) ! i) \<subseteq># carried ''tasks'' (rq_consumers u ! i)"
    by (auto dest: map_eq_imp_length_eq)
  with assms(2) work(1) show ?thesis by (auto simp: stranded_def dest: mset_subset_eqD)
next
  case (call j u)
  with assms(2) show ?thesis by (auto simp: stranded_def redis_Dequeue_def nth_append)
next
  case (take j m' ms)
  with assms(2) show ?thesis by (auto simp: stranded_def rq_receive_def Let_def)
qed

lemma stranded_run: "(intake_step jerr lpush brpop)\<^sup>*\<^sup>* s t \<Longrightarrow> stranded s i m \<Longrightarrow> stranded t i m"
  by (induction rule: rtranclp_induct) (auto intro: stranded_step)

text \<open>The loop over the messages it was handed; what it does to other tasks.\<close>

definition process_started :: "'w app_env \<Rightarrow> message list \<Rightarrow> 'w app \<Rightarrow> go_error option \<times> 'w app" where
  "process_started env ms a = ProcessLoop env (map (\<lambda>m. (None, Inr (Some m))) ms) a"

lemma process_other:
  assumes "no_db_faults env" "\<forall>m \<in> set ms. msg_message_id m \<noteq> k" "sqlite_schema (app_store a)"
  shows "task_view k (snd (process_started env ms a)) = task_view k a"
  using assms(2,3)
proof (induction ms arbitrary: a)
  case Nil
  then show ?case by (simp add: process_started_def)
next
  case (Cons m ms)
  obtain err a1 where e: "enqueueAndStartTask env m a = (err, a1)" by force
  from Cons.prems(1) have "msg_message_id m \<noteq> k" by simp
  from enqueue_other [OF assms(1) Cons.prems(2) e this] Cons.IH [of a1] Cons.prems(1) e show ?case
    by (auto simp: process_started_def ProcessOneTask_def split: option.splits)
qed

text \<open>
  C12. The loop of the orchestrator loses tasks. Every started task leaves one goroutine behind that keeps popping
  messages of the queue \<^verbatim>\<open>tasks\<close> into a channel nobody reads: there are as many channels as started tasks, plus the
  one the loop waits on. A task message that such an abandoned channel holds stays there whatever senders, goroutines
  and the loop do later: it is never handed to \<^verbatim>\<open>enqueueAndStartTask\<close>, and after any number of rounds the row and the
  workflow of its task are what they were before the loop began, although \<^verbatim>\<open>Enqueue\<close> reported success.
\<close>

theorem abandoned_channel_keeps_task:
  assumes "redis_server lpush brpop contents" "\<And>q. contents w q = []" "(intake_step jerr lpush brpop)\<^sup>*\<^sup>* (intake_init w) s"
    and "stranded s i m" "(intake_step jerr lpush brpop)\<^sup>*\<^sup>* s t"
    and "filter (\<lambda>x. msg_message_id x = msg_message_id m) (on_queue ''tasks'' (rq_sent (it_sys t))) = [m]"
    and "no_db_faults env" "sqlite_schema (app_store a)"
  shows "length (rq_consumers (it_sys t)) = length (it_started t) + (if it_current t = None then 0 else 1) \<and>
    stranded t i m \<and> m \<notin> set (it_started t) \<and>
    task_view (msg_message_id m) (snd (process_started env (it_started t) a)) = task_view (msg_message_id m) a"
proof -
  let ?q = "''tasks''" and ?same = "\<lambda>x. msg_message_id x = msg_message_id m"
  have "intake_inv contents t"
    by (intro intake_inv_run [OF assms(5,1)] intake_inv_run [OF assms(3,1)] intake_inv_init assms(2))
  then have inv: "rq_conserved contents ?q (it_sys t)" "it_started t = received_on ?q (it_sys t)"
    "length (rq_consumers (it_sys t)) = length (it_started t) + (if it_current t = None then 0 else 1)"
    by (auto simp: intake_inv_def)
  have st: "stranded t i m" by (rule stranded_run [OF assms(5,4)])
  have "m \<in># in_flight ?q (rq_consumers (it_sys t))"
    using st in_flight_member [of i "rq_consumers (it_sys t)" ?q] by (auto simp: stranded_def dest: mset_subset_eqD)
  then obtain N where "in_flight ?q (rq_consumers (it_sys t)) = add_mset m N" by (metis multi_member_split)
  with in_flight_received_sent [OF inv(1)] have "add_mset m (N + mset (it_started t)) \<subseteq># mset (on_queue ?q (rq_sent (it_sys t)))"
    by (simp add: inv(2))
  then have "mset (m # it_started t) \<subseteq># mset (on_queue ?q (rq_sent (it_sys t)))"
    by (rule subset_mset.order_trans [rotated]) simp
  then have "mset (filter ?same (m # it_started t)) \<subseteq># mset (filter ?same (on_queue ?q (rq_sent (it_sys t))))"
    by (simp only: mset_filter multiset_filter_mono)
  from size_mset_mono [OF this] have none: "filter ?same (it_started t) = []"
    unfolding size_mset assms(6) by simp
  then have "\<forall>x \<in> set (it_started t). msg_message_id x \<noteq> msg_message_id m" by (simp add: filter_empty_conv)
  with process_other [OF assms(7) this assms(8)] inv(3) st show ?thesis by auto
qed

section \<open>Runs on a server of lists\<close>

lemma list_server: "redis_server list_lpush list_brpop (\<lambda>w. w)"
  by (auto simp: redis_server_def list_lpush_def list_brpop_def)

lemma send_list:
  "wire_ok m \<Longrightarrow> rq_send jerr list_lpush q m s =
    s\<lparr>rq_server := (rq_server s)(q := wire m # rq_server s q), rq_sent := rq_sent s @ [(q, m)]\<rparr>"
  using wire_ok_parse [of m] by (simp add: rq_send_def redis_Enqueue_def redis_send_def list_lpush_def wire_ok_def)

lemma pop_list:
  assumes "wire_ok m" "rq_server s (co_queue (rq_consumers s ! i)) = xs @ [wire m]"
  shows "rq_pop jerr list_brpop i s = s\<lparr>rq_server := (rq_server s)(co_queue (rq_consumers s ! i) := xs),
    rq_consumers := (rq_consumers s)[i := (rq_consumers s ! i)\<lparr>co_held := Some m\<rparr>]\<rparr>"
  using assms wire_ok_parse [OF assms(1), of jerr] by (simp add: rq_pop_def redis_Dequeue_iter_def list_brpop_def Let_def)

definition waiting :: "string \<Rightarrow> consumer" where
  "waiting q = \<lparr>co_queue = q, co_held = None, co_out = [], co_done = False\<rparr>"

definition shared_json :: "(string \<times> json) list" where
  "shared_json = [(''task_id'', JStr ''t1''), (''agent_name'', JStr ''coder''), (''status'', JStr ''success'')]"

definition shared_result :: message where
  "shared_result = \<lparr>msg_message_id = ''r1'', msg_parent_task_id = [], msg_sender_id = ''t1'', msg_receiver_id = ''orchestrator'',
     msg_target_agent = [], msg_payload = json_print (JObj shared_json), msg_timestamp = 6\<rparr>"

definition shared_run :: "(string \<Rightarrow> string list) redis_system" where
  "shared_run = \<lparr>rq_server = (\<lambda>_. [])(''task_results'' := []), rq_consumers = [waiting ''task_results'', waiting ''task_results''],
     rq_sent = [(''task_results'', shared_result)], rq_received = [(1, ''task_results'', shared_result)]\<rparr>"

lemma shared_ok: "wire_ok shared_result" "orchestrator_reads ''t1'' shared_result"
proof -
  have ok: "json_ok (max_nesting - 1) (JObj shared_json)" by (simp add: shared_json_def max_nesting_def)
  then have ok': "json_ok max_nesting (JObj shared_json)" by (rule json_ok_mono) simp
  have "json_valid (json_print (JObj shared_json))" by (rule json_valid_print [OF ok'])
  moreover have "json_print (JObj shared_json) \<noteq> []" using print_head [OF ok'] by force
  ultimately have "Validate shared_result = None" by (simp add: Validate_def shared_result_def del: json_print.simps)
  then show "wire_ok shared_result"
    unfolding wire_ok_def
    by (intro conjI exI [of _ "JObj shared_json"] ok)
      (simp_all add: shared_result_def message_utf8_def int64_max_def del: json_print.simps)
  show "orchestrator_reads ''t1'' shared_result"
    unfolding orchestrator_reads_def shared_result_def
    by (simp add: decode_result_print [OF ok', unfolded shared_json_def] shared_json_def dec_str_quote zero_task_result_def
        del: json_print.simps) (simp add: dec_str_quote)
qed

lemma shared_run_reachable: "(rq_step jerr list_lpush list_brpop)\<^sup>*\<^sup>* (rq_init (\<lambda>_. [])) shared_run"
proof -
  let ?q = "''task_results''" and ?m = shared_result and ?step = "rq_step jerr list_lpush list_brpop"
  let ?r0 = "rq_init (\<lambda>_. []) :: (string \<Rightarrow> string list) redis_system"
  let ?r1 = "rq_send jerr list_lpush ?q ?m ?r0" let ?r2 = "snd (redis_Dequeue ?q ?r1)" let ?r3 = "snd (redis_Dequeue ?q ?r2)"
  let ?r4 = "rq_pop jerr list_brpop (Suc 0) ?r3" let ?r5 = "rq_put (Suc 0) ?m ?r4" let ?r6 = "rq_receive (Suc 0) ?m [] ?r5"
  have r3: "?r3 = \<lparr>rq_server = (\<lambda>_. [])(?q := [wire ?m]), rq_consumers = [waiting ?q, waiting ?q], rq_sent = [(?q, ?m)], rq_received = []\<rparr>"
    by (simp add: send_list [OF shared_ok(1)] rq_init_def redis_Dequeue_def waiting_def)
  have r4: "?r4 = \<lparr>rq_server = (\<lambda>_. [])(?q := []), rq_consumers = [waiting ?q, (waiting ?q)\<lparr>co_held := Some ?m\<rparr>],
      rq_sent = [(?q, ?m)], rq_received = []\<rparr>"
    unfolding r3 by (subst pop_list [OF shared_ok(1), of _ _ "[]"]) (simp_all add: waiting_def)
  have r5: "?r5 = \<lparr>rq_server = (\<lambda>_. [])(?q := []), rq_consumers = [waiting ?q, (waiting ?q)\<lparr>co_out := [?m]\<rparr>],
      rq_sent = [(?q, ?m)], rq_received = []\<rparr>"
    unfolding r4 by (simp add: rq_put_def waiting_def Let_def)
  have r6: "?r6 = shared_run" unfolding r5 by (simp add: rq_receive_def shared_run_def waiting_def Let_def)
  have "?step ?r0 ?r1" by (intro rq_step.work rq_work.send shared_ok)
  moreover have "?step ?r1 ?r2" "?step ?r2 ?r3" by (rule rq_step.dequeue)+
  moreover have "?step ?r3 ?r4" by (intro rq_step.work rq_work.pop) (simp_all add: r3 waiting_def)
  moreover have "?step ?r4 ?r5" by (intro rq_step.work rq_work.put) (simp_all add: r4 waiting_def chan_cap_def)
  moreover have "?step ?r5 ?r6" by (intro rq_step.receive) (simp_all add: r5 waiting_def)
  ultimately show ?thesis unfolding r6 by (meson rtranclp.rtrancl_into_rtrancl rtranclp.rtrancl_refl)
qed

theorem result_reaches_one_listener_witness:
  "(rq_step (\<lambda>s. s) list_lpush list_brpop)\<^sup>*\<^sup>* (rq_init (\<lambda>_. [])) shared_run \<and>
   received_by 1 ''task_results'' shared_run = [shared_result] \<and>
   task_view ''t1'' (fold (handle_result sample_env) (received_by 0 ''task_results'' shared_run) sample_app) = task_view ''t1'' sample_app"
proof -
  have got: "received_by 1 ''task_results'' shared_run = [shared_result]" by (simp add: received_by_def shared_run_def)
  have sent: "filter (about_task ''t1'') (on_queue ''task_results'' (rq_sent shared_run)) = [shared_result]"
    by (simp add: shared_run_def on_queue_def about_task_def shared_ok(2))
  have h: "no_db_faults sample_env" "sqlite_schema (app_store sample_app)"
    by (simp_all add: sample_env_def no_db_faults_def sqlite_schema_def sample_app_def row_of_def sample_task_def)
  from result_reaches_one_listener [OF list_server _ shared_run_reachable sent, of 0 1, OF _ _ h, THEN conjunct1] got
  have "task_view ''t1'' (fold (handle_result sample_env) (received_by 0 ''task_results'' shared_run) sample_app) = task_view ''t1'' sample_app"
    by simp
  with got shared_run_reachable show ?thesis by blast
qed

definition queued_task :: "string \<Rightarrow> message" where
  "queued_task i = sample_message\<lparr>msg_message_id := i\<rparr>"

lemma queued_task_id [simp]: "msg_message_id (queued_task i) = i"
  by (simp add: queued_task_def)

lemma queued_task_ok:
  assumes "i \<noteq> []" "utf8_valid i"
  shows "wire_ok (queued_task i)"
proof -
  have "\<exists>p. json_ok (max_nesting - 1) p \<and> msg_payload sample_message = json_print p"
    by (rule exI [of _ "JObj [(''text'', JStr ''a<b'')]"]) (simp add: sample_message_def max_nesting_def)
  moreover have "msg_timestamp sample_message = 7" by (simp add: sample_message_def)
  ultimately show ?thesis
    using assms sample_message_ok by (simp add: queued_task_def wire_ok_def int64_max_def Validate_def message_utf8_def split: if_splits)
qed

definition lost_run :: "(string \<Rightarrow> string list) intake" where
  "lost_run = \<lparr>it_sys = \<lparr>rq_server = (\<lambda>_. [])(''tasks'' := []), rq_consumers = [(waiting ''tasks'')\<lparr>co_held := Some (queued_task ''t8'')\<rparr>],
       rq_sent = [(''tasks'', queued_task ''t7''), (''tasks'', queued_task ''t8'')], rq_received = [(0, ''tasks'', queued_task ''t7'')]\<rparr>,
     it_current = None, it_started = [queued_task ''t7'']\<rparr>"

lemma seven_steps: "R a b \<Longrightarrow> R b c \<Longrightarrow> R c d \<Longrightarrow> R d e \<Longrightarrow> R e f \<Longrightarrow> R f g \<Longrightarrow> R g h \<Longrightarrow> R\<^sup>*\<^sup>* a h"
  by (meson rtranclp.rtrancl_into_rtrancl rtranclp.rtrancl_refl)

lemma lost_run_reachable: "(intake_step jerr list_lpush list_brpop)\<^sup>*\<^sup>* (intake_init (\<lambda>_. [])) lost_run"
proof -
  let ?q = "''tasks''" and ?a = "queued_task ''t7''" and ?b = "queued_task ''t8''" and ?step = "intake_step jerr list_lpush list_brpop"
  let ?s0 = "intake_init (\<lambda>_. []) :: (string \<Rightarrow> string list) intake"
  have ok: "wire_ok ?a" "wire_ok ?b" by (rule queued_task_ok; simp)+
  let ?sys = "\<lambda>texts cs received. \<lparr>rq_server = (\<lambda>_. [])(?q := texts), rq_consumers = cs, rq_sent = [(?q, ?a), (?q, ?b)], rq_received = received\<rparr>"
  let ?both = "[wire ?b, wire ?a]"
  let ?s2 = "?s0\<lparr>it_sys := ?sys ?both [] []\<rparr>" let ?s3 = "?s2\<lparr>it_sys := ?sys ?both [waiting ?q] [], it_current := Some 0\<rparr>"
  let ?s4 = "?s3\<lparr>it_sys := ?sys [wire ?b] [(waiting ?q)\<lparr>co_held := Some ?a\<rparr>] []\<rparr>"
  let ?s5 = "?s4\<lparr>it_sys := ?sys [wire ?b] [(waiting ?q)\<lparr>co_out := [?a]\<rparr>] []\<rparr>"
  let ?s6 = "?s5\<lparr>it_sys := ?sys [wire ?b] [waiting ?q] [(0, ?q, ?a)], it_current := None, it_started := [?a]\<rparr>"
  let ?sa = "rq_send jerr list_lpush ?q ?a (it_sys ?s0)" and ?sb = "rq_send jerr list_lpush ?q ?b (rq_send jerr list_lpush ?q ?a (it_sys ?s0))"
  have c1: "?step ?s0 (?s0\<lparr>it_sys := ?sa\<rparr>)" by (intro intake_step.work rq_work.send ok)
  have c2: "?step (?s0\<lparr>it_sys := ?sa\<rparr>) (?s0\<lparr>it_sys := ?sa\<rparr>\<lparr>it_sys := ?sb\<rparr>)"
    by (intro intake_step.work) (simp add: rq_work.send ok)
  have e2: "?s0\<lparr>it_sys := ?sa\<rparr>\<lparr>it_sys := ?sb\<rparr> = ?s2"
    by (simp add: send_list [OF ok(1)] send_list [OF ok(2)] intake_init_def rq_init_def)
  have c3: "?step ?s2 ?s3"
    by (rule intake_step.call) (simp_all add: intake_init_def redis_Dequeue_def waiting_def)
  have c4: "?step ?s3 ?s4"
  proof -
    have "rq_pop jerr list_brpop 0 (it_sys ?s3) = it_sys ?s4"
      by (subst pop_list [OF ok(1), of _ _ "[wire ?b]"]) (simp_all add: waiting_def)
    moreover have "rq_work jerr list_lpush list_brpop (it_sys ?s3) (rq_pop jerr list_brpop 0 (it_sys ?s3))"
      by (rule rq_work.pop) (simp_all add: waiting_def)
    ultimately show ?thesis using intake_step.work [of jerr list_lpush list_brpop ?s3 "it_sys ?s4"] by simp
  qed
  have c5: "?step ?s4 ?s5"
  proof -
    have "rq_put 0 ?a (it_sys ?s4) = it_sys ?s5" by (simp add: rq_put_def waiting_def Let_def)
    moreover have "rq_work jerr list_lpush list_brpop (it_sys ?s4) (rq_put 0 ?a (it_sys ?s4))"
      by (rule rq_work.put) (simp_all add: waiting_def chan_cap_def)
    ultimately show ?thesis using intake_step.work [of jerr list_lpush list_brpop ?s4 "it_sys ?s5"] by simp
  qed
  have c6: "?step ?s5 ?s6"
    using intake_step.take [of ?s5 0 ?a "[]" jerr list_lpush list_brpop]
    by (simp add: waiting_def rq_receive_def Let_def intake_init_def)
  have c7: "?step ?s6 lost_run"
  proof -
    have "rq_pop jerr list_brpop 0 (it_sys ?s6) = it_sys lost_run"
      by (subst pop_list [OF ok(2), of _ _ "[]"]) (simp_all add: waiting_def lost_run_def)
    moreover have "rq_work jerr list_lpush list_brpop (it_sys ?s6) (rq_pop jerr list_brpop 0 (it_sys ?s6))"
      by (rule rq_work.pop) (simp_all add: waiting_def)
    ultimately show ?thesis using intake_step.work [of jerr list_lpush list_brpop ?s6 "it_sys lost_run"]
      by (simp add: lost_run_def intake_init_def)
  qed
  have c2': "?step (?s0\<lparr>it_sys := ?sa\<rparr>) ?s2" using c2 unfolding e2 .
  show ?thesis by (rule seven_steps [of ?step, OF c1 c2' c3 c4 c5 c6 c7])
qed

theorem abandoned_channel_keeps_task_witness:
  "(intake_step (\<lambda>s. s) list_lpush list_brpop)\<^sup>*\<^sup>* (intake_init (\<lambda>_. [])) lost_run \<and> it_started lost_run = [queued_task ''t7''] \<and>
   (''tasks'', queued_task ''t8'') \<in> set (rq_sent (it_sys lost_run)) \<and> stranded lost_run 0 (queued_task ''t8'') \<and>
   task_view ''t8'' (snd (process_started sample_env (it_started lost_run) sample_app)) = task_view ''t8'' sample_app"
proof -
  have st: "stranded lost_run 0 (queued_task ''t8'')"
    by (simp add: stranded_def lost_run_def waiting_def carried_def opt_list_def)
  have sent: "filter (\<lambda>x. msg_message_id x = msg_message_id (queued_task ''t8'')) (on_queue ''tasks'' (rq_sent (it_sys lost_run))) = [queued_task ''t8'']"
    by (simp add: lost_run_def on_queue_def)
  have h: "no_db_faults sample_env" "sqlite_schema (app_store sample_app)"
    by (simp_all add: sample_env_def no_db_faults_def sqlite_schema_def sample_app_def row_of_def sample_task_def)
  have "task_view ''t8'' (snd (process_started sample_env (it_started lost_run) sample_app)) = task_view ''t8'' sample_app"
    using abandoned_channel_keeps_task [OF list_server _ lost_run_reachable st rtranclp.rtrancl_refl sent h] by simp
  with st lost_run_reachable show ?thesis by (simp add: lost_run_def)
qed

end
