(* ===== verification/History_Store.thy ===== *)
theory History_Store
  imports Session
begin

text \<open>
  The contract of the interface \<^verbatim>\<open>HistoryStore\<close> (\<^verbatim>\<open>internal/session/history_store.go\<close>): a store keeps one list of
  messages for each session, oldest first. The SQLite store is shown to implement it, for an order of the
  rows that the index it creates gives, and whole histories of calls are refined by the lists.
\<close>

section \<open>The contract\<close>

text \<open>\<^verbatim>\<open>AddMessage\<close> stamps a message without a time.\<close>

definition stamped :: "int \<Rightarrow> session_message \<Rightarrow> session_message" where
  "stamped now m = (if sm_created_at m = 0 then m\<lparr>sm_created_at := now\<rparr> else m)"

lemma stamped_simps [simp]: "sm_id (stamped now m) = sm_id m" "sm_session_id (stamped now m) = sm_session_id m"
  "sm_role (stamped now m) = sm_role m" "sm_content (stamped now m) = sm_content m"
  by (simp_all add: stamped_def)

definition last_n :: "int \<Rightarrow> 'a list \<Rightarrow> 'a list" where
  "last_n n xs = drop (length xs - nat n) xs"

lemma last_n_suffix: "int (length ys) \<le> n \<Longrightarrow> \<exists>xs'. last_n n (xs @ ys) = xs' @ ys"
  by (simp add: last_n_def)

lemma last_n_session:
  "filter (\<lambda>m. P m) xs = xs \<Longrightarrow> set (last_n n xs) \<subseteq> {m. P m}"
  unfolding last_n_def by (metis (mono_tags, lifting) filter_id_conv in_set_dropD mem_Collect_eq subsetI)

text \<open>
  The calls of a store, each with the fault the database reports for it, and what they mean for the lists: a
  message is added at the end of its session unless its id is taken.
\<close>

datatype history_call =
    AddCall "go_error option" int session_message
  | ClearCall "go_error option" string

fun session_list_step :: "history_call \<Rightarrow> (string \<Rightarrow> session_message list) \<Rightarrow> string \<Rightarrow> session_message list" where
  "session_list_step (AddCall fault now m) h =
     (if fault \<noteq> None \<or> (\<exists>s. sm_id m \<in> sm_id ` set (h s)) then h
      else h(sm_session_id m := h (sm_session_id m) @ [stamped now m]))"
| "session_list_step (ClearCall fault sid) h = (if fault = None then h(sid := []) else h)"

definition session_lists :: "history_call list \<Rightarrow> string \<Rightarrow> session_message list" where
  "session_lists calls = fold session_list_step calls (\<lambda>_. [])"

fun stamps :: "history_call list \<Rightarrow> int list" where
  "stamps [] = []"
| "stamps (AddCall fault now m # calls) = sm_created_at (stamped now m) # stamps calls"
| "stamps (ClearCall fault sid # calls) = stamps calls"

locale history_store =
  fixes rows :: "'db \<Rightarrow> string \<Rightarrow> session_message list"
    and add :: "go_error option \<Rightarrow> int \<Rightarrow> 'db \<Rightarrow> session_message \<Rightarrow> 'db \<times> go_error option"
    and recent :: "go_error option \<Rightarrow> 'db \<Rightarrow> string \<Rightarrow> int \<Rightarrow> session_message list res"
    and clear :: "go_error option \<Rightarrow> 'db \<Rightarrow> string \<Rightarrow> 'db \<times> go_error option"
  assumes add_accepts: "(snd (add fault now db m) = None) = (fault = None \<and> (\<forall>s. sm_id m \<notin> sm_id ` set (rows db s)))"
    and add_refused: "snd (add fault now db m) \<noteq> None \<Longrightarrow> fst (add fault now db m) = db"
    and add_rows: "snd (add fault now db m) = None \<Longrightarrow>
      \<forall>x \<in> set (rows db (sm_session_id m)). sm_created_at x \<le> sm_created_at (stamped now m) \<Longrightarrow>
      rows (fst (add fault now db m)) = (rows db)(sm_session_id m := rows db (sm_session_id m) @ [stamped now m])"
    and recent_rows: "0 \<le> limit \<Longrightarrow> recent None db s limit = Inr (last_n limit (rows db s))"
    and clear_rows: "rows (fst (clear fault db s)) = (if fault = None then (rows db)(s := []) else rows db)"
begin

fun call :: "history_call \<Rightarrow> 'db \<Rightarrow> 'db" where
  "call (AddCall fault now m) db = fst (add fault now db m)"
| "call (ClearCall fault sid) db = fst (clear fault db sid)"

lemma call_rows:
  assumes "\<forall>s. \<forall>x \<in> set (rows db s). \<forall>t \<in> set (stamps [c]). sm_created_at x \<le> t"
  shows "rows (call c db) = session_list_step c (rows db)"
proof (cases c)
  case (AddCall fault now m)
  show ?thesis
  proof (cases "snd (add fault now db m) = None")
    case True
    with assms AddCall add_accepts [of fault now db m] show ?thesis by (auto simp: add_rows)
  next
    case False
    with AddCall add_accepts [of fault now db m] show ?thesis by (auto simp: add_refused)
  qed
qed (simp add: clear_rows)

lemma stamps_bound:
  assumes "\<forall>s. \<forall>x \<in> set (h s). \<forall>t \<in> set (stamps (c # calls)). sm_created_at x \<le> t" "sorted (stamps (c # calls))"
    and "x \<in> set (session_list_step c h s)" "t \<in> set (stamps calls)"
  shows "sm_created_at x \<le> t"
  using assms by (cases c) (auto split: if_splits)

lemma calls_rows:
  "\<forall>s. \<forall>x \<in> set (rows db s). \<forall>t \<in> set (stamps calls). sm_created_at x \<le> t \<Longrightarrow> sorted (stamps calls) \<Longrightarrow>
   rows (fold call calls db) = fold session_list_step calls (rows db)"
proof (induction calls arbitrary: db)
  case (Cons c calls)
  have c: "rows (call c db) = session_list_step c (rows db)"
    by (rule call_rows) (use Cons.prems in \<open>cases c; auto\<close>)
  moreover have "sorted (stamps calls)" using Cons.prems(2) by (cases c) auto
  ultimately show ?case
    using Cons.IH [of "call c db"] stamps_bound [OF Cons.prems] by (auto simp: c)
qed simp

lemma recent_after_calls:
  "sorted (stamps calls) \<Longrightarrow> (\<And>s. rows db s = []) \<Longrightarrow> 0 \<le> limit \<Longrightarrow>
   recent None (fold call calls db) sid limit = Inr (last_n limit (session_lists calls sid))"
  using calls_rows [of db calls] by (simp add: recent_rows session_lists_def ext [of "rows db" "\<lambda>_. []"])

end

section \<open>The SQLite store\<close>

text \<open>The order an index on \<^verbatim>\<open>(session_id, created_at)\<close> gives when it is read backwards: the later row first.\<close>

definition index_desc :: "history_db \<Rightarrow> history_db" where
  "index_desc xs = rev (sort_key sm_created_at xs)"

lemma index_desc: "desc_order index_desc"
proof -
  have "sorted_wrt (\<lambda>a b. sm_created_at b \<le> sm_created_at a) (index_desc xs)" for xs
    using sorted_sort_key [of sm_created_at xs] by (simp add: index_desc_def sorted_wrt_map sorted_wrt_rev)
  then show ?thesis by (simp add: desc_order_def index_desc_def)
qed

definition session_rows :: "history_db \<Rightarrow> string \<Rightarrow> session_message list" where
  "session_rows db sid = sort_key sm_created_at (filter (\<lambda>m. sm_session_id m = sid) db)"

lemma insort_key_last: "f a \<le> f m \<Longrightarrow> insort_key f a (ys @ [m]) = insort_key f a ys @ [m]"
  by (induction ys) auto

lemma sort_key_last: "\<forall>x \<in> set xs. f x \<le> f m \<Longrightarrow> sort_key f (xs @ [m]) = sort_key f xs @ [m]"
  by (induction xs) (auto simp: insort_key_last)

interpretation sql_history: history_store session_rows AddMessage "GetHistory index_desc" ClearHistory
proof unfold_locales
  show "(snd (AddMessage fault now db m) = None) = (fault = None \<and> (\<forall>s. sm_id m \<notin> sm_id ` set (session_rows db s)))"
    for fault now db m
    by (auto simp: AddMessage_def session_rows_def unique_violation_def Let_def split: option.splits)
  show "fst (AddMessage fault now db m) = db" if "snd (AddMessage fault now db m) \<noteq> None" for fault now db m
    using that by (auto simp: AddMessage_def Let_def split: option.splits if_splits)
  show "session_rows (fst (AddMessage fault now db m)) =
      (session_rows db)(sm_session_id m := session_rows db (sm_session_id m) @ [stamped now m])"
    if "snd (AddMessage fault now db m) = None"
      "\<forall>x \<in> set (session_rows db (sm_session_id m)). sm_created_at x \<le> sm_created_at (stamped now m)" for fault now db m
  proof -
    have "fst (AddMessage fault now db m) = db @ [stamped now m]"
      using that(1) by (auto simp: AddMessage_def stamped_def Let_def split: option.splits if_splits)
    with that(2) show ?thesis by (intro ext) (simp add: session_rows_def sort_key_last)
  qed
  show "GetHistory index_desc None db s limit = Inr (last_n limit (session_rows db s))" if "0 \<le> limit" for limit db s
    using that by (simp add: GetHistory_rev sql_limit_def index_desc_def session_rows_def last_n_def rev_take)
  show "session_rows (fst (ClearHistory fault db s)) = (if fault = None then (session_rows db)(s := []) else session_rows db)"
    for fault db s
  proof (cases fault)
    case None
    have "filter (\<lambda>m. sm_session_id m = s') (filter (\<lambda>m. sm_session_id m \<noteq> s) db) =
        (if s' = s then [] else filter (\<lambda>m. sm_session_id m = s') db)" for s' by (induction db) auto
    with None show ?thesis by (auto simp: ClearHistory_def session_rows_def)
  qed (simp add: ClearHistory_def)
qed

text \<open>One call on the database.\<close>

fun history_call_db :: "history_call \<Rightarrow> history_db \<Rightarrow> history_db" where
  "history_call_db (AddCall fault now m) db = fst (AddMessage fault now db m)"
| "history_call_db (ClearCall fault sid) db = fst (ClearHistory fault db sid)"

lemma history_call_db: "history_call_db = sql_history.call"
proof (intro ext)
  show "history_call_db c db = sql_history.call c db" for c db by (cases c) simp_all
qed


definition sample_message :: "string \<Rightarrow> string \<Rightarrow> session_message" where
  "sample_message i sid = \<lparr>sm_id = i, sm_session_id = sid, sm_role = ''user'', sm_content = i, sm_tokens = 0, sm_created_at = 0\<rparr>"

definition sample_calls :: "history_call list" where
  "sample_calls =
     [AddCall None 3 (sample_message ''a'' ''s''), AddCall None 3 (sample_message ''b'' ''t''), ClearCall None ''s'',
      AddCall None 5 (sample_message ''a'' ''s''), AddCall None 5 (sample_message ''b'' ''s''),
      AddCall (Some (errorf ''locked'')) 5 (sample_message ''c'' ''s''), AddCall None 5 (sample_message ''d'' ''s''),
      AddCall None 7 (sample_message ''e'' ''s'')]"

abbreviation sample_row :: "string \<Rightarrow> string \<Rightarrow> int \<Rightarrow> session_message" where
  "sample_row i sid t \<equiv> (sample_message i sid)\<lparr>sm_created_at := t\<rparr>"

lemma sample_message_simps [simp]: "sm_id (sample_message i sid) = i" "sm_session_id (sample_message i sid) = sid"
  "stamped t (sample_message i sid) = sample_row i sid t"
  by (simp_all add: sample_message_def stamped_def)

lemma sample_db: "fold history_call_db sample_calls [] =
    [sample_row ''b'' ''t'' 3, sample_row ''a'' ''s'' 5, sample_row ''d'' ''s'' 5, sample_row ''e'' ''s'' 7]"
  by (simp add: sample_calls_def AddMessage_def ClearHistory_def Let_def stamped_def [symmetric])

lemma sample_recent: "GetHistory index_desc None (fold history_call_db sample_calls []) ''s'' 2 =
    Inr [sample_row ''d'' ''s'' 5, sample_row ''e'' ''s'' 7]"
  by (simp add: sample_db GetHistory_rev sql_limit_def index_desc_def numeral_2_eq_2)


end
