(* ===== verification/Agent_Memory.thy ===== *)
theory Agent_Memory
  imports Subagent History_Store
begin

text \<open>
  What a sub-agent remembers of a session: the store of \<^verbatim>\<open>internal/session\<close>, the context guard of
  \<^verbatim>\<open>internal/llm\<close> and the task loop of \<^verbatim>\<open>cmd/subagent\<close> together. The exchange saved after one task is
  followed into the prompt of the next.
\<close>

section \<open>The newest rows of a session\<close>

lemma newest_first:
  "sorted_wrt (\<lambda>a b. sm_created_at b \<le> sm_created_at a) xs \<Longrightarrow> \<forall>m \<in> set xs. sm_created_at m \<le> t \<Longrightarrow>
   xs = filter (\<lambda>m. sm_created_at m = t) xs @ filter (\<lambda>m. sm_created_at m \<noteq> t) xs"
proof (induction xs)
  case (Cons x xs)
  show ?case
  proof (cases "sm_created_at x = t")
    case False
    with Cons.prems have "\<forall>m \<in> set xs. sm_created_at m \<noteq> t" by fastforce
    with False show ?thesis by (simp add: filter_id_conv)
  qed (use Cons in simp)
qed simp

lemma two_newest_rows:
  assumes "desc_order ord" "\<forall>m \<in> set db. sm_session_id m = sid \<longrightarrow> sm_created_at m < t" "2 \<le> limit"
    and "sm_session_id x = sid" "sm_session_id y = sid" "sm_created_at x = t" "sm_created_at y = t"
  shows "\<exists>older a b. GetHistory ord None (db @ [x, y]) sid limit = Inr (older @ [a, b]) \<and>
    mset [a, b] = mset [x, y] \<and> (ord = index_desc \<longrightarrow> a = x \<and> b = y)"
proof -
  define rows where "rows = filter (\<lambda>m. sm_session_id m = sid) (db @ [x, y])"
  define at :: "history_db \<Rightarrow> history_db" where "at = filter (\<lambda>m. sm_created_at m = t)"
  have at: "at rows = [x, y]" using assms(2,4-7) by (auto simp: at_def rows_def filter_empty_conv)
  have o: "mset (ord rows) = mset rows" "sorted_wrt (\<lambda>a b. sm_created_at b \<le> sm_created_at a) (ord rows)"
    using assms(1) by (simp_all add: desc_order_def)
  have "\<forall>m \<in> set (ord rows). sm_created_at m \<le> t"
    using assms(2,6,7) mset_eq_setD [OF o(1)] by (auto simp: rows_def)
  from newest_first [OF o(2) this] obtain rest where split: "ord rows = at (ord rows) @ rest" by (auto simp: at_def)
  have m: "mset (at (ord rows)) = mset [x, y]" using o(1) at unfolding at_def by (metis mset_filter)
  then have "length (at (ord rows)) = 2" by (metis mset_eq_length length_Cons list.size(3) numeral_2_eq_2)
  then obtain b a where ba: "at (ord rows) = [b, a]" by (auto simp: numeral_2_eq_2 length_Suc_conv)
  have "GetHistory ord None (db @ [x, y]) sid limit = Inr (rev (take (nat limit) (b # a # rest)))"
    using split assms(3) unfolding ba by (simp add: GetHistory_rev sql_limit_def rows_def)
  moreover obtain n where "nat limit = Suc (Suc n)"
    using assms(3) by (metis Suc_le_D nat_mono nat_numeral numeral_2_eq_2 Suc_le_mono)
  moreover have "a = x \<and> b = y" if "ord = index_desc"
  proof -
    have "[b, a] = rev (at rows)"
      using ba unfolding that by (simp add: at_def index_desc_def rev_filter [symmetric] sort_key_stable)
    then show ?thesis using at by simp
  qed
  ultimately show ?thesis using m unfolding ba
    by (intro exI [of _ "rev (take n rest)"] exI [of _ a] exI [of _ b]) (auto simp: add_mset_commute)
qed

section \<open>The exchange of a task\<close>

text \<open>The two rows \<^verbatim>\<open>Run\<close> stores for a task that succeeded.\<close>

definition exchange_row :: "'w agent_env \<Rightarrow> 'w \<Rightarrow> string \<Rightarrow> string \<Rightarrow> string \<Rightarrow> session_message" where
  "exchange_row env w sid role content =
     (history_message (''msg_'' @ format_int (ag_now_ns env w) @ ''_'' @ role) sid role content)
       \<lparr>sm_created_at := agent_now_ms env w\<rparr>"

text \<open>No row has the ids of the two, and the session has no row of the same millisecond or later.\<close>

definition exchange_fresh :: "'w agent_env \<Rightarrow> 'w \<Rightarrow> history_db \<Rightarrow> string \<Rightarrow> bool" where
  "exchange_fresh env w db sid =
     (list_all (\<lambda>m. sm_id m \<noteq> sm_id (exchange_row env w sid ''user'' []) \<and>
        sm_id m \<noteq> sm_id (exchange_row env w sid ''assistant'' []) \<and>
        (sm_session_id m = sid \<longrightarrow> sm_created_at m < agent_now_ms env w)) db)"

lemma save_exchange_rows:
  assumes "\<forall>w. ag_db_fault env w = None" "as_history st = Some db" "sid \<noteq> []" "exchange_fresh env (as_world st) db sid"
  shows "as_history (save_exchange env sid task x st) =
    Some (db @ [exchange_row env (as_world st) sid ''user'' task, exchange_row env (as_world st) sid ''assistant'' x])"
  using assms by (auto simp: save_exchange_def add_history_def AddMessage_def history_message_def exchange_row_def
      exchange_fresh_def list_all_iff Let_def)

lemma load_history_rows:
  assumes "\<forall>w. ag_db_fault env w = None" "as_history st = Some db" "sid \<noteq> []"
  shows "GetHistory (ag_order_desc env) None db sid 10 = Inr (load_history env sid st)"
  using assms by (auto simp: load_history_def GetHistory_def Let_def)

lemma load_history_other:
  assumes "\<forall>w. ag_db_fault env w = None" "as_history st = Some db" "as_history st' = Some (db @ rows)"
    and "\<forall>m \<in> set rows. sm_session_id m \<noteq> sid"
  shows "load_history env sid st' = load_history env sid st"
  using assms by (simp add: load_history_def GetHistory_def)

lemma prompt_ends_with:
  "\<exists>pre w'. BuildMessages (NewContextGuard n) p sys (older @ [a, b]) query w =
     Some (pre @ [chat_msg (sm_role a) (sm_content a), chat_msg (sm_role b) (sm_content b), chat_msg ''user'' query], w')"
proof -
  have "drop (length (older @ [a, b]) - 6) (older @ [a, b]) = drop (length older - 4) older @ [a, b]" by simp
  with semantic_compact_keeps_recent_messages [of n p sys "older @ [a, b]" query w] show ?thesis
    by (auto simp: BuildMessages_def simp del: length_append drop_append)
qed

lemma run_agent_prompt:
  assumes "su_provider s = Some p" "load_history env sid st = older @ [a, b]"
  shows "\<exists>pre tr fo w. run_agent env s sid query st = Some (Run (agent_runtime env (su_cfg s) p)
    (agent_request (su_cfg s) tr sid
      (pre @ [chat_msg (sm_role a) (sm_content a), chat_msg (sm_role b) (sm_content b), chat_msg ''user'' query])) fo w)"
proof -
  let ?pr = "map_option pv_predict (Resolver_Get (su_resolver s) (sg_llm_provider (su_cfg s)))"
  from prompt_ends_with [of 4096 ?pr "agent_prompt (su_cfg s)" older a b query "as_world st"] obtain pre w' where
    "BuildMessages (NewContextGuard 4096) ?pr (agent_prompt (su_cfg s)) (older @ [a, b]) query (as_world st) =
      Some (pre @ [chat_msg (sm_role a) (sm_content a), chat_msg (sm_role b) (sm_content b), chat_msg ''user'' query], w')"
    by blast
  with assms show ?thesis by (auto simp: run_agent_def Let_def)
qed


section \<open>Two tasks of a sample session\<close>

definition memory_env :: "((string \<times> message) list) agent_env" where
  "memory_env = demo_agent_env\<lparr>ag_order_desc := index_desc\<rparr>"

definition memory_state :: "((string \<times> message) list) agent_state" where
  "memory_state = \<lparr>as_history = Some sample_history, as_world = []\<rparr>"

definition memory_task :: message where
  "memory_task = demo_task\<lparr>msg_payload := json_print (JObj [(''session_id'', JStr ''s''), (''task'', JStr ''hi'')])\<rparr>"

lemma memory_results_log: "results_log memory_env (demo_agent x) (\<lambda>w. w)"
  using demo_results_log [of x] by (simp add: results_log_def memory_env_def)

lemma memory_parse_task: "parse_task (ag_fmt64 memory_env) (msg_payload memory_task) = (''s'', ''hi'')"
proof -
  let ?v = "JObj [(''session_id'', JStr ''s''), (''task'', JStr ''hi'')]"
  have "json_parse (json_print ?v) = Some ?v" by (rule json_parse_print) (simp add: max_nesting_def)
  then have "decodeJSONValue Some (json_print ?v) = Some ?v"
    by (simp add: decodeJSONValue_def last_wins_def obj_text_def)
  then show ?thesis unfolding parse_task_def memory_task_def memory_env_def demo_agent_env_def by simp
qed

lemma memory_fresh: "exchange_fresh memory_env w sample_history sid"
  by (simp add: exchange_fresh_def exchange_row_def history_message_def sample_history_def memory_env_def demo_agent_env_def
      agent_now_ms_def)


end
