(* ===== verification/Spec2Isabelle.thy ===== *)
theory Spec2Isabelle
  imports Go_Prelude Task_Memory Workflow Workflow_Order Workflow_Exec Go_Json Json_Roundtrip Bus
    Llm_Contracts Llm_Runtime Llm_Runtime_Props Llm_Provider Session Skill Webhook_Auth Approval_Gate Process
    Orchestrator Gateway_Stream Gateway_Sender Gateway_Router Gateway_Chat
    Go_Crypto Wecom_Codec Channel_Http Wecom Dingtalk_Callback Dingtalk Wecom_Robot Feishu Subagent
    Go_Flag Gateway_Config Gateway_Main Wecom_Sim Orchestrator_Main Go_Date Logging Audit_Log External_Clients Orchestrator_Race Shared_Queues
    History_Store Agent_Memory
begin

text \<open>
  A verification library for \<^bold>\<open>agentic-core\<close>, a Go system that runs agents of language models. Paths below are
  relative to the root of the repository; a function name without a path is a function of the file named last.

  \<^bold>\<open>The program.\<close> Three processes work together. The \<^emph>\<open>gateway\<close> (\<^verbatim>\<open>cmd/gateway\<close>) receives messages from chat
  platforms (WeCom, DingTalk, Feishu, a signed HTTP ingress), turns each into a task on a queue and brings the
  results back to the session they came from. The \<^emph>\<open>orchestrator\<close> (\<^verbatim>\<open>cmd/orchestrator\<close>) keeps the state of
  tasks in SQLite, runs a workflow (a dependency graph of nodes with a state machine) for each, spawns a process
  for the node, settles the task with the result, recovers unfinished tasks at start-up and serves an
  OpenAI-compatible endpoint and a signed approval webhook. The \<^emph>\<open>sub-agent\<close> (\<^verbatim>\<open>cmd/subagent\<close>) takes the
  messages of its task from its queue, runs the reasoning loop (predict, parse, ask for approval of writes,
  call a tool) and reports chunks and a result. Queue and event bus are Redis (or an in-process transport),
  heartbeats go over MQTT. A fourth command (\<^verbatim>\<open>cmd/wecom-callback-sim\<close>) posts a simulated WeCom callback.

  \<^bold>\<open>Conventions.\<close> A Go struct is a record, a string a list of bytes, an error the message with its chain of
  sentinels (\<open>go_error\<close>), a fallible call a sum (\<open>res\<close>), a panic the value \<open>Panicked\<close> of \<open>may_panic\<close> (or \<open>None\<close> where
  the opening text of a theory says so). A map is an association list; where the code ranges over one, the list
  order is the iteration order or an argument \<open>rng\<close> rearranges the keys, so a theorem covers every order Go may
  choose. The world outside the process is a type variable that the arguments standing for it read and change.
  Faults of the environment (database, network, cancelled contexts) are arguments of type \<open>go_error option\<close>.
  Integers are \<open>int\<close> with the 64-bit or 32-bit wrap-around written out where it matters (times in the webhook
  check, lengths in the WeCom frame, conversions of token lifetimes) or words (sequence numbers of the fan-out).

  \<^bold>\<open>Theories.\<close>

  \<^item> \<open>Go_Prelude\<close>, \<open>Go_Json\<close>, \<open>Json_Roundtrip\<close>, \<open>Go_Crypto\<close>, \<open>Go_Flag\<close>, \<open>Go_Date\<close>: what the code uses of the standard
    library (errors, strings, strconv, hex; \<^verbatim>\<open>encoding/json\<close>; base64, padding, CBC, byte order; \<^verbatim>\<open>flag\<close>; dates).
    Lemmas: printing and parsing are inverse (JSON, integers, hex, base64, CBC with padding, dates).
  \<^item> \<open>Task_Memory\<close>: \<^verbatim>\<open>internal/memory\<close>, statuses and the two task state stores.
  \<^item> \<open>Workflow\<close>, \<open>Workflow_Order\<close>, \<open>Workflow_Exec\<close>: \<^verbatim>\<open>internal/workflow\<close>; the loop invariant of the topological sort,
    and the executor as a transition system with its invariants.
  \<^item> \<open>Bus\<close>: \<^verbatim>\<open>internal/bus\<close>; wire form of messages, conservation and order in both transports.
  \<^item> \<open>Llm_Contracts\<close>, \<open>Llm_Runtime\<close>, \<open>Llm_Runtime_Props\<close>, \<open>Llm_Provider\<close>: \<^verbatim>\<open>internal/llm\<close>; validation, model output,
    the fan-out and \<^verbatim>\<open>Runtime.Run\<close>, routes, resolver, context guard, OpenAI provider. The lemmas summarise each
    call of a run by the segment of events it adds to the log.
  \<^item> \<open>Session\<close>, \<open>History_Store\<close>: \<^verbatim>\<open>internal/session\<close>, the history store and compaction, and the contract of the store.
  \<^item> \<open>Skill\<close>, \<open>Webhook_Auth\<close>, \<open>Approval_Gate\<close>: \<^verbatim>\<open>internal/skill\<close>; the gate is a step relation that interleaves the
    calls of \<^verbatim>\<open>WaitDecision\<close> with the consumer at the points where the mutex is released.
  \<^item> \<open>Process\<close>, \<open>Audit_Log\<close>: \<^verbatim>\<open>internal/process\<close>; redaction, audit events and their log lines, agent registry, process
    manager.
  \<^item> \<open>Logging\<close>: \<^verbatim>\<open>internal/logging\<close>; daily files with retention, the handler that passes records on.
  \<^item> \<open>Gateway_Stream\<close>, \<open>Gateway_Sender\<close>, \<open>Gateway_Chat\<close>, \<open>Gateway_Router\<close>: \<^verbatim>\<open>internal/gateway\<close>; SSE frames and sinks,
    the sender with its goroutine, the chat endpoint, the session router and the ingress.
  \<^item> \<open>Channel_Http\<close>, \<open>Wecom_Codec\<close>, \<open>Wecom\<close>, \<open>Dingtalk_Callback\<close>, \<open>Dingtalk\<close>, \<open>Wecom_Robot\<close>, \<open>Feishu\<close>: the channels under
    \<^verbatim>\<open>internal/gateway\<close>; codecs of encrypted callbacks, callback handlers, mapping of messages, API clients.
  \<^item> \<open>Gateway_Config\<close>, \<open>Gateway_Main\<close>: \<^verbatim>\<open>internal/gateway/config.go\<close> and \<^verbatim>\<open>cmd/gateway\<close>.
  \<^item> \<open>Orchestrator\<close>, \<open>Orchestrator_Main\<close>, \<open>Orchestrator_Race\<close>: \<^verbatim>\<open>cmd/orchestrator\<close>; the handlers of the application, the
    program around it, and the start of a task interleaved with the results listener call by call.
  \<^item> \<open>Shared_Queues\<close>: the Redis server with the goroutines of every \<^verbatim>\<open>Dequeue\<close>; the results queue two processes read,
    and the task loop that opens a channel for every task.
  \<^item> \<open>Subagent\<close>, \<open>Agent_Memory\<close>: \<^verbatim>\<open>cmd/subagent\<close>, and what it remembers of a session. \<open>Wecom_Sim\<close>: \<^verbatim>\<open>cmd/wecom-callback-sim\<close>.
  \<^item> \<open>External_Clients\<close>: \<^verbatim>\<open>internal/memory/milvus_store.go\<close>, \<^verbatim>\<open>internal/bus/mqtt_heartbeat.go\<close>,
    \<^verbatim>\<open>internal/sandbox\<close>, \<^verbatim>\<open>internal/gateway/mock_adapter.go\<close>, \<^verbatim>\<open>pkg/telemetry\<close>.
  \<^item> This theory: properties of a task across orchestrator, process manager, sub-agent and task store.

  \<^bold>\<open>Interfaces.\<close> \<open>task_state_store\<close> (in \<open>Task_Memory\<close>) is the contract of \<^verbatim>\<open>TaskStateStore\<close>, interpreted on the in-memory
  store (\<open>mem_store\<close>) and the SQLite store (\<open>sql_store\<close>); \<open>history_store\<close> (in \<open>History_Store\<close>) the contract of
  \<^verbatim>\<open>HistoryStore\<close>, interpreted on the SQLite store (\<open>sql_history\<close>); \<open>task_queue\<close> (in \<open>Bus\<close>) the contract of the bounded in-process
  queue (\<open>fake_queue\<close>); \<open>token_source\<close> (in \<open>Channel_Http\<close>) the contract of a cached access token, interpreted on the WeCom
  client (\<open>wecom_token\<close>) and the DingTalk client (\<open>ding_token\<close>).

  \<^bold>\<open>What the properties show.\<close>

  \<^item> Reasoning loop: writes run only right after the approval of exactly this call; a run ends within its turns with
    one terminal event (C1, C2); but a model that leaves the write flag out is not asked (theory \<open>Skill\<close>).
  \<^item> Life of a task: recovery restarts every unfinished task once, a chat request settles its task, a started task is
    settled by the result of the sub-agent, other traffic leaves a task alone, the sub-agent reports each task once
    (C3, C4, C6, C9, C33); a result that comes before the start of its task is saved is overwritten (C10); a result
    reaches the orchestrator or the gateway, not both (C11), and tasks get stuck in channels the task loop has left (C12);
    the next task of a session is prompted with the last exchange (C35); three more ways in which the pieces do not
    fit (C34, C36, C37).
  \<^item> Streams: under every interleaving a connection receives its own chunks and one closing frame; the bridge
    publishes one terminal chunk and forwards the deltas (C5, C13, C14).
  \<^item> Approval: webhook, replay protection and gate, and a decision followed from the webhook to the waiting call
    (C8, C16, C26 to C28); a request dated ahead of the clock can be replayed (theory \<open>Webhook_Auth\<close>).
  \<^item> Workflows: the topological sort is sound and finds exactly the cycles; nodes wait for their dependencies, start
    once, and the executor does not get stuck (C15, C18 to C21).
  \<^item> Messages and stores: wire round trip, delivery once and in order, agreement of the two task stores, the
    history store as one list per session (C17, C22 to C25).
  \<^item> Gateway and channels: replies return to their origin; the ingress acts only on signed requests, as do WeCom and
    encrypted DingTalk callbacks (theories \<open>Wecom\<close> and \<open>Dingtalk_Callback\<close>), while plain DingTalk callbacks need no
    signature; a WeCom frame that makes the codec panic; deliveries; what a configuration mounts; the simulator against
    the callback handler (C7, C29 to C32, C38, C39).
  \<^item> Logs: a write appends to the file of its day and removes exactly the expired directories (C40).

  \<^bold>\<open>Bounds.\<close> No function runs on fuel. The JSON parser keeps the nesting limit of the library (10000) and consumes
  input at every step; the worklist of the topological sort has a termination proof by the edges left to relax and
  the length of the list; the reasoning loop recurses over the turns left, which \<^verbatim>\<open>MaxTurns\<close> bounds; channels have their capacity
  (100). Loops that serve for ever (\<^verbatim>\<open>ProcessLoop\<close>, the receive loops, tickers, the goroutines of the programs) are
  functions over the list of events they see, or step relations, and the properties hold for every such list and
  every reachable state.

  \<^bold>\<open>Not modelled.\<close> Log lines other than the audit trail; the rendering of records by \<^verbatim>\<open>slog\<close>; the functions \<^verbatim>\<open>main\<close>
  that only print an error and exit. Arguments of the definitions, because their code is not in the repository: AES,
  SHA-1, SHA-256, MD5, HMAC, the XML decoder, URL parsing, floating point rendering, HTTP transport, file system,
  clock, randomness, SQLite's order of equal keys, Redis, MQTT, Milvus, the WASM runtime, and the SDKs of Feishu and
  DingTalk. The HTTP handlers of the orchestrator run one after
  another (\<open>Orchestrator_Main\<close>); where calls of goroutines can meet in shared state (approval gate, sender, in-process
  transport, Redis queues, starter and results listener) the models interleave them.

  \<^bold>\<open>Left to extend.\<close> HTTP handlers that meet at the database; the expiry of tokens under concurrent requests;
  a clock that moves between the calls of one operation.
\<close>

section \<open>A task from start to settlement\<close>

lemma demo_task_started: "\<exists>a1. enqueueAndStartTask sample_env demo_task sample_app = (None, a1)"
  by (auto simp: enqueueAndStartTask_def sample_env_def demo_task_def agent_type_of_def Let_def AddTask_def
      NewWorkflow_def NewDAG_def AddNode_def NewNodeStateMachine_def InitNode_def Start_def readyNode_def Transition_def
      Dependencies_def GetAgentType_def OnNodeReady_def app_save_def sqlite_Save_def split: prod.splits)



section \<open>Recovery and the sub-agent\<close>

lemma recovery_parsed: "parse_task fmt64 recovery_payload = ([], recovery_payload)"
proof -
  have "json_parse (json_print (JObj [(''recovery'', JBool True)])) = Some (JObj [(''recovery'', JBool True)])"
    by (rule json_parse_print) (simp add: max_nesting_def)
  then have "json_parse recovery_payload = Some (JObj [(''recovery'', JBool True)])"
    by (simp add: recovery_payload_def obj_text_def)
  moreover have "length recovery_payload \<noteq> 0" by (simp add: recovery_payload_def obj_text_def)
  ultimately have "decodeJSONValue fmt64 recovery_payload = Some (JObj [(''recovery'', JBool True)])"
    by (simp add: decodeJSONValue_def last_wins_def)
  then show ?thesis by (simp add: parse_task_def)
qed

lemma first_messages:
  "BuildMessages (NewContextGuard 4096) p sys [] query w = Some ([chat_msg ''system'' sys, chat_msg ''user'' query], w)"
  by (cases p) (simp_all add: BuildMessages_def SemanticCompact_def guard_split)

lemma load_history_nil: "load_history aenv [] ag = []"
  by (simp add: load_history_def split: option.splits)

text \<open>
  C37. A recovered task does not know what it was to do. Whatever the payload of the original message was, the
  one message that recovery puts on the task's queue makes the sub-agent ask the model, without any history, to
  handle the literal text of the recovery marker; that text is the only user message of the prompt.
\<close>

theorem recovered_task_runs_without_its_text:
  assumes "queue_log env L" "is_range (env_rng env)" "no_db_faults env" "recoverOneTask env st a = (err, a')"
  shows "\<exists>m. L (app_world a') = L (app_world a) @ [(''task.'' @ ts_task_id st, m)] \<and>
    (\<forall>aenv s ag. handle_task aenv s m ag =
      (case run_agent aenv s [] (obj_text [(''recovery'', ''true'')]) ag of
         None \<Rightarrow> None
       | Some ((result, Some e), rs) \<Rightarrow>
           Some (ag\<lparr>as_world := sendResult aenv (su_cfg s) m (runtimeTaskResultStatus (fr_status result) (Some e)) [] (err_msg e) (rs_world rs)\<rparr>)
       | Some ((result, None), rs) \<Rightarrow>
           Some (ag\<lparr>as_world := sendResult aenv (su_cfg s) m TaskStatusSuccess (fr_content result) [] (rs_world rs)\<rparr>))) \<and>
    (\<forall>aenv s ag p. BuildMessages (NewContextGuard 4096) p (agent_prompt (su_cfg s)) (load_history aenv [] ag)
        (obj_text [(''recovery'', ''true'')]) (as_world ag) =
      Some ([chat_msg ''system'' (agent_prompt (su_cfg s)), chat_msg ''user'' (obj_text [(''recovery'', ''true'')])], as_world ag))"
proof -
  from recover_one_log [OF assms(1-3), of st a] assms(4) obtain t where
    t: "L (app_world a') = L (app_world a) @ [(''task.'' @ ts_task_id st, recovery_message st t)]" by auto
  have p: "msg_payload (recovery_message st t) = recovery_payload" by (simp add: recovery_message_def)
  show ?thesis
    by (rule exI [of _ "recovery_message st t"])
      (auto simp: t handle_task_def p recovery_parsed save_exchange_def load_history_nil first_messages recovery_payload_def [symmetric] Let_def
        split: option.splits)
qed

theorem recovered_task_runs_without_its_text_witness:
  "\<exists>m. app_world (snd (recoverOneTask sample_env (sample_task ''t1'' ''running'') sample_app)) = [(''task.t1'', m)] \<and>
    BuildMessages (NewContextGuard 4096) (Some (\<lambda>q w. (Inr ''ok'', w))) (agent_prompt (su_cfg (demo_agent ''ok'')))
        (load_history demo_agent_env [] demo_state) (obj_text [(''recovery'', ''true'')]) (as_world demo_state) =
      Some ([chat_msg ''system'' (agent_prompt (su_cfg (demo_agent ''ok''))), chat_msg ''user'' (obj_text [(''recovery'', ''true'')])],
        as_world demo_state)"
proof -
  have h: "queue_log sample_env (\<lambda>w. w)" "is_range (env_rng sample_env)" "no_db_faults sample_env"
    by (simp_all add: queue_log_def sample_env_def is_range_id no_db_faults_def)
  obtain err a' where r: "recoverOneTask sample_env (sample_task ''t1'' ''running'') sample_app = (err, a')" by force
  from recovered_task_runs_without_its_text [OF h r] obtain m where "app_world a' = [(''task.t1'', m)]"
    and b: "\<forall>(aenv :: ((string \<times> message) list) agent_env) s ag p.
      BuildMessages (NewContextGuard 4096) p (agent_prompt (su_cfg s)) (load_history aenv [] ag)
        (obj_text [(''recovery'', ''true'')]) (as_world ag) =
      Some ([chat_msg ''system'' (agent_prompt (su_cfg (s :: ((string \<times> message) list) subagent))), chat_msg ''user'' (obj_text [(''recovery'', ''true'')])], as_world ag)"
    by (auto simp: sample_app_def sample_task_def)
  moreover note b [rule_format, of "Some (\<lambda>q w. (Inr ''ok'', w))" "demo_agent ''ok''" demo_agent_env demo_state]
  ultimately show ?thesis using r by auto
qed

section \<open>The process of a sub-agent\<close>

lemma spawn_arguments_parsed:
  "agent_ParseConfig gq getenv [''--agent-type'', t, ''--task-id'', i] =
    (if i = [] then Inl (errorf ''task-id is required'')
     else Inr ((agent_defaults getenv)\<lparr>sg_agent_type := t, sg_task_id := i\<rparr>))"
  by (simp add: agent_ParseConfig_def agent_flags_def split_arg_def flag_Set_def)

text \<open>
  C36. The process that the orchestrator starts for a workflow node serves the node: its arguments parse to a configuration
  with the node's id, whose queue it will consume, and the node's agent type. But these are all the
  arguments there are: whatever addresses, database and key the orchestrator itself was started with, the
  sub-agent takes the built-in addresses and the environment's key, and a Redis address other than the built-in one is lost.
\<close>

theorem spawned_agent_serves_its_node:
  assumes "SpawnAgent start agentType nodeID m w = (Inr pid, m', w')" "nodeID \<noteq> []"
    and "ParseAppConfig gq getenv args = Inr cfg"
  shows "\<exists>argv acfg. start (em_binary_path m) argv w = (Inr pid, w') \<and> agent_ParseConfig gq getenv argv = Inr acfg \<and>
    sg_task_id acfg = nodeID \<and> sg_agent_type acfg = agentType \<and>
    sg_redis_addr acfg = ''localhost:16379'' \<and> sg_mqtt_broker acfg = ''tcp://localhost:11883'' \<and>
    sg_sqlite_dsn acfg = ''agentic_core.db'' \<and> sg_llm_api_key acfg = getenv ''LLM_API_KEY'' \<and>
    (ac_redis_addr cfg \<noteq> ''localhost:16379'' \<longrightarrow> sg_redis_addr acfg \<noteq> ac_redis_addr cfg)"
proof -
  have "start (em_binary_path m) [''--agent-type'', agentType, ''--task-id'', nodeID] w = (Inr pid, w')"
    using assms(1) by (auto simp: SpawnAgent_def split: if_splits sum.splits prod.splits)
  then show ?thesis
    using assms(2) spawn_arguments_parsed [of gq getenv agentType nodeID]
    by (intro exI [of _ "[''--agent-type'', agentType, ''--task-id'', nodeID]"]
        exI [of _ "(agent_defaults getenv)\<lparr>sg_agent_type := agentType, sg_task_id := nodeID\<rparr>"])
      (simp add: agent_defaults_def)
qed

theorem spawned_agent_serves_its_node_witness:
  "\<exists>cfg acfg argv. ParseAppConfig (\<lambda>s. s) (\<lambda>_. []) [''-redis-addr=cache:6379'', ''-loop''] = Inr cfg \<and> ac_redis_addr cfg = ''cache:6379'' \<and>
    agent_ParseConfig (\<lambda>s. s) (\<lambda>_. []) argv = Inr acfg \<and> sg_task_id acfg = ''t1'' \<and> sg_redis_addr acfg = ''localhost:16379''"
proof -
  let ?m = "\<lparr>em_binary_path = ''./subagent'', em_tracked = []\<rparr>"
  have s: "SpawnAgent (\<lambda>b argv w. (Inr 7, w)) ''coder'' ''t1'' ?m () = (Inr 7, ?m\<lparr>em_tracked := [7]\<rparr>, ())"
    by (simp add: SpawnAgent_def)
  obtain cfg where c: "ParseAppConfig (\<lambda>s. s) (\<lambda>_. []) [''-redis-addr=cache:6379'', ''-loop''] = Inr cfg" "ac_redis_addr cfg = ''cache:6379''"
    by (simp add: ParseAppConfig_def app_flags_def app_defaults_def split_arg_def flag_Set_def parse_bool_def)
  from spawned_agent_serves_its_node [OF s _ c(1)] c show ?thesis by auto
qed

end
